(* ===== verification/Prelude.thy ===== *)
theory Prelude
  imports Complex_Main "HOL-Library.Word"
begin

unbundle bit_operations_syntax

text \<open>
  Shared vocabulary of the development: the C integer widths as words, a C \<open>float\<close> whose
  operations in this firmware are exact, fixed-size buffers as lists with \<open>memcpy\<close>, and the
  generic lemmas on words, lists and options that the component theories use. Three collections
  carry the automation: \<open>mk1_defs\<close> (constants and thin wrappers to unfold), \<open>bit_simps\<close>
  (bit-level readings of word expressions) and \<open>buf_simps\<close> (buffer slices).
\<close>

named_theorems mk1_defs \<open>thin wrappers and constants of the model\<close>
named_theorems bit_simps \<open>bit readings of word operations\<close>
named_theorems buf_simps \<open>lengths and slices of buffers\<close>

section \<open>Machine integers\<close>

type_synonym u8 = "8 word"
type_synonym u16 = "16 word"
type_synonym u32 = "32 word"

lemma test_bit_and [bit_simps]: "bit ((x :: 'a::len word) AND y) n \<longleftrightarrow> bit x n \<and> bit y n"
  by (simp add: bit_and_iff)

lemma test_bit_or [bit_simps]: "bit ((x :: 'a::len word) OR y) n \<longleftrightarrow> bit x n \<or> bit y n"
  by (simp add: bit_or_iff)

lemma test_bit_xor [bit_simps]: "bit ((x :: 'a::len word) XOR y) n \<longleftrightarrow> bit x n \<noteq> bit y n"
  by (simp add: bit_xor_iff)

lemma test_bit_push [bit_simps]:
  "bit (push_bit k (x :: 'a::len word)) n \<longleftrightarrow> k \<le> n \<and> n < LENGTH('a) \<and> bit x (n - k)"
  by (auto simp: bit_push_bit_iff bit_imp_le_length)

lemma test_bit_drop [bit_simps]: "bit (drop_bit k (x :: 'a::len word)) n \<longleftrightarrow> bit x (k + n)"
  by (simp add: bit_drop_bit_eq)

lemma test_bit_one [bit_simps]: "bit (1 :: 'a::len word) n \<longleftrightarrow> n = 0"
  by (simp add: bit_1_iff)

lemma test_bit_exp [bit_simps]: "bit (2 ^ k :: 'a::len word) n \<longleftrightarrow> n = k \<and> k < LENGTH('a)"
  by (auto simp: bit_exp_iff)

lemma test_bit_double [bit_simps]:
  "bit ((x :: 'a::len word) * 2) n \<longleftrightarrow> 0 < n \<and> n < LENGTH('a) \<and> bit x (n - 1)"
  using bit_double_iff [of x n] by (auto simp: mult.commute)

lemma test_bit_0xFF [bit_simps]: "bit (255 :: int) n \<longleftrightarrow> n < 8"
  using bit_mask_iff [of 8 n, where 'a = int] by (simp add: mask_eq_exp_minus_1)

lemma test_bit_0xFFFF [bit_simps]: "bit (65535 :: int) n \<longleftrightarrow> n < 16"
  using bit_mask_iff [of 16 n, where 'a = int] by (simp add: mask_eq_exp_minus_1)

lemma xor_cancel_right [simp]: "((x :: 'a::len word) XOR k) XOR k = x"
  by (simp add: xor.assoc)

lemma xor_right_inj [simp]: "((x :: 'a::len word) XOR k = y XOR k) \<longleftrightarrow> x = y"
  by (metis xor_cancel_right)

lemma and_one_eq [bit_simps]: "(x :: 'a::len word) AND 1 = (if bit x 0 then 1 else 0)"
  by (rule bit_word_eqI) (auto simp: bit_and_iff bit_1_iff intro: gr0I)

lemma u32_bit_bound: "bit (r :: u32) n \<Longrightarrow> n < 32"
  using bit_imp_le_length [of r n] by simp

lemma u8_eqI: "(\<And>n. n < 8 \<Longrightarrow> bit x n \<longleftrightarrow> bit y n) \<Longrightarrow> x = y" for x y :: u8
  by (rule bit_word_eqI) simp

text \<open>Conversion of an \<open>int\<close> that the code stores into a \<open>uint8_t\<close>: the low eight bits.\<close>

abbreviation to_u8 :: "int \<Rightarrow> u8" where
  "to_u8 \<equiv> word_of_int"

lemma fold_set_bits:
  fixes f :: "nat \<Rightarrow> 'a::len word"
  assumes "\<And>b n. b < k \<Longrightarrow> bit (f b) n \<longleftrightarrow> n = pos b"
  shows "bit (fold (\<lambda>b r. if P b then r OR f b else r) [0..<k] 0) n \<longleftrightarrow> (\<exists>b<k. P b \<and> n = pos b)"
  using assms
proof (induction k)
  case 0
  then show ?case by simp
next
  case (Suc k)
  then show ?case by (auto simp: bit_simps less_Suc_eq)
qed

lemma and_push_one: "(v :: 'a::len word) AND push_bit b 1 \<noteq> 0 \<longleftrightarrow> bit v b"
  by (metis bit_iff_and_push_bit_not_eq_0)

section \<open>C floats\<close>

text \<open>
  The telegram path uses \<open>float\<close> only for comparisons, negation, multiplication and division by
  a power of two and truncation, which IEEE 754 computes exactly for the values that occur: a
  finite float is therefore a rational, beside the two infinities and NaN, whose comparisons
  are all false.
\<close>

datatype c_float = Fin rat | PInf | NInf | NaN

fun f_gt :: "c_float \<Rightarrow> rat \<Rightarrow> bool" where
  "f_gt (Fin x) y = (y < x)"
| "f_gt PInf y = True"
| "f_gt NInf y = False"
| "f_gt NaN y = False"

fun f_lt :: "c_float \<Rightarrow> rat \<Rightarrow> bool" where
  "f_lt (Fin x) y = (x < y)"
| "f_lt PInf y = False"
| "f_lt NInf y = True"
| "f_lt NaN y = False"

text \<open>\<open>(int)x\<close>: C truncates a finite float towards zero.\<close>

definition c_trunc :: "rat \<Rightarrow> int" where
  "c_trunc x = (if 0 \<le> x then \<lfloor>x\<rfloor> else - \<lfloor>- x\<rfloor>)"

lemma c_trunc_of_int [simp]: "c_trunc (of_int i) = i"
  by (simp add: c_trunc_def flip: of_int_minus)

lemma c_trunc_mono: "x \<le> y \<Longrightarrow> c_trunc x \<le> c_trunc y"
  unfolding c_trunc_def by (auto intro: floor_mono order_trans [of _ 0])

section \<open>C integer division and signed overflow\<close>

text \<open>
  C truncates integer division towards zero. Signed overflow and division by zero have no
  defined result: arithmetic that the code does on \<open>int32_t\<close> is computed on \<open>int\<close> and
  checked, \<open>None\<close> standing for the undefined result.
\<close>

definition c_div :: "int \<Rightarrow> int \<Rightarrow> int" where
  "c_div a b = sgn a * sgn b * (\<bar>a\<bar> div \<bar>b\<bar>)"

definition i32 :: "int \<Rightarrow> int option" where
  "i32 x = (if - (2 ^ 31) \<le> x \<and> x < 2 ^ 31 then Some x else None)"

definition i32_div :: "int \<Rightarrow> int \<Rightarrow> int option" where
  "i32_div a b = (if b = 0 then None else i32 (c_div a b))"

lemma i32_Some_iff [simp]: "i32 x = Some y \<longleftrightarrow> y = x \<and> - (2 ^ 31) \<le> x \<and> x < 2 ^ 31"
  by (auto simp: i32_def)

lemma c_div_pos: "0 \<le> a \<Longrightarrow> 0 < b \<Longrightarrow> c_div a b = a div b"
  by (cases "a = 0") (auto simp: c_div_def)

lemma c_div_neg: "a < 0 \<Longrightarrow> 0 < b \<Longrightarrow> c_div a b = - ((- a) div b)"
  by (simp add: c_div_def)

section \<open>Buffers\<close>

text \<open>
  A C array is a list of fixed length. \<open>memcpy_at buf off src\<close> overwrites the cells from
  \<open>off\<close> on; the code's calls stay inside the buffer, and a copy that would not is cut at its end.
\<close>

definition memcpy_at :: "'a list \<Rightarrow> nat \<Rightarrow> 'a list \<Rightarrow> 'a list" where
  "memcpy_at buf off src = take off buf @ take (length buf - off) src @ drop (off + length src) buf"

definition subarray :: "nat \<Rightarrow> nat \<Rightarrow> 'a list \<Rightarrow> 'a list" where
  "subarray off n buf = take n (drop off buf)"

text \<open>Array accesses by a C \<open>int\<close>: \<open>None\<close> out of range.\<close>

definition arr_get :: "'a list \<Rightarrow> int \<Rightarrow> 'a option" where
  "arr_get xs i = (if 0 \<le> i \<and> i < int (length xs) then Some (xs ! nat i) else None)"

definition arr_set :: "'a list \<Rightarrow> int \<Rightarrow> 'a \<Rightarrow> 'a list option" where
  "arr_set xs i x = (if 0 \<le> i \<and> i < int (length xs) then Some (xs[nat i := x]) else None)"

lemma length_memcpy_at [buf_simps, simp]: "length (memcpy_at buf off src) = length buf"
  by (simp add: memcpy_at_def min_def)

lemma memcpy_at_split:
  "length a = off \<Longrightarrow> length m = length src \<Longrightarrow> memcpy_at (a @ m @ z) off src = a @ src @ z"
  by (simp add: memcpy_at_def)

lemma subarray_split: "length a = off \<Longrightarrow> length m = n \<Longrightarrow> subarray off n (a @ m @ z) = m"
  by (simp add: subarray_def)

lemma length_subarray [buf_simps]: "off + n \<le> length buf \<Longrightarrow> length (subarray off n buf) = n"
  by (simp add: subarray_def)

lemma nth_memcpy_at:
  "j < length buf \<Longrightarrow>
   memcpy_at buf off src ! j = (if off \<le> j \<and> j < off + length src then src ! (j - off) else buf ! j)"
  by (auto simp: memcpy_at_def nth_append min_def)

lemma fold_update_memcpy:
  assumes "off + n \<le> length buf"
  shows "fold (\<lambda>i b. b[off + i := g i (b ! (off + i))]) [0..<n] buf =
         memcpy_at buf off (map (\<lambda>i. g i (buf ! (off + i))) [0..<n])"
  using assms
proof (induction n)
  case 0
  then show ?case by (simp add: memcpy_at_def)
next
  case (Suc n)
  let ?b = "memcpy_at buf off (map (\<lambda>i. g i (buf ! (off + i))) [0..<n])"
  have "fold (\<lambda>i b. b[off + i := g i (b ! (off + i))]) [0..<Suc n] buf =
        ?b[off + n := g n (buf ! (off + n))]"
    using Suc by (simp add: nth_memcpy_at)
  also have "\<dots> = memcpy_at buf off (map (\<lambda>i. g i (buf ! (off + i))) [0..<Suc n])"
    by (rule nth_equalityI)
       (use Suc.prems in \<open>auto simp: nth_memcpy_at nth_list_update nth_append less_Suc_eq\<close>)
  finally show ?case .
qed

section \<open>Lists and options\<close>

lemma fold_invariant_prop:
  "(\<And>x s. x \<in> set xs \<Longrightarrow> P s \<Longrightarrow> P (f x s)) \<Longrightarrow> P s \<Longrightarrow> P (fold f xs s)"
  by (induction xs arbitrary: s) auto

lemma list_all_update: "list_all P xs \<Longrightarrow> (i < length xs \<Longrightarrow> P x) \<Longrightarrow> list_all P (xs[i := x])"
  by (cases "i < length xs") (auto simp: list_all_length nth_list_update list_update_beyond)

lemma list_all_nth: "list_all P xs \<Longrightarrow> i < length xs \<Longrightarrow> P (xs ! i)"
  by (simp add: list_all_length)

lemma list6_exhaust:
  assumes "length xs = 6"
  obtains a b c d e f where "xs = [a, b, c, d, e, f]"
  using assms by (auto simp: length_Suc_conv numeral_eq_Suc)

section \<open>Partial operations\<close>

text \<open>\<open>succeeds r P\<close>: the fallible operation returned, and with a result that satisfies \<open>P\<close>.\<close>

definition succeeds :: "'a option \<Rightarrow> ('a \<Rightarrow> bool) \<Rightarrow> bool" where
  "succeeds r P \<longleftrightarrow> (\<exists>t. r = Some t \<and> P t)"

lemma succeeds_simps [simp]:
  "succeeds (Some t) P \<longleftrightarrow> P t"
  "succeeds None P \<longleftrightarrow> False"
  "succeeds (Option.bind m f) P \<longleftrightarrow> succeeds m (\<lambda>x. succeeds (f x) P)"
  by (auto simp: succeeds_def bind_eq_Some_conv)

lemma succeedsD: "succeeds r P \<Longrightarrow> r = Some t \<Longrightarrow> P t"
  by (auto simp: succeeds_def)

lemma succeedsE: "succeeds r P \<Longrightarrow> (\<And>t. r = Some t \<Longrightarrow> P t \<Longrightarrow> R) \<Longrightarrow> R"
  by (auto simp: succeeds_def)

lemma succeeds_mono: "succeeds r P \<Longrightarrow> (\<And>t. P t \<Longrightarrow> Q t) \<Longrightarrow> succeeds r Q"
  by (auto simp: succeeds_def)

lemma succeeds_conj: "succeeds r P \<Longrightarrow> succeeds r Q \<Longrightarrow> succeeds r (\<lambda>t. P t \<and> Q t)"
  by (auto simp: succeeds_def)

end
