(* ===== verification/Mkh_Protocol.thy ===== *)
theory Mkh_Protocol
  imports Prelude
begin

text \<open>
  The Mould King 6.0 telegram encoder, \<^verbatim>\<open>main/mkh_protocol.c\<close>: the raw CONNECT and CONTROL
  telegrams, the channel byte, the CRC-16, the LFSR whitening and the framing transform
  \<open>mkh_protocol_encrypt\<close>, in the order of the file. The lemmas show that whitening is an
  involution, that the CRC step loses no information, and that the over-the-air payload
  can be decoded back to the telegram.
\<close>

section \<open>Constants\<close>

definition kSeed :: "u8 list" where
  "kSeed = [0xC1, 0xC2, 0xC3, 0xC4, 0xC5]"

definition kHeader :: "u8 list" where
  "kHeader = [0x71, 0x0F, 0x55]"

definition kCtxValue1 :: u8 where "kCtxValue1 = 0x3F"

definition kCtxValue2 :: u8 where "kCtxValue2 = 0x25"

definition kTelegramConnect :: "u8 list" where
  "kTelegramConnect = [0x6D, 0x7B, 0xA7, 0x80, 0x80, 0x80, 0x80, 0x92]"

definition kTelegramBase :: "u8 list list" where
  "kTelegramBase =
     [[0x61, 0x7B, 0xA7, 0x80, 0x80, 0x80, 0x80, 0x80, 0x80, 0x9E],
      [0x62, 0x7B, 0xA7, 0x80, 0x80, 0x80, 0x80, 0x80, 0x80, 0x9D],
      [0x63, 0x7B, 0xA7, 0x80, 0x80, 0x80, 0x80, 0x80, 0x80, 0x9C]]"

definition kControlChannelStartOffset :: int where "kControlChannelStartOffset = 3"

definition mkh_mk6_num_devices :: int where "mkh_mk6_num_devices = 3"

definition mkh_mk6_num_channels :: int where "mkh_mk6_num_channels = 6"

lemmas protocol_consts [mk1_defs] =
  kSeed_def kHeader_def kTelegramConnect_def kTelegramBase_def kControlChannelStartOffset_def
  mkh_mk6_num_devices_def mkh_mk6_num_channels_def

section \<open>Raw telegrams\<close>

definition mkh_protocol_connect_telegram :: "u8 list" where
  "mkh_protocol_connect_telegram = kTelegramConnect"

text \<open>\<open>None\<close>: the device index lies outside the table the code copies from.\<close>

definition mkh_protocol_control_telegram_neutral :: "int \<Rightarrow> u8 list option" where
  "mkh_protocol_control_telegram_neutral device_id =
     (if 0 \<le> device_id \<and> device_id < int (length kTelegramBase)
      then Some (kTelegramBase ! nat device_id) else None)"

definition channel_power_byte :: "c_float \<Rightarrow> u8" where
  "channel_power_byte pwr0 =
     (let pwr1 = (if f_gt pwr0 1 then Fin 1 else pwr0);
          pwr2 = (if f_lt pwr1 (-1) then Fin (-1) else pwr1)
      in case pwr2 of
           Fin pwr \<Rightarrow>
             if 0 < pwr then
               let scaled = (if pwr * 0x80 > 0x80 then 0x80 else pwr * 0x80);
                   v = 0x80 + c_trunc scaled
               in if v > 0xFF then 0xFF else to_u8 v
             else if pwr < 0 then
               let scaled = (if - pwr * 0x80 > 0x80 then 0x80 else - pwr * 0x80);
                   v = 0x80 - c_trunc scaled
               in if v < 0 then 0 else to_u8 v
             else 0x80
         | _ \<Rightarrow> 0x80)"

text \<open>\<open>None\<close>: the write would land outside the telegram buffer.\<close>

definition mkh_protocol_set_channel :: "u8 list \<Rightarrow> int \<Rightarrow> c_float \<Rightarrow> u8 list option" where
  "mkh_protocol_set_channel telegram channel pwr =
     (let off = kControlChannelStartOffset + channel
      in if 0 \<le> off \<and> off < int (length telegram)
         then Some (telegram[nat off := channel_power_byte pwr]) else None)"

section \<open>Bit reversal and CRC-16\<close>

definition reverse_bits8 :: "u8 \<Rightarrow> u8" where
  "reverse_bits8 value =
     fold (\<lambda>b result. if value AND push_bit b 1 \<noteq> 0 then result OR push_bit (7 - b) 1 else result)
       [0..<8] 0"

definition reverse_bits16 :: "u16 \<Rightarrow> u16" where
  "reverse_bits16 value =
     fold (\<lambda>b result. if value AND push_bit b 1 \<noteq> 0 then result OR push_bit (15 - b) 1 else result)
       [0..<16] 0"

definition crc_bit :: "u32 \<Rightarrow> u32" where
  "crc_bit result =
     (if result AND 0x8000 \<noteq> 0 then push_bit 1 result XOR 0x1021 else push_bit 1 result) AND 0xFFFF"

definition crc_byte :: "u8 \<Rightarrow> u32 \<Rightarrow> u32" where
  "crc_byte b result = (crc_bit ^^ 8) (result XOR push_bit 8 (ucast b))"

definition crc16 :: "u8 list \<Rightarrow> u8 list \<Rightarrow> u16" where
  "crc16 seed data =
     (let r1 = fold crc_byte (rev seed) 0xFFFF;
          r2 = fold (\<lambda>b. crc_byte (reverse_bits8 b)) data r1
      in reverse_bits16 (ucast r2) XOR 0xFFFF)"

section \<open>LFSR whitening\<close>

text \<open>The seven-byte shift register \<open>ctx[7]\<close>.\<close>

type_synonym whitening_ctx = "u8 \<times> u8 \<times> u8 \<times> u8 \<times> u8 \<times> u8 \<times> u8"

definition whitening_init :: "u8 \<Rightarrow> whitening_ctx" where
  "whitening_init key =
     (1, drop_bit 5 key AND 1, drop_bit 4 key AND 1, drop_bit 3 key AND 1,
      drop_bit 2 key AND 1, drop_bit 1 key AND 1, drop_bit 0 key AND 1)"

fun whitening_step :: "whitening_ctx \<Rightarrow> u8 \<times> whitening_ctx" where
  "whitening_step (c0, c1, c2, c3, c4, c5, c6) = (c6, (c6, c0, c1, c2, c3 XOR c6, c4, c5))"

definition whitening_bit :: "u8 \<Rightarrow> nat \<Rightarrow> u8 \<times> whitening_ctx \<Rightarrow> u8 \<times> whitening_ctx" where
  "whitening_bit b n = (\<lambda>(out, ctx).
     (let (keystream_bit, ctx') = whitening_step ctx
      in (out OR push_bit n (keystream_bit XOR (drop_bit n b AND 1)), ctx')))"

definition whitening_byte :: "u8 \<Rightarrow> whitening_ctx \<Rightarrow> u8 \<times> whitening_ctx" where
  "whitening_byte b ctx = fold (whitening_bit b) [0..<8] (0, ctx)"

definition whitening_encode ::
  "nat \<Rightarrow> nat \<Rightarrow> u8 list \<times> whitening_ctx \<Rightarrow> u8 list \<times> whitening_ctx" where
  "whitening_encode start len =
     fold (\<lambda>i (buf, ctx). let (out, ctx') = whitening_byte (buf ! (start + i)) ctx
                           in (buf[start + i := out], ctx')) [0..<len]"

section \<open>Framing\<close>

text \<open>\<open>None\<close> is the return value 0, where nothing is written to the caller's buffer.\<close>

definition mkh_protocol_encrypt :: "u8 list \<Rightarrow> nat \<Rightarrow> u8 list option" where
  "mkh_protocol_encrypt data out_capacity =
     (let data_len = length data; seed_len = length kSeed; header_len = length kHeader;
          header_offset = 15; seed_offset = header_offset + header_len;
          data_offset = seed_offset + seed_len; checksum_offset = data_offset + data_len;
          result_len = header_len + seed_len + data_len + 2;
          buffer_len = checksum_offset + 2;
          buf0 = replicate 64 0
      in if result_len > out_capacity then None
         else if buffer_len > length buf0 then None
         else
           (let buf1 = memcpy_at buf0 header_offset kHeader;
                buf2 = fold (\<lambda>i b. b[seed_offset + i := kSeed ! (seed_len - 1 - i)])
                         [0..<seed_len] buf1;
                buf3 = fold (\<lambda>i b. b[header_offset + i := reverse_bits8 (b ! (header_offset + i))])
                         [0..<header_len + seed_len] buf2;
                buf4 = memcpy_at buf3 data_offset data;
                crc = crc16 kSeed data;
                buf5 = buf4[checksum_offset := ucast (crc AND 0xFF),
                            checksum_offset + 1 := ucast (drop_bit 8 crc AND 0xFF)];
                buf6 = fst (whitening_encode seed_offset (seed_len + data_len + 2)
                              (buf5, whitening_init kCtxValue1));
                buf7 = fst (whitening_encode 0 buffer_len (buf6, whitening_init kCtxValue2))
            in Some (subarray header_offset result_len buf7)))"

section \<open>Whitening is an XOR with a key stream\<close>

fun ctx_ok :: "whitening_ctx \<Rightarrow> bool" where
  "ctx_ok (c0, c1, c2, c3, c4, c5, c6) \<longleftrightarrow> set [c0, c1, c2, c3, c4, c5, c6] \<subseteq> {0, 1}"

lemma ctx_ok_init: "ctx_ok (whitening_init key)"
  by (simp add: whitening_init_def bit_simps)

definition ctx_next :: "whitening_ctx \<Rightarrow> whitening_ctx" where
  "ctx_next ctx = snd (whitening_step ctx)"

lemma ctx_ok_step: "ctx_ok ctx \<Longrightarrow> ctx_ok (ctx_next ctx) \<and> fst (whitening_step ctx) \<in> {0, 1}"
  by (cases ctx) (auto simp: ctx_next_def)

definition keystream :: "nat \<Rightarrow> whitening_ctx \<Rightarrow> u8" where
  "keystream k ctx = fst (whitening_step ((ctx_next ^^ k) ctx))"

lemma ctx_ok_iter: "ctx_ok ctx \<Longrightarrow> ctx_ok ((ctx_next ^^ k) ctx)"
  by (induction k) (auto dest: ctx_ok_step)

lemma keystream_01: "ctx_ok ctx \<Longrightarrow> keystream k ctx \<in> {0, 1}"
  using ctx_ok_step [OF ctx_ok_iter] by (simp add: keystream_def)

lemma whitening_bits:
  assumes "ctx_ok ctx" "m \<le> 8"
  shows "fold (whitening_bit b) [0..<m] (0, ctx) =
           (fst (fold (whitening_bit b) [0..<m] (0, ctx)), (ctx_next ^^ m) ctx)
       \<and> (\<forall>n. bit (fst (fold (whitening_bit b) [0..<m] (0, ctx))) n \<longleftrightarrow>
              n < m \<and> (bit (keystream n ctx) 0 \<noteq> bit b n))"
  using assms(2)
proof (induction m)
  case 0
  then show ?case by simp
next
  case (Suc m)
  let ?st = "fold (whitening_bit b) [0..<m] (0, ctx)"
  let ?ctx = "(ctx_next ^^ m) ctx"
  from Suc have st: "?st = (fst ?st, ?ctx)"
    and bits: "\<And>n. bit (fst ?st) n \<longleftrightarrow> n < m \<and> (bit (keystream n ctx) 0 \<noteq> bit b n)"
    by simp_all
  have ks: "fst (whitening_step ?ctx) = keystream m ctx" by (simp add: keystream_def)
  have step: "fold (whitening_bit b) [0..<Suc m] (0, ctx) =
      (fst ?st OR push_bit m (keystream m ctx XOR (drop_bit m b AND 1)), ctx_next ?ctx)"
    by (subst upt_Suc_append, simp, subst fold_append, simp, subst st)
       (simp add: whitening_bit_def ks [symmetric] ctx_next_def split: prod.split)
  have k01: "keystream m ctx \<in> {0, 1}" by (rule keystream_01 [OF assms(1)])
  have "bit (fst ?st OR push_bit m (keystream m ctx XOR (drop_bit m b AND 1))) n \<longleftrightarrow>
      n < Suc m \<and> (bit (keystream n ctx) 0 \<noteq> bit b n)" for n
    using k01 Suc.prems by (cases n m rule: linorder_cases) (auto simp: bits bit_simps)
  then show ?case by (simp only: step) simp
qed

lemma snd_whitening_byte: "ctx_ok ctx \<Longrightarrow> snd (whitening_byte b ctx) = (ctx_next ^^ 8) ctx"
  using whitening_bits [of ctx 8 b] by (simp add: whitening_byte_def) (metis snd_conv)

lemma fst_whitening_byte: "ctx_ok ctx \<Longrightarrow> fst (whitening_byte b ctx) = b XOR fst (whitening_byte 0 ctx)"
  using whitening_bits [of ctx 8 b] whitening_bits [of ctx 8 0]
  by (intro u8_eqI) (auto simp add: whitening_byte_def bit_simps)

definition ks_of :: "whitening_ctx \<Rightarrow> u8" where
  "ks_of ctx = fst (whitening_byte 0 ctx)"

lemma whitening_byte_eq: "ctx_ok ctx \<Longrightarrow> whitening_byte b ctx = (b XOR ks_of ctx, (ctx_next ^^ 8) ctx)"
  unfolding ks_of_def by (rule prod_eqI) (simp_all only: fst_whitening_byte [of _ b] snd_whitening_byte fst_conv snd_conv)

definition ks_byte :: "whitening_ctx \<Rightarrow> nat \<Rightarrow> u8" where
  "ks_byte ctx i = ks_of ((ctx_next ^^ (8 * i)) ctx)"

lemma whitening_encode_eq:
  assumes "ctx_ok ctx" "start + len \<le> length buf"
  shows "whitening_encode start len (buf, ctx) =
     (memcpy_at buf start (map (\<lambda>i. buf ! (start + i) XOR ks_byte ctx i) [0..<len]),
      (ctx_next ^^ (8 * len)) ctx)"
  using assms(2)
proof (induction len)
  case 0
  then show ?case by (simp add: whitening_encode_def memcpy_at_def)
next
  case (Suc len)
  let ?m = "\<lambda>l. memcpy_at buf start (map (\<lambda>i. buf ! (start + i) XOR ks_byte ctx i) [0..<l])"
  let ?c = "(ctx_next ^^ (8 * len)) ctx"
  have ok: "ctx_ok ?c" by (rule ctx_ok_iter [OF assms(1)])
  have "whitening_encode start (Suc len) (buf, ctx) =
     (let (out, c') = whitening_byte (?m len ! (start + len)) ?c in ((?m len)[start + len := out], c'))"
    using Suc by (simp add: whitening_encode_def)
  also have "\<dots> = ((?m len)[start + len := buf ! (start + len) XOR ks_byte ctx len], (ctx_next ^^ 8) ?c)"
    using Suc.prems by (simp add: nth_memcpy_at ks_byte_def whitening_byte_eq [OF ok])
  also have "(?m len)[start + len := buf ! (start + len) XOR ks_byte ctx len] = ?m (Suc len)"
    by (rule nth_equalityI)
       (use Suc.prems in \<open>auto simp: nth_memcpy_at nth_list_update nth_append less_Suc_eq\<close>)
  also have "(ctx_next ^^ 8) ?c = (ctx_next ^^ (8 * Suc len)) ctx"
    by (simp only: mult_Suc_right funpow_add o_apply)
  finally show ?case .
qed

section \<open>The framed telegram and the receiver\<close>

text \<open>
  \<open>frame\<close> is the plain content of the payload: header and seed with reversed bits, the
  telegram, the CRC low byte first. \<open>hub_decode\<close> is the abstract receiver: it removes the two
  key streams (the outer one with the phase offset of 15 bytes) and accepts the payload exactly
  if what remains is the frame of the telegram inside it.
\<close>

definition frame_prefix :: "u8 list" where
  "frame_prefix = map reverse_bits8 (kHeader @ rev kSeed)"

definition frame :: "u8 list \<Rightarrow> u8 list" where
  "frame data = frame_prefix @ data @
     [ucast (crc16 kSeed data AND 0xFF), ucast (drop_bit 8 (crc16 kSeed data) AND 0xFF)]"

definition hub_mask :: "nat \<Rightarrow> u8" where
  "hub_mask j = (if 3 \<le> j then ks_byte (whitening_init kCtxValue1) (j - 3) else 0)
                XOR ks_byte (whitening_init kCtxValue2) (15 + j)"

definition unmask :: "u8 list \<Rightarrow> u8 list" where
  "unmask p = map (\<lambda>j. p ! j XOR hub_mask j) [0..<length p]"

definition hub_decode :: "u8 list \<Rightarrow> u8 list option" where
  "hub_decode payload =
     (let f = unmask payload; data = subarray 8 (length payload - 10) f
      in if 10 \<le> length payload \<and> f = frame data then Some data else None)"

lemma unmask_unmask [simp]: "unmask (unmask p) = p"
  by (rule nth_equalityI) (auto simp: unmask_def)

lemma length_frame_prefix [simp]: "length frame_prefix = 8"
  by (simp add: frame_prefix_def protocol_consts)

lemma length_frame [simp]: "length (frame data) = length data + 10"
  by (simp add: frame_def)

lemma data_of_frame: "subarray 8 (length data) (frame data) = data"
  unfolding frame_def by (rule subarray_split) simp_all

lemma frame_inj [simp]: "frame d1 = frame d2 \<longleftrightarrow> d1 = d2"
  by (metis add_right_cancel data_of_frame length_frame)

lemma replicate_frame:
  "n \<le> 39 \<Longrightarrow> replicate 64 x = replicate 15 x @ replicate 3 x @ replicate 5 x @ replicate n x @ [x, x] @ replicate (39 - n) x"
  by (simp flip: replicate_add replicate_Suc)

lemma staged_frame:
  assumes n: "length data \<le> 39"
  defines "b1 \<equiv> memcpy_at (replicate 64 0) 15 kHeader"
  defines "b2 \<equiv> fold (\<lambda>i b. b[18 + i := kSeed ! (length kSeed - 1 - i)]) [0..<length kSeed] b1"
  defines "b3 \<equiv> fold (\<lambda>i b. b[15 + i := reverse_bits8 (b ! (15 + i))]) [0..<8] b2"
  defines "b4 \<equiv> memcpy_at b3 23 data"
  shows "b4[23 + length data := lo, 23 + length data + 1 := hi] =
     replicate 15 0 @ (frame_prefix @ data @ [lo, hi]) @ replicate (39 - length data) 0"
proof -
  have b1: "b1 = replicate 15 0 @ kHeader @ replicate 46 0"
    unfolding b1_def using memcpy_at_split [of "replicate 15 (0::u8)" 15 "replicate 3 0" kHeader "replicate 46 0"]
    by (simp add: protocol_consts flip: replicate_add replicate_Suc)
  have len1: "length b1 = 64" by (simp add: b1_def)
  have b2: "b2 = memcpy_at b1 18 (rev kSeed)"
    unfolding b2_def using fold_update_memcpy [of 18 5 b1 "\<lambda>i _. kSeed ! (4 - i)"] len1
    by (simp add: protocol_consts upt_rec)
  also have "\<dots> = replicate 15 0 @ kHeader @ rev kSeed @ replicate 41 0"
    using memcpy_at_split [of "replicate 15 0 @ kHeader" 18 "replicate 5 0" "rev kSeed" "replicate 41 0"]
    by (simp add: b1 protocol_consts flip: replicate_add replicate_Suc)
  finally have b2': "b2 = replicate 15 0 @ (kHeader @ rev kSeed) @ replicate 41 0" by simp
  have len2: "length b2 = 64" by (simp add: b2 len1)
  have "map (\<lambda>i. reverse_bits8 (b2 ! (15 + i))) [0..<8] = frame_prefix"
    by (rule nth_equalityI)
       (auto simp: b2' frame_prefix_def nth_append protocol_consts less_Suc_eq eval_nat_numeral)
  then have b3: "b3 = memcpy_at b2 15 frame_prefix"
    unfolding b3_def using fold_update_memcpy [of 15 8 b2 "\<lambda>_. reverse_bits8"] len2 by simp
  also have "\<dots> = replicate 15 0 @ frame_prefix @ replicate 41 0"
    unfolding b2' by (rule memcpy_at_split) (simp_all add: protocol_consts)
  finally have b3': "b3 = (replicate 15 0 @ frame_prefix) @ replicate (length data) 0 @ (0 # 0 # replicate (39 - length data) 0)"
    using n by (simp flip: replicate_add replicate_Suc)
  have b4: "b4 = (replicate 15 0 @ frame_prefix @ data) @ 0 # 0 # replicate (39 - length data) 0"
    unfolding b4_def b3' by (subst memcpy_at_split) simp_all
  show ?thesis unfolding b4 by (simp add: list_update_append)
qed

lemma mkh_protocol_encrypt_eq:
  "mkh_protocol_encrypt data cap =
     (if length data + 10 \<le> cap \<and> length data \<le> 39 then Some (unmask (frame data)) else None)"
proof (cases "length data + 10 \<le> cap \<and> length data \<le> 39")
  case False
  then show ?thesis by (auto simp: mkh_protocol_encrypt_def Let_def protocol_consts)
next
  case True
  define n where "n = length data"
  let ?lo = "ucast (crc16 kSeed data AND 0xFF) :: u8"
  let ?hi = "ucast (drop_bit 8 (crc16 kSeed data) AND 0xFF) :: u8"
  let ?b5 = "replicate 15 0 @ frame data @ replicate (39 - n) (0::u8)"
  let ?c1 = "whitening_init kCtxValue1" and ?c2 = "whitening_init kCtxValue2"
  let ?b6 = "fst (whitening_encode 18 (n + 7) (?b5, ?c1))"
  let ?b7 = "fst (whitening_encode 0 (n + 25) (?b6, ?c2))"
  have len5: "length ?b5 = 64" using True by (simp add: n_def)
  have lens: "length kHeader = 3" "length kSeed = 5" by (simp_all add: protocol_consts)
  have "mkh_protocol_encrypt data cap = Some (subarray 15 (n + 10) ?b7)"
    using True staged_frame [of data ?lo ?hi, unfolded lens]
    by (simp add: mkh_protocol_encrypt_def Let_def lens n_def frame_def add.commute numeral_eq_Suc)
  also have "subarray 15 (n + 10) ?b7 = unmask (frame data)"
  proof (rule nth_equalityI)
    show "length (subarray 15 (n + 10) ?b7) = length (unmask (frame data))"
      using True len5 by (simp add: whitening_encode_eq ctx_ok_init subarray_def unmask_def n_def)
  next
    fix j assume "j < length (subarray 15 (n + 10) ?b7)"
    then have j: "j < n + 10" by (simp add: subarray_def)
    then show "subarray 15 (n + 10) ?b7 ! j = unmask (frame data) ! j"
      using True len5
      by (auto simp: whitening_encode_eq ctx_ok_init subarray_def unmask_def n_def nth_memcpy_at
          hub_mask_def nth_append xor.assoc)
  qed
  finally show ?thesis using True by simp
qed

section \<open>The CRC step is injective\<close>

lemma bit_reverse_bits8 [bit_simps]: "bit (reverse_bits8 v) n \<longleftrightarrow> n < 8 \<and> bit v (7 - n)"
proof -
  have "bit (reverse_bits8 v) n \<longleftrightarrow> (\<exists>b<8. bit v b \<and> n = 7 - b)"
    unfolding reverse_bits8_def and_push_one by (rule fold_set_bits) (auto simp: bit_simps)
  also have "\<dots> \<longleftrightarrow> n < 8 \<and> bit v (7 - n)"
    by (auto intro: exI [of _ "7 - n"])
  finally show ?thesis .
qed

lemma bit_reverse_bits16 [bit_simps]: "bit (reverse_bits16 v) n \<longleftrightarrow> n < 16 \<and> bit v (15 - n)"
proof -
  have "bit (reverse_bits16 v) n \<longleftrightarrow> (\<exists>b<16. bit v b \<and> n = 15 - b)"
    unfolding reverse_bits16_def and_push_one by (rule fold_set_bits) (auto simp: bit_simps)
  also have "\<dots> \<longleftrightarrow> n < 16 \<and> bit v (15 - n)"
    by (auto intro: exI [of _ "15 - n"])
  finally show ?thesis .
qed

lemma reverse_bits8_involution [simp]: "reverse_bits8 (reverse_bits8 v) = v"
  by (rule u8_eqI) (auto simp: bit_simps)

lemma reverse_bits16_involution [simp]: "reverse_bits16 (reverse_bits16 v) = v"
  by (rule bit_word_eqI) (auto simp: bit_simps)

definition lo16 :: "u32 \<Rightarrow> bool" where
  "lo16 r \<longleftrightarrow> r AND 0xFFFF = r"

lemma lo16_iff: "lo16 r \<longleftrightarrow> (\<forall>n. bit r n \<longrightarrow> n < 16)"
  by (auto simp: lo16_def bit_eq_iff bit_simps) (use u32_bit_bound in blast)

lemma lo16_crc_bit: "lo16 (crc_bit r)"
  by (simp add: lo16_iff crc_bit_def bit_simps)

lemma msb_test: "(r :: u32) AND 0x8000 \<noteq> 0 \<longleftrightarrow> bit r 15"
  using and_push_one [of r 15] by simp

lemma bit_crc_bit:
  "bit (crc_bit r) n \<longleftrightarrow> n < 16 \<and> ((0 < n \<and> bit r (n - 1)) \<noteq> (bit r 15 \<and> bit (0x1021 :: int) n))"
  unfolding crc_bit_def msb_test by (auto simp: bit_simps)

lemma crc_bit_inj: "lo16 r \<Longrightarrow> lo16 s \<Longrightarrow> crc_bit r = crc_bit s \<Longrightarrow> r = s"
proof -
  assume r: "lo16 r" and s: "lo16 s" and eq: "crc_bit r = crc_bit s"
  have bits: "bit (crc_bit r) n \<longleftrightarrow> bit (crc_bit s) n" for n by (simp add: eq)
  have top: "bit r 15 \<longleftrightarrow> bit s 15" using bits [of 0] by (simp add: bit_crc_bit)
  show "r = s"
  proof (rule bit_word_eqI)
    fix n assume "n < LENGTH(32)"
    show "bit r n \<longleftrightarrow> bit s n"
    proof (cases "n < 15")
      case True
      then show ?thesis using bits [of "Suc n"] top by (auto simp: bit_crc_bit)
    next
      case False
      then show ?thesis using r s top by (cases "n = 15") (auto simp: lo16_iff)
    qed
  qed
qed

lemma lo16_crc_bits: "lo16 r \<Longrightarrow> lo16 ((crc_bit ^^ k) r)"
  by (cases k) (simp_all add: lo16_crc_bit)

lemma crc_bits_inj: "lo16 r \<Longrightarrow> lo16 s \<Longrightarrow> (crc_bit ^^ k) r = (crc_bit ^^ k) s \<Longrightarrow> r = s"
  by (induction k) (auto dest: crc_bit_inj [rotated 2] intro: lo16_crc_bits)

lemma lo16_xor_byte: "lo16 r \<Longrightarrow> lo16 (r XOR push_bit 8 (ucast (b :: u8)))"
  by (auto simp: lo16_iff bit_simps bit_ucast_iff dest: bit_imp_le_length)

lemma lo16_crc_byte: "lo16 r \<Longrightarrow> lo16 (crc_byte b r)"
  by (simp add: crc_byte_def lo16_crc_bits lo16_xor_byte)

lemma crc_byte_inj_state: "lo16 r \<Longrightarrow> lo16 s \<Longrightarrow> crc_byte b r = crc_byte b s \<Longrightarrow> r = s"
  unfolding crc_byte_def by (drule crc_bits_inj [rotated 2]) (simp_all add: lo16_xor_byte)

lemma crc_byte_inj_byte: "lo16 r \<Longrightarrow> crc_byte a r = crc_byte b r \<Longrightarrow> a = b"
proof -
  assume r: "lo16 r" and "crc_byte a r = crc_byte b r"
  then have eq: "r XOR push_bit 8 (ucast a) = r XOR push_bit 8 (ucast b)"
    unfolding crc_byte_def by (drule_tac crc_bits_inj [rotated 2]) (simp_all add: lo16_xor_byte)
  show "a = b"
  proof (rule u8_eqI)
    fix n :: nat assume "n < 8"
    then show "bit a n \<longleftrightarrow> bit b n"
      using arg_cong [OF eq, of "\<lambda>w. bit w (n + 8)"] by (auto simp: bit_simps bit_ucast_iff)
  qed
qed

lemma lo16_fold: "lo16 r \<Longrightarrow> lo16 (fold (\<lambda>b. crc_byte (g b)) xs r)"
  by (induction xs arbitrary: r) (simp_all add: lo16_crc_byte)

lemma crc_fold_inj:
  "lo16 r \<Longrightarrow> lo16 s \<Longrightarrow> fold (\<lambda>b. crc_byte (g b)) xs r = fold (\<lambda>b. crc_byte (g b)) xs s \<Longrightarrow> r = s"
  by (induction xs arbitrary: r s) (auto dest: crc_byte_inj_state [rotated 2] intro: lo16_crc_byte)

lemma ucast_lo16_inj: "lo16 r \<Longrightarrow> lo16 s \<Longrightarrow> (ucast r :: u16) = ucast s \<Longrightarrow> r = s"
proof -
  assume r: "lo16 r" and s: "lo16 s" and eq: "(ucast r :: u16) = ucast s"
  show "r = s"
  proof (rule bit_word_eqI)
    fix n assume "n < LENGTH(32)"
    show "bit r n \<longleftrightarrow> bit s n"
      using arg_cong [OF eq, of "\<lambda>w. bit w n"] r s by (cases "n < 16") (auto simp: bit_ucast_iff lo16_iff)
  qed
qed

text \<open>A payload corrupted in one byte has another CRC.\<close>

lemma crc16_one_byte:
  assumes "a \<noteq> b"
  shows "crc16 seed (xs @ a # ys) \<noteq> crc16 seed (xs @ b # ys)"
proof
  let ?F = "fold (\<lambda>b. crc_byte (reverse_bits8 b))"
  let ?r = "fold crc_byte (rev seed) 0xFFFF"
  have "lo16 0xFFFF" by (simp add: lo16_iff bit_simps)
  then have r: "lo16 ?r" using lo16_fold [of _ "\<lambda>b. b"] by simp
  let ?q = "?F xs ?r"
  have q: "lo16 ?q" by (rule lo16_fold [OF r])
  assume "crc16 seed (xs @ a # ys) = crc16 seed (xs @ b # ys)"
  then have "(ucast (?F (xs @ a # ys) ?r) :: u16) = ucast (?F (xs @ b # ys) ?r)"
    unfolding crc16_def Let_def by (metis reverse_bits16_involution xor_right_inj)
  then have "?F (xs @ a # ys) ?r = ?F (xs @ b # ys) ?r"
    by (rule ucast_lo16_inj [OF lo16_fold lo16_fold, OF r r])
  then have "?F ys (crc_byte (reverse_bits8 a) ?q) = ?F ys (crc_byte (reverse_bits8 b) ?q)" by simp
  then have "crc_byte (reverse_bits8 a) ?q = crc_byte (reverse_bits8 b) ?q"
    by (rule crc_fold_inj [OF lo16_crc_byte lo16_crc_byte, OF q q])
  then have "reverse_bits8 a = reverse_bits8 b" by (rule crc_byte_inj_byte [OF q])
  with assms show False by (metis reverse_bits8_involution)
qed

lemma crc_bytes_inj:
  fixes c d :: u16
  assumes "(ucast (c AND 0xFF) :: u8) = ucast (d AND 0xFF)"
    and "(ucast (drop_bit 8 c AND 0xFF) :: u8) = ucast (drop_bit 8 d AND 0xFF)"
  shows "c = d"
proof (rule bit_word_eqI)
  fix n assume n: "n < LENGTH(16)"
  show "bit c n \<longleftrightarrow> bit d n"
  proof (cases "n < 8")
    case True
    then show ?thesis
      using arg_cong [OF assms(1), of "\<lambda>w. bit w n"] by (simp add: bit_ucast_iff bit_simps)
  next
    case False
    then have "n - 8 < 8" using n by simp
    then show ?thesis using n False
      arg_cong [OF assms(2), of "\<lambda>w. bit w (n - 8)"] by (simp add: bit_ucast_iff bit_simps)
  qed
qed

lemma length_unmask [simp]: "length (unmask p) = length p"
  by (simp add: unmask_def)

lemma frame_one_byte:
  assumes "i < length (frame data)" "y \<noteq> frame data ! i"
  shows "(frame data)[i := y] \<noteq> frame d"
proof
  let ?c = "\<lambda>d. [ucast (crc16 kSeed d AND 0xFF), ucast (drop_bit 8 (crc16 kSeed d) AND 0xFF)] :: u8 list"
  assume eq: "(frame data)[i := y] = frame d"
  then have len: "length d = length data" by (metis add_right_cancel length_frame length_list_update)
  have nth: "frame d ! j = (if j = i then y else frame data ! j)" if "j < length data + 10" for j
    using that by (simp flip: eq)
  have pre: "frame e ! j = frame_prefix ! j" if "j < 8" for e j using that by (simp add: frame_def nth_append)
  have i8: "8 \<le> i" using nth [of i] pre [of i] assms by (metis length_frame not_le)
  have dat: "frame e ! (8 + j) = e ! j" if "j < length e" for e j
    using that by (simp add: frame_def nth_append)
  have crc: "frame e ! (8 + length e) = ?c e ! 0" "frame e ! (8 + length e + 1) = ?c e ! 1" for e
    by (simp_all add: frame_def nth_append)
  show False
  proof (cases "i < 8 + length data")
    case True
    with i8 obtain k where k: "i = 8 + k" "k < length data" by (metis le_Suc_ex nat_add_left_cancel_less)
    have "d = data[k := y]"
    proof (rule nth_equalityI)
      fix j assume "j < length d"
      then show "d ! j = data[k := y] ! j"
        using dat [of j d] dat [of j data] nth [of "8 + j"] len k by (auto simp: nth_list_update split: if_splits)
    qed (simp add: len)
    moreover have "y \<noteq> data ! k" using assms(2) dat [of k data] k by simp
    moreover have "data = take k data @ data ! k # drop (Suc k) data" using k(2) by (rule id_take_nth_drop)
    moreover have "data[k := y] = take k data @ y # drop (Suc k) data" using k(2) by (rule upd_conv_take_nth_drop)
    ultimately have "crc16 kSeed d \<noteq> crc16 kSeed data" by (metis crc16_one_byte)
    moreover have "?c d ! 0 = ?c data ! 0" "?c d ! 1 = ?c data ! 1"
      using crc [of d] crc [of data] nth [of "8 + length data"] nth [of "8 + length data + 1"] len k by simp_all
    ultimately show False using crc_bytes_inj [of "crc16 kSeed d" "crc16 kSeed data"] by simp
  next
    case False
    have "d = data"
      by (rule nth_equalityI) (use len False dat [of _ d] dat [of _ data] nth in \<open>auto\<close>)
    then show False using nth [of i] assms by simp
  qed
qed

lemma unmask_update: "i < length p \<Longrightarrow> unmask (p[i := x]) = (unmask p)[i := x XOR hub_mask i]"
  by (rule nth_equalityI) (auto simp: unmask_def nth_list_update)

lemma hub_decode_frame: "hub_decode (unmask (frame data)) = Some data"
  using data_of_frame [of data] by (simp add: hub_decode_def Let_def)

lemma hub_decode_SomeD: "hub_decode p = Some d \<Longrightarrow> p = unmask (frame d)"
  by (auto simp: hub_decode_def Let_def split: if_splits) (metis unmask_unmask)

lemma hub_decode_one_byte:
  assumes "hub_decode p = Some d" "i < length p" "x \<noteq> p ! i"
  shows "hub_decode (p[i := x]) = None"
proof (rule ccontr)
  assume "hub_decode (p[i := x]) \<noteq> None"
  then obtain e where "hub_decode (p[i := x]) = Some e" by auto
  then have "unmask (p[i := x]) = frame e" by (metis hub_decode_SomeD unmask_unmask)
  moreover have "unmask p = frame d" using assms(1) by (metis hub_decode_SomeD unmask_unmask)
  moreover have "x XOR hub_mask i \<noteq> unmask p ! i" using assms by (simp add: unmask_def)
  moreover have "length p = length (frame d)" using calculation(2) by (metis length_unmask)
  ultimately show False
    using assms(2) frame_one_byte [of i d "x XOR hub_mask i" e] by (simp add: unmask_update)
qed

section \<open>The channel byte\<close>

definition clamp_power :: "rat \<Rightarrow> rat" where
  "clamp_power p = max (-1) (min 1 p)"

lemma trunc_clamp_range:
  "-128 \<le> c_trunc (clamp_power p * 128)" "c_trunc (clamp_power p * 128) \<le> 128"
proof -
  have "c_trunc (of_int (-128)) \<le> c_trunc (clamp_power p * 128)"
    by (rule c_trunc_mono) (simp add: clamp_power_def max_def)
  then show "-128 \<le> c_trunc (clamp_power p * 128)" by (simp only: c_trunc_of_int)
  have "c_trunc (clamp_power p * 128) \<le> c_trunc (of_int 128)"
    by (rule c_trunc_mono) (simp add: clamp_power_def max_def min_def)
  then show "c_trunc (clamp_power p * 128) \<le> 128" by (simp only: c_trunc_of_int)
qed

lemma c_trunc_minus: "c_trunc (- x) = - c_trunc x"
  by (auto simp: c_trunc_def)

lemma channel_power_byte_eq:
  "channel_power_byte (Fin p) = to_u8 (min 255 (128 + c_trunc (clamp_power p * 128)))"
proof -
  let ?q = "clamp_power p"
  have q: "(case (let p1 = (if f_gt (Fin p) 1 then Fin 1 else Fin p) in if f_lt p1 (-1) then Fin (-1) else p1)
        of Fin x \<Rightarrow> x | _ \<Rightarrow> 0) = ?q" by (auto simp: clamp_power_def max_def min_def)
  have step: "channel_power_byte (Fin p) =
     (if 0 < ?q then let v = 0x80 + c_trunc (if ?q * 0x80 > 0x80 then 0x80 else ?q * 0x80)
                     in if v > 0xFF then 0xFF else to_u8 v
      else if ?q < 0 then let v = 0x80 - c_trunc (if - ?q * 0x80 > 0x80 then 0x80 else - ?q * 0x80)
                     in if v < 0 then 0 else to_u8 v
      else 0x80)"
    by (auto simp: channel_power_byte_def clamp_power_def max_def min_def Let_def)
  have le: "\<not> 0x80 < ?q * 0x80" "\<not> 0x80 < - ?q * 0x80" by (auto simp: clamp_power_def max_def min_def)
  have neg: "c_trunc (- ?q * 0x80) = - c_trunc (?q * 0x80)" using c_trunc_minus [of "?q * 0x80"] by simp
  define t where "t = c_trunc (?q * 0x80)"
  have t: "-128 \<le> t" "t \<le> 128" using trunc_clamp_range [of p] by (simp_all add: t_def)
  have neg': "?q < 0 \<Longrightarrow> t \<le> 0" using c_trunc_mono [of "?q * 0x80" 0] by (simp add: t_def c_trunc_def)
  have zero: "?q = 0 \<Longrightarrow> t = 0" by (simp add: t_def c_trunc_def)
  show ?thesis
    using t neg' zero unfolding step if_not_P [OF le(1)] if_not_P [OF le(2)] neg t_def [symmetric]
    by (cases "?q" "0 :: rat" rule: linorder_cases) (auto simp: Let_def min_def)
qed

lemma uint_channel_power_byte:
  "uint (channel_power_byte (Fin p)) = min 255 (128 + c_trunc (clamp_power p * 128))"
  using trunc_clamp_range [of p] by (simp add: channel_power_byte_eq uint_word_of_int take_bit_eq_mod)

lemma clamp_power_staged: "-128 \<le> k \<Longrightarrow> k \<le> 127 \<Longrightarrow> clamp_power (of_int k / 128) * 128 = of_int k"
  by (simp add: clamp_power_def max_def min_def field_simps)

lemma staged_byte_eq: "channel_power_byte (Fin ((of_int (uint v) - 128) / 128)) = v"
proof -
  have k: "-128 \<le> uint v - 128" "uint v - 128 \<le> 127" using uint_ge_0 [of v] uint_bounded [of v] by simp_all
  have "uint (channel_power_byte (Fin (of_int (uint v - 128) / 128))) = min 255 (128 + (uint v - 128))"
    by (simp only: uint_channel_power_byte clamp_power_staged [OF k] c_trunc_of_int)
  also have "\<dots> = uint v" using k by simp
  finally show ?thesis by (simp only: of_int_diff of_int_numeral word_uint_eq_iff)
qed

text \<open>C28: The byte staged for a channel is the byte on the wire: for every raw channel value \<open>v\<close>,
  the power \<open>((float)v - 128) / 128\<close> that the broadcaster passes encodes to \<open>v\<close> again.\<close>

theorem staged_byte_exact: "channel_power_byte (Fin ((of_int (uint v) - 128) / 128)) = v"
  by (rule staged_byte_eq)

text \<open>More power never gives a smaller channel byte, over all finite powers, clamped or not.\<close>

theorem channel_power_byte_mono:
  assumes "p \<le> q"
  shows "channel_power_byte (Fin p) \<le> channel_power_byte (Fin q)"
proof -
  have "clamp_power p * 128 \<le> clamp_power q * 128" using assms by (auto simp: clamp_power_def max_def min_def)
  then have "c_trunc (clamp_power p * 128) \<le> c_trunc (clamp_power q * 128)" by (rule c_trunc_mono)
  then show ?thesis by (simp add: word_le_def uint_channel_power_byte min_def)
qed

theorem channel_power_byte_mono_witness:
  "channel_power_byte (Fin (- 2)) \<le> channel_power_byte (Fin (1 / 2))"
  by (rule channel_power_byte_mono) simp

lemma c_trunc_eq_0_iff: "c_trunc x = 0 \<longleftrightarrow> \<bar>x\<bar> < 1"
  by (auto simp: c_trunc_def floor_eq_iff abs_if)

text \<open>A channel is commanded to stop (0x80) exactly when the power is below one step, 1/128, in
  magnitude.\<close>

theorem channel_power_byte_stop_iff:
  "channel_power_byte (Fin p) = 0x80 \<longleftrightarrow> \<bar>p\<bar> < 1 / 128"
proof -
  have "channel_power_byte (Fin p) = 0x80 \<longleftrightarrow> uint (channel_power_byte (Fin p)) = 128"
    by (simp add: word_uint_eq_iff)
  also have "\<dots> \<longleftrightarrow> c_trunc (clamp_power p * 128) = 0" by (auto simp: uint_channel_power_byte min_def)
  also have "\<dots> \<longleftrightarrow> \<bar>p\<bar> < 1 / 128"
    by (auto simp: c_trunc_eq_0_iff clamp_power_def max_def min_def abs_if field_simps split: if_splits)
  finally show ?thesis .
qed

section \<open>Properties of the encoder\<close>

text \<open>C1: A telegram that fits is encrypted into a payload ten bytes longer, and the receiver decodes
  that payload to exactly the telegram: whitening, seed, header and CRC lose nothing.\<close>

theorem encrypt_roundtrip:
  assumes "length data \<le> 39" "length data + 10 \<le> cap"
  shows "\<exists>p. mkh_protocol_encrypt data cap = Some p \<and> length p = length data + 10 \<and>
             hub_decode p = Some data"
  using assms by (simp add: mkh_protocol_encrypt_eq hub_decode_frame)

theorem encrypt_roundtrip_witness:
  "\<exists>p. mkh_protocol_encrypt mkh_protocol_connect_telegram 18 = Some p \<and> length p = 18 \<and>
       hub_decode p = Some mkh_protocol_connect_telegram"
  using encrypt_roundtrip [of mkh_protocol_connect_telegram 18]
  by (simp add: mkh_protocol_connect_telegram_def kTelegramConnect_def)

text \<open>The encoder returns 0 exactly when the caller's buffer is smaller than the payload or the
  telegram does not fit the 64-byte staging buffer.\<close>

theorem encrypt_error_iff:
  "mkh_protocol_encrypt data cap = None \<longleftrightarrow> cap < length data + 10 \<or> 64 < 23 + length data + 2"
  by (auto simp: mkh_protocol_encrypt_eq)

text \<open>C2: A payload corrupted in any one byte on air, whatever the new value, is not accepted by the
  receiver: header, seed, data and CRC bytes are all covered.\<close>

theorem hub_rejects_corrupt_byte:
  assumes "mkh_protocol_encrypt data cap = Some p" "i < length p" "x \<noteq> p ! i"
  shows "hub_decode (p[i := x]) = None"
proof -
  have "hub_decode p = Some data"
    using assms(1) by (auto simp: mkh_protocol_encrypt_eq hub_decode_frame split: if_splits)
  then show ?thesis using assms(2,3) by (rule hub_decode_one_byte)
qed

theorem hub_rejects_corrupt_byte_witness:
  "\<exists>p. mkh_protocol_encrypt kTelegramConnect 18 = Some p \<and> hub_decode (p[8 := p ! 8 + 1]) = None"
proof -
  obtain p where p: "mkh_protocol_encrypt kTelegramConnect 18 = Some p" "length p = 18"
    by (simp add: mkh_protocol_encrypt_eq kTelegramConnect_def)
  have "hub_decode (p[8 := p ! 8 + 1]) = None"
    by (rule hub_rejects_corrupt_byte [OF p(1)]) (simp_all add: p(2))
  with p(1) show ?thesis by blast
qed

end
