(* ===== verification/Mkh_Broadcast.thy ===== *)
theory Mkh_Broadcast
  imports Mkh_Protocol "HOL-Library.Monad_Syntax"
begin

text \<open>
  The broadcaster, \<^verbatim>\<open>main/mkh_broadcast.c\<close>: the channel table, the event-driven send, the
  round-robin CONTROL timer, the hub toggles and the HCI packet handler, in the order of the
  file. Every file-scope variable is a field of \<open>bc_state\<close>; the run loop (one timer, the queue
  of callbacks to run on the main thread) and the GAP calls made are fields too. A function
  returns \<open>None\<close> where an index would leave its array; the theory that follows shows that no
  reachable state gets there. Log lines are left out, apart from the telegram log and its
  last-logged bookkeeping and the GAP errors that are reported.
\<close>

section \<open>Constants and state\<close>

definition mkh_adv_interval_units :: nat where "mkh_adv_interval_units = 40"

definition mkh_adv_type_nonconn_ind :: nat where "mkh_adv_type_nonconn_ind = 3"

definition mkh_company_id_lo :: u8 where "mkh_company_id_lo = 0xF0"

definition mkh_company_id_hi :: u8 where "mkh_company_id_hi = 0xFF"

definition mkh_connect_phase_ms :: nat where "mkh_connect_phase_ms = 600"

definition mkh_control_repeat_ms :: nat where "mkh_control_repeat_ms = 100"

definition mkh_time_slice_num_devices :: int where "mkh_time_slice_num_devices = 2"

definition mkh_off_grace_services :: int where "mkh_off_grace_services = 3"

definition mkh_event_send_min_interval_us :: int where "mkh_event_send_min_interval_us = 25000"

definition mkh_neutral_channels :: "u8 list" where
  "mkh_neutral_channels = [0x80, 0x80, 0x80, 0x80, 0x80, 0x80]"

definition mkh_payload_control_len :: nat where "mkh_payload_control_len = 20"

definition mkh_payload_connect_len :: nat where "mkh_payload_connect_len = 18"

definition mkh_adv_buf_len :: nat where "mkh_adv_buf_len = 3 + 4 + mkh_payload_control_len"

lemmas broadcast_consts [mk1_defs] =
  mkh_time_slice_num_devices_def mkh_off_grace_services_def
  mkh_payload_control_len_def mkh_payload_connect_len_def mkh_adv_buf_len_def

text \<open>The GAP entry points of the Bluetooth stack that the broadcaster calls, with their arguments.\<close>

datatype gap_call =
    Gap_set_params nat nat nat nat "u8 list" u8 u8
  | Gap_set_data "u8 list"
  | Gap_enable bool

record bc_state =
  mkh_advertising_started :: bool
  mkh_hub_broadcasting :: "bool list"
  mkh_channel_value :: "u8 list list"
  mkh_device_active :: "bool list"
  mkh_pending_off_services :: "int list"
  mkh_device_transitioning :: "bool list"
  mkh_adv_buf :: "u8 list"
  mkh_last_event_send_us :: "int list"
  mkh_last_logged_values :: "u8 list list"
  mkh_control_logged_once :: "bool list"
  mkh_time_slice_last_device :: int
  mkh_broadcast_timer :: "nat option"
  main_thread_queue :: "int list"
  gap_calls :: "gap_call list"
  telegram_log :: "(int \<times> u8 list) list"
  gap_errors :: "(u16 \<times> u8) list"

text \<open>The state at load time (static initialisers).\<close>

definition bc_boot :: bc_state where
  "bc_boot = \<lparr> mkh_advertising_started = False, mkh_hub_broadcasting = replicate 3 False,
     mkh_channel_value = replicate 3 mkh_neutral_channels, mkh_device_active = replicate 3 False,
     mkh_pending_off_services = replicate 3 0, mkh_device_transitioning = replicate 3 False,
     mkh_adv_buf = replicate mkh_adv_buf_len 0, mkh_last_event_send_us = replicate 3 0,
     mkh_last_logged_values = replicate 3 (replicate 6 0), mkh_control_logged_once = replicate 3 False,
     mkh_time_slice_last_device = -1, mkh_broadcast_timer = None, main_thread_queue = [],
     gap_calls = [], telegram_log = [], gap_errors = [] \<rparr>"

definition valid_device :: "int \<Rightarrow> bool" where
  "valid_device d = (0 \<le> d \<and> d < mkh_mk6_num_devices)"

definition mkh_broadcast_is_transitioning :: "int \<Rightarrow> bc_state \<Rightarrow> bool option" where
  "mkh_broadcast_is_transitioning device_id s =
     (if device_id < 0 \<or> device_id \<ge> mkh_mk6_num_devices then Some False
      else arr_get (mkh_device_transitioning s) device_id)"

section \<open>Staging a payload\<close>

definition adv_header :: "nat \<Rightarrow> u8 list" where
  "adv_header payload_len =
     [0x02, 0x01, 0x06, of_nat (1 + 2 + payload_len), 0xFF, mkh_company_id_lo, mkh_company_id_hi]"

definition mkh_set_adv_payload :: "u8 list \<Rightarrow> bc_state \<Rightarrow> bc_state option" where
  "mkh_set_adv_payload payload s =
     (let i = length (adv_header (length payload));
          buf1 = memcpy_at (mkh_adv_buf s) 0 (adv_header (length payload));
          buf2 = memcpy_at buf1 i payload;
          i' = i + length payload
      in if length (mkh_adv_buf s) < i' then None
         else Some (s\<lparr>mkh_adv_buf := buf2, gap_calls := gap_calls s @ [Gap_set_data (take i' buf2)]\<rparr>))"

text \<open>\<open>mkh_protocol_encrypt\<close> returns length 0 on failure, so that nothing is copied.\<close>

definition encrypted :: "u8 list \<Rightarrow> nat \<Rightarrow> u8 list" where
  "encrypted telegram cap = (case mkh_protocol_encrypt telegram cap of None \<Rightarrow> [] | Some p \<Rightarrow> p)"

text \<open>The loop over the six channels, common to both senders: raw byte to power to telegram byte.\<close>

definition channel_power :: "u8 \<Rightarrow> c_float" where
  "channel_power v = Fin ((of_int (uint v) - 128) / 128)"

fun stage_channels :: "int \<Rightarrow> u8 list \<Rightarrow> u8 list \<Rightarrow> u8 list option" where
  "stage_channels ch [] telegram = Some telegram"
| "stage_channels ch (v # vs) telegram =
     do { telegram' \<leftarrow> mkh_protocol_set_channel telegram ch (channel_power v);
          stage_channels (ch + 1) vs telegram' }"

definition control_telegram :: "int \<Rightarrow> u8 list \<Rightarrow> u8 list option" where
  "control_telegram device_id values =
     do { telegram \<leftarrow> mkh_protocol_control_telegram_neutral device_id;
          stage_channels 0 values telegram }"

definition mkh_stage_and_send_values :: "int \<Rightarrow> u8 list \<Rightarrow> bc_state \<Rightarrow> bc_state option" where
  "mkh_stage_and_send_values device_id values s =
     do { telegram \<leftarrow> control_telegram device_id values;
          s1 \<leftarrow> mkh_set_adv_payload (encrypted telegram mkh_payload_control_len) s;
          hb \<leftarrow> arr_set (mkh_hub_broadcasting s1) device_id True;
          Some (s1\<lparr>mkh_hub_broadcasting := hb\<rparr>) }"

section \<open>Event-driven sends\<close>

definition mkh_event_send_callback :: "int \<Rightarrow> bc_state \<Rightarrow> bc_state option" where
  "mkh_event_send_callback device_id s =
     do { values \<leftarrow> arr_get (mkh_channel_value s) device_id;
          mkh_stage_and_send_values device_id values s }"

text \<open>
  \<open>btstack_run_loop_execute_on_main_thread\<close> appends the registration of the device to the run
  loop's list; a registration that is already in the list is left where it is.
\<close>

definition execute_on_main_thread :: "int \<Rightarrow> bc_state \<Rightarrow> bc_state" where
  "execute_on_main_thread device_id s =
     (if device_id \<in> set (main_thread_queue s) then s
      else s\<lparr>main_thread_queue := main_thread_queue s @ [device_id]\<rparr>)"

definition mkh_set_channel :: "int \<Rightarrow> int \<Rightarrow> u8 \<Rightarrow> int \<Rightarrow> bc_state \<Rightarrow> bc_state option" where
  "mkh_set_channel device_id port value now s =
     (if device_id < 0 \<or> device_id \<ge> mkh_mk6_num_devices then Some s
      else if port < 0 \<or> port \<ge> mkh_mk6_num_channels then Some s
      else do {
        row \<leftarrow> arr_get (mkh_channel_value s) device_id;
        old \<leftarrow> arr_get row port;
        row' \<leftarrow> arr_set row port value;
        table \<leftarrow> arr_set (mkh_channel_value s) device_id row';
        let s1 = s\<lparr>mkh_channel_value := table\<rparr>;
        active \<leftarrow> arr_get (mkh_device_active s1) device_id;
        if old \<noteq> value \<and> active then do {
          last \<leftarrow> arr_get (mkh_last_event_send_us s1) device_id;
          if now - last \<ge> mkh_event_send_min_interval_us then do {
            sent \<leftarrow> arr_set (mkh_last_event_send_us s1) device_id now;
            Some (execute_on_main_thread device_id (s1\<lparr>mkh_last_event_send_us := sent\<rparr>))
          } else Some s1
        } else Some s1
      })"

section \<open>The CONTROL timer\<close>

fun next_active_from :: "nat \<Rightarrow> int \<Rightarrow> int \<Rightarrow> bool list \<Rightarrow> int option" where
  "next_active_from 0 i cur act = Some (-1)"
| "next_active_from (Suc n) i cur act =
     (let candidate = (cur + i + mkh_mk6_num_devices) mod mkh_mk6_num_devices
      in do { a \<leftarrow> arr_get act candidate;
              if a then Some candidate else next_active_from n (i + 1) cur act })"

definition mkh_next_active_device :: "int \<Rightarrow> bc_state \<Rightarrow> int option" where
  "mkh_next_active_device cur s =
     next_active_from (nat mkh_mk6_num_devices) 1 cur (mkh_device_active s)"

text \<open>The countdown of the OFF sequence, run after a telegram of the device has been staged.\<close>

definition off_countdown :: "int \<Rightarrow> bc_state \<Rightarrow> bc_state option" where
  "off_countdown device_id s =
     do { pending \<leftarrow> arr_get (mkh_pending_off_services s) device_id;
          if pending > 0 then do {
            po \<leftarrow> arr_set (mkh_pending_off_services s) device_id (pending - 1);
            let s1 = s\<lparr>mkh_pending_off_services := po\<rparr>;
            if pending - 1 = 0 then do {
              act \<leftarrow> arr_set (mkh_device_active s1) device_id False;
              hub \<leftarrow> arr_set (mkh_hub_broadcasting s1) device_id False;
              tr \<leftarrow> arr_set (mkh_device_transitioning s1) device_id False;
              Some (s1\<lparr>mkh_device_active := act, mkh_hub_broadcasting := hub,
                       mkh_device_transitioning := tr\<rparr>)
            } else Some s1
          } else Some s }"

definition log_telegram :: "int \<Rightarrow> u8 list \<Rightarrow> bool \<Rightarrow> bc_state \<Rightarrow> bc_state option" where
  "log_telegram device_id values changed s =
     (if changed then do {
        lv \<leftarrow> arr_set (mkh_last_logged_values s) device_id values;
        lo \<leftarrow> arr_set (mkh_control_logged_once s) device_id True;
        Some (s\<lparr>mkh_last_logged_values := lv, mkh_control_logged_once := lo,
                telegram_log := telegram_log s @ [(device_id, values)]\<rparr>)
      } else Some s)"

definition mkh_broadcast_control :: "bc_state \<Rightarrow> bc_state option" where
  "mkh_broadcast_control s =
     do { device_id \<leftarrow> mkh_next_active_device (mkh_time_slice_last_device s) s;
          if device_id < 0 then Some (s\<lparr>mkh_broadcast_timer := Some mkh_control_repeat_ms\<rparr>)
          else do {
            let s1 = s\<lparr>mkh_time_slice_last_device := device_id\<rparr>;
            values \<leftarrow> arr_get (mkh_channel_value s1) device_id;
            logged_once \<leftarrow> arr_get (mkh_control_logged_once s1) device_id;
            logged \<leftarrow> arr_get (mkh_last_logged_values s1) device_id;
            let changed = (\<not> logged_once \<or> values \<noteq> logged);
            telegram \<leftarrow> control_telegram device_id values;
            s2 \<leftarrow> mkh_set_adv_payload (encrypted telegram mkh_payload_control_len) s1;
            hb \<leftarrow> arr_set (mkh_hub_broadcasting s2) device_id True;
            s3 \<leftarrow> off_countdown device_id (s2\<lparr>mkh_hub_broadcasting := hb\<rparr>);
            s4 \<leftarrow> log_telegram device_id values changed s3;
            Some (s4\<lparr>mkh_broadcast_timer := Some mkh_control_repeat_ms\<rparr>)
          } }"

definition mkh_broadcast_connect :: "bc_state \<Rightarrow> bc_state option" where
  "mkh_broadcast_connect s =
     do { s1 \<leftarrow> mkh_set_adv_payload (encrypted mkh_protocol_connect_telegram mkh_payload_connect_len) s;
          Some (s1\<lparr>gap_calls := gap_calls s1 @ [Gap_enable True],
                   mkh_broadcast_timer := Some mkh_connect_phase_ms\<rparr>) }"

section \<open>Hub toggles\<close>

text \<open>The six \<open>mkh_set_channel\<close> calls of a toggle; \<open>clock ch\<close> is the time the call for \<open>ch\<close> reads.\<close>

fun neutral_from :: "nat \<Rightarrow> int \<Rightarrow> int \<Rightarrow> (int \<Rightarrow> int) \<Rightarrow> bc_state \<Rightarrow> bc_state option" where
  "neutral_from 0 ch device_id clock s = Some s"
| "neutral_from (Suc n) ch device_id clock s =
     do { s1 \<leftarrow> mkh_set_channel device_id ch 0x80 (clock ch) s;
          neutral_from n (ch + 1) device_id clock s1 }"

definition command_neutral :: "int \<Rightarrow> (int \<Rightarrow> int) \<Rightarrow> bc_state \<Rightarrow> bc_state option" where
  "command_neutral = neutral_from (nat mkh_mk6_num_channels) 0"

definition mkh_broadcast_toggle_off :: "int \<Rightarrow> (int \<Rightarrow> int) \<Rightarrow> bc_state \<Rightarrow> bc_state option" where
  "mkh_broadcast_toggle_off device_id clock s =
     (if device_id < 0 \<or> device_id \<ge> mkh_mk6_num_devices then Some s
      else do {
        active \<leftarrow> arr_get (mkh_device_active s) device_id;
        pending \<leftarrow> arr_get (mkh_pending_off_services s) device_id;
        if \<not> active \<or> pending > 0 then Some s
        else do {
          tr \<leftarrow> arr_set (mkh_device_transitioning s) device_id True;
          s1 \<leftarrow> command_neutral device_id clock (s\<lparr>mkh_device_transitioning := tr\<rparr>);
          po \<leftarrow> arr_set (mkh_pending_off_services s1) device_id mkh_off_grace_services;
          Some (s1\<lparr>mkh_pending_off_services := po\<rparr>)
        }
      })"

definition mkh_broadcast_toggle_on :: "int \<Rightarrow> (int \<Rightarrow> int) \<Rightarrow> bc_state \<Rightarrow> bc_state option" where
  "mkh_broadcast_toggle_on device_id clock s =
     (if device_id < 0 \<or> device_id \<ge> mkh_mk6_num_devices then Some s
      else if device_id \<ge> mkh_time_slice_num_devices then Some s
      else do {
        active \<leftarrow> arr_get (mkh_device_active s) device_id;
        pending \<leftarrow> arr_get (mkh_pending_off_services s) device_id;
        if active \<and> pending = 0 then Some s
        else do {
          tr \<leftarrow> arr_set (mkh_device_transitioning s) device_id True;
          po \<leftarrow> arr_set (mkh_pending_off_services s) device_id 0;
          s1 \<leftarrow> command_neutral device_id clock
                  (s\<lparr>mkh_device_transitioning := tr, mkh_pending_off_services := po\<rparr>);
          s2 \<leftarrow> mkh_set_adv_payload (encrypted mkh_protocol_connect_telegram mkh_payload_connect_len) s1;
          act \<leftarrow> arr_set (mkh_device_active s2) device_id True;
          hub \<leftarrow> arr_set (mkh_hub_broadcasting s2) device_id True;
          tr' \<leftarrow> arr_set (mkh_device_transitioning s2) device_id False;
          Some (s2\<lparr>mkh_device_active := act, mkh_hub_broadcasting := hub,
                   mkh_device_transitioning := tr'\<rparr>)
        }
      })"

section \<open>HCI events and initialisation\<close>

definition mkh_start :: "bc_state \<Rightarrow> bc_state option" where
  "mkh_start s =
     mkh_broadcast_connect
       (s\<lparr>gap_calls := gap_calls s @
            [Gap_set_params mkh_adv_interval_units mkh_adv_interval_units mkh_adv_type_nonconn_ind 0
               (replicate 6 0) 0x07 0]\<rparr>)"

text \<open>The opcodes of the three advertising commands, OGF 0x08.\<close>

definition hci_le_set_advertising_parameters :: u16 where "hci_le_set_advertising_parameters = 0x2006"

definition hci_le_set_advertising_data :: u16 where "hci_le_set_advertising_data = 0x2008"

definition hci_le_set_advertise_enable :: u16 where "hci_le_set_advertise_enable = 0x200A"

definition mkh_check_command_complete :: "u8 list \<Rightarrow> bc_state \<Rightarrow> bc_state option" where
  "mkh_check_command_complete packet s =
     do { lo \<leftarrow> arr_get packet 3;
          hi \<leftarrow> arr_get packet 4;
          let opcode = ucast lo OR push_bit 8 (ucast hi);
          if opcode \<noteq> hci_le_set_advertising_parameters \<and> opcode \<noteq> hci_le_set_advertising_data
             \<and> opcode \<noteq> hci_le_set_advertise_enable
          then Some s
          else do {
            status \<leftarrow> arr_get packet 5;
            Some (if status \<noteq> 0 then s\<lparr>gap_errors := gap_errors s @ [(opcode, status)]\<rparr> else s)
          } }"

definition reassert_enable :: "bc_state \<Rightarrow> bc_state" where
  "reassert_enable s =
     (if mkh_advertising_started s then s\<lparr>gap_calls := gap_calls s @ [Gap_enable True]\<rparr> else s)"

definition mkh_broadcast_packet_handler :: "u8 \<Rightarrow> u8 list \<Rightarrow> bc_state \<Rightarrow> bc_state option" where
  "mkh_broadcast_packet_handler packet_type packet s =
     (if packet_type \<noteq> 0x04 then Some s
      else do {
        event \<leftarrow> arr_get packet 0;
        if event = 0x60 then do {
          state \<leftarrow> arr_get packet 2;
          if state = 2 \<and> \<not> mkh_advertising_started s
          then mkh_start (s\<lparr>mkh_advertising_started := True\<rparr>) else Some s
        }
        else if event = 0x0E then mkh_check_command_complete packet s
        else if event = 0x05 then Some (reassert_enable s)
        else if event = 0x3E then do {
          sub \<leftarrow> arr_get packet 2;
          Some (if sub = 0x01 \<or> sub = 0x0A \<or> sub = 0x29 then reassert_enable s else s)
        }
        else Some s
      })"

definition mkh_broadcast_init :: "bc_state \<Rightarrow> bc_state" where
  "mkh_broadcast_init s =
     s\<lparr>mkh_device_active := map (\<lambda>d. d < mkh_time_slice_num_devices) [0..mkh_mk6_num_devices - 1],
       mkh_pending_off_services := map (\<lambda>d. 0) [0..mkh_mk6_num_devices - 1],
       mkh_device_transitioning := map (\<lambda>d. False) [0..mkh_mk6_num_devices - 1]\<rparr>"

end
