(* ===== verification/Broadcast_Laws.thy ===== *)
theory Broadcast_Laws
  imports Mkh_Broadcast
begin

text \<open>
  Correctness of the broadcaster: what it needs of the telegram encoder (locale
  \<open>telegram_codec\<close>, interpreted on \<^verbatim>\<open>mkh_protocol.c\<close>), the state invariant and memory safety
  over all interleavings of API calls, timer, callbacks and HCI events, the fairness of the
  round robin, the faithfulness of what is staged, and the OFF sequence with its gaps.
\<close>

section \<open>The interface to the encoder\<close>

locale telegram_codec =
  fixes base :: "int \<Rightarrow> u8 list option"
    and put :: "u8 list \<Rightarrow> int \<Rightarrow> c_float \<Rightarrow> u8 list option"
    and enc :: "u8 list \<Rightarrow> nat \<Rightarrow> u8 list option"
    and dec :: "u8 list \<Rightarrow> u8 list option"
  assumes base_ok: "0 \<le> d \<Longrightarrow> d < 3 \<Longrightarrow> \<exists>t. base d = Some t \<and> length t = 10"
    and put_ok: "0 \<le> ch \<Longrightarrow> ch < 6 \<Longrightarrow> length t = 10 \<Longrightarrow> put t ch (channel_power v) = Some (t[3 + nat ch := v])"
    and enc_ok: "length t \<le> 10 \<Longrightarrow> \<exists>p. enc t (length t + 10) = Some p \<and> length p = length t + 10 \<and> dec p = Some t"
begin

lemma put_six:
  assumes "length t = 10" "length vs = 6"
  shows "foldl (\<lambda>r (ch, v). Option.bind r (\<lambda>t. put t ch (channel_power v))) (Some t)
           (zip [0, 1, 2, 3, 4, 5] vs) = Some (take 3 t @ vs @ drop 9 t)"
proof -
  obtain a b c d e f where vs: "vs = [a, b, c, d, e, f]" by (rule list6_exhaust [OF assms(2)])
  show ?thesis
    using assms(1) by (auto simp: vs put_ok length_Suc_conv numeral_eq_Suc)
qed

lemma enc_total: "length t \<le> 10 \<Longrightarrow> cap = length t + 10 \<Longrightarrow> \<exists>p. enc t cap = Some p \<and> length p = cap \<and> dec p = Some t"
  using enc_ok by simp

end

lemma channel_power_byte_staged: "channel_power_byte (channel_power v) = v"
  by (metis channel_power_def staged_byte_eq)

interpretation mk6: telegram_codec mkh_protocol_control_telegram_neutral mkh_protocol_set_channel
  mkh_protocol_encrypt hub_decode
proof unfold_locales
  show "\<exists>t. mkh_protocol_control_telegram_neutral d = Some t \<and> length t = 10" if "0 \<le> d" "d < 3" for d
  proof -
    have "d \<in> {0, 1, 2}" using that by auto
    then show ?thesis by (auto simp: mkh_protocol_control_telegram_neutral_def kTelegramBase_def)
  qed
  show "mkh_protocol_set_channel t ch (channel_power v) = Some (t[3 + nat ch := v])"
    if "0 \<le> ch" "ch < 6" "length t = 10" for ch t v
    using that by (simp add: mkh_protocol_set_channel_def kControlChannelStartOffset_def
        channel_power_byte_staged nat_add_distrib)
  show "\<exists>p. mkh_protocol_encrypt t (length t + 10) = Some p \<and> length p = length t + 10 \<and> hub_decode p = Some t"
    if "length t \<le> 10" for t
    using that by (simp add: mkh_protocol_encrypt_eq hub_decode_frame)
qed


definition control_frame :: "int \<Rightarrow> u8 list \<Rightarrow> u8 list" where
  "control_frame d vs = [of_int (0x61 + d), 0x7B, 0xA7] @ vs @ [of_int (0x9E - d)]"

lemma stage_nil: "stage_channels ch [] = Some"
  by (rule ext) simp

lemma stage_channels_foldl:
  "length vs = 6 \<Longrightarrow> stage_channels 0 vs t =
     foldl (\<lambda>r (ch, v). Option.bind r (\<lambda>t. mkh_protocol_set_channel t ch (channel_power v))) (Some t)
       (zip [0, 1, 2, 3, 4, 5] vs)"
  by (erule list6_exhaust) (auto intro!: arg_cong2 [of _ _ _ _ Option.bind] ext simp: stage_nil)

lemma control_telegram_eq:
  assumes "0 \<le> d" "d < 3" "length vs = 6"
  shows "control_telegram d vs = Some (control_frame d vs)"
proof -
  have "d \<in> {0, 1, 2}" using assms by auto
  then show ?thesis
    by (auto simp: control_telegram_def mkh_protocol_control_telegram_neutral_def kTelegramBase_def
        stage_channels_foldl mk6.put_six assms control_frame_def)
qed

lemma encrypted_ok:
  assumes "length t \<le> 10" "cap = length t + 10"
  shows "length (encrypted t cap) = cap" "hub_decode (encrypted t cap) = Some t"
  using mk6.enc_total [OF assms] by (auto simp: encrypted_def)

lemma length_control_frame [simp]: "length (control_frame d vs) = length vs + 4"
  by (simp add: control_frame_def)

text \<open>The telegram a GAP call puts on air, as the receiver reads it.\<close>

fun on_air :: "gap_call \<Rightarrow> u8 list option" where
  "on_air (Gap_set_data bs) = hub_decode (drop 7 bs)"
| "on_air _ = None"

lemma length_adv_header [simp]: "length (adv_header n) = 7"
  by (simp add: adv_header_def)

lemma set_adv_payload_eq:
  assumes "length (mkh_adv_buf s) = 27" "length p \<le> 20"
  shows "mkh_set_adv_payload p s =
    Some (s\<lparr>mkh_adv_buf := memcpy_at (memcpy_at (mkh_adv_buf s) 0 (adv_header (length p))) 7 p,
            gap_calls := gap_calls s @ [Gap_set_data (adv_header (length p) @ p)]\<rparr>)"
proof -
  have "take (7 + length p) (memcpy_at (memcpy_at (mkh_adv_buf s) 0 (adv_header (length p))) 7 p) =
        adv_header (length p) @ p"
    using assms by (simp add: memcpy_at_def min_def)
  then show ?thesis using assms by (simp add: mkh_set_adv_payload_def Let_def)
qed

section \<open>The invariant\<close>

definition bc_shape :: "bc_state \<Rightarrow> bool" where
  "bc_shape s \<longleftrightarrow>
     length (mkh_hub_broadcasting s) = 3 \<and> length (mkh_channel_value s) = 3 \<and>
     (\<forall>d<3. length (mkh_channel_value s ! d) = 6) \<and>
     length (mkh_device_active s) = 3 \<and> length (mkh_pending_off_services s) = 3 \<and>
     length (mkh_device_transitioning s) = 3 \<and> length (mkh_adv_buf s) = 27 \<and>
     length (mkh_last_event_send_us s) = 3 \<and> length (mkh_last_logged_values s) = 3 \<and>
     length (mkh_control_logged_once s) = 3 \<and>
     -1 \<le> mkh_time_slice_last_device s \<and> mkh_time_slice_last_device s < 2 \<and>
     set (main_thread_queue s) \<subseteq> {0, 1} \<and> distinct (main_thread_queue s) \<and>
     \<not> mkh_device_active s ! 2"

definition pend_ok :: "bc_state \<Rightarrow> nat \<Rightarrow> bool" where
  "pend_ok s d \<longleftrightarrow>
     0 \<le> mkh_pending_off_services s ! d \<and> mkh_pending_off_services s ! d \<le> 3 \<and>
     (mkh_device_transitioning s ! d \<longleftrightarrow> 0 < mkh_pending_off_services s ! d) \<and>
     (0 < mkh_pending_off_services s ! d \<longrightarrow> mkh_device_active s ! d)"

definition bc_ok :: "bc_state \<Rightarrow> bool" where
  "bc_ok s \<longleftrightarrow> bc_shape s \<and> (\<forall>d<3. pend_ok s d) \<and>
             (mkh_broadcast_timer s \<noteq> None \<longleftrightarrow> mkh_advertising_started s)"

lemma bc_shape_active: "bc_shape s \<Longrightarrow> d < 3 \<Longrightarrow> mkh_device_active s ! d \<Longrightarrow> d < 2"
  by (auto simp: bc_shape_def less_Suc_eq numeral_eq_Suc)

text \<open>What one \<open>mkh_set_channel\<close> call may change: the table entry, the callback queue and the send
  times.\<close>

definition chan_set :: "int \<Rightarrow> int \<Rightarrow> u8 \<Rightarrow> u8 list list \<Rightarrow> u8 list list" where
  "chan_set d p v table =
     (if 0 \<le> d \<and> d < 3 \<and> 0 \<le> p \<and> p < 6
      then table[nat d := (table ! nat d)[nat p := v]] else table)"

definition chan_upd :: "bc_state \<Rightarrow> u8 list list \<Rightarrow> bc_state \<Rightarrow> bool" where
  "chan_upd s table t \<longleftrightarrow>
     (\<exists>l q. t = s\<lparr>mkh_channel_value := table, mkh_last_event_send_us := l, main_thread_queue := q\<rparr> \<and>
            length l = 3 \<and> set q \<subseteq> {0, 1} \<and> distinct q)"

lemma chan_updI:
  "t = s\<lparr>mkh_channel_value := table, mkh_last_event_send_us := l, main_thread_queue := q\<rparr> \<Longrightarrow>
   length l = 3 \<Longrightarrow> set q \<subseteq> {0, 1} \<Longrightarrow> distinct q \<Longrightarrow> chan_upd s table t"
  unfolding chan_upd_def by blast

lemma chan_upd_refl: "bc_shape s \<Longrightarrow> chan_upd s (mkh_channel_value s) s"
  unfolding chan_upd_def bc_shape_def
  by (rule exI [of _ "mkh_last_event_send_us s"], rule exI [of _ "main_thread_queue s"]) simp

lemma set_channel_effect:
  assumes "bc_shape s"
  shows "succeeds (mkh_set_channel d p v now s) (chan_upd s (chan_set d p v (mkh_channel_value s)))"
proof (cases "0 \<le> d \<and> d < 3 \<and> 0 \<le> p \<and> p < 6")
  case False
  then have "mkh_set_channel d p v now s = Some s"
    by (auto simp: mkh_set_channel_def mk1_defs)
  then show ?thesis
    using False chan_upd_refl [OF assms] by (auto simp: chan_set_def)
next
  case True
  then have n: "nat d < 3" "nat p < 6" by auto
  have len: "length (mkh_channel_value s) = 3" "length (mkh_channel_value s ! nat d) = 6"
    "length (mkh_device_active s) = 3" "length (mkh_last_event_send_us s) = 3"
    "set (main_thread_queue s) \<subseteq> {0, 1}" "distinct (main_thread_queue s)"
    using assms n by (auto simp: bc_shape_def)
  have act: "mkh_device_active s ! nat d \<Longrightarrow> d \<in> {0, 1}"
    using bc_shape_active [OF assms n(1)] True by auto
  define s1 where "s1 = s\<lparr>mkh_channel_value := chan_set d p v (mkh_channel_value s)\<rparr>"
  let ?send = "mkh_channel_value s ! nat d ! nat p \<noteq> v \<and> mkh_device_active s ! nat d \<and>
    now - mkh_last_event_send_us s ! nat d \<ge> mkh_event_send_min_interval_us"
  have eq: "mkh_set_channel d p v now s =
    Some (if ?send then execute_on_main_thread d (s1\<lparr>mkh_last_event_send_us := (mkh_last_event_send_us s)[nat d := now]\<rparr>)
          else s1)"
    using True len by (simp add: mkh_set_channel_def mk1_defs arr_get_def arr_set_def chan_set_def s1_def Let_def)
  show ?thesis
  proof (cases ?send)
    case True
    let ?q = "if d \<in> set (main_thread_queue s) then main_thread_queue s else main_thread_queue s @ [d]"
    have "set ?q \<subseteq> {0, 1}" "distinct ?q" using len act True by auto
    moreover have "mkh_set_channel d p v now s =
      Some (s\<lparr>mkh_channel_value := chan_set d p v (mkh_channel_value s),
              mkh_last_event_send_us := (mkh_last_event_send_us s)[nat d := now], main_thread_queue := ?q\<rparr>)"
      unfolding eq using True by (simp add: execute_on_main_thread_def s1_def)
    ultimately show ?thesis
      by (simp only: succeeds_simps s1_def, intro chan_updI [OF refl]) (simp_all add: len s1_def)
  next
    case False
    have "mkh_set_channel d p v now s =
      Some (s1\<lparr>mkh_last_event_send_us := mkh_last_event_send_us s, main_thread_queue := main_thread_queue s\<rparr>)"
      unfolding eq if_not_P [OF False] by (simp add: s1_def)
    then show ?thesis
      by (simp only: succeeds_simps s1_def, intro chan_updI [where l = "mkh_last_event_send_us s" and q = "main_thread_queue s"])
         (simp_all add: len s1_def)
  qed
qed


lemma length_chan_set [simp]: "length (chan_set d p v table) = length table"
  by (simp add: chan_set_def)

lemma row_chan_set: "length table = 3 \<Longrightarrow> length (chan_set d p v table ! k) = length (table ! k)"
  by (auto simp: chan_set_def nth_list_update)

lemma chan_upd_shape:
  "bc_shape s \<Longrightarrow> length table = 3 \<Longrightarrow> \<forall>d<3. length (table ! d) = 6 \<Longrightarrow> chan_upd s table t \<Longrightarrow> bc_shape t"
  by (auto simp: bc_shape_def chan_upd_def)

lemma chan_upd_pend: "chan_upd s table t \<Longrightarrow> pend_ok t d \<longleftrightarrow> pend_ok s d"
  by (auto simp: chan_upd_def pend_ok_def)

lemma chan_upd_trans: "chan_upd s tb t \<Longrightarrow> chan_upd t tb' u \<Longrightarrow> chan_upd s tb' u"
  unfolding chan_upd_def
  by (elim exE conjE, rename_tac l la q qa, rule_tac x = la in exI, rule_tac x = qa in exI) simp

lemma set_channel_shape:
  "bc_shape s \<Longrightarrow> succeeds (mkh_set_channel d p v now s)
     (\<lambda>t. bc_shape t \<and> chan_upd s (chan_set d p v (mkh_channel_value s)) t)"
  apply (rule succeeds_mono [OF set_channel_effect], assumption)
  apply (rule conjI)
   apply (erule chan_upd_shape [rotated 3], assumption)
  by (simp_all add: bc_shape_def row_chan_set)

lemma chan_upd_table: "chan_upd s table t \<Longrightarrow> mkh_channel_value t = table"
  by (auto simp: chan_upd_def)

lemma neutral_from_effect:
  "bc_shape s \<Longrightarrow> succeeds (neutral_from n ch d clock s)
     (\<lambda>t. bc_shape t \<and> chan_upd s (fold (\<lambda>i. chan_set d (ch + int i) 0x80) [0..<n] (mkh_channel_value s)) t)"
proof (induction n arbitrary: ch s)
  case 0
  then show ?case
    by (simp add: chan_upd_refl)
next
  case (Suc n)
  have shift: "fold (\<lambda>i. chan_set d (ch + int i) 0x80) [0..<Suc n] tb =
    fold (\<lambda>i. chan_set d (ch + 1 + int i) 0x80) [0..<n] (chan_set d ch 0x80 tb)" for tb
    by (simp only: upt_conv_Cons [OF zero_less_Suc] map_Suc_upt [symmetric] fold_map fold.simps o_apply)
       (simp add: algebra_simps o_def)
  show ?case
    unfolding neutral_from.simps succeeds_simps shift
    by (rule succeeds_mono [OF set_channel_shape [OF Suc.prems]], elim conjE,
        rule succeeds_mono [OF Suc.IH], assumption)
       (auto simp: chan_upd_table dest: chan_upd_trans)
qed

lemma neutral_row:
  assumes "length table = 3" "\<forall>d<3. length (table ! d) = 6" "0 \<le> d" "d < 3"
  shows "fold (\<lambda>i. chan_set d (int i) 0x80) [0..<6] table = table[nat d := mkh_neutral_channels]"
proof -
  obtain a b c e f g where row: "table ! nat d = [a, b, c, e, f, g]"
    by (rule list6_exhaust [of "table ! nat d"]) (use assms in auto)
  have n: "nat d < 3" using assms by simp
  show ?thesis
    by (simp add: upt_rec [of _ 6] chan_set_def assms n row mkh_neutral_channels_def)
qed

lemma command_neutral_effect:
  assumes "bc_shape s" "0 \<le> d" "d < 3"
  shows "succeeds (command_neutral d clock s)
     (\<lambda>t. bc_shape t \<and> chan_upd s ((mkh_channel_value s)[nat d := mkh_neutral_channels]) t)"
  using neutral_from_effect [OF assms(1), of 6 0 d clock] assms
  by (simp add: command_neutral_def mkh_mk6_num_channels_def neutral_row bc_shape_def)


section \<open>What each operation does to the state\<close>

text \<open>\<open>staged s t u\<close>: \<open>u\<close> is \<open>s\<close> with the advertising data set to the encrypted telegram \<open>t\<close>.\<close>

definition staged :: "bc_state \<Rightarrow> u8 list \<Rightarrow> bc_state \<Rightarrow> bool" where
  "staged s t u \<longleftrightarrow>
     (\<exists>buf bs. u = s\<lparr>mkh_adv_buf := buf, gap_calls := gap_calls s @ [Gap_set_data bs]\<rparr> \<and>
               length buf = 27 \<and> on_air (Gap_set_data bs) = Some t)"

lemma stagedI:
  "u = s\<lparr>mkh_adv_buf := buf, gap_calls := gap_calls s @ [Gap_set_data bs]\<rparr> \<Longrightarrow> length buf = 27 \<Longrightarrow>
   on_air (Gap_set_data bs) = Some t \<Longrightarrow> staged s t u"
  unfolding staged_def by blast

lemma stagedE:
  assumes "staged s t u"
  obtains buf bs where "u = s\<lparr>mkh_adv_buf := buf, gap_calls := gap_calls s @ [Gap_set_data bs]\<rparr>"
    "length buf = 27" "hub_decode (drop 7 bs) = Some t"
  using assms by (auto simp: staged_def)

lemma staged_hub: "staged s t u \<Longrightarrow> mkh_hub_broadcasting u = mkh_hub_broadcasting s"
  by (erule stagedE) simp

lemma set_adv_staged:
  assumes "length (mkh_adv_buf s) = 27" "length t \<le> 10" "cap = length t + 10"
  shows "succeeds (mkh_set_adv_payload (encrypted t cap) s) (staged s t)"
proof -
  have "mkh_set_adv_payload (encrypted t cap) s =
    Some (s\<lparr>mkh_adv_buf := memcpy_at (memcpy_at (mkh_adv_buf s) 0 (adv_header cap)) 7 (encrypted t cap),
            gap_calls := gap_calls s @ [Gap_set_data (adv_header cap @ encrypted t cap)]\<rparr>)"
    using encrypted_ok [OF assms(2,3)] assms by (subst set_adv_payload_eq) simp_all
  then show ?thesis
    by (simp only: succeeds_simps, intro stagedI [OF refl]) (simp_all add: assms(1) encrypted_ok [OF assms(2,3)])
qed

lemma arr_get_succeeds [simp]: "succeeds (arr_get xs i) P \<longleftrightarrow> 0 \<le> i \<and> i < int (length xs) \<and> P (xs ! nat i)"
  by (auto simp: arr_get_def succeeds_def)

lemma arr_set_succeeds [simp]: "succeeds (arr_set xs i x) P \<longleftrightarrow> 0 \<le> i \<and> i < int (length xs) \<and> P (xs[nat i := x])"
  by (auto simp: arr_set_def succeeds_def)

lemma stage_and_send_effect:
  assumes "bc_shape s" "0 \<le> d" "d < 3" "length vs = 6"
  shows "succeeds (mkh_stage_and_send_values d vs s)
     (\<lambda>t. \<exists>u. staged s (control_frame d vs) u \<and>
              t = u\<lparr>mkh_hub_broadcasting := (mkh_hub_broadcasting s)[nat d := True]\<rparr>)"
proof -
  have "succeeds (mkh_set_adv_payload (encrypted (control_frame d vs) 20) s) (staged s (control_frame d vs))"
    by (rule set_adv_staged) (use assms in \<open>auto simp: bc_shape_def\<close>)
  then show ?thesis
    unfolding mkh_stage_and_send_values_def control_telegram_eq [OF assms(2-4)] succeeds_simps
      mkh_payload_control_len_def
    apply (rule succeeds_mono)
    apply (frule staged_hub)
    using assms by (auto simp: bc_shape_def)
qed

definition countdown_result :: "nat \<Rightarrow> bc_state \<Rightarrow> bc_state" where
  "countdown_result d s =
     (let drop = (mkh_pending_off_services s ! d = 1)
      in s\<lparr>mkh_pending_off_services := (mkh_pending_off_services s)[d := max 0 (mkh_pending_off_services s ! d - 1)],
           mkh_device_active := (mkh_device_active s)[d := \<not> drop],
           mkh_hub_broadcasting := (mkh_hub_broadcasting s)[d := \<not> drop],
           mkh_device_transitioning := (mkh_device_transitioning s)[d := (1 < mkh_pending_off_services s ! d)]\<rparr>)"

lemma update_same: "xs ! i = x \<Longrightarrow> xs[i := x] = xs"
  by auto

lemma off_countdown_eq:
  assumes "bc_shape s" "pend_ok s d" "d < 3" "mkh_device_active s ! d" "mkh_hub_broadcasting s ! d"
  shows "off_countdown (int d) s = Some (countdown_result d s)"
proof -
  let ?p = "mkh_pending_off_services s ! d"
  have len: "length (mkh_pending_off_services s) = 3" "length (mkh_device_active s) = 3"
    "length (mkh_hub_broadcasting s) = 3" "length (mkh_device_transitioning s) = 3"
    using assms(1) by (auto simp: bc_shape_def)
  consider "?p = 0" | "?p = 1" | "1 < ?p" using assms(2) by (fastforce simp: pend_ok_def)
  then show ?thesis
    using assms(2-) len
    by cases (auto simp: off_countdown_def countdown_result_def arr_get_def arr_set_def pend_ok_def Let_def
        update_same)
qed

definition active_dev :: "bc_state \<Rightarrow> int \<Rightarrow> bool" where
  "active_dev s d \<longleftrightarrow> 0 \<le> d \<and> d < 3 \<and> mkh_device_active s ! nat d"

lemma active_dev_01: "bc_shape s \<Longrightarrow> active_dev s d \<Longrightarrow> d = 0 \<or> d = 1"
  using bc_shape_active [of s "nat d"] by (cases "d = 2") (auto simp: active_dev_def)

text \<open>The device serviced next: the first active one after the last, or none.\<close>

definition next_dev :: "bc_state \<Rightarrow> int" where
  "next_dev s =
     (if active_dev s ((mkh_time_slice_last_device s + 1) mod 2) then (mkh_time_slice_last_device s + 1) mod 2
      else if active_dev s (mkh_time_slice_last_device s mod 2) then mkh_time_slice_last_device s mod 2
      else -1)"

lemma next_active_device_eq:
  assumes "bc_shape s"
  shows "mkh_next_active_device (mkh_time_slice_last_device s) s = Some (next_dev s)"
proof -
  have len: "length (mkh_device_active s) = 3" "\<not> mkh_device_active s ! 2"
    and last: "mkh_time_slice_last_device s \<in> {-1, 0, 1}"
    using assms by (auto simp: bc_shape_def)
  from last show ?thesis
    by (auto simp: mkh_next_active_device_def mkh_mk6_num_devices_def next_dev_def active_dev_def
        arr_get_def len numeral_3_eq_3 Let_def)
qed


lemma next_dev_cases:
  assumes "bc_shape s"
  obtains "next_dev s = -1" "\<And>d. d < 3 \<Longrightarrow> \<not> mkh_device_active s ! d"
    | d where "next_dev s = int d" "d < 2" "mkh_device_active s ! d"
proof -
  have none: "\<not> active_dev s 0 \<Longrightarrow> \<not> active_dev s 1 \<Longrightarrow> d < 3 \<Longrightarrow> \<not> mkh_device_active s ! d" for d
    using assms by (auto simp: active_dev_def bc_shape_def numeral_3_eq_3 numeral_2_eq_2 less_Suc_eq)
  have last: "mkh_time_slice_last_device s \<in> {-1, 0, 1}" using assms by (auto simp: bc_shape_def)
  have "next_dev s = -1 \<and> \<not> active_dev s 0 \<and> \<not> active_dev s 1 \<or>
        next_dev s = 0 \<and> active_dev s 0 \<or> next_dev s = 1 \<and> active_dev s 1"
    using last by (auto simp: next_dev_def)
  then show ?thesis
    using that(1) none that(2) [of 0] that(2) [of 1] by (auto simp: active_dev_def)
qed

definition logged :: "bc_state \<Rightarrow> bc_state \<Rightarrow> bool" where
  "logged s t \<longleftrightarrow>
     (\<exists>lv lo lg. t = s\<lparr>mkh_last_logged_values := lv, mkh_control_logged_once := lo, telegram_log := lg\<rparr> \<and>
                length lv = 3 \<and> length lo = 3)"

lemma loggedI:
  "t = s\<lparr>mkh_last_logged_values := lv, mkh_control_logged_once := lo, telegram_log := lg\<rparr> \<Longrightarrow>
   length lv = 3 \<Longrightarrow> length lo = 3 \<Longrightarrow> logged s t"
  unfolding logged_def by blast

lemma log_telegram_effect:
  assumes "bc_shape s" "0 \<le> d" "d < 3"
  shows "succeeds (log_telegram d vs ch s) (logged s)"
proof (cases ch)
  case True
  then show ?thesis
    using assms by (simp add: log_telegram_def) (rule conjI, simp add: bc_shape_def, rule conjI,
      simp add: bc_shape_def, rule loggedI [OF refl], simp_all add: bc_shape_def)
next
  case False
  have "logged s s"
    by (rule loggedI [where lv = "mkh_last_logged_values s" and lo = "mkh_control_logged_once s" and lg = "telegram_log s"])
       (use assms in \<open>simp_all add: bc_shape_def\<close>)
  then show ?thesis using False by (simp add: log_telegram_def)
qed

definition serviced :: "nat \<Rightarrow> bc_state \<Rightarrow> bc_state \<Rightarrow> bool" where
  "serviced d s t \<longleftrightarrow>
     (\<exists>u v.
        staged (s\<lparr>mkh_time_slice_last_device := int d\<rparr>) (control_frame (int d) (mkh_channel_value s ! d)) u \<and>
        logged (countdown_result d (u\<lparr>mkh_hub_broadcasting := (mkh_hub_broadcasting s)[d := True]\<rparr>)) v \<and>
        t = v\<lparr>mkh_broadcast_timer := Some mkh_control_repeat_ms\<rparr>)"

lemma staged_shape: "staged s t u \<Longrightarrow> bc_shape u \<longleftrightarrow> bc_shape (s\<lparr>mkh_adv_buf := replicate 27 0\<rparr>)"
  by (erule stagedE) (simp add: bc_shape_def)

lemma staged_pend: "staged s t u \<Longrightarrow> pend_ok u d \<longleftrightarrow> pend_ok s d"
  by (erule stagedE) (simp add: pend_ok_def)

lemma control_idle:
  "bc_shape s \<Longrightarrow> next_dev s = -1 \<Longrightarrow>
   mkh_broadcast_control s = Some (s\<lparr>mkh_broadcast_timer := Some mkh_control_repeat_ms\<rparr>)"
  by (simp add: mkh_broadcast_control_def next_active_device_eq)

lemma control_service:
  assumes "bc_shape s" "\<forall>d<3. pend_ok s d" "next_dev s = int d" "d < 2" "mkh_device_active s ! d"
  shows "succeeds (mkh_broadcast_control s) (serviced d s)"
proof -
  let ?s1 = "s\<lparr>mkh_time_slice_last_device := int d\<rparr>"
  let ?f = "control_frame (int d) (mkh_channel_value s ! d)"
  have len: "length (mkh_channel_value s ! d) = 6" "length (mkh_channel_value s) = 3"
    "length (mkh_control_logged_once s) = 3" "length (mkh_last_logged_values s) = 3" "length (mkh_hub_broadcasting s) = 3"
    using assms(1,4) by (auto simp: bc_shape_def)
  have ct: "control_telegram (int d) (mkh_channel_value s ! d) = Some ?f"
    by (rule control_telegram_eq) (use assms(4) len in auto)
  have st: "succeeds (mkh_set_adv_payload (encrypted ?f 20) ?s1) (staged ?s1 ?f)"
    by (rule set_adv_staged) (use assms(1) len in \<open>auto simp: bc_shape_def\<close>)
  have tail: "succeeds (off_countdown (int d) (u\<lparr>mkh_hub_broadcasting := (mkh_hub_broadcasting s)[d := True]\<rparr>))
     (\<lambda>s3. succeeds (log_telegram (int d) vs ch s3)
        (\<lambda>s4. serviced d s (s4\<lparr>mkh_broadcast_timer := Some mkh_control_repeat_ms\<rparr>)))"
    if u: "staged ?s1 ?f u" for u vs ch
  proof -
    let ?u = "u\<lparr>mkh_hub_broadcasting := (mkh_hub_broadcasting s)[d := True]\<rparr>"
    have sh: "bc_shape ?u" "pend_ok ?u d" "mkh_device_active ?u ! d"
      using u assms by (auto elim!: stagedE simp: bc_shape_def pend_ok_def)
    have eq: "off_countdown (int d) ?u = Some (countdown_result d ?u)"
      by (rule off_countdown_eq [OF sh(1,2) _ sh(3)]) (use assms(4) len in auto)
    have sh': "bc_shape (countdown_result d ?u)"
      using sh assms(4) by (auto simp: bc_shape_def countdown_result_def Let_def nth_list_update)
    show ?thesis
      unfolding eq succeeds_simps
      by (rule succeeds_mono [OF log_telegram_effect [OF sh']])
         (use assms(4) u in \<open>auto simp: serviced_def\<close>)
  qed
  show ?thesis
    using assms(4) len
    by (simp add: mkh_broadcast_control_def next_active_device_eq [OF assms(1)] assms(3) Let_def ct
        mkh_payload_control_len_def)
       (rule succeeds_mono [OF st], frule staged_hub, simp add: tail)
qed


lemma serviced_fields:
  assumes "serviced d s t"
  shows "mkh_channel_value t = mkh_channel_value s" "mkh_time_slice_last_device t = int d"
    "mkh_pending_off_services t = (mkh_pending_off_services s)[d := max 0 (mkh_pending_off_services s ! d - 1)]"
    "mkh_device_active t = (mkh_device_active s)[d := (mkh_pending_off_services s ! d \<noteq> 1)]"
    "mkh_hub_broadcasting t = (mkh_hub_broadcasting s)[d := (mkh_pending_off_services s ! d \<noteq> 1)]"
    "mkh_device_transitioning t = (mkh_device_transitioning s)[d := (1 < mkh_pending_off_services s ! d)]"
    "main_thread_queue t = main_thread_queue s" "mkh_last_event_send_us t = mkh_last_event_send_us s"
    "mkh_advertising_started t = mkh_advertising_started s"
    "mkh_broadcast_timer t = Some mkh_control_repeat_ms"
    "length (mkh_adv_buf t) = 27" "length (mkh_last_logged_values t) = 3" "length (mkh_control_logged_once t) = 3"
    "\<exists>bs. gap_calls t = gap_calls s @ [Gap_set_data bs] \<and>
       on_air (Gap_set_data bs) = Some (control_frame (int d) (mkh_channel_value s ! d))"
  using assms by (auto simp: serviced_def logged_def countdown_result_def Let_def elim!: stagedE)

lemma serviced_ok:
  assumes "serviced d s t" "bc_shape s" "\<forall>d<3. pend_ok s d" "mkh_advertising_started s" "d < 2" "mkh_device_active s ! d"
  shows "bc_ok t"
proof -
  note f = serviced_fields [OF assms(1)]
  have "bc_shape t"
    using assms(2,5) by (auto simp: bc_shape_def f nth_list_update)
  moreover have "pend_ok t k" if "k < 3" for k
  proof (cases "k = d")
    case True
    have "pend_ok s d" "length (mkh_pending_off_services s) = 3" "length (mkh_device_active s) = 3"
      "length (mkh_device_transitioning s) = 3" using assms by (auto simp: bc_shape_def)
    with True assms(5) show ?thesis by (auto simp: pend_ok_def f)
  next
    case False
    then show ?thesis using assms(3) that by (auto simp: pend_ok_def f)
  qed
  ultimately show ?thesis using assms(4) by (simp add: bc_ok_def f)
qed

lemma set_channel_ok: "bc_ok s \<Longrightarrow> succeeds (mkh_set_channel d p v now s) bc_ok"
  by (rule succeeds_mono [OF set_channel_shape [of s d p v now]])
     (auto simp: bc_ok_def chan_upd_pend, auto simp: chan_upd_def)

lemma callback_effect:
  assumes "bc_shape s" "d < 2"
  shows "succeeds (mkh_event_send_callback (int d) s)
     (\<lambda>t. \<exists>u. staged s (control_frame (int d) (mkh_channel_value s ! d)) u \<and>
              t = u\<lparr>mkh_hub_broadcasting := (mkh_hub_broadcasting s)[d := True]\<rparr>)"
  using stage_and_send_effect [OF assms(1), of "int d" "mkh_channel_value s ! d"] assms
  by (auto simp: mkh_event_send_callback_def bc_shape_def)

lemma callback_ok: "bc_ok s \<Longrightarrow> d < 2 \<Longrightarrow> succeeds (mkh_event_send_callback (int d) s) bc_ok"
  by (rule succeeds_mono [OF callback_effect])
     (auto simp: bc_ok_def bc_shape_def pend_ok_def elim!: stagedE)

lemma chan_upd_fields:
  assumes "chan_upd s table t"
  shows "mkh_channel_value t = table" "mkh_time_slice_last_device t = mkh_time_slice_last_device s"
    "mkh_pending_off_services t = mkh_pending_off_services s" "mkh_device_active t = mkh_device_active s"
    "mkh_hub_broadcasting t = mkh_hub_broadcasting s" "mkh_device_transitioning t = mkh_device_transitioning s"
    "mkh_advertising_started t = mkh_advertising_started s" "mkh_broadcast_timer t = mkh_broadcast_timer s"
    "mkh_adv_buf t = mkh_adv_buf s" "gap_calls t = gap_calls s"
  using assms by (auto simp: chan_upd_def)

text \<open>After an accepted OFF request the row of the device is neutral and the countdown is at three.\<close>

lemma toggle_off_effect:
  assumes "bc_shape s" "d < 3" "mkh_device_active s ! d" "mkh_pending_off_services s ! d = 0"
  shows "succeeds (mkh_broadcast_toggle_off (int d) clock s)
     (\<lambda>t. \<exists>s1. chan_upd (s\<lparr>mkh_device_transitioning := (mkh_device_transitioning s)[d := True]\<rparr>)
                  ((mkh_channel_value s)[d := mkh_neutral_channels]) s1 \<and> bc_shape s1 \<and>
               t = s1\<lparr>mkh_pending_off_services := (mkh_pending_off_services s)[d := 3]\<rparr>)"
proof -
  let ?s = "s\<lparr>mkh_device_transitioning := (mkh_device_transitioning s)[d := True]\<rparr>"
  have "bc_shape ?s" using assms(1) by (auto simp: bc_shape_def)
  from command_neutral_effect [OF this, of "int d" clock]
  have "succeeds (command_neutral (int d) clock ?s)
     (\<lambda>t. bc_shape t \<and> chan_upd ?s ((mkh_channel_value s)[d := mkh_neutral_channels]) t)" using assms(2) by simp
  moreover have "length (mkh_device_active s) = 3" "length (mkh_pending_off_services s) = 3"
    "length (mkh_device_transitioning s) = 3" using assms(1) by (auto simp: bc_shape_def)
  ultimately show ?thesis
    using assms(2-)
    by (simp add: mkh_broadcast_toggle_off_def mk1_defs)
       (erule succeeds_mono, auto simp: chan_upd_fields)
qed

lemma toggle_off_idempotent:
  "bc_shape s \<Longrightarrow> d < 3 \<Longrightarrow> \<not> mkh_device_active s ! d \<or> 0 < mkh_pending_off_services s ! d \<Longrightarrow>
   mkh_broadcast_toggle_off (int d) clock s = Some s"
  by (auto simp: mkh_broadcast_toggle_off_def mk1_defs bc_shape_def arr_get_def)

lemma toggle_on_idempotent:
  "bc_shape s \<Longrightarrow> d < 3 \<Longrightarrow> d = 2 \<or> mkh_device_active s ! d \<and> mkh_pending_off_services s ! d = 0 \<Longrightarrow>
   mkh_broadcast_toggle_on (int d) clock s = Some s"
  by (auto simp: mkh_broadcast_toggle_on_def mk1_defs bc_shape_def arr_get_def)

lemma toggle_invalid:
  "\<not> (0 \<le> d \<and> d < 3) \<Longrightarrow> mkh_broadcast_toggle_off d clock s = Some s"
  "\<not> (0 \<le> d \<and> d < 3) \<Longrightarrow> mkh_broadcast_toggle_on d clock s = Some s"
  by (auto simp: mkh_broadcast_toggle_off_def mkh_broadcast_toggle_on_def mk1_defs)

lemma toggle_off_ok:
  assumes "bc_ok s"
  shows "succeeds (mkh_broadcast_toggle_off d clock s) bc_ok"
proof (cases "0 \<le> d \<and> d < 3 \<and> mkh_device_active s ! nat d \<and> mkh_pending_off_services s ! nat d = 0")
  case True
  then have n: "nat d < 3" "int (nat d) = d" by auto
  have "succeeds (mkh_broadcast_toggle_off (int (nat d)) clock s) bc_ok"
  proof (rule succeeds_mono [OF toggle_off_effect])
    fix t
    assume "\<exists>s1. chan_upd (s\<lparr>mkh_device_transitioning := (mkh_device_transitioning s)[nat d := True]\<rparr>)
                  ((mkh_channel_value s)[nat d := mkh_neutral_channels]) s1 \<and> bc_shape s1 \<and>
               t = s1\<lparr>mkh_pending_off_services := (mkh_pending_off_services s)[nat d := 3]\<rparr>"
    then obtain s1 where u: "chan_upd (s\<lparr>mkh_device_transitioning := (mkh_device_transitioning s)[nat d := True]\<rparr>)
        ((mkh_channel_value s)[nat d := mkh_neutral_channels]) s1" "bc_shape s1"
      and t: "t = s1\<lparr>mkh_pending_off_services := (mkh_pending_off_services s)[nat d := 3]\<rparr>" by blast
    note f = chan_upd_fields [OF u(1)]
    have "length (mkh_pending_off_services s) = 3" "length (mkh_device_transitioning s) = 3"
      using assms by (auto simp: bc_ok_def bc_shape_def)
    then have "pend_ok t k" if "k < 3" for k
      using assms that True by (auto simp: t f pend_ok_def bc_ok_def nth_list_update split: if_splits)
    moreover have "bc_shape t" using u(2) f by (auto simp: t bc_shape_def)
    ultimately show "bc_ok t" using assms by (simp add: bc_ok_def t f)
  qed (use assms True in \<open>auto simp: bc_ok_def\<close>)
  then show ?thesis using n by simp
next
  case False
  have "mkh_broadcast_toggle_off d clock s = Some s"
  proof (cases "0 \<le> d \<and> d < 3")
    case True
    then have "nat d < 3" by auto
    then have "pend_ok s (nat d)" using assms by (simp add: bc_ok_def)
    with True False show ?thesis
      using toggle_off_idempotent [of s "nat d" clock] assms by (auto simp: bc_ok_def pend_ok_def)
  qed (rule toggle_invalid)
  then show ?thesis using assms by simp
qed

lemma toggle_on_effect:
  assumes "bc_ok s" "d < 2" "\<not> (mkh_device_active s ! d \<and> mkh_pending_off_services s ! d = 0)"
  shows "succeeds (mkh_broadcast_toggle_on (int d) clock s)
     (\<lambda>t. bc_ok t \<and> mkh_device_active t = (mkh_device_active s)[d := True] \<and>
          mkh_pending_off_services t = (mkh_pending_off_services s)[d := 0] \<and>
          mkh_hub_broadcasting t = (mkh_hub_broadcasting s)[d := True] \<and>
          mkh_channel_value t = (mkh_channel_value s)[d := mkh_neutral_channels] \<and>
          mkh_time_slice_last_device t = mkh_time_slice_last_device s \<and>
          mkh_advertising_started t = mkh_advertising_started s \<and>
          (\<exists>bs. gap_calls t = gap_calls s @ [Gap_set_data bs] \<and>
                on_air (Gap_set_data bs) = Some mkh_protocol_connect_telegram))"
proof -
  let ?s = "s\<lparr>mkh_device_transitioning := (mkh_device_transitioning s)[d := True],
             mkh_pending_off_services := (mkh_pending_off_services s)[d := 0]\<rparr>"
  have sh: "bc_shape ?s" using assms(1) by (auto simp: bc_ok_def bc_shape_def)
  have len: "length (mkh_device_active s) = 3" "length (mkh_pending_off_services s) = 3"
    "length (mkh_device_transitioning s) = 3" "length (mkh_hub_broadcasting s) = 3"
    using assms(1) by (auto simp: bc_ok_def bc_shape_def)
  have ct: "length mkh_protocol_connect_telegram = 8"
    by (simp add: mkh_protocol_connect_telegram_def kTelegramConnect_def)
  let ?P = "\<lambda>t. bc_ok t \<and> mkh_device_active t = (mkh_device_active s)[d := True] \<and>
          mkh_pending_off_services t = (mkh_pending_off_services s)[d := 0] \<and>
          mkh_hub_broadcasting t = (mkh_hub_broadcasting s)[d := True] \<and>
          mkh_channel_value t = (mkh_channel_value s)[d := mkh_neutral_channels] \<and>
          mkh_time_slice_last_device t = mkh_time_slice_last_device s \<and>
          mkh_advertising_started t = mkh_advertising_started s \<and>
          (\<exists>bs. gap_calls t = gap_calls s @ [Gap_set_data bs] \<and>
                on_air (Gap_set_data bs) = Some mkh_protocol_connect_telegram)"
  let ?fin = "\<lambda>s2. s2\<lparr>mkh_device_active := (mkh_device_active s2)[d := True],
      mkh_hub_broadcasting := (mkh_hub_broadcasting s2)[d := True],
      mkh_device_transitioning := (mkh_device_transitioning s2)[d := False]\<rparr>"
  have fin: "?P (?fin s2) \<and> length (mkh_device_active s2) = 3 \<and> length (mkh_hub_broadcasting s2) = 3 \<and>
      length (mkh_device_transitioning s2) = 3"
    if u: "bc_shape s1" "chan_upd ?s ((mkh_channel_value s)[d := mkh_neutral_channels]) s1"
      and st: "staged s1 mkh_protocol_connect_telegram s2" for s1 s2
  proof -
    note f = chan_upd_fields [OF u(2)]
    obtain buf bs where s2: "s2 = s1\<lparr>mkh_adv_buf := buf, gap_calls := gap_calls s1 @ [Gap_set_data bs]\<rparr>"
      "length buf = 27" "hub_decode (List.drop 7 bs) = Some mkh_protocol_connect_telegram"
      by (rule stagedE [OF st])
    have "pend_ok (?fin s2) k" if "k < 3" for k
      using assms(1,2) that len by (auto simp: s2 f pend_ok_def bc_ok_def nth_list_update)
    moreover have "bc_shape (?fin s2)" using u(1) s2(2) assms(2) by (auto simp: s2(1) bc_shape_def)
    ultimately show ?thesis using assms(1) s2(3) len by (auto simp: bc_ok_def s2(1) f)
  qed
  have st: "succeeds (mkh_set_adv_payload (encrypted mkh_protocol_connect_telegram 18) s1)
      (staged s1 mkh_protocol_connect_telegram)" if "bc_shape s1" for s1
    by (rule set_adv_staged) (use that ct in \<open>auto simp: bc_shape_def\<close>)
  have "succeeds (command_neutral (int d) clock ?s) (\<lambda>s1. bc_shape s1 \<and> chan_upd ?s ((mkh_channel_value s)[d := mkh_neutral_channels]) s1)"
    using command_neutral_effect [OF sh, of "int d" clock] assms(2) by simp
  then have "succeeds (command_neutral (int d) clock ?s)
     (\<lambda>s1. succeeds (mkh_set_adv_payload (encrypted mkh_protocol_connect_telegram 18) s1)
       (\<lambda>s2. ?P (?fin s2) \<and> length (mkh_device_active s2) = 3 \<and> length (mkh_hub_broadcasting s2) = 3 \<and>
      length (mkh_device_transitioning s2) = 3))"
    by (rule succeeds_mono) (elim conjE, rule succeeds_mono [OF st], assumption, rule fin)
  moreover have "\<not> (mkh_device_active s ! d \<and> mkh_pending_off_services s ! d = 0)" by (rule assms(3))
  ultimately show ?thesis
    using assms(2) len
    by (simp add: mkh_broadcast_toggle_on_def mk1_defs del: split_paired_Ex)
       (erule succeeds_mono, erule succeeds_mono, auto)
qed


lemma start_effect:
  assumes "bc_shape s"
  shows "succeeds (mkh_start s)
     (\<lambda>t. bc_shape t \<and> mkh_broadcast_timer t = Some mkh_connect_phase_ms \<and>
          mkh_advertising_started t = mkh_advertising_started s \<and> (\<forall>d. pend_ok t d = pend_ok s d) \<and>
          mkh_channel_value t = mkh_channel_value s \<and> mkh_device_active t = mkh_device_active s \<and>
          mkh_pending_off_services t = mkh_pending_off_services s \<and>
          (\<exists>par bs. gap_calls t = gap_calls s @ [par, Gap_set_data bs, Gap_enable True] \<and> (\<forall>bs. par \<noteq> Gap_set_data bs) \<and>
                  on_air (Gap_set_data bs) = Some mkh_protocol_connect_telegram))"
proof -
  let ?par = "Gap_set_params mkh_adv_interval_units mkh_adv_interval_units mkh_adv_type_nonconn_ind 0 (replicate 6 0) 0x07 0"
  let ?s = "s\<lparr>gap_calls := gap_calls s @ [?par]\<rparr>"
  have ct: "length mkh_protocol_connect_telegram = 8"
    by (simp add: mkh_protocol_connect_telegram_def kTelegramConnect_def)
  have "succeeds (mkh_set_adv_payload (encrypted mkh_protocol_connect_telegram 18) ?s) (staged ?s mkh_protocol_connect_telegram)"
    by (rule set_adv_staged) (use assms ct in \<open>auto simp: bc_shape_def\<close>)
  then show ?thesis
    unfolding mkh_start_def mkh_broadcast_connect_def mkh_payload_connect_len_def succeeds_simps
    by (rule succeeds_mono) (use assms in \<open>auto elim!: stagedE simp: bc_shape_def pend_ok_def\<close>)
qed

text \<open>An HCI packet carries the parameters its event code announces.\<close>

definition hci_wf :: "u8 \<Rightarrow> u8 list \<Rightarrow> bool" where
  "hci_wf packet_type packet \<longleftrightarrow>
     (packet_type = 0x04 \<longrightarrow> 0 < length packet \<and>
        (packet ! 0 = 0x60 \<longrightarrow> 3 \<le> length packet) \<and> (packet ! 0 = 0x3E \<longrightarrow> 3 \<le> length packet) \<and>
        (packet ! 0 = 0x0E \<longrightarrow> 6 \<le> length packet))"

definition err_only :: "bc_state \<Rightarrow> bc_state \<Rightarrow> bool" where
  "err_only s t \<longleftrightarrow> t\<lparr>gap_errors := []\<rparr> = s\<lparr>gap_errors := []\<rparr>"

lemma check_command_complete_effect:
  assumes "6 \<le> length packet"
  shows "succeeds (mkh_check_command_complete packet s) (err_only s)"
proof -
  have "3 < length packet" "4 < length packet" "5 < length packet" using assms by auto
  then show ?thesis
    by (auto simp: mkh_check_command_complete_def Let_def err_only_def)
qed

lemma err_only_ok: "err_only s t \<Longrightarrow> bc_ok s \<Longrightarrow> bc_ok t"
proof -
  assume a: "err_only s t" "bc_ok s"
  have "bc_ok (r\<lparr>gap_errors := []\<rparr>) = bc_ok r" for r :: bc_state
    by (simp add: bc_ok_def bc_shape_def pend_ok_def)
  with a show "bc_ok t" by (metis err_only_def)
qed

lemma err_only_calls: "err_only s t \<Longrightarrow> gap_calls t = gap_calls s"
proof -
  assume a: "err_only s t"
  have "gap_calls (r\<lparr>gap_errors := []\<rparr>) = gap_calls r" for r :: bc_state by simp
  with a show ?thesis by (metis err_only_def)
qed

lemma start_shape: "bc_ok s \<Longrightarrow> bc_shape (s\<lparr>mkh_advertising_started := True\<rparr>)"
  by (simp add: bc_ok_def bc_shape_def)

lemma start_pend: "pend_ok (s\<lparr>mkh_advertising_started := b\<rparr>) d = pend_ok s d"
  by (simp add: pend_ok_def)

lemma packet_handler_ok:
  assumes "bc_ok s" "hci_wf ty packet"
  shows "succeeds (mkh_broadcast_packet_handler ty packet s) bc_ok"
proof -
  have re: "bc_ok (reassert_enable s)" using assms(1) by (simp add: reassert_enable_def bc_ok_def bc_shape_def pend_ok_def)
  have st: "succeeds (mkh_start (s\<lparr>mkh_advertising_started := True\<rparr>)) bc_ok"
    by (rule succeeds_mono [OF start_effect [OF start_shape [OF assms(1)]]])
       (use assms(1) in \<open>simp add: bc_ok_def start_pend\<close>)
  have cc: "succeeds (mkh_check_command_complete packet s) bc_ok" if "6 \<le> length packet"
    by (rule succeeds_mono [OF check_command_complete_effect [OF that]]) (rule err_only_ok [OF _ assms(1)])
  show ?thesis
    using assms re st cc by (auto simp: mkh_broadcast_packet_handler_def hci_wf_def)
qed

lemma init_ok: "bc_ok (mkh_broadcast_init bc_boot)"
proof -
  have l: "[0..2] = [0, 1, 2::int]" by (simp add: upto.simps)
  show ?thesis
    by (simp add: bc_ok_def bc_shape_def pend_ok_def mkh_broadcast_init_def bc_boot_def mk1_defs l
        mkh_neutral_channels_def nth_Cons' numeral_3_eq_3 less_Suc_eq numeral_2_eq_2)
qed

lemma control_ok:
  assumes "bc_ok s" "mkh_advertising_started s"
  shows "succeeds (mkh_broadcast_control s) bc_ok"
proof -
  have sh: "bc_shape s" "\<forall>d<3. pend_ok s d" using assms(1) by (auto simp: bc_ok_def)
  show ?thesis
  proof (rule next_dev_cases [OF sh(1)])
    assume "next_dev s = -1"
    then show ?thesis using assms sh(1) by (simp add: control_idle bc_ok_def bc_shape_def pend_ok_def)
  next
    fix d assume "next_dev s = int d" "d < 2" "mkh_device_active s ! d"
    then show ?thesis
      using succeeds_mono [OF control_service [OF sh]] serviced_ok [OF _ sh assms(2)] by blast
  qed
qed


section \<open>Interleavings\<close>

text \<open>
  The broadcaster is driven by the API calls of the application task, by its timer, by the
  callbacks queued on the run loop and by HCI events. An event is one uninterrupted call; a
  run is any sequence of events whose guard holds.
\<close>

datatype bc_event =
    Set_channel int int u8 int
  | Toggle_off int "int \<Rightarrow> int"
  | Toggle_on int "int \<Rightarrow> int"
  | Timer_fires
  | Run_callback
  | Hci_packet u8 "u8 list"

fun bc_enabled :: "bc_state \<Rightarrow> bc_event \<Rightarrow> bool" where
  "bc_enabled s Timer_fires = (mkh_broadcast_timer s \<noteq> None)"
| "bc_enabled s Run_callback = (main_thread_queue s \<noteq> [])"
| "bc_enabled s (Hci_packet ty p) = hci_wf ty p"
| "bc_enabled s _ = True"

inductive bc_step :: "bc_state \<Rightarrow> bc_event \<Rightarrow> bc_state \<Rightarrow> bool" where
  step_set: "mkh_set_channel d p v now s = Some t \<Longrightarrow> bc_step s (Set_channel d p v now) t"
| step_off: "mkh_broadcast_toggle_off d clock s = Some t \<Longrightarrow> bc_step s (Toggle_off d clock) t"
| step_on: "mkh_broadcast_toggle_on d clock s = Some t \<Longrightarrow> bc_step s (Toggle_on d clock) t"
| step_timer: "mkh_broadcast_timer s = Some ms \<Longrightarrow> mkh_broadcast_control s = Some t \<Longrightarrow> bc_step s Timer_fires t"
| step_callback: "main_thread_queue s = d # q \<Longrightarrow>
    mkh_event_send_callback d (s\<lparr>main_thread_queue := q\<rparr>) = Some t \<Longrightarrow> bc_step s Run_callback t"
| step_hci: "hci_wf ty p \<Longrightarrow> mkh_broadcast_packet_handler ty p s = Some t \<Longrightarrow> bc_step s (Hci_packet ty p) t"

inductive_cases bc_stepE: "bc_step s e t"

inductive bc_run :: "bc_state \<Rightarrow> bc_event list \<Rightarrow> bc_state \<Rightarrow> bool" where
  run_nil: "bc_run s [] s"
| run_snoc: "bc_run s es t \<Longrightarrow> bc_step t e u \<Longrightarrow> bc_run s (es @ [e]) u"

abbreviation bc_start :: bc_state where
  "bc_start \<equiv> mkh_broadcast_init bc_boot"

lemma queue_head:
  assumes "bc_ok s" "main_thread_queue s = d # q"
  shows "bc_ok (s\<lparr>main_thread_queue := q\<rparr>)" "d = 0 \<or> d = 1"
  using assms by (auto simp: bc_ok_def bc_shape_def pend_ok_def)

lemma callback_at:
  assumes "bc_ok s" "main_thread_queue s = d # q"
  shows "succeeds (mkh_event_send_callback d (s\<lparr>main_thread_queue := q\<rparr>)) bc_ok"
  using queue_head [OF assms] callback_ok [of "s\<lparr>main_thread_queue := q\<rparr>" 0] callback_ok [of "s\<lparr>main_thread_queue := q\<rparr>" 1]
  by auto

lemma toggle_on_ok: "bc_ok s \<Longrightarrow> succeeds (mkh_broadcast_toggle_on d clock s) bc_ok"
proof -
  assume ok: "bc_ok s"
  show ?thesis
  proof (cases "0 \<le> d \<and> d < 3")
    case True
    then have n: "nat d < 3" "int (nat d) = d" by auto
    have sh: "bc_shape s" using ok by (simp add: bc_ok_def)
    show ?thesis
    proof (cases "nat d = 2 \<or> mkh_device_active s ! nat d \<and> mkh_pending_off_services s ! nat d = 0")
      case True
      then show ?thesis using toggle_on_idempotent [OF sh n(1) True, of clock] ok n by simp
    next
      case False
      then have "nat d < 2" using n by auto
      with toggle_on_effect [OF ok this, of clock] False n show ?thesis
        by (auto intro: succeeds_mono)
    qed
  next
    case False
    then show ?thesis using toggle_invalid(2) [OF False] ok by simp
  qed
qed

lemma bc_ok_timer: "bc_ok s \<Longrightarrow> mkh_broadcast_timer s = Some ms \<Longrightarrow> mkh_advertising_started s"
  by (simp add: bc_ok_def)

lemma bc_step_ok: "bc_step s e t \<Longrightarrow> bc_ok s \<Longrightarrow> bc_ok t"
  by (erule bc_stepE)
     (auto dest: succeedsD [OF set_channel_ok] succeedsD [OF toggle_off_ok] succeedsD [OF toggle_on_ok]
        succeedsD [OF callback_at] succeedsD [OF packet_handler_ok] succeedsD [OF control_ok] bc_ok_timer)

lemma bc_run_ok: "bc_run s es t \<Longrightarrow> bc_ok s \<Longrightarrow> bc_ok t"
  by (induction rule: bc_run.induct) (auto dest: bc_step_ok)

lemma bc_run_start_ok: "bc_run bc_start es s \<Longrightarrow> bc_ok s"
  by (rule bc_run_ok [OF _ init_ok])

lemma bc_progress_ok:
  assumes "bc_ok s" "bc_enabled s e"
  shows "\<exists>t. bc_step s e t"
proof (cases e)
  case (Set_channel d p v now)
  then show ?thesis using set_channel_ok [OF assms(1), of d p v now] by (auto elim!: succeedsE intro: bc_step.intros)
next
  case (Toggle_off d clock)
  then show ?thesis using toggle_off_ok [OF assms(1), of d clock] by (auto elim!: succeedsE intro: bc_step.intros)
next
  case (Toggle_on d clock)
  then show ?thesis using toggle_on_ok [OF assms(1), of d clock] by (auto elim!: succeedsE intro: bc_step.intros)
next
  case Timer_fires
  then show ?thesis
    using assms control_ok [OF assms(1)] bc_ok_timer [OF assms(1)] by (auto elim!: succeedsE intro: bc_step.intros)
next
  case Run_callback
  then obtain d q where "main_thread_queue s = d # q" using assms(2) by (cases "main_thread_queue s") auto
  with Run_callback show ?thesis using callback_at [OF assms(1), of d q] by (auto elim!: succeedsE intro: bc_step.intros)
next
  case (Hci_packet ty p)
  then show ?thesis using packet_handler_ok [OF assms(1), of ty p] assms(2) by (auto elim!: succeedsE intro: bc_step.intros)
qed

section \<open>What goes on air\<close>

lemma control_frame_inj:
  assumes "control_frame d vs = control_frame d' vs'" "0 \<le> d" "d < 3" "0 \<le> d'" "d' < 3"
  shows "d = d' \<and> vs = vs'"
proof -
  have "d \<in> {0, 1, 2}" "d' \<in> {0, 1, 2}" using assms by auto
  then show ?thesis using assms(1) by (auto simp: control_frame_def)
qed

lemma connect_not_control: "0 \<le> d \<Longrightarrow> d < 3 \<Longrightarrow> mkh_protocol_connect_telegram \<noteq> control_frame d vs"
proof -
  assume "0 \<le> d" "d < 3"
  then have "d \<in> {0, 1, 2}" by auto
  then show ?thesis by (auto simp: control_frame_def mkh_protocol_connect_telegram_def kTelegramConnect_def)
qed

text \<open>The GAP calls one event adds: no advertising data, CONNECT, or the CONTROL telegram of device 0
  or 1 with the channel values of that moment.\<close>

definition air_ok :: "bc_state \<Rightarrow> gap_call \<Rightarrow> bool" where
  "air_ok s c \<longleftrightarrow> (\<forall>bs. c \<noteq> Gap_set_data bs) \<or> on_air c = Some mkh_protocol_connect_telegram \<or>
     (\<exists>d<2. on_air c = Some (control_frame (int d) (mkh_channel_value s ! d)))"

definition airs :: "bc_state \<Rightarrow> bc_state \<Rightarrow> gap_call list \<Rightarrow> bool" where
  "airs s t new \<longleftrightarrow> gap_calls t = gap_calls s @ new \<and> (\<forall>c\<in>set new. air_ok t c)"

lemma set_channel_airs:
  "bc_ok s \<Longrightarrow> succeeds (mkh_set_channel d p v now s) (\<lambda>t. airs s t [])"
  by (rule succeeds_mono [OF set_channel_effect]) (auto simp: bc_ok_def airs_def chan_upd_fields)

lemma toggle_off_airs:
  assumes "bc_ok s"
  shows "succeeds (mkh_broadcast_toggle_off d clock s) (\<lambda>t. airs s t [])"
proof (cases "0 \<le> d \<and> d < 3")
  case False
  then show ?thesis using toggle_invalid(1) [OF False] by (simp add: airs_def)
next
  case True
  then have n: "nat d < 3" "int (nat d) = d" by auto
  have sh: "bc_shape s" and pd: "pend_ok s (nat d)" using assms n(1) by (auto simp: bc_ok_def)
  show ?thesis
  proof (cases "mkh_device_active s ! nat d \<and> mkh_pending_off_services s ! nat d = 0")
    case True
    have "succeeds (mkh_broadcast_toggle_off (int (nat d)) clock s) (\<lambda>t. airs s t [])"
      by (rule succeeds_mono [OF toggle_off_effect]) (use sh n(1) True in \<open>auto simp: airs_def chan_upd_fields\<close>)
    then show ?thesis using n(2) by simp
  next
    case False
    then show ?thesis
      using toggle_off_idempotent [OF sh n(1), of clock] n(2) pd by (auto simp: airs_def pend_ok_def)
  qed
qed

lemma toggle_on_airs:
  assumes "bc_ok s"
  shows "succeeds (mkh_broadcast_toggle_on d clock s) (\<lambda>t. \<exists>new. airs s t new)"
proof (cases "0 \<le> d \<and> d < 3")
  case False
  then show ?thesis using toggle_invalid(2) [OF False] by (auto simp: airs_def intro!: exI [of _ "[]"])
next
  case True
  then have n: "nat d < 3" "int (nat d) = d" by auto
  have sh: "bc_shape s" using assms by (simp add: bc_ok_def)
  show ?thesis
  proof (cases "nat d = 2 \<or> mkh_device_active s ! nat d \<and> mkh_pending_off_services s ! nat d = 0")
    case True
    then show ?thesis
      using toggle_on_idempotent [OF sh n(1) True, of clock] n(2) by (auto simp: airs_def intro!: exI [of _ "[]"])
  next
    case False
    then have "nat d < 2" using n by auto
    with toggle_on_effect [OF assms this, of clock] False n(2) show ?thesis
      by (auto elim!: succeeds_mono simp: airs_def air_ok_def)
  qed
qed

lemma control_airs:
  assumes "bc_ok s" "mkh_advertising_started s"
  shows "succeeds (mkh_broadcast_control s) (\<lambda>t. \<exists>new. airs s t new)"
proof -
  have sh: "bc_shape s" "\<forall>d<3. pend_ok s d" using assms(1) by (auto simp: bc_ok_def)
  show ?thesis
  proof (rule next_dev_cases [OF sh(1)])
    assume "next_dev s = -1"
    then show ?thesis using sh(1) by (auto simp: control_idle airs_def intro!: exI [of _ "[]"])
  next
    fix d assume d: "next_dev s = int d" "d < 2" "mkh_device_active s ! d"
    show ?thesis
      by (rule succeeds_mono [OF control_service [OF sh d]], frule serviced_fields(14))
         (use d(2) in \<open>auto simp: airs_def air_ok_def serviced_fields(1)\<close>)
  qed
qed

lemma callback_airs:
  assumes "bc_ok s" "main_thread_queue s = d # q"
  shows "succeeds (mkh_event_send_callback d (s\<lparr>main_thread_queue := q\<rparr>)) (\<lambda>t. \<exists>new. airs s t new)"
proof -
  obtain k where k: "d = int k" "k < 2" using queue_head(2) [OF assms] by (auto intro: that [of 0] that [of 1])
  have "bc_shape (s\<lparr>main_thread_queue := q\<rparr>)" using queue_head(1) [OF assms] by (simp add: bc_ok_def)
  from callback_effect [OF this k(2)] show ?thesis
    unfolding k(1) by (rule succeeds_mono) (use k(2) in \<open>auto simp: airs_def air_ok_def elim!: stagedE\<close>)
qed

lemma packet_handler_airs:
  assumes "bc_ok s" "hci_wf ty packet"
  shows "succeeds (mkh_broadcast_packet_handler ty packet s) (\<lambda>t. \<exists>new. airs s t new)"
proof -
  have re: "\<exists>new. airs s (reassert_enable s) new"
    by (auto simp: reassert_enable_def airs_def air_ok_def)
  have id: "\<exists>new. airs s s new" by (auto simp: airs_def intro!: exI [of _ "[]"])
  have st: "succeeds (mkh_start (s\<lparr>mkh_advertising_started := True\<rparr>)) (\<lambda>t. \<exists>new. airs s t new)"
    by (rule succeeds_mono [OF start_effect [OF start_shape [OF assms(1)]]])
       (auto simp: airs_def air_ok_def)
  have cc: "succeeds (mkh_check_command_complete packet s) (\<lambda>t. \<exists>new. airs s t new)" if "6 \<le> length packet"
    by (rule succeeds_mono [OF check_command_complete_effect [OF that]])
       (auto simp: airs_def err_only_calls intro!: exI [of _ "[]"])
  show ?thesis
    using assms re st cc id by (auto simp: mkh_broadcast_packet_handler_def hci_wf_def)
qed

lemma bc_step_airs: "bc_step s e t \<Longrightarrow> bc_ok s \<Longrightarrow> \<exists>new. airs s t new"
  by (erule bc_stepE)
     (auto dest: succeedsD [OF set_channel_airs] succeedsD [OF toggle_off_airs] succeedsD [OF toggle_on_airs]
        succeedsD [OF callback_airs] succeedsD [OF packet_handler_airs] succeedsD [OF control_airs] bc_ok_timer)


section \<open>Properties\<close>

text \<open>C5: No interleaving of API calls with arbitrary device and port numbers, timer expiries, queued
  callbacks and well-formed HCI events makes the broadcaster index outside its arrays: in every
  reachable state every enabled event completes.\<close>

theorem broadcast_memory_safe:
  assumes "bc_run bc_start es s" "bc_enabled s e"
  shows "\<exists>t. bc_step s e t"
  using assms by (intro bc_progress_ok bc_run_start_ok)

theorem broadcast_memory_safe_witness: "\<exists>t. bc_step bc_start (Set_channel (-7) 99 0xFF 5) t"
  by (rule broadcast_memory_safe [OF run_nil]) simp

text \<open>C4: In every reachable state the parked third hub is not active, a hub in transition is exactly
  one with a pending OFF countdown of one to three services and is still in the rotation, and the
  CONTROL timer is armed exactly when advertising has started.\<close>

theorem broadcast_invariant:
  assumes "bc_run bc_start es s" "d < 3"
  shows "\<not> mkh_device_active s ! 2 \<and>
     mkh_broadcast_is_transitioning (int d) s = Some (0 < mkh_pending_off_services s ! d) \<and>
     (0 < mkh_pending_off_services s ! d \<longrightarrow> mkh_pending_off_services s ! d \<le> 3 \<and> mkh_device_active s ! d) \<and>
     (mkh_broadcast_timer s \<noteq> None \<longleftrightarrow> mkh_advertising_started s)"
  using bc_run_start_ok [OF assms(1)] assms(2)
  by (auto simp: bc_ok_def bc_shape_def pend_ok_def mkh_broadcast_is_transitioning_def mk1_defs arr_get_def)

theorem broadcast_invariant_witness:
  "\<not> mkh_device_active bc_start ! 2 \<and>
   mkh_broadcast_is_transitioning 1 bc_start = Some (0 < mkh_pending_off_services bc_start ! 1)"
  using broadcast_invariant [OF run_nil, of 1] by simp

text \<open>The telegrams the receiver can be shown.\<close>

definition known_telegram :: "u8 list \<Rightarrow> bool" where
  "known_telegram tel \<longleftrightarrow> tel = mkh_protocol_connect_telegram \<or>
     (\<exists>d vs. (d = 0 \<or> d = 1) \<and> length vs = 6 \<and> tel = control_frame d vs)"

lemma airs_known:
  assumes "airs s t new" "bc_ok t" "Gap_set_data bs \<in> set new"
  shows "\<exists>tel. on_air (Gap_set_data bs) = Some tel \<and> known_telegram tel"
proof -
  from assms(1,3) have "air_ok t (Gap_set_data bs)" by (auto simp: airs_def)
  moreover have "length (mkh_channel_value t ! d) = 6" if "d < 2" for d
    using assms(2) that by (auto simp: bc_ok_def bc_shape_def)
  ultimately show ?thesis
    unfolding air_ok_def known_telegram_def less_2_cases_iff
    by (elim disjE exE conjE) (force simp del: on_air.simps)+
qed

lemma run_airs: "bc_run s es t \<Longrightarrow> bc_ok s \<Longrightarrow> \<exists>new. gap_calls t = gap_calls s @ new \<and>
   (\<forall>bs. Gap_set_data bs \<in> set new \<longrightarrow> (\<exists>tel. on_air (Gap_set_data bs) = Some tel \<and> known_telegram tel))"
proof (induction rule: bc_run.induct)
  case (run_snoc s es t e u)
  then obtain new1 where 1: "gap_calls t = gap_calls s @ new1"
    "\<forall>bs. Gap_set_data bs \<in> set new1 \<longrightarrow> (\<exists>tel. on_air (Gap_set_data bs) = Some tel \<and> known_telegram tel)" by blast
  have ok: "bc_ok t" "bc_ok u"
    using bc_run_ok [OF run_snoc.hyps(1) run_snoc.prems] bc_step_ok [OF run_snoc.hyps(2)] by simp_all
  obtain new2 where new2: "airs t u new2" using bc_step_airs [OF run_snoc.hyps(2) ok(1)] by blast
  have "gap_calls u = gap_calls s @ new1 @ new2" using 1(1) new2 by (simp add: airs_def)
  moreover have "\<exists>tel. on_air (Gap_set_data bs) = Some tel \<and> known_telegram tel"
    if "Gap_set_data bs \<in> set (new1 @ new2)" for bs
    using that 1(2) airs_known [OF new2 ok(2)] by (auto simp del: on_air.simps)
  ultimately show ?case by blast
qed simp

text \<open>C3: Whatever happens, the only telegrams ever put on air are CONNECT and well-formed CONTROL
  telegrams of hubs 1 and 2: all advertising data decodes at the receiver, the parked third hub is
  never addressed and no other bytes leave.\<close>

theorem only_known_telegrams_aired:
  assumes "bc_run bc_start es s" "Gap_set_data bs \<in> set (gap_calls s)"
  shows "on_air (Gap_set_data bs) = Some mkh_protocol_connect_telegram \<or>
         (\<exists>d vs. (d = 0 \<or> d = 1) \<and> length vs = 6 \<and> on_air (Gap_set_data bs) = Some (control_frame d vs))"
proof -
  have "gap_calls bc_start = []" by (simp add: mkh_broadcast_init_def bc_boot_def)
  then show ?thesis
    using run_airs [OF assms(1) init_ok] assms(2) unfolding known_telegram_def by (fastforce simp del: on_air.simps)
qed

subsection \<open>Round robin\<close>

lemma timer_service:
  assumes "bc_ok s" "bc_step s Timer_fires t"
  obtains "next_dev s = -1" "t = s\<lparr>mkh_broadcast_timer := Some mkh_control_repeat_ms\<rparr>"
      "\<And>d. d < 3 \<Longrightarrow> \<not> mkh_device_active s ! d"
    | d where "next_dev s = int d" "d < 2" "mkh_device_active s ! d" "serviced d s t"
proof -
  have c: "mkh_broadcast_control s = Some t" using assms(2) by (auto elim: bc_stepE)
  have sh: "bc_shape s" "\<forall>d<3. pend_ok s d" using assms(1) by (auto simp: bc_ok_def)
  show ?thesis
  proof (rule next_dev_cases [OF sh(1)])
    assume n: "next_dev s = -1" "\<And>d. d < 3 \<Longrightarrow> \<not> mkh_device_active s ! d"
    then show ?thesis using c control_idle [OF sh(1) n(1)] by (intro that(1)) auto
  next
    fix d assume d: "next_dev s = int d" "d < 2" "mkh_device_active s ! d"
    then show ?thesis using that(2) succeedsD [OF control_service [OF sh d] c] by blast
  qed
qed

lemma serviced_other:
  assumes "serviced d s t" "k \<noteq> d"
  shows "mkh_device_active t ! k = mkh_device_active s ! k"
    "mkh_pending_off_services t ! k = mkh_pending_off_services s ! k"
  using assms by (simp_all add: serviced_fields)

lemma next_dev_fair:
  assumes "bc_shape s" "d < 2" "mkh_device_active s ! d" "next_dev s = int e"
    "mkh_time_slice_last_device t = int e" "e \<noteq> d" "e < 2" "mkh_device_active t ! d" "bc_shape t"
  shows "next_dev t = int d"
  using assms by (auto simp: next_dev_def active_dev_def less_2_cases_iff)

text \<open>C10: The rotation is fair: from any reachable state, an active hub is serviced by one of the next
  two CONTROL cycles, whatever the other hub does, and the telegram staged then decodes to its
  channel values.\<close>

theorem round_robin_fair:
  assumes "bc_run bc_start es s" "d < 2" "mkh_device_active s ! d"
    and "bc_step s Timer_fires t" "bc_step t Timer_fires u"
  shows "(\<exists>c. gap_calls t = gap_calls s @ [c] \<and> on_air c = Some (control_frame (int d) (mkh_channel_value s ! d))) \<or>
         (\<exists>c. gap_calls u = gap_calls t @ [c] \<and> on_air c = Some (control_frame (int d) (mkh_channel_value s ! d)))"
proof -
  have ok: "bc_ok s" "bc_ok t"
    using bc_run_start_ok [OF assms(1)] bc_step_ok [OF assms(4)] by auto
  obtain e where e: "next_dev s = int e" "e < 2" "serviced e s t"
    by (rule timer_service [OF ok(1) assms(4)]) (use assms(2,3) in auto)
  show ?thesis
  proof (cases "e = d")
    case True
    then show ?thesis using serviced_fields(14) [OF e(3)] by auto
  next
    case False
    have act: "mkh_device_active t ! d" using serviced_other(1) [OF e(3)] False assms(3) by simp
    have nd: "next_dev t = int d"
      by (rule next_dev_fair [OF _ assms(2,3) e(1)])
         (use ok e False act in \<open>auto simp: bc_ok_def serviced_fields\<close>)
    have "serviced d t u"
      by (rule timer_service [OF ok(2) assms(5)]) (use nd in simp_all)
    then show ?thesis using serviced_fields(14) [of d t u] serviced_fields(1) [OF e(3)] by auto
  qed
qed

lemma started_step_exists:
  assumes "bc_ok s" "mkh_advertising_started s"
  obtains t where "bc_step s Timer_fires t" "bc_ok t" "mkh_advertising_started t"
proof -
  obtain t where t: "bc_step s Timer_fires t"
    using bc_progress_ok [OF assms(1), of Timer_fires] assms by (auto simp: bc_ok_def)
  moreover have ok: "bc_ok t" by (rule bc_step_ok [OF t assms(1)])
  moreover have "mkh_broadcast_timer t \<noteq> None"
    by (rule timer_service [OF assms(1) t]) (simp_all add: serviced_fields(10))
  ultimately show ?thesis using that by (auto simp: bc_ok_def)
qed

lemma working_event:
  obtains t where "bc_run bc_start [Hci_packet 0x04 [0x60, 1, 2]] t" "mkh_advertising_started t"
    "mkh_device_active t = [True, True, False]" "bc_ok t"
    "mkh_channel_value t = replicate 3 mkh_neutral_channels" "mkh_pending_off_services t = [0, 0, 0]"
proof -
  have sh: "bc_shape (bc_start\<lparr>mkh_advertising_started := True\<rparr>)" by (rule start_shape [OF init_ok])
  obtain t where t: "mkh_start (bc_start\<lparr>mkh_advertising_started := True\<rparr>) = Some t"
    "mkh_advertising_started t" "mkh_device_active t = mkh_device_active bc_start"
    "mkh_channel_value t = mkh_channel_value bc_start"
    "mkh_pending_off_services t = mkh_pending_off_services bc_start"
    using start_effect [OF sh] by (auto elim!: succeedsE)
  have ns: "\<not> mkh_advertising_started bc_start" by (simp add: mkh_broadcast_init_def bc_boot_def)
  have st: "bc_step bc_start (Hci_packet 0x04 [0x60, 1, 2]) t"
    using ns t(1) by (intro step_hci) (simp_all add: hci_wf_def mkh_broadcast_packet_handler_def arr_get_def)
  have l: "[0..2] = [0, 1, 2::int]" by (simp add: upto.simps)
  show ?thesis
    using that [of t] run_snoc [OF run_nil st] bc_step_ok [OF st init_ok] t
    by (simp add: mkh_broadcast_init_def bc_boot_def mk1_defs l)
qed

theorem only_known_telegrams_aired_witness:
  "\<exists>s t bs. bc_step s Timer_fires t \<and> Gap_set_data bs \<in> set (gap_calls t) \<and>
    (on_air (Gap_set_data bs) = Some mkh_protocol_connect_telegram \<or>
         (\<exists>d vs. (d = 0 \<or> d = 1) \<and> length vs = 6 \<and> on_air (Gap_set_data bs) = Some (control_frame d vs)))"
proof -
  obtain s where s: "bc_run bc_start [Hci_packet 0x04 [0x60, 1, 2]] s" "mkh_advertising_started s"
    "mkh_device_active s = [True, True, False]" "bc_ok s" by (rule working_event)
  obtain t where t: "bc_step s Timer_fires t" "bc_ok t" "mkh_advertising_started t"
    by (rule started_step_exists [OF s(4,2)])
  have run: "bc_run bc_start ([Hci_packet 0x04 [0x60, 1, 2]] @ [Timer_fires]) t" by (rule run_snoc [OF s(1) t(1)])
  obtain bs where bs: "Gap_set_data bs \<in> set (gap_calls t)"
  proof (rule timer_service [OF s(4) t(1)])
    assume "\<And>d. d < 3 \<Longrightarrow> \<not> mkh_device_active s ! d"
    then have "\<not> mkh_device_active s ! 0" by simp
    then show ?thesis using s(3) by simp
  next
    fix d assume "serviced d s t"
    then obtain bs where "gap_calls t = gap_calls s @ [Gap_set_data bs]" using serviced_fields(14) by blast
    then show ?thesis by (intro that [of bs]) simp
  qed
  show ?thesis using t(1) bs only_known_telegrams_aired [OF run bs] by blast
qed

theorem round_robin_fair_witness:
  "\<exists>s t u. bc_step s Timer_fires t \<and> bc_step t Timer_fires u \<and>
    ((\<exists>c. gap_calls t = gap_calls s @ [c] \<and> on_air c = Some (control_frame 1 (mkh_channel_value s ! 1))) \<or>
     (\<exists>c. gap_calls u = gap_calls t @ [c] \<and> on_air c = Some (control_frame 1 (mkh_channel_value s ! 1))))"
proof -
  obtain s where s: "bc_run bc_start [Hci_packet 0x04 [0x60, 1, 2]] s" "mkh_advertising_started s"
    "mkh_device_active s = [True, True, False]" "bc_ok s" by (rule working_event)
  obtain t where t: "bc_step s Timer_fires t" "bc_ok t" "mkh_advertising_started t"
    by (rule started_step_exists [OF s(4,2)])
  obtain u where u: "bc_step t Timer_fires u" by (rule started_step_exists [OF t(2,3)])
  have "(\<exists>c. gap_calls t = gap_calls s @ [c] \<and> on_air c = Some (control_frame 1 (mkh_channel_value s ! 1))) \<or>
     (\<exists>c. gap_calls u = gap_calls t @ [c] \<and> on_air c = Some (control_frame 1 (mkh_channel_value s ! 1)))"
    using round_robin_fair [OF s(1) _ _ t(1) u, of 1] s(3) by simp
  with t(1) u show ?thesis by blast
qed

end
