(* ===== verification/Broadcast_Fair.thy ===== *)
theory Broadcast_Fair
  imports Broadcast_Laws
begin

text \<open>
  What a hub hears during a run of the broadcaster with arbitrary events in any order: two timer
  periods are enough for every hub of the rotation, and channels that are neutral stay so on the air
  as long as nobody commands them.
\<close>

section \<open>Every telegram shows the channel table\<close>

lemma airs_values:
  assumes "airs s t new" "d < 2" "c \<in> set new" "on_air c = Some (control_frame (int d) vs)"
  shows "vs = mkh_channel_value t ! d"
proof -
  obtain bs where bs: "c = Gap_set_data bs" using assms(4) by (auto elim!: on_air.elims)
  have "air_ok t c" using assms(1,3) by (simp add: airs_def)
  then obtain k where k: "k < 2" "control_frame (int d) vs = control_frame (int k) (mkh_channel_value t ! k)"
    using assms(4) connect_not_control [of "int d" vs] assms(2) unfolding air_ok_def bs by (auto simp del: on_air.simps)
  then show ?thesis using control_frame_inj [OF k(2)] assms(2) by auto
qed

section \<open>Commands and the rotation\<close>

text \<open>The effect of an event on the channel row of a hub and on the rotation. A toggle may only write
  neutral rows, and only the timer moves the rotation or drops a hub.\<close>

definition row_step :: "nat \<Rightarrow> bc_state \<Rightarrow> bc_state \<Rightarrow> bool" where
  "row_step d s t \<longleftrightarrow>
     (mkh_channel_value t ! d = mkh_channel_value s ! d \<or> mkh_channel_value t ! d = mkh_neutral_channels) \<and>
     (mkh_device_active s ! d \<longrightarrow> mkh_device_active t ! d) \<and>
     mkh_time_slice_last_device t = mkh_time_slice_last_device s"

lemma toggle_off_row:
  assumes "bc_ok s" "d < 2"
  shows "succeeds (mkh_broadcast_toggle_off d' clock s) (row_step d s)"
proof (cases "0 \<le> d' \<and> d' < 3")
  case True
  then have n: "nat d' < 3" "int (nat d') = d'" by auto
  have sh: "bc_shape s" and pd: "pend_ok s (nat d')" using assms(1) n(1) by (auto simp: bc_ok_def)
  have len: "length (mkh_channel_value s) = 3" using sh by (simp add: bc_shape_def)
  show ?thesis
  proof (cases "mkh_device_active s ! nat d' \<and> mkh_pending_off_services s ! nat d' = 0")
    case True
    have "succeeds (mkh_broadcast_toggle_off (int (nat d')) clock s) (row_step d s)"
      by (rule succeeds_mono [OF toggle_off_effect])
         (use sh n(1) True len assms(2) in \<open>auto simp: row_step_def chan_upd_fields nth_list_update\<close>)
    then show ?thesis by (simp only: n(2))
  next
    case False
    then show ?thesis
      using toggle_off_idempotent [OF sh n(1), of clock] n(2) pd by (auto simp: row_step_def pend_ok_def)
  qed
qed (simp add: toggle_invalid row_step_def)

lemma toggle_on_row:
  assumes "bc_ok s" "d < 2"
  shows "succeeds (mkh_broadcast_toggle_on d' clock s) (row_step d s)"
proof (cases "0 \<le> d' \<and> d' < 3")
  case True
  then have n: "nat d' < 3" "int (nat d') = d'" by auto
  have sh: "bc_shape s" using assms(1) by (simp add: bc_ok_def)
  have len: "length (mkh_channel_value s) = 3" "length (mkh_device_active s) = 3" using sh by (simp_all add: bc_shape_def)
  show ?thesis
  proof (cases "nat d' = 2 \<or> mkh_device_active s ! nat d' \<and> mkh_pending_off_services s ! nat d' = 0")
    case True
    then show ?thesis using toggle_on_idempotent [OF sh n(1) True, of clock] n(2) by (simp add: row_step_def)
  next
    case False
    then have "nat d' < 2" using n by auto
    have "succeeds (mkh_broadcast_toggle_on (int (nat d')) clock s) (row_step d s)"
      by (rule succeeds_mono [OF toggle_on_effect [OF assms(1) \<open>nat d' < 2\<close>]])
         (use False len n(1) in \<open>auto simp: row_step_def nth_list_update\<close>)
    then show ?thesis by (simp only: n(2))
  qed
qed (simp add: toggle_invalid row_step_def)

lemma err_only_row: "err_only s t \<Longrightarrow> row_step d s t"
proof -
  assume a: "err_only s t"
  have "mkh_channel_value (r\<lparr>gap_errors := []\<rparr>) = mkh_channel_value r"
    "mkh_device_active (r\<lparr>gap_errors := []\<rparr>) = mkh_device_active r"
    "mkh_time_slice_last_device (r\<lparr>gap_errors := []\<rparr>) = mkh_time_slice_last_device r" for r :: bc_state by simp_all
  with a show ?thesis unfolding err_only_def row_step_def by metis
qed

lemma start_row: "bc_shape s \<Longrightarrow> succeeds (mkh_start s) (row_step d s)"
proof -
  assume sh: "bc_shape s"
  let ?par = "Gap_set_params mkh_adv_interval_units mkh_adv_interval_units mkh_adv_type_nonconn_ind 0 (replicate 6 0) 0x07 0"
  let ?s = "s\<lparr>gap_calls := gap_calls s @ [?par]\<rparr>"
  have "succeeds (mkh_set_adv_payload (encrypted mkh_protocol_connect_telegram 18) ?s) (staged ?s mkh_protocol_connect_telegram)"
    by (rule set_adv_staged) (use sh in \<open>auto simp: bc_shape_def mkh_protocol_connect_telegram_def kTelegramConnect_def\<close>)
  then show ?thesis
    unfolding mkh_start_def mkh_broadcast_connect_def mkh_payload_connect_len_def succeeds_simps
    by (rule succeeds_mono) (auto elim!: stagedE simp: row_step_def)
qed

lemma packet_handler_row:
  assumes "bc_ok s" "hci_wf ty packet"
  shows "succeeds (mkh_broadcast_packet_handler ty packet s) (row_step d s)"
proof -
  have re: "row_step d s (reassert_enable s)" "row_step d s s" by (simp_all add: reassert_enable_def row_step_def)
  have st: "succeeds (mkh_start (s\<lparr>mkh_advertising_started := True\<rparr>)) (row_step d s)"
    by (rule succeeds_mono [OF start_row [OF start_shape [OF assms(1)], of d]]) (simp add: row_step_def)
  have cc: "succeeds (mkh_check_command_complete packet s) (row_step d s)" if "6 \<le> length packet"
    by (rule succeeds_mono [OF check_command_complete_effect [OF that]]) (rule err_only_row)
  show ?thesis
    using assms re st cc by (auto simp: mkh_broadcast_packet_handler_def hci_wf_def)
qed

lemma callback_row:
  assumes "bc_ok s" "main_thread_queue s = k # q"
  shows "succeeds (mkh_event_send_callback k (s\<lparr>main_thread_queue := q\<rparr>)) (row_step d s)"
proof -
  obtain j where j: "k = int j" "j < 2" using queue_head(2) [OF assms] by (auto intro: that [of 0] that [of 1])
  have "bc_shape (s\<lparr>main_thread_queue := q\<rparr>)" using queue_head(1) [OF assms] by (simp add: bc_ok_def)
  from callback_effect [OF this j(2)] show ?thesis
    unfolding j(1) by (rule succeeds_mono) (auto simp: row_step_def elim!: stagedE)
qed

lemma step_cases:
  assumes "bc_step s e t" "bc_ok s" "d < 2"
  obtains (set) d' p v now where "e = Set_channel d' p v now" "mkh_channel_value t = chan_set d' p v (mkh_channel_value s)"
      "mkh_device_active t = mkh_device_active s" "mkh_time_slice_last_device t = mkh_time_slice_last_device s"
    | (timer) "e = Timer_fires"
    | (row) "e \<noteq> Timer_fires" "row_step d s t"
proof -
  have sh: "bc_shape s" using assms(2) by (simp add: bc_ok_def)
  show ?thesis
  proof (rule bc_stepE [OF assms(1)], goal_cases)
    case (1 d' p v now)
    have "chan_upd s (chan_set d' p v (mkh_channel_value s)) t" by (rule succeedsD [OF set_channel_effect [OF sh] 1(2)])
    from chan_upd_fields(1,4,2) [OF this] show ?thesis by (rule set [OF 1(1)])
  next
    case (2 d' clock)
    show ?thesis by (rule row [OF _ succeedsD [OF toggle_off_row [OF assms(2,3)] 2(2)]]) (simp add: 2(1))
  next
    case (3 d' clock)
    show ?thesis by (rule row [OF _ succeedsD [OF toggle_on_row [OF assms(2,3)] 3(2)]]) (simp add: 3(1))
  next
    case 4
    then show ?thesis using timer by blast
  next
    case (5 k q)
    show ?thesis by (rule row [OF _ succeedsD [OF callback_row [OF assms(2) 5(2)] 5(3)]]) (simp add: 5(1))
  next
    case (6 ty packet)
    show ?thesis by (rule row [OF _ succeedsD [OF packet_handler_row [OF assms(2) 6(2)] 6(3)]]) (simp add: 6(1))
  qed
qed

section \<open>Neutral channels stay neutral\<close>

text \<open>Events that put no other than the neutral value on a channel of hub \<open>d\<close>; switching any hub on or
  off is allowed.\<close>

fun spares :: "int \<Rightarrow> bc_event \<Rightarrow> bool" where
  "spares d (Set_channel d' p v now) = (d' = d \<longrightarrow> v = 0x80)"
| "spares d _ = True"

lemma neutral_replicate: "mkh_neutral_channels = replicate 6 0x80"
  by (simp add: mkh_neutral_channels_def numeral_eq_Suc)

lemma spared_step:
  assumes "bc_step s e t" "bc_ok s" "d < 2" "spares (int d) e" "p < 6" "mkh_channel_value s ! d ! p = 0x80"
  shows "mkh_channel_value t ! d ! p = 0x80"
proof (rule step_cases [OF assms(1-3)])
  fix d' q v now assume h: "e = Set_channel d' q v now" "mkh_channel_value t = chan_set d' q v (mkh_channel_value s)"
  have "length (mkh_channel_value s) = 3" "length (mkh_channel_value s ! d) = 6"
    using assms(2,3) by (simp_all add: bc_ok_def bc_shape_def)
  then show ?thesis
    using assms(4-6) h by (cases "d' = int d") (auto simp: chan_set_def nth_list_update nat_eq_iff)
next
  assume "e = Timer_fires"
  then have st: "bc_step s Timer_fires t" using assms(1) by simp
  have "mkh_channel_value t = mkh_channel_value s"
    by (rule timer_service [OF assms(2) st]) (simp_all add: serviced_fields(1))
  then show ?thesis using assms(6) by simp
next
  assume "row_step d s t"
  then have "mkh_channel_value t ! d ! p = mkh_channel_value s ! d ! p \<or> mkh_channel_value t ! d ! p = mkh_neutral_channels ! p"
    by (auto simp: row_step_def)
  then show ?thesis using assms(5,6) by (simp add: neutral_replicate)
qed

lemma spared_run:
  "bc_run s es u \<Longrightarrow> bc_ok s \<Longrightarrow> list_all (spares (int d)) es \<Longrightarrow> d < 2 \<Longrightarrow> P \<subseteq> {..<6} \<Longrightarrow>
   \<forall>p\<in>P. mkh_channel_value s ! d ! p = 0x80 \<Longrightarrow>
   bc_ok u \<and> (\<forall>p\<in>P. mkh_channel_value u ! d ! p = 0x80) \<and> (\<exists>new. gap_calls u = gap_calls s @ new \<and>
     (\<forall>c\<in>set new. \<forall>vs. on_air c = Some (control_frame (int d) vs) \<longrightarrow> (\<forall>p\<in>P. vs ! p = 0x80)))"
proof (induction rule: bc_run.induct)
  case (run_snoc s es t e u)
  have es: "list_all (spares (int d)) es" "spares (int d) e" using run_snoc.prems(2) by simp_all
  obtain new where t: "bc_ok t" "\<forall>p\<in>P. mkh_channel_value t ! d ! p = 0x80" "gap_calls t = gap_calls s @ new"
    "\<forall>c\<in>set new. \<forall>vs. on_air c = Some (control_frame (int d) vs) \<longrightarrow> (\<forall>p\<in>P. vs ! p = 0x80)"
    using run_snoc.IH [OF run_snoc.prems(1) es(1) run_snoc.prems(3-5)] by blast
  have u: "bc_ok u" by (rule bc_step_ok [OF run_snoc.hyps(2) t(1)])
  have n: "\<forall>p\<in>P. mkh_channel_value u ! d ! p = 0x80"
    using spared_step [OF run_snoc.hyps(2) t(1) run_snoc.prems(3) es(2)] t(2) run_snoc.prems(4) by blast
  obtain new' where a: "airs t u new'" using bc_step_airs [OF run_snoc.hyps(2) t(1)] by blast
  have "\<forall>p\<in>P. vs ! p = 0x80" if "c \<in> set new'" "on_air c = Some (control_frame (int d) vs)" for c vs
    using airs_values [OF a run_snoc.prems(3) that] n by simp
  then have all: "\<forall>c\<in>set (new @ new'). \<forall>vs. on_air c = Some (control_frame (int d) vs) \<longrightarrow> (\<forall>p\<in>P. vs ! p = 0x80)"
    using t(4) by (simp only: set_append ball_Un) blast
  have "gap_calls u = gap_calls s @ (new @ new')" using t(3) a by (simp add: airs_def)
  with u n all show ?case by blast
qed simp

section \<open>Two timer periods reach every hub\<close>

definition heard :: "nat \<Rightarrow> bc_state \<Rightarrow> bc_state \<Rightarrow> bool" where
  "heard d s u \<longleftrightarrow> (\<exists>new. gap_calls u = gap_calls s @ new \<and> (\<exists>c\<in>set new. \<exists>vs. on_air c = Some (control_frame (int d) vs)))"

abbreviation firings :: "bc_event list \<Rightarrow> nat" where
  "firings es \<equiv> length (filter (\<lambda>e. e = Timer_fires) es)"

lemma heard_later:
  assumes "heard d s t" "bc_step t e u" "bc_ok t"
  shows "heard d s u"
proof -
  obtain new c vs where h: "gap_calls t = gap_calls s @ new" "c \<in> set new" "on_air c = Some (control_frame (int d) vs)"
    using assms(1) unfolding heard_def by blast
  obtain new' where "gap_calls u = gap_calls t @ new'" using bc_step_airs [OF assms(2,3)] by (auto simp: airs_def)
  then have "gap_calls u = gap_calls s @ (new @ new')" "c \<in> set (new @ new')" using h(1,2) by simp_all
  with h(3) show ?thesis unfolding heard_def by blast
qed

lemma heard_now:
  assumes "serviced d t u" "gap_calls t = gap_calls s @ new"
  shows "heard d s u"
proof -
  obtain bs where b: "gap_calls u = gap_calls t @ [Gap_set_data bs]"
    "on_air (Gap_set_data bs) = Some (control_frame (int d) (mkh_channel_value t ! d))"
    using serviced_fields(14) [OF assms(1)] by blast
  then have "gap_calls u = gap_calls s @ (new @ [Gap_set_data bs])" "Gap_set_data bs \<in> set (new @ [Gap_set_data bs])"
    using assms(2) by simp_all
  with b(2) show ?thesis unfolding heard_def by blast
qed

lemma next_after:
  "d < 2 \<Longrightarrow> mkh_device_active t ! d \<Longrightarrow> mkh_time_slice_last_device t = 1 - int d \<Longrightarrow> next_dev t = int d"
  by (auto simp: next_dev_def active_dev_def less_2_cases_iff)

text \<open>From a state in which hub \<open>d\<close> rotates: as long as it has not been heard it keeps rotating, and
  one firing of the timer leaves the turn with it.\<close>

lemma turn_run:
  "bc_run s es u \<Longrightarrow> bc_ok s \<Longrightarrow> d < 2 \<Longrightarrow> mkh_device_active s ! d \<Longrightarrow>
   bc_ok u \<and> (\<exists>new. gap_calls u = gap_calls s @ new) \<and> (heard d s u \<or>
     mkh_device_active u ! d \<and> (firings es = 0 \<or> firings es = 1 \<and> mkh_time_slice_last_device u = 1 - int d))"
proof (induction rule: bc_run.induct)
  case (run_snoc s es t e u)
  note d = run_snoc.prems(2)
  obtain new where t: "bc_ok t" "gap_calls t = gap_calls s @ new" and
    inv: "heard d s t \<or> mkh_device_active t ! d \<and>
      (firings es = 0 \<or> firings es = 1 \<and> mkh_time_slice_last_device t = 1 - int d)"
    using run_snoc.IH run_snoc.prems by blast
  have ok: "bc_ok u" by (rule bc_step_ok [OF run_snoc.hyps(2) t(1)])
  have app: "\<exists>new. gap_calls u = gap_calls s @ new"
    using bc_step_airs [OF run_snoc.hyps(2) t(1)] t(2) by (auto simp: airs_def)
  show ?case
  proof (cases "heard d s t")
    case True
    then show ?thesis using heard_later [OF True run_snoc.hyps(2) t(1)] ok app by blast
  next
    case False
    then have act: "mkh_device_active t ! d"
      and turn: "firings es = 0 \<or> firings es = 1 \<and> mkh_time_slice_last_device t = 1 - int d" using inv by blast+
    show ?thesis
    proof (cases "e = Timer_fires")
      case True
      have st: "bc_step t Timer_fires u" using run_snoc.hyps(2) True by simp
      show ?thesis
      proof (rule timer_service [OF t(1) st])
        assume "\<And>d. d < 3 \<Longrightarrow> \<not> mkh_device_active t ! d"
        then show ?thesis using act d by auto
      next
        fix k assume k: "next_dev t = int k" "k < 2" "serviced k t u"
        show ?thesis
        proof (cases "k = d")
          case True
          then show ?thesis using heard_now [OF _ t(2)] k(3) ok app by blast
        next
          case F: False
          have "firings es = 0" using turn next_after [OF d act] k(1) F by auto
          moreover have "int k = 1 - int d" using k(2) d F by auto
          moreover have "mkh_device_active u ! d" using serviced_other(1) [OF k(3)] F act by simp
          ultimately show ?thesis using ok app True serviced_fields(2) [OF k(3)] by simp
        qed
      qed
    next
      case False
      have "mkh_device_active u ! d \<and> mkh_time_slice_last_device u = mkh_time_slice_last_device t"
        by (rule step_cases [OF run_snoc.hyps(2) t(1) d]) (use act False in \<open>simp_all add: row_step_def\<close>)
      then show ?thesis using ok app turn False by simp
    qed
  qed
qed simp

lemma two_firings:
  assumes "bc_run s es u" "bc_ok s" "d < 2" "mkh_device_active s ! d" "2 \<le> firings es"
  shows "heard d s u"
  using turn_run [OF assms(1-4)] assms(5) by auto

end
