(* ===== verification/Broadcast_Off.thy ===== *)
theory Broadcast_Off
  imports Broadcast_Fair
begin

text \<open>
  The OFF sequence of \<^verbatim>\<open>main/mkh_broadcast.c\<close>: what \<open>mkh_broadcast_toggle_off\<close> and the
  countdown in \<open>mkh_broadcast_control\<close> guarantee when nobody commands the hub in the meantime,
  that the sequence ends, and what goes wrong when the application task keeps writing the
  channels of a hub that is being switched off.
\<close>

definition aired :: "int \<Rightarrow> gap_call list \<Rightarrow> nat" where
  "aired d calls = length (filter (\<lambda>c. on_air c = Some (control_frame d mkh_neutral_channels)) calls)"

definition only_neutral :: "int \<Rightarrow> gap_call list \<Rightarrow> bool" where
  "only_neutral d calls \<longleftrightarrow>
     (\<forall>c\<in>set calls. \<forall>vs. on_air c = Some (control_frame d vs) \<longrightarrow> vs = mkh_neutral_channels)"

text \<open>The part of the state the OFF sequence of hub \<open>d\<close> depends on.\<close>

definition same_hub :: "nat \<Rightarrow> bc_state \<Rightarrow> bc_state \<Rightarrow> bool" where
  "same_hub d s t \<longleftrightarrow> mkh_channel_value t ! d = mkh_channel_value s ! d \<and>
     mkh_device_active t ! d = mkh_device_active s ! d \<and>
     mkh_pending_off_services t ! d = mkh_pending_off_services s ! d"

lemma airs_neutral:
  assumes "airs s t new" "d < 2" "mkh_channel_value t ! d = mkh_neutral_channels"
  shows "only_neutral (int d) new"
  unfolding only_neutral_def
proof (intro ballI allI impI)
  fix c vs assume c: "c \<in> set new" "on_air c = Some (control_frame (int d) vs)"
  obtain bs where bs: "c = Gap_set_data bs" using c(2) by (auto elim!: on_air.elims)
  have "air_ok t c" using assms(1) c(1) by (simp add: airs_def)
  then obtain k where k: "k < 2" "control_frame (int d) vs = control_frame (int k) (mkh_channel_value t ! k)"
    using c(2) connect_not_control [of "int d" vs] assms(2) unfolding air_ok_def bs by (auto simp del: on_air.simps)
  then show "vs = mkh_neutral_channels"
    using control_frame_inj [OF k(2)] assms(2,3) by auto
qed

text \<open>Events that do not command hub \<open>d\<close>: anything but a non-neutral channel write or a switch-on of it.\<close>

fun quiet :: "int \<Rightarrow> bc_event \<Rightarrow> bool" where
  "quiet d (Set_channel d' p v now) = (d' = d \<longrightarrow> v = 0x80)"
| "quiet d (Toggle_on d' clock) = (d' \<noteq> d)"
| "quiet d _ = True"

lemma chan_set_other: "0 \<le> d \<Longrightarrow> d \<noteq> d' \<Longrightarrow> chan_set d' p v table ! nat d = table ! nat d"
  by (auto simp: chan_set_def nth_list_update nat_eq_iff)

lemma neutral_update: "mkh_neutral_channels[i := 0x80] = mkh_neutral_channels"
  by (cases "i < 6") (simp_all add: neutral_replicate list_update_same_conv list_update_beyond)

lemma chan_set_neutral:
  "0 \<le> d \<Longrightarrow> table ! nat d = mkh_neutral_channels \<Longrightarrow> chan_set d p 0x80 table ! nat d = mkh_neutral_channels"
  by (cases "nat d < length table") (auto simp: chan_set_def neutral_update nth_list_update list_update_beyond)

definition hub_inv :: "nat \<Rightarrow> bc_state \<Rightarrow> bool" where
  "hub_inv d s \<longleftrightarrow> bc_ok s \<and> mkh_channel_value s ! d = mkh_neutral_channels \<and>
     (mkh_device_active s ! d \<longrightarrow> 0 < mkh_pending_off_services s ! d)"

lemma toggle_off_same:
  assumes "hub_inv d s" "d < 2"
  shows "succeeds (mkh_broadcast_toggle_off d' clock s) (same_hub d s)"
proof (cases "0 \<le> d' \<and> d' < 3 \<and> nat d' \<noteq> d \<and> mkh_device_active s ! nat d' \<and> mkh_pending_off_services s ! nat d' = 0")
  case True
  then have n: "nat d' < 3" "int (nat d') = d'" by auto
  have "succeeds (mkh_broadcast_toggle_off (int (nat d')) clock s) (same_hub d s)"
    by (rule succeeds_mono [OF toggle_off_effect])
       (use assms True n in \<open>auto simp: same_hub_def chan_upd_fields hub_inv_def bc_ok_def\<close>)
  then show ?thesis by (simp only: n(2))
next
  case False
  have "mkh_broadcast_toggle_off d' clock s = Some s"
  proof (cases "0 \<le> d' \<and> d' < 3")
    case True
    then have n: "nat d' < 3" "int (nat d') = d'" by auto
    then have "pend_ok s (nat d')" using assms(1) by (simp add: hub_inv_def bc_ok_def)
    then show ?thesis
      using toggle_off_idempotent [of s "nat d'" clock] False n True assms
      by (auto simp: hub_inv_def bc_ok_def pend_ok_def)
  qed (rule toggle_invalid)
  then show ?thesis by (simp add: same_hub_def)
qed

lemma toggle_on_same:
  assumes "hub_inv d s" "d < 2" "d' \<noteq> int d"
  shows "succeeds (mkh_broadcast_toggle_on d' clock s) (same_hub d s)"
proof (cases "0 \<le> d' \<and> d' < 2 \<and> \<not> (mkh_device_active s ! nat d' \<and> mkh_pending_off_services s ! nat d' = 0)")
  case True
  then have n: "nat d' < 2" "int (nat d') = d'" "nat d' \<noteq> d" using assms(3) by auto
  have "bc_ok s" using assms(1) by (simp add: hub_inv_def)
  then have "succeeds (mkh_broadcast_toggle_on (int (nat d')) clock s) (same_hub d s)"
    by (rule succeeds_mono [OF toggle_on_effect]) (use assms True n in \<open>auto simp: same_hub_def\<close>)
  then show ?thesis by (simp only: n(2))
next
  case False
  have "mkh_broadcast_toggle_on d' clock s = Some s"
  proof (cases "0 \<le> d' \<and> d' < 3")
    case True
    then have n: "nat d' < 3" "int (nat d') = d'" "d' = 2 \<or> d' < 2" by auto
    then show ?thesis
      using toggle_on_idempotent [of s "nat d'" clock] False True assms
      by (auto simp: hub_inv_def bc_ok_def)
  qed (rule toggle_invalid)
  then show ?thesis by (simp add: same_hub_def)
qed

lemma err_only_same: "err_only s t \<Longrightarrow> same_hub d s t"
proof -
  assume a: "err_only s t"
  have "mkh_channel_value (r\<lparr>gap_errors := []\<rparr>) = mkh_channel_value r"
    "mkh_device_active (r\<lparr>gap_errors := []\<rparr>) = mkh_device_active r"
    "mkh_pending_off_services (r\<lparr>gap_errors := []\<rparr>) = mkh_pending_off_services r" for r :: bc_state by simp_all
  with a show ?thesis unfolding err_only_def same_hub_def by metis
qed

lemma packet_handler_same:
  assumes "bc_ok s" "hci_wf ty packet"
  shows "succeeds (mkh_broadcast_packet_handler ty packet s) (same_hub d s)"
proof -
  have re: "same_hub d s (reassert_enable s)" "same_hub d s s" by (simp_all add: reassert_enable_def same_hub_def)
  have st: "succeeds (mkh_start (s\<lparr>mkh_advertising_started := True\<rparr>)) (same_hub d s)"
    by (rule succeeds_mono [OF start_effect [OF start_shape [OF assms(1)]]]) (auto simp: same_hub_def)
  have cc: "succeeds (mkh_check_command_complete packet s) (same_hub d s)" if "6 \<le> length packet"
    by (rule succeeds_mono [OF check_command_complete_effect [OF that]]) (rule err_only_same)
  show ?thesis
    using assms re st cc by (auto simp: mkh_broadcast_packet_handler_def hci_wf_def)
qed

lemma callback_same:
  assumes "bc_ok s" "main_thread_queue s = k # q"
  shows "succeeds (mkh_event_send_callback k (s\<lparr>main_thread_queue := q\<rparr>)) (same_hub d s)"
proof -
  obtain j where j: "k = int j" "j < 2" using queue_head(2) [OF assms] by (auto intro: that [of 0] that [of 1])
  have "bc_shape (s\<lparr>main_thread_queue := q\<rparr>)" using queue_head(1) [OF assms] by (simp add: bc_ok_def)
  from callback_effect [OF this j(2)] show ?thesis
    unfolding j(1) by (rule succeeds_mono) (auto simp: same_hub_def elim!: stagedE)
qed


text \<open>A quiet event either leaves the hub as it is or is the CONTROL cycle that services it.\<close>

lemma quiet_step:
  assumes "bc_step s e t" "quiet (int d) e" "hub_inv d s" "d < 2"
  shows "(\<exists>new. airs s t new) \<and> mkh_channel_value t ! d = mkh_neutral_channels \<and>
     (mkh_device_active t ! d = mkh_device_active s ! d \<and>
      mkh_pending_off_services t ! d = mkh_pending_off_services s ! d \<or> serviced d s t \<and> mkh_device_active s ! d)"
proof -
  have ok: "bc_ok s" and ne: "mkh_channel_value s ! d = mkh_neutral_channels"
    using assms(3) by (auto simp: hub_inv_def)
  have air: "\<exists>new. airs s t new" by (rule bc_step_airs [OF assms(1) ok])
  from assms(1) consider
      (set) d' p v now where "e = Set_channel d' p v now" "mkh_set_channel d' p v now s = Some t"
    | (timer) "e = Timer_fires"
    | (same) "same_hub d s t"
    using assms(2-) ok
    by (auto elim!: bc_stepE dest: succeedsD [OF toggle_off_same] succeedsD [OF toggle_on_same]
        succeedsD [OF packet_handler_same [where d = d]] succeedsD [OF callback_same [where d = d]])
  then show ?thesis
  proof cases
    case set
    then have u: "chan_upd s (chan_set d' p v (mkh_channel_value s)) t"
      using succeedsD [OF set_channel_effect] ok by (auto simp: bc_ok_def)
    have "chan_set d' p v (mkh_channel_value s) ! d = mkh_neutral_channels"
      using assms(2) set(1) ne chan_set_other [of "int d" d' p v "mkh_channel_value s"]
        chan_set_neutral [of "int d" "mkh_channel_value s" p] by (cases "d' = int d") auto
    then show ?thesis using air chan_upd_fields [OF u] by simp
  next
    case timer
    show ?thesis
    proof (rule timer_service [OF ok assms(1) [unfolded timer]])
      assume "t = s\<lparr>mkh_broadcast_timer := Some mkh_control_repeat_ms\<rparr>"
      then show ?thesis using air ne by simp
    next
      fix k assume k: "mkh_device_active s ! k" "serviced k s t"
      show ?thesis
        using air ne k serviced_other [OF k(2), of d] by (cases "k = d") (simp_all add: serviced_fields(1))
    qed
  next
    case same
    then show ?thesis using air ne by (simp add: same_hub_def)
  qed
qed


definition off_inv :: "nat \<Rightarrow> bc_state \<Rightarrow> bc_state \<Rightarrow> bool" where
  "off_inv d s1 s \<longleftrightarrow> hub_inv d s \<and>
     (\<exists>new. gap_calls s = gap_calls s1 @ new \<and> only_neutral (int d) new \<and>
        (if mkh_device_active s ! d then 3 \<le> int (aired (int d) new) + mkh_pending_off_services s ! d
         else 3 \<le> aired (int d) new))"

lemma aired_append: "aired d (xs @ ys) = aired d xs + aired d ys"
  by (simp add: aired_def)

lemma only_neutral_append: "only_neutral d (xs @ ys) \<longleftrightarrow> only_neutral d xs \<and> only_neutral d ys"
  by (auto simp: only_neutral_def)

lemma off_inv_step:
  assumes "bc_step s e t" "quiet (int d) e" "off_inv d s1 s" "d < 2"
  shows "off_inv d s1 t"
proof -
  have hub: "hub_inv d s" using assms(3) by (simp add: off_inv_def)
  obtain new where new: "gap_calls s = gap_calls s1 @ new" "only_neutral (int d) new"
    "if mkh_device_active s ! d then 3 \<le> int (aired (int d) new) + mkh_pending_off_services s ! d
     else 3 \<le> aired (int d) new"
    using assms(3) by (auto simp: off_inv_def)
  note q = quiet_step [OF assms(1,2) hub assms(4)]
  from q obtain new2 where new2: "airs s t new2" by blast
  have row: "mkh_channel_value t ! d = mkh_neutral_channels" using q by blast
  have on: "only_neutral (int d) (new @ new2)"
    using new(2) airs_neutral [OF new2 assms(4) row] by (simp add: only_neutral_append)
  have calls: "gap_calls t = gap_calls s1 @ new @ new2" using new(1) new2 by (simp add: airs_def)
  have okt: "bc_ok t" using bc_step_ok [OF assms(1)] hub by (simp add: hub_inv_def)
  from q consider (same) "mkh_device_active t ! d = mkh_device_active s ! d"
      "mkh_pending_off_services t ! d = mkh_pending_off_services s ! d"
    | (serv) "serviced d s t" "mkh_device_active s ! d" by blast
  then show ?thesis
  proof cases
    case same
    then show ?thesis
      using hub new(3) on calls okt row
      by (auto simp: off_inv_def hub_inv_def aired_append intro!: exI [of _ "new @ new2"])
  next
    case serv
    obtain bs where bs: "gap_calls t = gap_calls s @ [Gap_set_data bs]"
      "on_air (Gap_set_data bs) = Some (control_frame (int d) (mkh_channel_value s ! d))"
      using serviced_fields(14) [OF serv(1)] by blast
    have "new2 = [Gap_set_data bs]" using bs(1) new2 by (simp add: airs_def)
    then have cnt: "aired (int d) new2 = 1" using bs(2) hub by (simp add: aired_def hub_inv_def)
    have len: "d < length (mkh_device_active s)" "d < length (mkh_pending_off_services s)"
      using hub assms(4) by (auto simp: hub_inv_def bc_ok_def bc_shape_def)
    have p: "0 < mkh_pending_off_services s ! d" using hub serv(2) by (simp add: hub_inv_def)
    show ?thesis
      unfolding off_inv_def hub_inv_def
      using okt row on calls new(3) cnt p serv(2) serviced_fields(3,4) [OF serv(1)] len
      by (auto simp: aired_append intro!: exI [of _ "new @ new2"])
  qed
qed

lemma off_inv_run:
  "bc_run s es t \<Longrightarrow> (\<And>e. e \<in> set es \<Longrightarrow> quiet (int d) e) \<Longrightarrow> off_inv d s1 s \<Longrightarrow> d < 2 \<Longrightarrow> off_inv d s1 t"
  by (induction rule: bc_run.induct) (auto intro: off_inv_step)

lemma toggle_off_inv:
  assumes "bc_ok s" "d < 2" "mkh_device_active s ! d" "mkh_pending_off_services s ! d = 0"
  shows "succeeds (mkh_broadcast_toggle_off (int d) clock s) (\<lambda>t. off_inv d t t \<and>
     mkh_pending_off_services t ! d = 3 \<and> mkh_device_active t ! d \<and>
     mkh_advertising_started t = mkh_advertising_started s)"
proof -
  have sh: "bc_shape s" "d < 3" using assms by (auto simp: bc_ok_def)
  have len: "length (mkh_pending_off_services s) = 3" "length (mkh_channel_value s) = 3"
    using sh by (auto simp: bc_shape_def)
  have "succeeds (mkh_broadcast_toggle_off (int d) clock s) (\<lambda>t. mkh_channel_value t ! d = mkh_neutral_channels \<and>
     mkh_pending_off_services t ! d = 3 \<and> mkh_device_active t ! d \<and>
     mkh_advertising_started t = mkh_advertising_started s)"
    by (rule succeeds_mono [OF toggle_off_effect [OF sh assms(3,4)]])
       (use assms(2,3) len in \<open>auto simp: chan_upd_fields\<close>)
  from succeeds_conj [OF this toggle_off_ok [OF assms(1)]] show ?thesis
    by (rule succeeds_mono) (auto simp: off_inv_def hub_inv_def only_neutral_def aired_def)
qed

text \<open>C11: The OFF sequence: once a switch-off of a hub has been accepted, and as long as nobody writes
  a non-neutral value to it or switches it on again, every telegram aired for the hub is neutral,
  and it leaves the rotation only after at least three neutral telegrams have been aired for it,
  whatever else is interleaved (other hub, callbacks already queued, HCI events).\<close>

theorem off_sequence_airs_neutral:
  assumes "bc_run bc_start es0 s" "d < 2" "mkh_device_active s ! d" "mkh_pending_off_services s ! d = 0"
    and "bc_step s (Toggle_off (int d) clock) s1"
    and "bc_run s1 es t" "\<And>e. e \<in> set es \<Longrightarrow> quiet (int d) e"
  shows "\<exists>new. gap_calls t = gap_calls s1 @ new \<and> only_neutral (int d) new \<and>
           (\<not> mkh_device_active t ! d \<longrightarrow> 3 \<le> aired (int d) new)"
proof -
  have off: "mkh_broadcast_toggle_off (int d) clock s = Some s1" using assms(5) by (auto elim: bc_stepE)
  have "off_inv d s1 s1"
    using succeedsD [OF toggle_off_inv [OF bc_run_start_ok [OF assms(1)] assms(2-4)] off] by simp
  from off_inv_run [OF assms(6,7) this assms(2)] show ?thesis
    by (auto simp: off_inv_def split: if_splits)
qed


subsection \<open>The sequence ends\<close>

lemma bc_run_Cons: "bc_run s es u \<Longrightarrow> es = e # es' \<Longrightarrow> \<exists>t. bc_step s e t \<and> bc_run t es' u"
proof (induction arbitrary: es' rule: bc_run.induct)
  case (run_snoc s es t e' u)
  show ?case
  proof (cases es)
    case Nil
    then have "t = s" using run_snoc.hyps(1) by (auto elim: bc_run.cases)
    then show ?thesis using run_snoc Nil by (auto intro: bc_run.intros)
  next
    case (Cons e0 es0)
    then show ?thesis using run_snoc by (auto intro: bc_run.intros)
  qed
qed simp

lemma bc_run_append: "bc_run t es' u \<Longrightarrow> bc_run s es t \<Longrightarrow> bc_run s (es @ es') u"
proof (induction rule: bc_run.induct)
  case (run_snoc t es' v e u)
  then have "bc_run s ((es @ es') @ [e]) u" by (intro bc_run.run_snoc) auto
  then show ?case by simp
qed simp

definition off :: "nat \<Rightarrow> bc_state \<Rightarrow> bool" where
  "off d s \<longleftrightarrow> bc_ok s \<and> mkh_advertising_started s \<and> \<not> mkh_device_active s ! d \<and> \<not> mkh_hub_broadcasting s ! d"

definition dropping :: "nat \<Rightarrow> int \<Rightarrow> bc_state \<Rightarrow> bool" where
  "dropping d k s \<longleftrightarrow> bc_ok s \<and> mkh_advertising_started s \<and> mkh_device_active s ! d \<and>
     0 < mkh_pending_off_services s ! d \<and> mkh_pending_off_services s ! d \<le> k"

lemma timer_started:
  assumes "bc_ok s" "mkh_advertising_started s" "bc_step s Timer_fires t"
  shows "bc_ok t" "mkh_advertising_started t"
proof -
  show ok: "bc_ok t" by (rule bc_step_ok [OF assms(3,1)])
  have "mkh_broadcast_timer t \<noteq> None"
    by (rule timer_service [OF assms(1,3)]) (simp_all add: serviced_fields(10))
  then show "mkh_advertising_started t" using ok by (simp add: bc_ok_def)
qed

lemma off_stays: "off d s \<Longrightarrow> bc_step s Timer_fires t \<Longrightarrow> d < 2 \<Longrightarrow> off d t"
proof -
  assume a: "off d s" "bc_step s Timer_fires t" "d < 2"
  then have ok: "bc_ok s" "mkh_advertising_started s" by (auto simp: off_def)
  show ?thesis
  proof (rule timer_service [OF ok(1) a(2)])
    assume "t = s\<lparr>mkh_broadcast_timer := Some mkh_control_repeat_ms\<rparr>"
    then show ?thesis using a timer_started [OF ok a(2)] by (simp add: off_def)
  next
    fix k assume k: "mkh_device_active s ! k" "serviced k s t"
    then have "k \<noteq> d" using a(1) by (auto simp: off_def)
    then show ?thesis using a k timer_started [OF ok a(2)] by (simp add: off_def serviced_fields)
  qed
qed

lemma dropping_serviced:
  assumes "dropping d k s" "serviced d s t" "bc_step s Timer_fires t" "d < 2"
  shows "if mkh_pending_off_services s ! d = 1 then off d t else dropping d (k - 1) t"
proof -
  have ok: "bc_ok s" "mkh_advertising_started s" using assms(1) by (auto simp: dropping_def)
  then have "d < length (mkh_device_active s)" "d < length (mkh_hub_broadcasting s)"
    "d < length (mkh_pending_off_services s)" using assms(4) by (auto simp: bc_ok_def bc_shape_def)
  then show ?thesis
    using assms(1) timer_started [OF ok assms(3)]
    by (auto simp: off_def dropping_def serviced_fields(3,4,5) [OF assms(2)])
qed

lemma dropping_two:
  assumes "dropping d k s" "bc_step s Timer_fires t" "bc_step t Timer_fires u" "d < 2"
  shows "off d u \<or> dropping d (k - 1) u"
proof -
  have ok: "bc_ok s" "mkh_advertising_started s" and act: "mkh_device_active s ! d"
    using assms(1) by (auto simp: dropping_def)
  have ok': "bc_ok t" "mkh_advertising_started t" by (rule timer_started [OF ok assms(2)])+
  obtain e where e: "next_dev s = int e" "e < 2" "serviced e s t"
    by (rule timer_service [OF ok(1) assms(2)]) (use act assms(4) in auto)
  show ?thesis
  proof (cases "e = d")
    case True
    then have "if mkh_pending_off_services s ! d = 1 then off d t else dropping d (k - 1) t"
      using dropping_serviced [OF assms(1) _ assms(2,4)] e(3) by simp
    then consider "off d t" | "dropping d (k - 1) t" by (auto split: if_splits)
    then show ?thesis
    proof cases
      case 1
      then show ?thesis using off_stays assms(3,4) by blast
    next
      case 2
      have ok'': "bc_ok u" "mkh_advertising_started u" by (rule timer_started [OF ok' assms(3)])+
      show ?thesis
      proof (rule timer_service [OF ok'(1) assms(3)])
        assume "\<And>d. d < 3 \<Longrightarrow> \<not> mkh_device_active t ! d"
        then show ?thesis using 2 assms(4) by (auto simp: dropping_def)
      next
        fix j assume j: "serviced j t u"
        show ?thesis
        proof (cases "j = d")
          case True
          then have "if mkh_pending_off_services t ! d = 1 then off d u else dropping d (k - 1 - 1) u"
            using dropping_serviced [OF 2 _ assms(3,4)] j by simp
          then show ?thesis by (auto simp: dropping_def split: if_splits)
        next
          case False
          then show ?thesis using 2 ok'' serviced_other [OF j] by (simp add: dropping_def)
        qed
      qed
    qed
  next
    case False
    have dr: "dropping d k t"
      using assms(1) ok' serviced_other [OF e(3)] False by (simp add: dropping_def)
    have "next_dev t = int d"
      by (rule next_dev_fair [OF _ assms(4) act e(1)])
         (use ok ok' e False dr in \<open>auto simp: bc_ok_def serviced_fields dropping_def\<close>)
    then have "serviced d t u" by (rule_tac timer_service [OF ok'(1) assms(3)]) simp_all
    then show ?thesis using dropping_serviced [OF dr _ assms(3,4)] by (auto split: if_splits)
  qed
qed

lemma dropping_ends:
  assumes "d < 2"
  shows "dropping d (int k) s \<or> off d s \<Longrightarrow> bc_run s (replicate (2 * k) Timer_fires) t \<Longrightarrow> off d t"
proof (induction k arbitrary: s)
  case 0
  then show ?case by (auto simp: dropping_def elim: bc_run.cases)
next
  case (Suc k)
  have "replicate (2 * Suc k) Timer_fires = Timer_fires # Timer_fires # replicate (2 * k) Timer_fires" by simp
  then obtain s1 s2 where st: "bc_step s Timer_fires s1" "bc_step s1 Timer_fires s2"
    "bc_run s2 (replicate (2 * k) Timer_fires) t"
    using bc_run_Cons [OF Suc.prems(2)] bc_run_Cons by metis
  have "dropping d (int k) s2 \<or> off d s2"
    using Suc.prems(1) dropping_two [OF _ st(1,2) assms, of "int (Suc k)"] off_stays [OF _ st(1) assms]
      off_stays [OF _ st(2) assms] by auto
  then show ?case by (rule Suc.IH [OF _ st(3)])
qed

text \<open>C12: The OFF sequence ends: six CONTROL cycles (0.6 s) after a switch-off was accepted the hub has
  left the rotation, its dashboard flag is off and it is no longer in transition.\<close>

theorem off_sequence_ends:
  assumes "bc_run bc_start es0 s" "mkh_advertising_started s" "d < 2" "mkh_device_active s ! d"
    "mkh_pending_off_services s ! d = 0"
    and "bc_step s (Toggle_off (int d) clock) s1"
    and "bc_run s1 (replicate 6 Timer_fires) t"
  shows "\<not> mkh_device_active t ! d \<and> \<not> mkh_hub_broadcasting t ! d \<and>
         mkh_broadcast_is_transitioning (int d) t = Some False"
proof -
  have offs: "mkh_broadcast_toggle_off (int d) clock s = Some s1" using assms(6) by (auto elim: bc_stepE)
  have ok: "bc_ok s" by (rule bc_run_start_ok [OF assms(1)])
  have "dropping d (int 3) s1"
    using succeedsD [OF toggle_off_inv [OF ok assms(3-5)] offs] bc_step_ok [OF assms(6) ok] assms(2)
    by (simp add: dropping_def)
  then have "off d t" using dropping_ends [OF assms(3), of 3 s1 t] assms(7) by simp
  then show ?thesis
    using assms(3) by (auto simp: off_def bc_ok_def bc_shape_def pend_ok_def mkh_broadcast_is_transitioning_def
        mk1_defs arr_get_def)
qed


text \<open>The state after start-up: the Bluetooth stack reported that it is working, both hubs rotate.\<close>

lemma step_run: "bc_run bc_start es s \<Longrightarrow> bc_step s e t \<Longrightarrow> bc_run bc_start (es @ [e]) t"
  by (rule run_snoc)

lemma timers_exist:
  "bc_ok s \<Longrightarrow> mkh_advertising_started s \<Longrightarrow> \<exists>t. bc_run s (replicate n Timer_fires) t"
proof (induction n)
  case 0
  show ?case by (auto intro: run_nil)
next
  case (Suc n)
  then obtain t where t: "bc_run s (replicate n Timer_fires) t" by blast
  have st: "bc_run s es t \<Longrightarrow> set es \<subseteq> {Timer_fires} \<Longrightarrow> bc_ok t \<and> mkh_advertising_started t" for es t
  proof (induction es arbitrary: t rule: rev_induct)
    case Nil
    then have "t = s" by (auto elim: bc_run.cases)
    then show ?case using Suc.prems by simp
  next
    case (snoc e es)
    then obtain u where "bc_run s es u" "bc_step u e t" by (auto elim: bc_run.cases)
    then show ?case using snoc timer_started [of u t] by auto
  qed
  have "set (replicate n Timer_fires) \<subseteq> {Timer_fires}" by auto
  from st [OF t this] have ok: "bc_ok t" "mkh_advertising_started t" by auto
  obtain u where "bc_step t Timer_fires u" by (rule started_step_exists [OF ok])
  from run_snoc [OF t this] show ?case by (auto simp: replicate_append_same)
qed

lemma off_requested:
  obtains s s1 where "bc_run bc_start [Hci_packet 0x04 [0x60, 1, 2]] s" "mkh_advertising_started s"
    "mkh_device_active s ! 0" "mkh_pending_off_services s ! 0 = 0"
    "bc_step s (Toggle_off 0 (\<lambda>ch. 0)) s1" "bc_ok s1" "mkh_advertising_started s1"
proof -
  obtain s where s: "bc_run bc_start [Hci_packet 0x04 [0x60, 1, 2]] s" "mkh_advertising_started s"
    "mkh_device_active s = [True, True, False]" "bc_ok s" "mkh_pending_off_services s = [0, 0, 0]"
    by (rule working_event)
  obtain s1 where s1: "bc_step s (Toggle_off 0 (\<lambda>ch. 0)) s1"
    using bc_progress_ok [OF s(4), of "Toggle_off 0 (\<lambda>ch. 0)"] by auto
  then have "mkh_broadcast_toggle_off (int 0) (\<lambda>ch. 0) s = Some s1" by (auto elim: bc_stepE)
  from succeedsD [OF toggle_off_inv [OF s(4)] this] s that [OF s(1,2) _ _ s1] bc_step_ok [OF s1 s(4)]
  show ?thesis by simp
qed

theorem off_sequence_airs_neutral_witness:
  "\<exists>s1 t new. bc_run s1 [Hci_packet 0x04 [0x05]] t \<and> gap_calls t = gap_calls s1 @ new \<and> only_neutral 0 new"
proof -
  obtain s s1 where s: "bc_run bc_start [Hci_packet 0x04 [0x60, 1, 2]] s" "mkh_advertising_started s"
    "mkh_device_active s ! 0" "mkh_pending_off_services s ! 0 = 0"
    "bc_step s (Toggle_off 0 (\<lambda>ch. 0)) s1" "bc_ok s1" "mkh_advertising_started s1" by (rule off_requested)
  obtain t where "bc_step s1 (Hci_packet 0x04 [0x05]) t"
    using bc_progress_ok [OF s(6), of "Hci_packet 0x04 [0x05]"] by (auto simp: hci_wf_def)
  from run_snoc [OF run_nil this] have t: "bc_run s1 [Hci_packet 0x04 [0x05]] t" by simp
  have "\<exists>new. gap_calls t = gap_calls s1 @ new \<and> only_neutral (int 0) new \<and>
           (\<not> mkh_device_active t ! 0 \<longrightarrow> 3 \<le> aired (int 0) new)"
    by (rule off_sequence_airs_neutral [OF s(1) _ s(3,4) _ t]) (use s(5) in auto)
  with t show ?thesis by auto
qed

theorem off_sequence_ends_witness:
  "\<exists>s1 t. bc_run s1 (replicate 6 Timer_fires) t \<and> \<not> mkh_device_active t ! 0"
proof -
  obtain s s1 where s: "bc_run bc_start [Hci_packet 0x04 [0x60, 1, 2]] s" "mkh_advertising_started s"
    "mkh_device_active s ! 0" "mkh_pending_off_services s ! 0 = 0"
    "bc_step s (Toggle_off 0 (\<lambda>ch. 0)) s1" "bc_ok s1" "mkh_advertising_started s1" by (rule off_requested)
  obtain t where t: "bc_run s1 (replicate 6 Timer_fires) t" using timers_exist [OF s(6,7)] by blast
  have "\<not> mkh_device_active t ! 0"
    using off_sequence_ends [OF s(1,2) _ s(3,4) _ t] s(5) by simp
  with t show ?thesis by blast
qed


subsection \<open>Channel writes during the OFF sequence\<close>

text \<open>
  \<open>processMappedInputs\<close> in \<^verbatim>\<open>main/sketch.cpp\<close> writes every configured channel on every
  tick, whether the hub is being switched off or not, and \<open>mkh_set_channel\<close> does not look
  at the transition. The next two theorems follow two such interleavings.
\<close>

lemma timers_keep_row:
  "bc_run s es t \<Longrightarrow> set es \<subseteq> {Timer_fires} \<Longrightarrow> bc_ok s \<Longrightarrow>
   bc_ok t \<and> mkh_channel_value t = mkh_channel_value s \<and>
   (\<exists>new. gap_calls t = gap_calls s @ new \<and>
      (\<forall>c\<in>set new. \<exists>k. k < 2 \<and> on_air c = Some (control_frame (int k) (mkh_channel_value s ! k))))"
proof (induction rule: bc_run.induct)
  case (run_snoc s es t e u)
  then have ok: "bc_ok t" and row: "mkh_channel_value t = mkh_channel_value s" and e: "e = Timer_fires" by auto
  obtain new where new: "gap_calls t = gap_calls s @ new"
    "\<forall>c\<in>set new. \<exists>k. k < 2 \<and> on_air c = Some (control_frame (int k) (mkh_channel_value s ! k))"
    using run_snoc by auto
  have oku: "bc_ok u" by (rule bc_step_ok [OF run_snoc.hyps(2) ok])
  show ?case
  proof (rule timer_service [OF ok run_snoc.hyps(2) [unfolded e]])
    assume "u = t\<lparr>mkh_broadcast_timer := Some mkh_control_repeat_ms\<rparr>"
    then show ?thesis using oku row new by auto
  next
    fix k assume k: "k < 2" "serviced k t u"
    obtain bs where "gap_calls u = gap_calls t @ [Gap_set_data bs]"
      "on_air (Gap_set_data bs) = Some (control_frame (int k) (mkh_channel_value t ! k))"
      using serviced_fields(14) [OF k(2)] by blast
    then show ?thesis using oku row new k(1) serviced_fields(1) [OF k(2)]
      by (intro conjI exI [of _ "new @ [Gap_set_data bs]"]) auto
  qed
qed simp

lemma none_aired:
  assumes "\<forall>c\<in>set new. \<forall>vs. on_air c = Some (control_frame d vs) \<longrightarrow> vs ! p \<noteq> 0x80" "p < 6"
  shows "aired d new = 0"
proof -
  have "on_air c \<noteq> Some (control_frame d mkh_neutral_channels)" if "c \<in> set new" for c
    using bspec [OF assms(1) that, THEN spec, of mkh_neutral_channels] assms(2) by (auto simp: neutral_replicate)
  then show ?thesis by (simp add: aired_def filter_empty_conv)
qed

text \<open>C13: A channel write during the OFF sequence defeats it, from every reachable state in which the
  sequence of a hub is running: after one write of a non-neutral value to any of its channels, six
  CONTROL cycles drop the hub from the rotation without one neutral telegram for it. The written
  value is aired at least once, every telegram the hub gets carries it, and it stays in the
  channel table.\<close>

theorem off_sequence_not_protected:
  assumes "bc_run bc_start es s" "mkh_advertising_started s" "d < 2" "0 < mkh_pending_off_services s ! d"
    and "p < 6" "v \<noteq> 0x80" "bc_run s (Set_channel (int d) (int p) v now # replicate 6 Timer_fires) t"
  shows "\<not> mkh_device_active t ! d \<and> mkh_channel_value t ! d ! p = v \<and>
    (\<exists>new. gap_calls t = gap_calls s @ new \<and> aired (int d) new = 0 \<and>
       (\<exists>c\<in>set new. \<exists>vs. on_air c = Some (control_frame (int d) vs)) \<and>
       (\<forall>c\<in>set new. \<forall>vs. on_air c = Some (control_frame (int d) vs) \<longrightarrow> vs ! p = v))"
proof -
  have ok: "bc_ok s" by (rule bc_run_start_ok [OF assms(1)])
  obtain s2 where s2: "bc_step s (Set_channel (int d) (int p) v now) s2" "bc_run s2 (replicate 6 Timer_fires) t"
    using bc_run_Cons [OF assms(7) refl] by blast
  have u: "chan_upd s (chan_set (int d) (int p) v (mkh_channel_value s)) s2"
    using succeedsD [OF set_channel_effect] s2(1) ok by (auto simp: bc_ok_def elim: bc_stepE)
  note f = chan_upd_fields [OF u]
  have len: "length (mkh_channel_value s) = 3" "length (mkh_channel_value s ! d) = 6"
    using ok assms(3) by (simp_all add: bc_ok_def bc_shape_def)
  have row: "mkh_channel_value s2 ! d ! p = v"
    using assms(3,5) by (simp add: f(1) chan_set_def len)
  have ok2: "bc_ok s2" by (rule bc_step_ok [OF s2(1) ok])
  have pend: "pend_ok s d" using ok assms(3) by (simp add: bc_ok_def)
  then have act: "mkh_device_active s2 ! d" using assms(4) by (simp add: pend_ok_def f)
  have "dropping d (int 3) s2" using pend ok2 assms(2,4) act by (simp add: dropping_def pend_ok_def f)
  then have drop: "\<not> mkh_device_active t ! d" using dropping_ends [OF assms(3), of 3 s2 t] s2(2) by (simp add: off_def)
  obtain new where new: "gap_calls t = gap_calls s2 @ new" "mkh_channel_value t = mkh_channel_value s2"
    "\<forall>c\<in>set new. \<exists>k<2. on_air c = Some (control_frame (int k) (mkh_channel_value s2 ! k))"
    using timers_keep_row [OF s2(2) _ ok2] by auto
  have full: "vs ! p = v" if mem: "c \<in> set new" and air: "on_air c = Some (control_frame (int d) vs)" for c vs
  proof -
    obtain k where k: "k < 2" "control_frame (int d) vs = control_frame (int k) (mkh_channel_value s2 ! k)"
      using bspec [OF new(3) mem] air by auto
    then show ?thesis using control_frame_inj [OF k(2)] assms(3) row by auto
  qed
  have "heard d s2 t" by (rule two_firings [OF s2(2) ok2 assms(3) act]) simp
  then have "\<exists>c\<in>set new. \<exists>vs. on_air c = Some (control_frame (int d) vs)" using new(1) by (simp add: heard_def)
  moreover have "aired (int d) new = 0" by (rule none_aired [where p = p]) (use full assms(5,6) in auto)
  moreover have "gap_calls t = gap_calls s @ new" using new(1) f(10) by simp
  ultimately show ?thesis using drop row new(2) full by (intro conjI exI [of _ new]) auto
qed

theorem off_sequence_not_protected_witness:
  "\<exists>s t new. bc_run s (Set_channel 0 0 0xFF 0 # replicate 6 Timer_fires) t \<and> mkh_pending_off_services s ! 0 = 3 \<and>
     \<not> mkh_device_active t ! 0 \<and> mkh_channel_value t ! 0 ! 0 = 0xFF \<and> gap_calls t = gap_calls s @ new \<and> aired 0 new = 0"
proof -
  obtain s s1 where s: "bc_run bc_start [Hci_packet 0x04 [0x60, 1, 2]] s" "mkh_advertising_started s"
    "mkh_device_active s ! 0" "mkh_pending_off_services s ! 0 = 0"
    "bc_step s (Toggle_off 0 (\<lambda>ch. 0)) s1" "bc_ok s1" "mkh_advertising_started s1" by (rule off_requested)
  have "mkh_broadcast_toggle_off (int 0) (\<lambda>ch. 0) s = Some s1" using s(5) by (auto elim: bc_stepE)
  from succeedsD [OF toggle_off_inv [OF bc_run_start_ok [OF s(1)] _ s(3,4)] this]
  have pend: "mkh_pending_off_services s1 ! 0 = 3" by auto
  obtain s2 where s2: "bc_step s1 (Set_channel 0 0 0xFF 0) s2"
    using bc_progress_ok [OF s(6), of "Set_channel 0 0 0xFF 0"] by auto
  have "chan_upd s1 (chan_set 0 0 0xFF (mkh_channel_value s1)) s2"
    using succeedsD [OF set_channel_effect] s2 s(6) by (auto simp: bc_ok_def elim: bc_stepE)
  then have "mkh_advertising_started s2" using s(7) by (simp add: chan_upd_fields)
  then obtain t where t: "bc_run s2 (replicate 6 Timer_fires) t"
    using timers_exist [OF bc_step_ok [OF s2 s(6)]] by blast
  have r: "bc_run s1 (Set_channel 0 0 0xFF 0 # replicate 6 Timer_fires) t"
    using bc_run_append [OF t run_snoc [OF run_nil s2]] by (simp only: append_Cons append_Nil)
  have b: "bc_run bc_start ([Hci_packet 0x04 [0x60, 1, 2]] @ [Toggle_off 0 (\<lambda>ch. 0)]) s1"
    by (rule run_snoc [OF s(1,5)])
  have "\<not> mkh_device_active t ! 0 \<and> mkh_channel_value t ! 0 ! 0 = 0xFF \<and>
    (\<exists>new. gap_calls t = gap_calls s1 @ new \<and> aired (int 0) new = 0 \<and>
       (\<exists>c\<in>set new. \<exists>vs. on_air c = Some (control_frame (int 0) vs)) \<and>
       (\<forall>c\<in>set new. \<forall>vs. on_air c = Some (control_frame (int 0) vs) \<longrightarrow> vs ! 0 = 0xFF))"
    by (rule off_sequence_not_protected [OF b s(7), where now = 0]) (use pend r in simp_all)
  then show ?thesis using r pend by auto
qed

subsection \<open>A late callback\<close>

text \<open>
  The tap handler of the dashboard, \<^verbatim>\<open>loop()\<close> in \<^verbatim>\<open>main/sketch.cpp\<close>: nothing while the hub is
  in transition or within the debounce time, else a switch-off if the hub counts as
  broadcasting and a switch-on if not. The result is the new time stamp and state.
\<close>

definition mkh_toggle_debounce_ms :: u32 where "mkh_toggle_debounce_ms = 200"

definition hub_tap :: "int \<Rightarrow> u32 \<Rightarrow> u32 \<Rightarrow> (int \<Rightarrow> int) \<Rightarrow> bc_state \<Rightarrow> (u32 \<times> bc_state) option" where
  "hub_tap device_id now last_toggle clock s =
     do { busy \<leftarrow> mkh_broadcast_is_transitioning device_id s;
          if busy then Some (last_toggle, s)
          else if now - last_toggle \<ge> mkh_toggle_debounce_ms then do {
            broadcasting \<leftarrow> arr_get (mkh_hub_broadcasting s) device_id;
            t \<leftarrow> (if broadcasting then mkh_broadcast_toggle_off device_id clock s
                  else mkh_broadcast_toggle_on device_id clock s);
            Some (now, t)
          } else Some (last_toggle, s) }"

lemma service_step:
  assumes "bc_ok s" "mkh_advertising_started s" "next_dev s = int d"
  obtains t where "bc_step s Timer_fires t" "serviced d s t" "bc_ok t" "mkh_advertising_started t"
proof -
  obtain t where t: "bc_step s Timer_fires t" "bc_ok t" "mkh_advertising_started t"
    by (rule started_step_exists [OF assms(1,2)])
  have "serviced d s t" by (rule timer_service [OF assms(1) t(1)]) (use assms(3) in auto)
  with t that show ?thesis by blast
qed

lemma next_dev_alternates:
  assumes "bc_ok s" "mkh_device_active s = [True, True, False]" "mkh_time_slice_last_device s = l" "-1 \<le> l" "l < 2"
  shows "next_dev s = (if l = 0 then 1 else 0)"
proof -
  have "l = -1 \<or> l = 0 \<or> l = 1" using assms(4,5) by auto
  then show ?thesis using assms(2,3) by (auto simp: next_dev_def active_dev_def)
qed

lemma set_channel_unchanged:
  assumes "bc_shape s" "0 \<le> d" "d < 3" "mkh_channel_value s ! nat d = mkh_neutral_channels"
  shows "mkh_set_channel d p 0x80 now s = Some s"
proof (cases "0 \<le> p \<and> p < 6")
  case True
  have "nat p < 6" using True by auto
  then have v: "mkh_neutral_channels ! nat p = 0x80" by (simp add: neutral_replicate)
  have l: "length mkh_neutral_channels = 6" by (simp add: neutral_replicate)
  show ?thesis
    using assms True v l
    by (auto simp: mkh_set_channel_def mk1_defs arr_get_def arr_set_def neutral_update update_same bc_shape_def)
qed (auto simp: mkh_set_channel_def mk1_defs)

lemma neutral_from_unchanged:
  "bc_shape s \<Longrightarrow> 0 \<le> d \<Longrightarrow> d < 3 \<Longrightarrow> mkh_channel_value s ! nat d = mkh_neutral_channels \<Longrightarrow>
   neutral_from n ch d clock s = Some s"
  by (induction n arbitrary: ch) (auto simp: set_channel_unchanged)

lemma toggle_off_neutral:
  assumes "bc_shape s" "d < 3" "mkh_device_active s ! d" "mkh_pending_off_services s ! d = 0"
    "mkh_channel_value s ! d = mkh_neutral_channels"
  shows "mkh_broadcast_toggle_off (int d) clock s =
     Some (s\<lparr>mkh_device_transitioning := (mkh_device_transitioning s)[d := True],
             mkh_pending_off_services := (mkh_pending_off_services s)[d := 3]\<rparr>)"
proof -
  let ?s = "s\<lparr>mkh_device_transitioning := (mkh_device_transitioning s)[d := True]\<rparr>"
  have "command_neutral (int d) clock ?s = Some ?s"
    unfolding command_neutral_def
    by (rule neutral_from_unchanged) (use assms in \<open>auto simp: bc_shape_def\<close>)
  then show ?thesis
    using assms by (simp add: mkh_broadcast_toggle_off_def mk1_defs arr_get_def arr_set_def bc_shape_def)
qed

text \<open>Four cycles after the switch-off of hub 1 its countdown stands at one and hub 1 is next.\<close>

lemma start_queue:
  "mkh_start s = Some t \<Longrightarrow> length (mkh_adv_buf s) = 27 \<Longrightarrow> main_thread_queue t = main_thread_queue s \<and>
   mkh_last_event_send_us t = mkh_last_event_send_us s \<and> mkh_time_slice_last_device t = mkh_time_slice_last_device s"
  by (auto simp: mkh_start_def mkh_broadcast_connect_def mkh_set_adv_payload_def Let_def bind_eq_Some_conv split: if_splits)

lemma four_cycles:
  obtains s es where "bc_run bc_start es s" "bc_ok s" "mkh_advertising_started s" "next_dev s = 0"
    "mkh_device_active s = [True, True, False]" "mkh_pending_off_services s = [1, 0, 0]"
    "mkh_channel_value s ! 0 = mkh_neutral_channels" "mkh_last_event_send_us s ! 0 = 0" "main_thread_queue s = []"
proof -
  obtain s where s: "bc_run bc_start [Hci_packet 0x04 [0x60, 1, 2]] s" "mkh_advertising_started s"
    "mkh_device_active s = [True, True, False]" "bc_ok s" "mkh_channel_value s = replicate 3 mkh_neutral_channels"
    "mkh_pending_off_services s = [0, 0, 0]"
    by (rule working_event)
  have "bc_step bc_start (Hci_packet 0x04 [0x60, 1, 2]) s" using bc_run_Cons [OF s(1) refl] by (auto elim: bc_run.cases)
  then have "mkh_broadcast_packet_handler 0x04 [0x60, 1, 2] bc_start = Some s" by (auto elim: bc_stepE)
  moreover have "\<not> mkh_advertising_started bc_start" "length (mkh_adv_buf bc_start) = 27"
    "main_thread_queue bc_start = []" "mkh_last_event_send_us bc_start = [0, 0, 0]"
    "mkh_time_slice_last_device bc_start = -1"
    by (simp_all add: mkh_broadcast_init_def bc_boot_def mk1_defs numeral_3_eq_3)
  ultimately have q: "main_thread_queue s = []" "mkh_last_event_send_us s = [0, 0, 0]" "mkh_time_slice_last_device s = -1"
    using start_queue [of "bc_start\<lparr>mkh_advertising_started := True\<rparr>" s]
    by (simp_all add: mkh_broadcast_packet_handler_def arr_get_def)
  define s0 where "s0 = s\<lparr>mkh_device_transitioning := (mkh_device_transitioning s)[0 := True],
             mkh_pending_off_services := (mkh_pending_off_services s)[0 := 3]\<rparr>"
  have off: "bc_step s (Toggle_off 0 (\<lambda>ch. 0)) s0"
    using toggle_off_neutral [of s 0 "\<lambda>ch. 0"] s by (intro step_off) (simp add: s0_def bc_ok_def)
  have ok0: "bc_ok s0" by (rule bc_step_ok [OF off s(4)])
  have f0: "mkh_advertising_started s0" "mkh_device_active s0 = [True, True, False]" "mkh_pending_off_services s0 = [3, 0, 0]"
    "main_thread_queue s0 = []" "mkh_last_event_send_us s0 = [0, 0, 0]" "mkh_time_slice_last_device s0 = -1"
    "mkh_channel_value s0 = replicate 3 mkh_neutral_channels"
    using s q by (simp_all add: s0_def)
  obtain s1 where s1: "bc_step s0 Timer_fires s1" "serviced 0 s0 s1" "bc_ok s1" "mkh_advertising_started s1"
    by (rule service_step [OF ok0 f0(1), of 0]) (use next_dev_alternates [OF ok0 f0(2,6)] in auto)
  note f1 = serviced_fields(1-8) [OF s1(2), unfolded f0, simplified]
  obtain s2 where s2: "bc_step s1 Timer_fires s2" "serviced 1 s1 s2" "bc_ok s2" "mkh_advertising_started s2"
    by (rule service_step [OF s1(3,4), of 1]) (use next_dev_alternates [OF s1(3) f1(4,2)] in auto)
  note f2 = serviced_fields(1-8) [OF s2(2), unfolded f1, simplified]
  obtain s3 where s3: "bc_step s2 Timer_fires s3" "serviced 0 s2 s3" "bc_ok s3" "mkh_advertising_started s3"
    by (rule service_step [OF s2(3,4), of 0]) (use next_dev_alternates [OF s2(3) f2(4,2)] in auto)
  note f3 = serviced_fields(1-8) [OF s3(2), unfolded f2, simplified]
  obtain s4 where s4: "bc_step s3 Timer_fires s4" "serviced 1 s3 s4" "bc_ok s4" "mkh_advertising_started s4"
    by (rule service_step [OF s3(3,4), of 1]) (use next_dev_alternates [OF s3(3) f3(4,2)] in auto)
  note f4 = serviced_fields(1-8) [OF s4(2), unfolded f3, simplified]
  have run: "bc_run bc_start (((([Hci_packet 0x04 [0x60, 1, 2]] @ [Toggle_off 0 (\<lambda>ch. 0)]) @ [Timer_fires]) @ [Timer_fires]) @ [Timer_fires] @ [Timer_fires]) s4"
    using run_snoc [OF run_snoc [OF run_snoc [OF run_snoc [OF run_snoc [OF s(1) off] s1(1)] s2(1)] s3(1)] s4(1)]
    by (simp only: append_assoc)
  show ?thesis
    by (rule that [OF run s4(3,4)])
       (use next_dev_alternates [OF s4(3) f4(4,2)] f4 in \<open>auto simp: numeral_3_eq_3\<close>)
qed


lemma set_channel_sends:
  assumes "bc_shape s" "mkh_device_active s ! 0" "mkh_channel_value s ! 0 = mkh_neutral_channels"
    "mkh_last_event_send_us s ! 0 = 0" "main_thread_queue s = []"
  shows "mkh_set_channel 0 0 0xFF 25000 s =
    Some (s\<lparr>mkh_channel_value := (mkh_channel_value s)[0 := 0xFF # replicate 5 0x80],
            mkh_last_event_send_us := (mkh_last_event_send_us s)[0 := 25000], main_thread_queue := [0]\<rparr>)"
proof -
  have r: "replicate 5 (0x80 :: u8) = [0x80, 0x80, 0x80, 0x80, 0x80]" by (simp add: numeral_eq_Suc)
  have l: "length (mkh_channel_value s) = 3" "length (mkh_device_active s) = 3" "length (mkh_last_event_send_us s) = 3"
    using assms(1) by (simp_all add: bc_shape_def)
  show ?thesis
    using assms(2-) l
    by (simp add: mkh_set_channel_def mk1_defs arr_get_def arr_set_def mkh_neutral_channels_def Let_def
        execute_on_main_thread_def mkh_event_send_min_interval_us_def r flip: length_greater_0_conv)
qed

text \<open>The last service of a countdown, then a callback that was queued before it.\<close>

lemma late_callback:
  assumes "bc_ok s" "mkh_advertising_started s" "next_dev s = int 0" "mkh_pending_off_services s = [1, 0, 0]"
    "main_thread_queue s = [0]" "length (mkh_device_active s) = 3"
  obtains t u bs where "bc_step s Timer_fires t" "bc_step t Run_callback u" "bc_ok u"
    "\<not> mkh_device_active u ! 0" "mkh_hub_broadcasting u ! 0" "last (gap_calls u) = Gap_set_data bs"
    "on_air (Gap_set_data bs) = Some (control_frame 0 (mkh_channel_value s ! 0))" "mkh_pending_off_services u ! 0 = 0"
proof -
  obtain t where t: "bc_step s Timer_fires t" "serviced 0 s t" "bc_ok t" by (rule service_step [OF assms(1-3)])
  note f = serviced_fields [OF t(2)]
  have len: "length (mkh_hub_broadcasting t) = 3" using t(3) by (simp add: bc_ok_def bc_shape_def)
  have q: "main_thread_queue t = [0]" using assms(5) f by simp
  have "bc_shape (t\<lparr>main_thread_queue := []\<rparr>)" using queue_head(1) [OF t(3) q] by (simp add: bc_ok_def)
  from callback_effect [OF this, of 0] obtain u v where
    u: "mkh_event_send_callback 0 (t\<lparr>main_thread_queue := []\<rparr>) = Some u"
    and v: "staged (t\<lparr>main_thread_queue := []\<rparr>) (control_frame 0 (mkh_channel_value t ! 0)) v"
      "u = v\<lparr>mkh_hub_broadcasting := (mkh_hub_broadcasting t)[0 := True]\<rparr>"
    by (auto elim!: succeedsE)
  have st: "bc_step t Run_callback u" by (rule step_callback [OF q u])
  obtain buf bs where bs: "v = t\<lparr>main_thread_queue := [], mkh_adv_buf := buf, gap_calls := gap_calls t @ [Gap_set_data bs]\<rparr>"
    "hub_decode (drop 7 bs) = Some (control_frame 0 (mkh_channel_value t ! 0))"
    using v(1) by (auto elim!: stagedE)
  show ?thesis
    by (rule that [OF t(1) st bc_step_ok [OF st t(3)], of bs]) (use v(2) bs f assms(4,6) len in simp_all)
qed

text \<open>C14: A callback queued before the drop and run after it undoes the drop on the dashboard only. A state
  is reachable in which hub 1 is out of the rotation and the last call put a full-power telegram for it
  on air, yet the hub is marked as broadcasting; and in that state every tap on its row, at any time,
  leaves the broadcaster as it is, so that a tap does not switch the hub on again.\<close>

theorem late_callback_disables_switch:
  "\<exists>es s bs. bc_run bc_start es s \<and> \<not> mkh_device_active s ! 0 \<and> mkh_hub_broadcasting s ! 0 \<and>
     last (gap_calls s) = Gap_set_data bs \<and> on_air (Gap_set_data bs) = Some (control_frame 0 (0xFF # replicate 5 0x80)) \<and>
     (\<forall>now prev clock. \<exists>stamp. hub_tap 0 now prev clock s = Some (stamp, s))"
proof -
  obtain s es where s: "bc_run bc_start es s" "bc_ok s" "mkh_advertising_started s" "next_dev s = 0"
    "mkh_device_active s = [True, True, False]" "mkh_pending_off_services s = [1, 0, 0]"
    "mkh_channel_value s ! 0 = mkh_neutral_channels" "mkh_last_event_send_us s ! 0 = 0" "main_thread_queue s = []"
    by (rule four_cycles)
  have sh: "bc_shape s" using s(2) by (simp add: bc_ok_def)
  define s1 where "s1 = s\<lparr>mkh_channel_value := (mkh_channel_value s)[0 := 0xFF # replicate 5 0x80],
            mkh_last_event_send_us := (mkh_last_event_send_us s)[0 := 25000], main_thread_queue := [0]\<rparr>"
  have st1: "bc_step s (Set_channel 0 0 0xFF 25000) s1"
    using set_channel_sends [OF sh _ s(7,8,9)] s(5) by (intro step_set) (simp add: s1_def)
  have ok1: "bc_ok s1" by (rule bc_step_ok [OF st1 s(2)])
  have "next_dev s1 = next_dev s" by (simp add: next_dev_def active_dev_def s1_def)
  then have f1: "mkh_advertising_started s1" "next_dev s1 = int 0" "mkh_pending_off_services s1 = [1, 0, 0]"
    "mkh_device_active s1 = [True, True, False]" "main_thread_queue s1 = [0]"
    "mkh_channel_value s1 ! 0 = 0xFF # replicate 5 0x80"
    using s(3-7) sh by (simp_all add: s1_def bc_shape_def)
  obtain s2 s3 bs where s3: "bc_step s1 Timer_fires s2" "bc_step s2 Run_callback s3" "bc_ok s3"
    and f3: "\<not> mkh_device_active s3 ! 0" "mkh_hub_broadcasting s3 ! 0" "last (gap_calls s3) = Gap_set_data bs"
      "on_air (Gap_set_data bs) = Some (control_frame 0 (0xFF # replicate 5 0x80))" "mkh_pending_off_services s3 ! 0 = 0"
    by (rule late_callback [OF ok1 f1(1,2,3,5), unfolded f1(6)]) (use f1(4) in simp)
  have tr: "mkh_broadcast_is_transitioning 0 s3 = Some False" and sh3: "bc_shape s3"
    using s3(3) f3(5) by (auto simp: mkh_broadcast_is_transitioning_def mk1_defs arr_get_def bc_ok_def bc_shape_def pend_ok_def)
  have hb: "arr_get (mkh_hub_broadcasting s3) 0 = Some True" using f3(2) sh3 by (simp add: arr_get_def bc_shape_def)
  have "mkh_broadcast_toggle_off 0 clock s3 = Some s3" for clock
    using toggle_off_idempotent [OF sh3, of 0 clock] f3(1) by simp
  then have tap: "\<exists>stamp. hub_tap 0 now prev clock s3 = Some (stamp, s3)" for now prev clock
    by (simp add: hub_tap_def tr hb)
  have run: "bc_run bc_start (((es @ [Set_channel 0 0 0xFF 25000]) @ [Timer_fires]) @ [Run_callback]) s3"
    by (rule run_snoc [OF run_snoc [OF run_snoc [OF s(1) st1] s3(1)] s3(2)])
  show ?thesis
    by (rule exI [of _ "((es @ [Set_channel 0 0 0xFF 25000]) @ [Timer_fires]) @ [Run_callback]"],
        rule exI [of _ s3], rule exI [of _ bs]) (intro conjI allI run f3 tap)
qed

end
