(* ===== verification/C_Strings.thy ===== *)
theory C_Strings
  imports Prelude
begin

text \<open>
  The C string library as far as the configuration code uses it. A C string is the \<open>char\<close> list
  before its terminating NUL. Each function is the standard one on such lists: \<open>strncpy\<close> into a
  buffer of size \<open>n\<close> that the code terminates itself, \<open>strchr\<close> as the split at the first
  occurrence, \<open>strtok_r\<close> run to its end as the list of tokens, \<open>strcasecmp\<close> in the C locale,
  \<open>strtol\<close> with its end pointer, and decimal output.
\<close>

section \<open>Character classes\<close>

definition is_blank :: "char \<Rightarrow> bool" where
  "is_blank c \<longleftrightarrow> c = CHR '' '' \<or> c = CHR 0x09"

definition is_space :: "char \<Rightarrow> bool" where
  "is_space c \<longleftrightarrow> c = CHR '' '' \<or> 9 \<le> (of_char c :: nat) \<and> (of_char c :: nat) \<le> 13"

definition is_digit :: "char \<Rightarrow> bool" where
  "is_digit c \<longleftrightarrow> 48 \<le> (of_char c :: nat) \<and> (of_char c :: nat) \<le> 57"

definition digit_value :: "char \<Rightarrow> int" where
  "digit_value c = int (of_char c) - 48"

definition to_lower :: "char \<Rightarrow> char" where
  "to_lower c = (if 65 \<le> (of_char c :: nat) \<and> (of_char c :: nat) \<le> 90
                 then char_of (of_char c + 32 :: nat) else c)"

lemmas char_class_defs [mk1_defs] = is_blank_def is_space_def is_digit_def digit_value_def to_lower_def

section \<open>String functions\<close>

definition strncpy_term :: "nat \<Rightarrow> string \<Rightarrow> string" where
  "strncpy_term n s = take (n - 1) s"

definition strcaseeq :: "string \<Rightarrow> string \<Rightarrow> bool" where
  "strcaseeq a b \<longleftrightarrow> map to_lower a = map to_lower b"

text \<open>The parts before and after the first \<open>c\<close>, if there is one.\<close>

fun strchr_split :: "char \<Rightarrow> string \<Rightarrow> (string \<times> string) option" where
  "strchr_split c [] = None"
| "strchr_split c (x # xs) =
     (if x = c then Some ([], xs)
      else map_option (\<lambda>(a, b). (x # a, b)) (strchr_split c xs))"

text \<open>\<open>strtok_r\<close> with delimiters space and tab, called until it returns \<open>NULL\<close>.\<close>

function strtok_all :: "string \<Rightarrow> string list" where
  "strtok_all s =
     (let s' = dropWhile is_blank s
      in if s' = [] then []
         else takeWhile (Not \<circ> is_blank) s' # strtok_all (dropWhile (Not \<circ> is_blank) s'))"
  by pat_completeness auto
termination
proof (relation "measure length", simp)
  fix s s' assume s': "s' = dropWhile is_blank s" and ne: "s' \<noteq> []"
  then have "\<not> is_blank (hd s')" by (metis hd_dropWhile)
  with ne have "length (dropWhile (Not \<circ> is_blank) s') < length s'"
    by (cases s') (simp_all add: length_dropWhile_le le_imp_less_Suc)
  also have "\<dots> \<le> length s" by (simp add: s' length_dropWhile_le)
  finally show "(dropWhile (Not \<circ> is_blank) s', s) \<in> measure length" by simp
qed

declare strtok_all.simps [simp del]

definition digits_value :: "string \<Rightarrow> int" where
  "digits_value ds = fold (\<lambda>c v. v * 10 + digit_value c) ds 0"

text \<open>\<open>strtol(s, &end, 10)\<close>: \<open>None\<close> when nothing is converted, else the value and the rest.
  The value is not cut to \<open>long\<close>; the only caller rejects everything outside 0..100.\<close>

definition strtol10 :: "string \<Rightarrow> (int \<times> string) option" where
  "strtol10 s0 =
     (let s = dropWhile is_space s0;
          (neg, t) = (case s of [] \<Rightarrow> (False, s)
                      | c # r \<Rightarrow> if c = CHR ''-'' then (True, r) else if c = CHR ''+'' then (False, r)
                               else (False, s));
          ds = takeWhile is_digit t
      in if ds = [] then None
         else Some (if neg then - digits_value ds else digits_value ds, dropWhile is_digit t))"

text \<open>Matching of a literal part of a \<open>sscanf\<close> format.\<close>

fun match_prefix :: "string \<Rightarrow> string \<Rightarrow> string option" where
  "match_prefix [] s = Some s"
| "match_prefix (p # ps) [] = None"
| "match_prefix (p # ps) (c # cs) = (if p = c then match_prefix ps cs else None)"

text \<open>Decimal output of \<open>%d\<close> and \<open>%u\<close> for a non-negative number.\<close>

fun dec :: "nat \<Rightarrow> string" where
  "dec n = (if n < 10 then [char_of (48 + n)] else dec (n div 10) @ [char_of (48 + n mod 10)])"

declare dec.simps [simp del]

section \<open>Facts about tokens and numbers\<close>

lemma strtok_all_Nil [simp]: "strtok_all [] = []"
  by (subst strtok_all.simps) simp

lemma strtok_all_blank: "is_blank c \<Longrightarrow> strtok_all (c # s) = strtok_all s"
  by (subst (1 2) strtok_all.simps) simp

definition word_like :: "string \<Rightarrow> bool" where
  "word_like w \<longleftrightarrow> w \<noteq> [] \<and> (\<forall>c \<in> set w. \<not> is_blank c)"

lemma strtok_all_word_end: "word_like w \<Longrightarrow> strtok_all w = [w]"
proof -
  assume w: "word_like w"
  then have "dropWhile is_blank w = w" "takeWhile (Not \<circ> is_blank) w = w" "dropWhile (Not \<circ> is_blank) w = []"
    by (auto simp: word_like_def dropWhile_eq_self_iff takeWhile_eq_all_conv)
  with w show "strtok_all w = [w]"
    by (subst strtok_all.simps) (simp add: word_like_def del: dropWhile_eq_Nil_conv)
qed

lemma strtok_all_word: "word_like w \<Longrightarrow> strtok_all (w @ CHR '' '' # s) = w # strtok_all s"
proof -
  assume w: "word_like w"
  let ?s = "w @ CHR '' '' # s"
  have "dropWhile is_blank ?s = ?s" using w by (cases w) (auto simp: word_like_def)
  moreover have "takeWhile (Not \<circ> is_blank) ?s = w" "dropWhile (Not \<circ> is_blank) ?s = CHR '' '' # s"
    using w by (auto simp: word_like_def is_blank_def takeWhile_append dropWhile_append)
  ultimately have "strtok_all ?s = w # strtok_all (CHR '' '' # s)"
    using w by (subst strtok_all.simps) (simp add: word_like_def)
  then show ?thesis by (simp add: strtok_all_blank is_blank_def)
qed

lemma strchr_split_notin: "c \<notin> set s \<Longrightarrow> strchr_split c s = None"
  by (induction s) auto

lemma strchr_split_first: "c \<notin> set a \<Longrightarrow> strchr_split c (a @ c # b) = Some (a, b)"
  by (induction a) auto

lemma match_prefix_append [simp]: "match_prefix p (p @ s) = Some s"
  by (induction p) auto

lemma strcaseeq_refl [simp]: "strcaseeq s s"
  by (simp add: strcaseeq_def)

lemma digit_char: "d < 10 \<Longrightarrow> is_digit (char_of (48 + d :: nat)) \<and> digit_value (char_of (48 + d :: nat)) = int d"
proof -
  assume "d < 10"
  then have "d \<in> {0, 1, 2, 3, 4, 5, 6, 7, 8, 9}" by auto
  then show ?thesis by (auto simp: is_digit_def digit_value_def)
qed

lemma dec_digits: "\<forall>c \<in> set (dec n). is_digit c"
proof (induction n rule: dec.induct)
  case (1 n)
  then show ?case by (subst dec.simps) (auto simp: digit_char)
qed

lemma dec_nonempty [simp]: "dec n \<noteq> []"
  by (subst dec.simps) simp

lemma digits_value_snoc: "digits_value (ds @ [c]) = digits_value ds * 10 + digit_value c"
  by (simp add: digits_value_def)

lemma digits_value_dec [simp]: "digits_value (dec n) = int n"
proof (induction n rule: dec.induct)
  case (1 n)
  show ?case
  proof (cases "n < 10")
    case True
    then show ?thesis by (subst dec.simps) (simp add: digits_value_def digit_char)
  next
    case False
    then have "digits_value (dec n) = int (n div 10) * 10 + int (n mod 10)"
      using 1 by (subst dec.simps) (simp add: digits_value_snoc digit_char)
    also have "\<dots> = int n" by (simp add: zdiv_int zmod_int)
    finally show ?thesis .
  qed
qed

lemma length_dec_le: "n < 10 ^ k \<Longrightarrow> 0 < k \<Longrightarrow> length (dec n) \<le> k"
proof (induction n arbitrary: k rule: dec.induct)
  case (1 n)
  show ?case
  proof (cases "n < 10")
    case True
    with 1 show ?thesis by (subst dec.simps) simp
  next
    case False
    then have k: "1 < k" using 1 by (cases "k = 1") auto
    then have "n div 10 < 10 ^ (k - 1)" using 1(2) by (cases k) (auto simp: less_mult_imp_div_less mult.commute)
    then have "length (dec (n div 10)) \<le> k - 1" using 1(1) False k by simp
    with False k show ?thesis by (subst dec.simps) simp
  qed
qed

lemma digit_not_space: "is_digit c \<Longrightarrow> \<not> is_space c \<and> \<not> is_blank c"
  by (auto simp: is_digit_def is_space_def is_blank_def)

lemma strtol10_dec [simp]: "strtol10 (dec n) = Some (int n, [])"
proof -
  obtain c cs where d: "dec n = c # cs" by (cases "dec n") simp_all
  have dig: "is_digit c" "\<forall>x \<in> set (c # cs). is_digit x" using dec_digits [of n] d by auto
  then have tw: "takeWhile is_digit (c # cs) = c # cs" "dropWhile is_digit (c # cs) = []"
    by (auto simp: takeWhile_eq_all_conv)
  have "c \<noteq> CHR ''-''" "c \<noteq> CHR ''+''" using dig(1) by (auto simp: is_digit_def)
  moreover have "dropWhile is_space (c # cs) = c # cs" using digit_not_space [OF dig(1)] by simp
  moreover have "digits_value (c # cs) = int n" by (simp flip: d)
  ultimately show ?thesis unfolding strtol10_def d Let_def using tw by simp
qed

end
