(* ===== verification/Mkh_Ports.thy ===== *)
theory Mkh_Ports
  imports C_Strings Mkh_Protocol
begin

text \<open>
  \<^verbatim>\<open>main/mkh_ports.h\<close>: the human-facing names of hub ports and hubs, and their inverses.
\<close>

definition mkh_port_letter :: "int \<Rightarrow> char" where
  "mkh_port_letter channel = char_of (65 + channel)"

definition mkh_port_from_letter :: "char \<Rightarrow> int" where
  "mkh_port_from_letter letter =
     (let l = of_char letter :: int;
          upper = (if 97 \<le> l \<and> l \<le> 122 then l - 97 + 65 else l)
      in if upper < 65 \<or> upper \<ge> 65 + mkh_mk6_num_channels then -1 else upper - 65)"

definition mkh_device_app_number :: "int \<Rightarrow> int" where
  "mkh_device_app_number device_id = device_id + 1"

definition mkh_device_protocol_index :: "int \<Rightarrow> int" where
  "mkh_device_protocol_index app_number =
     (if app_number < 1 \<or> app_number > mkh_mk6_num_devices then -1 else app_number - 1)"

lemma port_letter_roundtrip:
  assumes "0 \<le> c" "c < mkh_mk6_num_channels"
  shows "mkh_port_from_letter (mkh_port_letter c) = c"
proof -
  have "c \<in> {0, 1, 2, 3, 4, 5}" using assms by (auto simp: mkh_mk6_num_channels_def)
  then show ?thesis
    by (auto simp: mkh_port_letter_def mkh_port_from_letter_def mkh_mk6_num_channels_def)
qed

lemma device_number_roundtrip:
  "0 \<le> d \<Longrightarrow> d < mkh_mk6_num_devices \<Longrightarrow> mkh_device_protocol_index (mkh_device_app_number d) = d"
  by (simp add: mkh_device_app_number_def mkh_device_protocol_index_def)

lemma mkh_port_from_letter_range:
  "0 \<le> mkh_port_from_letter c \<Longrightarrow> mkh_port_from_letter c < mkh_mk6_num_channels"
  by (auto simp: mkh_port_from_letter_def Let_def split: if_splits)

lemma mkh_device_protocol_index_range:
  "0 \<le> mkh_device_protocol_index n \<Longrightarrow> mkh_device_protocol_index n < mkh_mk6_num_devices"
  by (auto simp: mkh_device_protocol_index_def split: if_splits)

end
