(* ===== verification/Mkh_Config.thy ===== *)
theory Mkh_Config
  imports Mkh_Ports
begin

text \<open>
  \<^verbatim>\<open>main/mkh_config.h\<close> and \<^verbatim>\<open>main/mkh_config.c\<close>: the mapping table of three hubs with six ports,
  its line parser and its serializer. The C array \<open>bindings[8]\<close> with \<open>binding_count\<close> is the list
  of its first \<open>binding_count\<close> entries, the only ones any reader looks at. Logging is left out; a
  rejected line is visible as the incremented \<open>skipped_lines\<close>. The lemmas show the table invariant,
  the effect of a parsed line, the failure posture, and the round trip of save and load.
\<close>

section \<open>Data\<close>

datatype mkh_input_source =
    MKH_INPUT_NONE
  | MKH_INPUT_LSNS | MKH_INPUT_LSEW | MKH_INPUT_RSNS | MKH_INPUT_RSEW
  | MKH_INPUT_LT | MKH_INPUT_RT
  | MKH_INPUT_BTN_A | MKH_INPUT_BTN_B | MKH_INPUT_BTN_X | MKH_INPUT_BTN_Y
  | MKH_INPUT_LB | MKH_INPUT_RB
  | MKH_INPUT_DPAD_UP | MKH_INPUT_DPAD_DOWN | MKH_INPUT_DPAD_LEFT | MKH_INPUT_DPAD_RIGHT
  | MKH_INPUT_L3 | MKH_INPUT_R3

datatype mkh_input_class = MKH_INPUT_CLASS_AXIS | MKH_INPUT_CLASS_TRIGGER | MKH_INPUT_CLASS_DIGITAL

datatype mkh_input_mode =
  MKH_MODE_PROPORTIONAL | MKH_MODE_MOMENTARY | MKH_MODE_LATCHED | MKH_MODE_PULSE | MKH_MODE_THL

definition mkh_max_bindings_per_port :: nat where "mkh_max_bindings_per_port = 8"

record mkh_binding =
  b_input :: mkh_input_source
  b_invert :: bool
  b_max_percent :: nat
  b_mode :: mkh_input_mode

record mkh_port_config =
  bindings :: "mkh_binding list"
  from_file :: bool

record config_state =
  s_table :: "mkh_port_config list list"
  s_source_is_file :: bool
  s_skipped_lines :: nat

text \<open>The statics before the first call: all zero.\<close>

definition config_init :: config_state where
  "config_init =
     \<lparr>s_table = replicate 3 (replicate 6 \<lparr>bindings = [], from_file = False\<rparr>),
      s_source_is_file = False, s_skipped_lines = 0\<rparr>"

definition kInputTokens :: "(string \<times> mkh_input_source) list" where
  "kInputTokens =
     [(''LSNS'', MKH_INPUT_LSNS), (''LSEW'', MKH_INPUT_LSEW), (''RSNS'', MKH_INPUT_RSNS), (''RSEW'', MKH_INPUT_RSEW),
      (''LT'', MKH_INPUT_LT), (''RT'', MKH_INPUT_RT), (''A'', MKH_INPUT_BTN_A), (''B'', MKH_INPUT_BTN_B),
      (''X'', MKH_INPUT_BTN_X), (''Y'', MKH_INPUT_BTN_Y), (''LB'', MKH_INPUT_LB), (''RB'', MKH_INPUT_RB),
      (''DUP'', MKH_INPUT_DPAD_UP), (''DDN'', MKH_INPUT_DPAD_DOWN),
      (''DLT'', MKH_INPUT_DPAD_LEFT), (''DRT'', MKH_INPUT_DPAD_RIGHT),
      (''L3'', MKH_INPUT_L3), (''R3'', MKH_INPUT_R3)]"

definition kModeTokens :: "(string \<times> mkh_input_mode) list" where
  "kModeTokens =
     [(''proportional'', MKH_MODE_PROPORTIONAL), (''momentary'', MKH_MODE_MOMENTARY),
      (''latched'', MKH_MODE_LATCHED), (''pulse'', MKH_MODE_PULSE), (''thl'', MKH_MODE_THL)]"

fun mkh_config_input_class :: "mkh_input_source \<Rightarrow> mkh_input_class" where
  "mkh_config_input_class MKH_INPUT_LSNS = MKH_INPUT_CLASS_AXIS"
| "mkh_config_input_class MKH_INPUT_LSEW = MKH_INPUT_CLASS_AXIS"
| "mkh_config_input_class MKH_INPUT_RSNS = MKH_INPUT_CLASS_AXIS"
| "mkh_config_input_class MKH_INPUT_RSEW = MKH_INPUT_CLASS_AXIS"
| "mkh_config_input_class MKH_INPUT_LT = MKH_INPUT_CLASS_TRIGGER"
| "mkh_config_input_class MKH_INPUT_RT = MKH_INPUT_CLASS_TRIGGER"
| "mkh_config_input_class _ = MKH_INPUT_CLASS_DIGITAL"

definition default_mode_for_input :: "mkh_input_source \<Rightarrow> mkh_input_mode" where
  "default_mode_for_input input =
     (if mkh_config_input_class input = MKH_INPUT_CLASS_DIGITAL then MKH_MODE_MOMENTARY
      else MKH_MODE_PROPORTIONAL)"

section \<open>Token tables\<close>

text \<open>The table scans: the first row whose name matches, and the first row with the value.\<close>

fun find_token :: "(string \<times> 'v) list \<Rightarrow> string \<Rightarrow> 'v option" where
  "find_token [] tok = None"
| "find_token ((name, value) # rows) tok =
     (if strcaseeq tok name then Some value else find_token rows tok)"

fun token_name :: "(string \<times> 'v) list \<Rightarrow> string \<Rightarrow> 'v \<Rightarrow> string" where
  "token_name [] fallback v = fallback"
| "token_name ((name, value) # rows) fallback v =
     (if value = v then name else token_name rows fallback v)"

definition input_token_name :: "mkh_input_source \<Rightarrow> string" where
  "input_token_name input = token_name kInputTokens ''none'' input"

definition mode_token_name :: "mkh_input_mode \<Rightarrow> string" where
  "mode_token_name mode = token_name kModeTokens ''proportional'' mode"

section \<open>Table operations\<close>

definition port_at :: "config_state \<Rightarrow> nat \<Rightarrow> nat \<Rightarrow> mkh_port_config" where
  "port_at st d p = s_table st ! d ! p"

definition set_port :: "nat \<Rightarrow> nat \<Rightarrow> mkh_port_config \<Rightarrow> config_state \<Rightarrow> config_state" where
  "set_port d p cfg st = st\<lparr>s_table := (s_table st)[d := (s_table st ! d)[p := cfg]]\<rparr>"

definition mkh_config_set_defaults :: "config_state \<Rightarrow> config_state" where
  "mkh_config_set_defaults st =
     st\<lparr>s_table := replicate 3 (replicate 6 \<lparr>bindings = [], from_file = False\<rparr>),
        s_skipped_lines := 0\<rparr>"

definition fallback_binding :: "mkh_input_source \<Rightarrow> mkh_binding" where
  "fallback_binding input =
     \<lparr>b_input = input, b_invert = False, b_max_percent = 100, b_mode = MKH_MODE_PROPORTIONAL\<rparr>"

definition apply_fallback :: "nat \<Rightarrow> mkh_input_source \<Rightarrow> config_state \<Rightarrow> config_state" where
  "apply_fallback d input st =
     (if bindings (port_at st d 0) = []
      then set_port d 0 ((port_at st d 0)\<lparr>bindings := [fallback_binding input]\<rparr>) st else st)"

definition mkh_config_apply_compiled_in_fallbacks :: "config_state \<Rightarrow> config_state" where
  "mkh_config_apply_compiled_in_fallbacks st =
     apply_fallback 1 MKH_INPUT_RSNS (apply_fallback 0 MKH_INPUT_LSNS st)"

definition mkh_config_get_skipped_line_count :: "config_state \<Rightarrow> nat" where
  "mkh_config_get_skipped_line_count st = s_skipped_lines st"

definition mkh_config_note_source :: "bool \<Rightarrow> config_state \<Rightarrow> config_state" where
  "mkh_config_note_source b st = st\<lparr>s_source_is_file := b\<rparr>"

definition mkh_config_source_is_file :: "config_state \<Rightarrow> bool" where
  "mkh_config_source_is_file st = s_source_is_file st"

definition mkh_config_get :: "config_state \<Rightarrow> int \<Rightarrow> int \<Rightarrow> mkh_port_config option" where
  "mkh_config_get st device_id port =
     (if device_id < 0 \<or> device_id \<ge> mkh_mk6_num_devices then None
      else if port < 0 \<or> port \<ge> mkh_mk6_num_channels then None
      else Some (port_at st (nat device_id) (nat port)))"

text \<open>The caller's array holds at least \<open>count\<close> bindings.\<close>

definition mkh_config_set_port_bindings ::
  "int \<Rightarrow> int \<Rightarrow> mkh_binding list \<Rightarrow> int \<Rightarrow> config_state \<Rightarrow> config_state" where
  "mkh_config_set_port_bindings device_id port bs count0 st =
     (if device_id < 0 \<or> device_id \<ge> mkh_mk6_num_devices then st
      else if port < 0 \<or> port \<ge> mkh_mk6_num_channels then st
      else if count0 < 0 then st
      else
        (let count = (if count0 > int mkh_max_bindings_per_port then int mkh_max_bindings_per_port else count0)
         in set_port (nat device_id) (nat port) \<lparr>bindings = take (nat count) bs, from_file = True\<rparr> st))"

section \<open>Serializer\<close>

definition yes_no :: "bool \<Rightarrow> string" where
  "yes_no b = (if b then ''yes'' else ''no'')"

definition binding_line :: "nat \<Rightarrow> nat \<Rightarrow> mkh_binding \<Rightarrow> string" where
  "binding_line d p b =
     ''HUB'' @ dec (nat (mkh_device_app_number (int d))) @ ''_PORT_'' @ [mkh_port_letter (int p)] @ '' = '' @
     input_token_name (b_input b) @ '' invert='' @ yes_no (b_invert b) @
     '' max='' @ dec (b_max_percent b) @ '' curve=linear'' @
     (if mkh_config_input_class (b_input b) = MKH_INPUT_CLASS_AXIS then [CHR 0x0A]
      else '' mode='' @ mode_token_name (b_mode b) @ [CHR 0x0A])"

text \<open>The table's bindings in the order of the three nested loops.\<close>

definition table_entries :: "config_state \<Rightarrow> (nat \<times> nat \<times> mkh_binding) list" where
  "table_entries st =
     concat (map (\<lambda>d. concat (map (\<lambda>p. map (\<lambda>b. (d, p, b)) (bindings (port_at st d p))) [0..<6])) [0..<3])"

definition append_line :: "nat \<Rightarrow> string \<Rightarrow> string option \<Rightarrow> string option" where
  "append_line buf_size line acc =
     (case acc of None \<Rightarrow> None
      | Some used \<Rightarrow> if length line \<ge> buf_size - length used then None else Some (used @ line))"

text \<open>\<open>None\<close> is the return value -1.\<close>

definition mkh_config_serialize :: "nat \<Rightarrow> config_state \<Rightarrow> string option" where
  "mkh_config_serialize buf_size st =
     fold (append_line buf_size) (map (\<lambda>(d, p, b). binding_line d p b) (table_entries st)) (Some [])"

section \<open>Line parser\<close>

definition skip_spaces :: "string \<Rightarrow> string" where
  "skip_spaces s = dropWhile is_blank s"

definition rstrip :: "string \<Rightarrow> string" where
  "rstrip s = rev (dropWhile (\<lambda>c. is_blank c \<or> c = CHR 0x0D \<or> c = CHR 0x0A) (rev s))"

text \<open>\<open>sscanf(key, "HUB%d_PORT_%c", ...) == 2\<close>.\<close>

definition sscanf_hub_port :: "string \<Rightarrow> (int \<times> char) option" where
  "sscanf_hub_port key =
     Option.bind (match_prefix ''HUB'' key) (\<lambda>s1.
     Option.bind (strtol10 s1) (\<lambda>(hub_num, s2).
     Option.bind (match_prefix ''_PORT_'' s2) (\<lambda>s3.
     case s3 of [] \<Rightarrow> None | c # _ \<Rightarrow> Some (hub_num, c))))"

text \<open>The attribute loop; \<open>None\<close> is a rejected line.\<close>

fun parse_attributes ::
  "string list \<Rightarrow> bool \<times> nat \<times> mkh_input_mode \<Rightarrow> (bool \<times> nat \<times> mkh_input_mode) option" where
  "parse_attributes [] acc = Some acc"
| "parse_attributes (tok # toks) (invert, max_percent, mode) =
     (case strchr_split CHR ''='' tok of
        None \<Rightarrow> None
      | Some (attr_key, attr_val) \<Rightarrow>
          if strcaseeq attr_key ''invert'' then
            (if strcaseeq attr_val ''yes'' then parse_attributes toks (True, max_percent, mode)
             else if strcaseeq attr_val ''no'' then parse_attributes toks (False, max_percent, mode)
             else None)
          else if strcaseeq attr_key ''max'' then
            (case strtol10 attr_val of
               None \<Rightarrow> None
             | Some (v, rest) \<Rightarrow>
                 if rest \<noteq> [] \<or> v < 0 \<or> v > 100 then None
                 else parse_attributes toks (invert, nat v, mode))
          else if strcaseeq attr_key ''curve'' then
            parse_attributes toks (invert, max_percent, mode)
          else if strcaseeq attr_key ''mode'' then
            (case find_token kModeTokens attr_val of
               None \<Rightarrow> None
             | Some m \<Rightarrow> parse_attributes toks (invert, max_percent, m))
          else None)"

definition add_binding :: "nat \<Rightarrow> nat \<Rightarrow> mkh_binding \<Rightarrow> config_state \<Rightarrow> config_state" where
  "add_binding d p b st =
     set_port d p \<lparr>bindings = bindings (port_at st d p) @ [b], from_file = True\<rparr> st"

definition skip_line :: "config_state \<Rightarrow> config_state" where
  "skip_line st = st\<lparr>s_skipped_lines := s_skipped_lines st + 1\<rparr>"

definition mkh_config_parse_line :: "string \<Rightarrow> config_state \<Rightarrow> config_state" where
  "mkh_config_parse_line raw_line st =
     (let line = rstrip (strncpy_term 128 raw_line); trimmed = skip_spaces line
      in if trimmed = [] \<or> hd trimmed = CHR ''#'' then st
         else case strchr_split CHR ''='' line of
           None \<Rightarrow> skip_line st
         | Some (lhs, rhs) \<Rightarrow>
             (let key = rstrip (skip_spaces lhs); value = skip_spaces rhs
              in case sscanf_hub_port key of
                None \<Rightarrow> skip_line st
              | Some (hub_num, port_letter) \<Rightarrow>
                  (let device_id = mkh_device_protocol_index hub_num;
                       port = mkh_port_from_letter port_letter
                   in if device_id < 0 then skip_line st
                      else if port < 0 then skip_line st
                      else if length (bindings (port_at st (nat device_id) (nat port))) \<ge> mkh_max_bindings_per_port
                      then skip_line st
                      else case strtok_all (strncpy_term 96 value) of
                        [] \<Rightarrow> skip_line st
                      | tok # attrs \<Rightarrow>
                          (case find_token kInputTokens tok of
                             None \<Rightarrow> skip_line st
                           | Some input \<Rightarrow>
                               (case parse_attributes attrs (False, 100, default_mode_for_input input) of
                                  None \<Rightarrow> skip_line st
                                | Some (invert, max_percent, mode) \<Rightarrow>
                                    add_binding (nat device_id) (nat port)
                                      \<lparr>b_input = input, b_invert = invert, b_max_percent = max_percent,
                                       b_mode = mode\<rparr> st)))))"

end
