(* ===== verification/Config_Laws.thy ===== *)
theory Config_Laws
  imports Mkh_Config
begin

text \<open>
  What the configuration table guarantees. The locale \<open>token_vocabulary\<close> states what the parser
  and the serializer rely on in a token table; both tables of the code are interpretations.
  On it rests the round trip of one saved line (\<open>parse_binding_text\<close>), then of a saved file; the
  relation \<open>line_effect\<close> is the abstract effect of a parsed line.
\<close>

section \<open>Token vocabularies\<close>

lemma find_token_row:
  "distinct (map (\<lambda>r. map to_lower (fst r)) tbl) \<Longrightarrow> (n, v) \<in> set tbl \<Longrightarrow> find_token tbl n = Some v"
  by (induction tbl) (force simp: strcaseeq_def)+

lemma token_name_row:
  "distinct (map snd tbl) \<Longrightarrow> (n, v) \<in> set tbl \<Longrightarrow> token_name tbl fb v = n"
  by (induction tbl) (force split: if_splits)+

lemma find_token_SomeD: "find_token tbl s = Some v \<Longrightarrow> \<exists>n. (n, v) \<in> set tbl \<and> strcaseeq s n"
  by (induction tbl s rule: find_token.induct) (auto split: if_splits)

text \<open>
  What the parser and the serializer rely on in a token table: names are distinct up to case,
  values are distinct, and a name is a single word without an equals sign.
\<close>

locale token_vocabulary =
  fixes tbl :: "(string \<times> 'v) list"
  assumes names_distinct: "distinct (map (\<lambda>r. map to_lower (fst r)) tbl)"
    and values_distinct: "distinct (map snd tbl)"
    and names_plain: "\<forall>r \<in> set tbl. word_like (fst r) \<and> CHR ''='' \<notin> set (fst r) \<and> length (fst r) \<le> 12 \<and>
          last (fst r) \<notin> {CHR '' '', CHR 0x09, CHR 0x0D, CHR 0x0A}"
begin

lemma lookup_name: "v \<in> snd ` set tbl \<Longrightarrow> find_token tbl (token_name tbl fb v) = Some v"
  by (auto simp: token_name_row [OF values_distinct] find_token_row [OF names_distinct])

lemma name_plain:
  "v \<in> snd ` set tbl \<Longrightarrow>
   word_like (token_name tbl fb v) \<and> CHR ''='' \<notin> set (token_name tbl fb v) \<and>
   length (token_name tbl fb v) \<le> 12 \<and>
   last (token_name tbl fb v) \<notin> {CHR '' '', CHR 0x09, CHR 0x0D, CHR 0x0A}"
  using names_plain by (fastforce simp: token_name_row [OF values_distinct])

lemma canonical_name: "find_token tbl s = Some v \<Longrightarrow> strcaseeq s (token_name tbl fb v)"
  by (auto dest!: find_token_SomeD simp: token_name_row [OF values_distinct])

end

interpretation inputs: token_vocabulary kInputTokens
  by unfold_locales code_simp+

interpretation modes: token_vocabulary kModeTokens
  by unfold_locales code_simp+

lemma input_in_table: "i \<noteq> MKH_INPUT_NONE \<Longrightarrow> i \<in> snd ` set kInputTokens"
  by (cases i) (simp_all add: kInputTokens_def)

lemma mode_in_table: "m \<in> snd ` set kModeTokens"
  by (cases m) (simp_all add: kModeTokens_def)

section \<open>A saved line parses back\<close>

definition binding_ok :: "mkh_binding \<Rightarrow> bool" where
  "binding_ok b \<longleftrightarrow> b_input b \<noteq> MKH_INPUT_NONE \<and> b_max_percent b \<le> 100"

definition normal_binding :: "mkh_binding \<Rightarrow> mkh_binding" where
  "normal_binding b =
     (if mkh_config_input_class (b_input b) = MKH_INPUT_CLASS_AXIS then b\<lparr>b_mode := MKH_MODE_PROPORTIONAL\<rparr> else b)"

definition line_key :: "nat \<Rightarrow> nat \<Rightarrow> string" where
  "line_key d p =
     ''HUB'' @ dec (nat (mkh_device_app_number (int d))) @ ''_PORT_'' @ [mkh_port_letter (int p)]"

definition line_value :: "mkh_binding \<Rightarrow> string" where
  "line_value b =
     input_token_name (b_input b) @ CHR '' '' # (''invert='' @ yes_no (b_invert b)) @
     CHR '' '' # (''max='' @ dec (b_max_percent b)) @
     CHR '' '' # ''curve=linear'' @
     (if mkh_config_input_class (b_input b) = MKH_INPUT_CLASS_AXIS then []
      else CHR '' '' # ''mode='' @ mode_token_name (b_mode b))"

definition binding_text :: "nat \<Rightarrow> nat \<Rightarrow> mkh_binding \<Rightarrow> string" where
  "binding_text d p b = (line_key d p @ '' '') @ CHR ''='' # CHR '' '' # line_value b"

lemma binding_line_text: "binding_line d p b = binding_text d p b @ [CHR 0x0A]"
  by (simp add: binding_line_def binding_text_def line_key_def line_value_def)

definition strip_char :: "char \<Rightarrow> bool" where
  "strip_char c \<longleftrightarrow> c \<in> {CHR '' '', CHR 0x09, CHR 0x0D, CHR 0x0A}"

lemma rstrip_id: "s \<noteq> [] \<Longrightarrow> \<not> strip_char (last s) \<Longrightarrow> rstrip s = s"
  by (cases s rule: rev_cases) (auto simp: rstrip_def strip_char_def is_blank_def)

lemma rstrip_blank [simp]: "rstrip (s @ '' '') = rstrip s"
  by (simp add: rstrip_def is_blank_def)

lemma skip_spaces_id: "s \<noteq> [] \<Longrightarrow> \<not> is_blank (hd s) \<Longrightarrow> skip_spaces s = s"
  by (cases s) (simp_all add: skip_spaces_def)

lemma line_key_check:
  "list_all (\<lambda>d. list_all (\<lambda>p.
      sscanf_hub_port (line_key d p) = Some (int d + 1, mkh_port_letter (int p)) \<and>
      CHR ''='' \<notin> set (line_key d p) \<and> length (line_key d p) = 11 \<and>
      hd (line_key d p) = CHR ''H'' \<and> \<not> strip_char (last (line_key d p)) \<and>
      mkh_port_from_letter (mkh_port_letter (int p)) = int p \<and>
      mkh_device_protocol_index (int d + 1) = int d) [0..<6]) [0..<3]"
  by code_simp

lemma line_key_newline:
  "list_all (\<lambda>d. list_all (\<lambda>p. CHR 0x0A \<notin> set (line_key d p)) [0..<6]) [0..<3]"
  by code_simp

lemma line_key_facts:
  assumes "d < 3" "p < 6"
  shows "sscanf_hub_port (line_key d p) = Some (int d + 1, mkh_port_letter (int p))"
    and "CHR ''='' \<notin> set (line_key d p)" and "length (line_key d p) = 11"
    and "hd (line_key d p) = CHR ''H''" and "\<not> strip_char (last (line_key d p))"
    and "mkh_port_from_letter (mkh_port_letter (int p)) = int p"
    and "mkh_device_protocol_index (int d + 1) = int d"
  using line_key_check assms by (auto simp: list_all_iff)

lemma input_name_plain:
  assumes "i \<noteq> MKH_INPUT_NONE"
  shows "word_like (input_token_name i)" "length (input_token_name i) \<le> 12"
    "find_token kInputTokens (input_token_name i) = Some i"
  using inputs.name_plain [OF input_in_table [OF assms], of "''none''"]
    inputs.lookup_name [OF input_in_table [OF assms], of "''none''"]
  by (simp_all add: input_token_name_def)

lemma mode_name_plain:
  "word_like (mode_token_name m)" "length (mode_token_name m) \<le> 12"
  "\<not> strip_char (last (mode_token_name m))"
  "find_token kModeTokens (mode_token_name m) = Some m"
  using modes.name_plain [OF mode_in_table, of "''proportional''" m]
    modes.lookup_name [OF mode_in_table, of "''proportional''" m]
  by (simp_all add: mode_token_name_def strip_char_def)

lemma word_like_append: "word_like a \<Longrightarrow> \<forall>c \<in> set b. \<not> is_blank c \<Longrightarrow> word_like (a @ b)"
  by (auto simp: word_like_def)

lemma word_like_consts [simp]:
  "word_like ''invert=''" "word_like ''max=''" "word_like ''curve=linear''" "word_like ''mode=''"
  by (simp_all add: word_like_def is_blank_def)

lemma attr_words [simp]:
  "word_like (''invert='' @ yes_no v)" "word_like (''max='' @ dec n)" "word_like (''mode='' @ mode_token_name m)"
proof -
  show "word_like (''invert='' @ yes_no v)"
    by (rule word_like_append) (simp_all add: yes_no_def is_blank_def)
  show "word_like (''max='' @ dec n)"
    by (rule word_like_append) (use dec_digits digit_not_space in \<open>auto\<close>)
  show "word_like (''mode='' @ mode_token_name m)"
    using mode_name_plain(1) by (intro word_like_append) (auto simp: word_like_def is_blank_def)
qed

lemma strtok_line_value:
  assumes "b_input b \<noteq> MKH_INPUT_NONE"
  shows "strtok_all (line_value b) =
     input_token_name (b_input b) # (''invert='' @ yes_no (b_invert b)) # (''max='' @ dec (b_max_percent b)) #
     ''curve=linear'' #
     (if mkh_config_input_class (b_input b) = MKH_INPUT_CLASS_AXIS then []
      else [''mode='' @ mode_token_name (b_mode b)])"
  using input_name_plain(1) [OF assms] word_like_consts(3) attr_words
  unfolding line_value_def
  by (simp only: strtok_all_word strtok_all_word_end append_Nil2 split: if_split) blast

lemma attr_split [simp]:
  "strchr_split CHR ''='' (''invert='' @ x) = Some (''invert'', x)"
  "strchr_split CHR ''='' (''max='' @ x) = Some (''max'', x)"
  "strchr_split CHR ''='' (''curve='' @ x) = Some (''curve'', x)"
  "strchr_split CHR ''='' (''mode='' @ x) = Some (''mode'', x)"
  by simp_all

lemma attr_keys:
  "strcaseeq ''yes'' ''yes''" "\<not> strcaseeq ''no'' ''yes''"
  "\<not> strcaseeq ''max'' ''invert''" "\<not> strcaseeq ''curve'' ''invert''" "\<not> strcaseeq ''curve'' ''max''"
  "\<not> strcaseeq ''mode'' ''invert''" "\<not> strcaseeq ''mode'' ''max''" "\<not> strcaseeq ''mode'' ''curve''"
  by (code_simp)+

lemma parse_saved_attributes:
  assumes "n \<le> 100"
  shows "parse_attributes ((''invert='' @ yes_no v) # (''max='' @ dec n) # ''curve=linear'' #
           (if axis then [] else [''mode='' @ mode_token_name m])) (False, 100, m0) =
         Some (v, n, if axis then m0 else m)"
proof -
  have c: "strchr_split CHR ''='' ''curve=linear'' = Some (''curve'', ''linear'')" by simp
  have inv: "parse_attributes ((''invert='' @ yes_no v) # ts) (False, k, m0) = parse_attributes ts (v, k, m0)" for ts k
    by (simp only: parse_attributes.simps attr_split option.case prod.case strcaseeq_refl if_True yes_no_def)
       (simp add: attr_keys)
  have mx: "parse_attributes ((''max='' @ dec n) # ts) (w, k, m0) = parse_attributes ts (w, n, m0)" for ts w k
    using assms
    by (simp only: parse_attributes.simps attr_split option.case prod.case attr_keys strcaseeq_refl if_True if_False strtol10_dec)
       simp
  have cv: "parse_attributes (''curve=linear'' # ts) (w, k, m0) = parse_attributes ts (w, k, m0)" for ts w k
    by (simp only: parse_attributes.simps c option.case prod.case attr_keys strcaseeq_refl if_True if_False)
  have md: "parse_attributes [''mode='' @ mode_token_name m] (w, k, m0) = Some (w, k, m)" for w k
    by (simp only: parse_attributes.simps attr_split option.case prod.case attr_keys strcaseeq_refl if_True if_False mode_name_plain)
  show ?thesis
    unfolding inv mx cv by (cases axis) (simp_all only: md if_True if_False parse_attributes.simps(1) simp_thms)
qed

lemma length_yes_no: "length (yes_no v) \<le> 3"
  by (simp add: yes_no_def)

lemma length_line_value:
  assumes "binding_ok b" shows "length (line_value b) \<le> 80"
  using input_name_plain(2) [of "b_input b"] mode_name_plain(2) [of "b_mode b"] length_dec_le [of "b_max_percent b" 3]
    length_yes_no [of "b_invert b"] assms
  by (auto simp: line_value_def binding_ok_def)

lemma last_line_value: "\<not> strip_char (last (line_value b))"
  using mode_name_plain(1,3) [of "b_mode b"] by (auto simp: line_value_def strip_char_def word_like_def)

lemma hd_line_value: "b_input b \<noteq> MKH_INPUT_NONE \<Longrightarrow> line_value b \<noteq> [] \<and> \<not> is_blank (hd (line_value b))"
  using input_name_plain(1) [of "b_input b"] by (auto simp: line_value_def word_like_def hd_append)

lemma normal_binding_eq:
  "\<lparr>b_input = b_input b, b_invert = b_invert b, b_max_percent = b_max_percent b,
     b_mode = if mkh_config_input_class (b_input b) = MKH_INPUT_CLASS_AXIS
              then default_mode_for_input (b_input b) else b_mode b\<rparr> = normal_binding b"
  by (simp add: normal_binding_def default_mode_for_input_def)

lemma parse_binding_text:
  assumes dp: "d < 3" "p < 6" and ok: "binding_ok b"
    and room: "length (bindings (port_at st d p)) < mkh_max_bindings_per_port"
  shows "mkh_config_parse_line (binding_text d p b) st = add_binding d p (normal_binding b) st"
proof -
  note key = line_key_facts [OF dp]
  have inp: "b_input b \<noteq> MKH_INPUT_NONE" and mx: "b_max_percent b \<le> 100" using ok by (simp_all add: binding_ok_def)
  let ?line = "binding_text d p b"
  have key_ne: "line_key d p \<noteq> []" using key(3) by auto
  have len: "length ?line \<le> 127" using length_line_value [OF ok] key(3) by (simp add: binding_text_def)
  have "last ?line = last (line_value b)" using hd_line_value [OF inp] by (simp add: binding_text_def)
  then have rs: "rstrip (strncpy_term 128 ?line) = ?line"
    using len last_line_value [of b] by (simp add: strncpy_term_def rstrip_id binding_text_def)
  have hd: "hd ?line = CHR ''H''" using key(4) key_ne by (simp add: binding_text_def)
  have ss: "skip_spaces ?line = ?line"
    by (rule skip_spaces_id) (simp add: binding_text_def, simp only: hd, simp add: is_blank_def)
  have split: "strchr_split CHR ''='' ?line = Some (line_key d p @ '' '', CHR '' '' # line_value b)"
    unfolding binding_text_def by (rule strchr_split_first) (use key(2) in simp)
  have "skip_spaces (line_key d p @ '' '') = line_key d p @ '' ''"
    by (rule skip_spaces_id) (use key(4) key_ne in \<open>simp_all add: is_blank_def\<close>)
  then have k: "rstrip (skip_spaces (line_key d p @ '' '')) = line_key d p"
    using rstrip_id [OF key_ne key(5)] by simp
  have v: "skip_spaces (CHR '' '' # line_value b) = line_value b"
    using skip_spaces_id [of "line_value b"] hd_line_value [OF inp] by (simp add: skip_spaces_def is_blank_def)
  have tv: "strncpy_term 96 (line_value b) = line_value b"
    using length_line_value [OF ok] by (simp add: strncpy_term_def)
  have pa: "parse_attributes (tl (strtok_all (line_value b))) (False, 100, default_mode_for_input (b_input b)) =
     Some (b_invert b, b_max_percent b,
       if mkh_config_input_class (b_input b) = MKH_INPUT_CLASS_AXIS then default_mode_for_input (b_input b) else b_mode b)"
    unfolding strtok_line_value [OF inp] list.sel by (rule parse_saved_attributes [OF mx])
  show ?thesis
    unfolding mkh_config_parse_line_def Let_def rs ss split option.case prod.case k v tv key(1) key(6,7)
    using room hd inp input_name_plain(3) [OF inp] pa normal_binding_eq [of b]
    by (simp add: strtok_line_value [OF inp] binding_text_def)
qed

section \<open>Table invariant\<close>

definition port_ok :: "mkh_port_config \<Rightarrow> bool" where
  "port_ok cfg \<longleftrightarrow> length (bindings cfg) \<le> mkh_max_bindings_per_port \<and> list_all binding_ok (bindings cfg)"

definition config_ok :: "config_state \<Rightarrow> bool" where
  "config_ok st \<longleftrightarrow> length (s_table st) = 3 \<and>
     list_all (\<lambda>row. length row = 6 \<and> list_all port_ok row) (s_table st)"

lemma config_ok_port: "config_ok st \<Longrightarrow> d < 3 \<Longrightarrow> p < 6 \<Longrightarrow> port_ok (port_at st d p)"
  by (auto simp: config_ok_def port_at_def list_all_length)

lemma config_ok_set_port: "config_ok st \<Longrightarrow> port_ok cfg \<Longrightarrow> config_ok (set_port d p cfg st)"
proof (cases "d < 3 \<and> p < 6")
  case True
  assume "config_ok st" "port_ok cfg"
  with True show ?thesis by (auto simp: config_ok_def set_port_def list_all_length nth_list_update)
next
  case False
  assume ok: "config_ok st" "port_ok cfg"
  then have "(s_table st)[d := (s_table st ! d)[p := cfg]] = s_table st"
    using False by (cases "d < 3") (auto simp: config_ok_def list_all_length list_update_beyond)
  with ok show ?thesis by (simp add: config_ok_def set_port_def)
qed

lemma port_at_set_port:
  "config_ok st \<Longrightarrow> d < 3 \<Longrightarrow> p < 6 \<Longrightarrow>
   port_at (set_port d p cfg st) d' p' = (if d' = d \<and> p' = p then cfg else port_at st d' p')"
  by (auto simp: port_at_def set_port_def config_ok_def list_all_length nth_list_update)

lemma config_ok_defaults: "config_ok (mkh_config_set_defaults st)"
  by (auto simp: config_ok_def mkh_config_set_defaults_def port_ok_def list_all_iff)

lemma port_at_defaults:
  "d < 3 \<Longrightarrow> p < 6 \<Longrightarrow> port_at (mkh_config_set_defaults st) d p = \<lparr>bindings = [], from_file = False\<rparr>"
  by (simp add: port_at_def mkh_config_set_defaults_def)

lemma config_ok_add_binding:
  "config_ok st \<Longrightarrow> d < 3 \<Longrightarrow> p < 6 \<Longrightarrow> binding_ok b \<Longrightarrow>
   length (bindings (port_at st d p)) < mkh_max_bindings_per_port \<Longrightarrow> config_ok (add_binding d p b st)"
  unfolding add_binding_def
  by (rule config_ok_set_port) (auto simp: port_ok_def dest: config_ok_port)

lemma skip_line_simps [simp]:
  "s_table (skip_line st) = s_table st" "port_at (skip_line st) = port_at st" "config_ok (skip_line st) = config_ok st"
  by (simp_all add: skip_line_def port_at_def [abs_def] config_ok_def)

text \<open>What one line can do: nothing, be rejected, or append one well-formed binding.\<close>

inductive line_effect :: "config_state \<Rightarrow> config_state \<Rightarrow> bool" where
  ignored: "line_effect st st"
| rejected: "line_effect st (skip_line st)"
| appended: "d < 3 \<Longrightarrow> p < 6 \<Longrightarrow> binding_ok b \<Longrightarrow>
    length (bindings (port_at st d p)) < mkh_max_bindings_per_port \<Longrightarrow>
    line_effect st (add_binding d p b st)"

inductive_cases line_effectE: "line_effect st st'"

lemma parse_attributes_max:
  "parse_attributes toks (i, m, md) = Some (i', m', md') \<Longrightarrow> m \<le> 100 \<Longrightarrow> m' \<le> 100"
  by (induction toks "(i, m, md)" arbitrary: i m md rule: parse_attributes.induct)
     (fastforce split: option.splits if_splits prod.splits)+

lemma find_input_not_none: "find_token kInputTokens s = Some i \<Longrightarrow> i \<noteq> MKH_INPUT_NONE"
proof -
  assume "find_token kInputTokens s = Some i"
  then obtain n where "(n, i) \<in> set kInputTokens" using find_token_SomeD by fast
  then show ?thesis by (auto simp: kInputTokens_def)
qed

lemma parse_line_effect: "line_effect st (mkh_config_parse_line raw st)"
proof -
  have append: "line_effect st (add_binding (nat dv) (nat pt) \<lparr>b_input = i, b_invert = v, b_max_percent = n, b_mode = m\<rparr> st)"
    if "mkh_device_protocol_index h = dv" "\<not> dv < 0" "mkh_port_from_letter l = pt" "\<not> pt < 0"
      "\<not> mkh_max_bindings_per_port \<le> length (bindings (port_at st (nat dv) (nat pt)))"
      "find_token kInputTokens tok = Some i" "parse_attributes attrs (False, 100, m0) = Some (v, n, m)"
    for h l dv pt tok i attrs m0 v n m
  proof (rule line_effect.appended)
    show "nat dv < 3" using mkh_device_protocol_index_range [of h] that by (simp add: mkh_mk6_num_devices_def)
    show "nat pt < 6" using mkh_port_from_letter_range [of l] that by (simp add: mkh_mk6_num_channels_def)
    show "binding_ok \<lparr>b_input = i, b_invert = v, b_max_percent = n, b_mode = m\<rparr>"
      using find_input_not_none that(6) parse_attributes_max [OF that(7)] by (simp add: binding_ok_def)
  qed (use that in simp)
  show ?thesis
    unfolding mkh_config_parse_line_def Let_def
    by (auto intro: line_effect.ignored line_effect.rejected append split: option.split prod.split list.split)
qed

lemma line_effect_ok: "line_effect st st' \<Longrightarrow> config_ok st \<Longrightarrow> config_ok st'"
  by (auto elim!: line_effectE intro: config_ok_add_binding)

section \<open>Serialized text\<close>

definition serialized_lines :: "config_state \<Rightarrow> string list" where
  "serialized_lines st = map (\<lambda>(d, p, b). binding_line d p b) (table_entries st)"

lemma append_line_None [simp]: "fold (append_line n) ls None = None"
  by (induction ls) (simp_all add: append_line_def)

lemma append_line_Some:
  "append_line n l (Some used) = (if n - length used \<le> length l then None else Some (used @ l))"
  by (simp add: append_line_def)

lemma fold_append_line:
  "length used < n \<Longrightarrow>
   fold (append_line n) ls (Some used) =
     (if length (used @ concat ls) < n then Some (used @ concat ls) else None)"
proof (induction ls arbitrary: used)
  case Nil
  then show ?case by simp
next
  case (Cons l ls)
  show ?case
  proof (cases "length used + length l < n")
    case True
    then have "\<not> n - length used \<le> length l" by linarith
    with True show ?thesis using Cons.IH [of "used @ l"] by (simp add: append_line_Some)
  next
    case False
    then have "n - length used \<le> length l" by linarith
    then show ?thesis using False by (simp add: append_line_Some)
  qed
qed

lemma serialize_eq:
  "0 < n \<Longrightarrow> mkh_config_serialize n st =
     (if length (concat (serialized_lines st)) < n then Some (concat (serialized_lines st)) else None)"
  unfolding mkh_config_serialize_def serialized_lines_def [symmetric]
  by (subst fold_append_line) simp_all

text \<open>The file as the reader sees it: the pieces between newlines (\<open>readStringUntil\<close>).\<close>

fun read_lines_acc :: "string \<Rightarrow> string \<Rightarrow> string list" where
  "read_lines_acc acc [] = (if acc = [] then [] else [rev acc])"
| "read_lines_acc acc (c # cs) =
     (if c = CHR 0x0A then rev acc # read_lines_acc [] cs else read_lines_acc (c # acc) cs)"

definition read_lines :: "string \<Rightarrow> string list" where
  "read_lines text = read_lines_acc [] text"

lemma read_lines_acc_line:
  "CHR 0x0A \<notin> set l \<Longrightarrow> read_lines_acc acc (l @ CHR 0x0A # rest) = (rev acc @ l) # read_lines_acc [] rest"
  by (induction l arbitrary: acc) auto

lemma read_lines_concat:
  "\<forall>l \<in> set ls. CHR 0x0A \<notin> set l \<Longrightarrow> read_lines (concat (map (\<lambda>l. l @ [CHR 0x0A]) ls)) = ls"
  by (induction ls) (simp_all add: read_lines_def read_lines_acc_line)

lemma newline_not_in_text:
  assumes "d < 3" "p < 6" "binding_ok b"
  shows "CHR 0x0A \<notin> set (binding_text d p b)"
proof -
  have "CHR 0x0A \<notin> set (line_key d p)"
    using line_key_newline assms by (auto simp: list_all_iff)
  moreover have "CHR 0x0A \<notin> set (input_token_name i)" for i by (cases i) (simp_all add: input_token_name_def kInputTokens_def)
  moreover have "CHR 0x0A \<notin> set (mode_token_name i)" for i by (cases i) (simp_all add: mode_token_name_def kModeTokens_def)
  moreover have "CHR 0x0A \<notin> set (dec n)" for n using dec_digits [of n] by (auto simp: is_digit_def)
  ultimately show ?thesis by (simp add: binding_text_def line_value_def yes_no_def)
qed

section \<open>Reloading a saved table\<close>

definition parse_lines :: "string list \<Rightarrow> config_state \<Rightarrow> config_state" where
  "parse_lines ls st = fold mkh_config_parse_line ls st"

definition entries_at :: "nat \<Rightarrow> nat \<Rightarrow> (nat \<times> nat \<times> mkh_binding) list \<Rightarrow> mkh_binding list" where
  "entries_at d p es = map (\<lambda>(_, _, b). b) (filter (\<lambda>(d', p', _). d' = d \<and> p' = p) es)"

lemma parse_saved_entries:
  assumes "\<forall>(d, p, b) \<in> set es. d < 3 \<and> p < 6 \<and> binding_ok b"
    and "config_ok st"
    and "\<forall>d < 3. \<forall>p < 6. length (bindings (port_at st d p)) + length (entries_at d p es) \<le> mkh_max_bindings_per_port"
  shows "(\<forall>d < 3. \<forall>p < 6. bindings (port_at (parse_lines (map (\<lambda>(d, p, b). binding_text d p b) es) st) d p) =
            bindings (port_at st d p) @ map normal_binding (entries_at d p es)) \<and>
         s_skipped_lines (parse_lines (map (\<lambda>(d, p, b). binding_text d p b) es) st) = s_skipped_lines st"
  using assms
proof (induction es arbitrary: st)
  case Nil
  then show ?case by (simp add: parse_lines_def entries_at_def)
next
  case (Cons e es)
  obtain d p b where e: "e = (d, p, b)" by (cases e)
  have dpb: "d < 3" "p < 6" "binding_ok b" using Cons.prems(1) e by auto
  have room: "length (bindings (port_at st d p)) < mkh_max_bindings_per_port"
    using Cons.prems(3) dpb e by (force simp: entries_at_def)
  let ?st = "add_binding d p (normal_binding b) st"
  have ok: "config_ok ?st"
    using dpb room Cons.prems(2)
    by (intro config_ok_add_binding) (auto simp: binding_ok_def normal_binding_def)
  have at: "bindings (port_at ?st d' p') =
      bindings (port_at st d' p') @ (if d' = d \<and> p' = p then [normal_binding b] else [])" for d' p'
    using port_at_set_port [OF Cons.prems(2) dpb(1,2)] by (simp add: add_binding_def)
  have es: "length (entries_at d' p' (e # es)) = (if d' = d \<and> p' = p then 1 else 0) + length (entries_at d' p' es)" for d' p'
    by (auto simp: entries_at_def e)
  have room': "\<forall>d' < 3. \<forall>p' < 6. length (bindings (port_at ?st d' p')) + length (entries_at d' p' es) \<le> mkh_max_bindings_per_port"
  proof (intro allI impI)
    fix d' p' :: nat assume "d' < 3" "p' < 6"
    then have "length (bindings (port_at st d' p')) + length (entries_at d' p' (e # es)) \<le> mkh_max_bindings_per_port"
      using Cons.prems(3) by blast
    then show "length (bindings (port_at ?st d' p')) + length (entries_at d' p' es) \<le> mkh_max_bindings_per_port"
      unfolding at es by (cases "d' = d \<and> p' = p") auto
  qed
  have skipped: "s_skipped_lines ?st = s_skipped_lines st" by (simp add: add_binding_def set_port_def)
  have step: "parse_lines (map (\<lambda>(d, p, b). binding_text d p b) (e # es)) st =
      parse_lines (map (\<lambda>(d, p, b). binding_text d p b) es) ?st"
    using parse_binding_text [OF dpb room] by (simp add: parse_lines_def e)
  have IH: "(\<forall>d < 3. \<forall>p < 6. bindings (port_at (parse_lines (map (\<lambda>(d, p, b). binding_text d p b) es) ?st) d p) =
            bindings (port_at ?st d p) @ map normal_binding (entries_at d p es)) \<and>
         s_skipped_lines (parse_lines (map (\<lambda>(d, p, b). binding_text d p b) es) ?st) = s_skipped_lines ?st"
    by (rule Cons.IH [OF _ ok room']) (use Cons.prems(1) in auto)
  then show ?case unfolding step by (auto simp: at skipped entries_at_def e)
qed

lemma entries_at_simps:
  "entries_at d p [] = []"
  "entries_at d p (xs @ ys) = entries_at d p xs @ entries_at d p ys"
  "entries_at d p (map (\<lambda>b. (d', p', b)) bs) = (if d' = d \<and> p' = p then bs else [])"
  by (auto simp: entries_at_def filter_map comp_def)

lemma entries_at_table: "d < 3 \<Longrightarrow> p < 6 \<Longrightarrow> entries_at d p (table_entries st) = bindings (port_at st d p)"
proof -
  assume dp: "d < 3" "p < 6"
  have u: "[0..<3] = [0, 1, 2 :: nat]" "[0..<6] = [0, 1, 2, 3, 4, 5 :: nat]" by (simp_all add: upt_rec)
  have "d = 0 \<or> d = 1 \<or> d = 2" "p = 0 \<or> p = 1 \<or> p = 2 \<or> p = 3 \<or> p = 4 \<or> p = 5" using dp by auto
  then show ?thesis
    by (elim disjE) (simp_all add: table_entries_def u entries_at_simps)
qed

lemma table_entries_ok:
  "config_ok st \<Longrightarrow> (d, p, b) \<in> set (table_entries st) \<Longrightarrow> d < 3 \<and> p < 6 \<and> binding_ok b"
  using config_ok_port by (fastforce simp: table_entries_def port_ok_def list_all_iff)

section \<open>Properties of the configuration table\<close>

text \<open>C22: Whatever a line of the file contains, parsing it leaves the table alone, or only counts the
  line as skipped, or appends exactly one well-formed binding to one port that had room.\<close>

theorem parse_line_outcome: "line_effect st (mkh_config_parse_line raw st)"
  by (rule parse_line_effect)

lemma parse_lines_ok: "config_ok st \<Longrightarrow> config_ok (parse_lines ls st)"
  unfolding parse_lines_def
  by (intro fold_invariant_prop [where P = config_ok]) (auto intro: line_effect_ok parse_line_effect)

text \<open>The table stays three by six ports with at most eight well-formed bindings each over any
  sequence of lines, however malformed.\<close>

theorem parse_lines_preserves_table:
  assumes "config_ok st"
  shows "config_ok (parse_lines ls st)"
  by (rule parse_lines_ok [OF assms])

theorem parse_lines_preserves_table_witness:
  "config_ok (parse_lines [''HUB1_PORT_A = LSNS'', ''junk''] (mkh_config_set_defaults config_init))"
  by (rule parse_lines_preserves_table) (rule config_ok_defaults)

lemma serialized_texts:
  "serialized_lines st = map (\<lambda>l. l @ [CHR 0x0A]) (map (\<lambda>(d, p, b). binding_text d p b) (table_entries st))"
  by (simp add: serialized_lines_def binding_line_text split_def)

lemma normal_bindings_same:
  assumes "\<forall>b\<in>set bs. mkh_config_input_class (b_input b) = MKH_INPUT_CLASS_AXIS \<longrightarrow> b_mode b = MKH_MODE_PROPORTIONAL"
  shows "map normal_binding bs = bs"
  using assms by (induction bs) (auto simp: normal_binding_def)

text \<open>C18: Saving a valid table and loading the saved text into a blank table reproduces every port's
  bindings in order, with no line skipped, except for one attribute: the mode of a binding on a
  stick axis is not written and comes back as proportional. A port whose stick bindings are
  all proportional, and every port without stick bindings, comes back exactly.\<close>

theorem save_load_roundtrip:
  assumes ok: "config_ok st" and n: "0 < n"
    and saved: "mkh_config_serialize n st = Some out"
  shows "(\<forall>d < 3. \<forall>p < 6.
            bindings (port_at (parse_lines (read_lines out) (mkh_config_set_defaults st0)) d p) =
            map normal_binding (bindings (port_at st d p)) \<and>
            ((\<forall>b\<in>set (bindings (port_at st d p)).
                mkh_config_input_class (b_input b) = MKH_INPUT_CLASS_AXIS \<longrightarrow> b_mode b = MKH_MODE_PROPORTIONAL) \<longrightarrow>
             bindings (port_at (parse_lines (read_lines out) (mkh_config_set_defaults st0)) d p) = bindings (port_at st d p))) \<and>
         s_skipped_lines (parse_lines (read_lines out) (mkh_config_set_defaults st0)) = 0"
proof -
  let ?es = "table_entries st" and ?st = "mkh_config_set_defaults st0"
  have es: "\<forall>(d, p, b) \<in> set ?es. d < 3 \<and> p < 6 \<and> binding_ok b" using table_entries_ok [OF ok] by blast
  have "out = concat (serialized_lines st)" using saved serialize_eq [OF n] by (simp split: if_splits)
  then have lines: "read_lines out = map (\<lambda>(d, p, b). binding_text d p b) ?es"
    unfolding serialized_texts
    by (simp only:) (rule read_lines_concat, use es newline_not_in_text in fastforce)
  have room: "\<forall>d < 3. \<forall>p < 6. length (bindings (port_at ?st d p)) + length (entries_at d p ?es)
      \<le> mkh_max_bindings_per_port"
    using config_ok_port [OF ok] by (simp add: port_at_defaults entries_at_table port_ok_def)
  have all: "bindings (port_at (parse_lines (read_lines out) ?st) d p) = map normal_binding (bindings (port_at st d p))"
    if "d < 3" "p < 6" for d p
    using parse_saved_entries [OF es config_ok_defaults room] that by (simp add: lines port_at_defaults entries_at_table)
  have "s_skipped_lines (parse_lines (read_lines out) ?st) = 0"
    using parse_saved_entries [OF es config_ok_defaults room]
    by (simp add: lines) (simp add: mkh_config_set_defaults_def)
  then show ?thesis using all normal_bindings_same by simp
qed

theorem save_load_roundtrip_witness:
  "\<exists>out. mkh_config_serialize 2048 (mkh_config_apply_compiled_in_fallbacks (mkh_config_set_defaults config_init)) = Some out \<and>
     bindings (port_at (parse_lines (read_lines out) (mkh_config_set_defaults config_init)) 1 0) =
       [fallback_binding MKH_INPUT_RSNS]"
proof -
  let ?st = "mkh_config_apply_compiled_in_fallbacks (mkh_config_set_defaults config_init)"
  have tab: "s_table ?st =
     [ \<lparr>bindings = [fallback_binding MKH_INPUT_LSNS], from_file = False\<rparr> # replicate 5 \<lparr>bindings = [], from_file = False\<rparr>,
       \<lparr>bindings = [fallback_binding MKH_INPUT_RSNS], from_file = False\<rparr> # replicate 5 \<lparr>bindings = [], from_file = False\<rparr>,
       replicate 6 \<lparr>bindings = [], from_file = False\<rparr>]"
    by (simp add: mkh_config_apply_compiled_in_fallbacks_def apply_fallback_def mkh_config_set_defaults_def
        port_at_def set_port_def numeral_eq_Suc)
  have ok: "config_ok ?st"
    by (simp add: config_ok_def tab port_ok_def binding_ok_def fallback_binding_def mkh_max_bindings_per_port_def numeral_eq_Suc)
  have es: "table_entries ?st = [(0, 0, fallback_binding MKH_INPUT_LSNS), (1, 0, fallback_binding MKH_INPUT_RSNS)]"
    by (simp add: table_entries_def port_at_def tab upt_rec)
  have "length (concat (serialized_lines ?st)) < 2048"
    unfolding serialized_lines_def es by code_simp
  then obtain out where t: "mkh_config_serialize 2048 ?st = Some out"
    by (simp add: serialize_eq)
  from save_load_roundtrip [OF ok _ t, of config_init]
  have "bindings (port_at (parse_lines (read_lines out) (mkh_config_set_defaults config_init)) 1 0) =
       map normal_binding (bindings (port_at ?st 1 0))" by simp
  also have "\<dots> = [fallback_binding MKH_INPUT_RSNS]"
    by (simp add: port_at_def tab normal_binding_def fallback_binding_def)
  finally show ?thesis using t by blast
qed

lemma length_binding_line:
  assumes "d < 3" "p < 6" "binding_ok b"
  shows "45 \<le> length (binding_line d p b)" "length (binding_line d p b) \<le> 77"
proof -
  have ne: "b_input b \<noteq> MKH_INPUT_NONE" using assms(3) by (simp add: binding_ok_def)
  have "1 \<le> length (input_token_name (b_input b))"
    using input_name_plain(1) [OF ne] by (simp add: word_like_def Suc_le_eq)
  moreover have "1 \<le> length (dec (b_max_percent b))" by (simp add: Suc_le_eq)
  moreover have "length (dec (b_max_percent b)) \<le> 3"
    using assms(3) length_dec_le [of "b_max_percent b" 3] by (simp add: binding_ok_def)
  moreover have "2 \<le> length (yes_no (b_invert b))" "length (yes_no (b_invert b)) \<le> 3" by (simp_all add: yes_no_def)
  moreover have "length (input_token_name (b_input b)) \<le> 4"
    using ne by (cases "b_input b") (simp_all add: input_token_name_def kInputTokens_def)
  ultimately show "45 \<le> length (binding_line d p b)" "length (binding_line d p b) \<le> 77"
    using line_key_facts(3) [OF assms(1,2)] mode_name_plain(2) [of "b_mode b"]
    by (auto simp: binding_line_text binding_text_def line_value_def)
qed

lemma length_serialized:
  assumes "config_ok st"
  shows "45 * length (table_entries st) \<le> length (concat (serialized_lines st))"
    "length (concat (serialized_lines st)) \<le> 77 * length (table_entries st)"
proof -
  have "45 * length es \<le> length (concat (map (\<lambda>(d, p, b). binding_line d p b) es)) \<and>
        length (concat (map (\<lambda>(d, p, b). binding_line d p b) es)) \<le> 77 * length es"
    if "\<forall>(d, p, b) \<in> set es. d < 3 \<and> p < 6 \<and> binding_ok b" for es
    using that by (induction es) (auto dest: length_binding_line)
  then show "45 * length (table_entries st) \<le> length (concat (serialized_lines st))"
    "length (concat (serialized_lines st)) \<le> 77 * length (table_entries st)"
    unfolding serialized_lines_def using table_entries_ok [OF assms] by blast+
qed

text \<open>With the 2048-byte save buffer a valid table of at most 26 bindings is always written, and
  one of 46 or more never is, although the ports have room for 144.\<close>

theorem save_capacity:
  assumes "config_ok st"
  shows "(length (table_entries st) \<le> 26 \<longrightarrow> mkh_config_serialize 2048 st \<noteq> None) \<and>
         (46 \<le> length (table_entries st) \<longrightarrow> mkh_config_serialize 2048 st = None)"
  using length_serialized [OF assms] by (auto simp: serialize_eq)

definition full_table :: "config_state" where
  "full_table = \<lparr>s_table = replicate 3 (replicate 6 \<lparr>bindings = replicate 8 (fallback_binding MKH_INPUT_LSNS),
     from_file = True\<rparr>), s_source_is_file = True, s_skipped_lines = 0\<rparr>"

theorem save_capacity_witness:
  "config_ok full_table \<and> mkh_config_serialize 2048 full_table = None"
proof -
  have ok: "config_ok full_table"
    by (auto simp: full_table_def config_ok_def port_ok_def list_all_iff binding_ok_def fallback_binding_def
        mkh_max_bindings_per_port_def)
  have "length (table_entries full_table) = 144"
    by (simp add: full_table_def table_entries_def port_at_def upt_rec)
  with save_capacity [OF ok] ok show ?thesis by simp
qed

text \<open>Saved names are read back in any letter case: a token that differs from an input's name only
  in case selects that input.\<close>

theorem input_tokens_case_insensitive:
  assumes "i \<noteq> MKH_INPUT_NONE" "map to_lower s = map to_lower (input_token_name i)"
  shows "find_token kInputTokens s = Some i"
proof -
  have "find_token tbl s = find_token tbl (input_token_name i)" for tbl :: "(string \<times> mkh_input_source) list"
    using assms(2) by (induction tbl) (auto simp: strcaseeq_def)
  then show ?thesis using input_name_plain(3) [OF assms(1)] by simp
qed

theorem input_tokens_case_insensitive_witness: "find_token kInputTokens ''lSnS'' = Some MKH_INPUT_LSNS"
  by (rule input_tokens_case_insensitive) code_simp+

end
