(* ===== verification/C_Float.thy ===== *)
theory C_Float
  imports Prelude "HOL-Library.Log_Nat"
begin

text \<open>
  IEEE 754 single precision as the firmware's C compiler gives it: rounding to nearest, ties to
  even, with 24 significant bits, gradual underflow and overflow to infinity, the arithmetic
  and comparisons on \<open>c_float\<close>, and \<open>lroundf\<close>. Zero has no sign here; nothing in the modelled
  code looks at it. The lemmas bound the rounding error and show when a rounded quotient still
  rounds to the same integer, so that float code can be compared with exact arithmetic.
\<close>

section \<open>Rounding\<close>

definition round_even :: "rat \<Rightarrow> int" where
  "round_even y =
     (let f = \<lfloor>y\<rfloor>; r = y - of_int f
      in if r < 1 / 2 then f else if 1 / 2 < r then f + 1 else if even f then f else f + 1)"

text \<open>\<open>rat_exp x\<close> is the binary exponent of \<open>x > 0\<close>: \<open>2 ^ k \<le> x < 2 ^ (k + 1)\<close>.\<close>

definition rat_exp :: "rat \<Rightarrow> int" where
  "rat_exp x =
     (let (n, d) = quotient_of x; k = int (floorlog 2 (nat n)) - int (floorlog 2 (nat d))
      in if 2 powi k \<le> x then k else k - 1)"

definition ulp32 :: "rat \<Rightarrow> rat" where
  "ulp32 x = 2 powi (max (rat_exp \<bar>x\<bar> - 23) (-149))"

definition f32_rat :: "rat \<Rightarrow> rat" where
  "f32_rat x = (if x = 0 then 0 else of_int (round_even (x / ulp32 x)) * ulp32 x)"

definition f32 :: "rat \<Rightarrow> c_float" where
  "f32 x = (let y = f32_rat x in if 2 ^ 128 \<le> y then PInf else if y \<le> - (2 ^ 128) then NInf else Fin y)"

section \<open>Operations\<close>

fun f_neg :: "c_float \<Rightarrow> c_float" where
  "f_neg (Fin x) = Fin (- x)"
| "f_neg PInf = NInf"
| "f_neg NInf = PInf"
| "f_neg NaN = NaN"

fun f_abs :: "c_float \<Rightarrow> c_float" where
  "f_abs (Fin x) = Fin \<bar>x\<bar>"
| "f_abs PInf = PInf"
| "f_abs NInf = PInf"
| "f_abs NaN = NaN"

fun f_less :: "c_float \<Rightarrow> c_float \<Rightarrow> bool" where
  "f_less (Fin x) (Fin y) = (x < y)"
| "f_less (Fin x) PInf = True"
| "f_less NInf (Fin y) = True"
| "f_less NInf PInf = True"
| "f_less _ _ = False"

fun f_add :: "c_float \<Rightarrow> c_float \<Rightarrow> c_float" where
  "f_add (Fin x) (Fin y) = f32 (x + y)"
| "f_add NaN _ = NaN"
| "f_add _ NaN = NaN"
| "f_add PInf NInf = NaN"
| "f_add NInf PInf = NaN"
| "f_add PInf _ = PInf"
| "f_add _ PInf = PInf"
| "f_add NInf _ = NInf"
| "f_add _ NInf = NInf"

definition f_sub :: "c_float \<Rightarrow> c_float \<Rightarrow> c_float" where
  "f_sub a b = f_add a (f_neg b)"

definition inf_of :: "rat \<Rightarrow> c_float" where
  "inf_of s = (if s = 0 then NaN else if 0 < s then PInf else NInf)"

fun f_mul :: "c_float \<Rightarrow> c_float \<Rightarrow> c_float" where
  "f_mul (Fin x) (Fin y) = f32 (x * y)"
| "f_mul NaN _ = NaN"
| "f_mul _ NaN = NaN"
| "f_mul PInf (Fin y) = inf_of y"
| "f_mul (Fin x) PInf = inf_of x"
| "f_mul NInf (Fin y) = inf_of (- y)"
| "f_mul (Fin x) NInf = inf_of (- x)"
| "f_mul PInf PInf = PInf"
| "f_mul NInf NInf = PInf"
| "f_mul _ _ = NInf"

text \<open>Division by a non-zero finite constant, the only divisions in the modelled code.\<close>

fun f_div_const :: "c_float \<Rightarrow> rat \<Rightarrow> c_float" where
  "f_div_const (Fin x) c = f32 (x / c)"
| "f_div_const PInf c = inf_of c"
| "f_div_const NInf c = inf_of (- c)"
| "f_div_const NaN c = NaN"

text \<open>\<open>lroundf\<close>: to nearest, halves away from zero. A \<open>long\<close> has 32 bits on the target; the result is
  not specified, \<open>None\<close>, when the argument is not a number, infinite, or rounds outside that range.\<close>

definition lround :: "rat \<Rightarrow> int" where
  "lround x = (if 0 \<le> x then \<lfloor>x + 1 / 2\<rfloor> else - \<lfloor>- x + 1 / 2\<rfloor>)"

fun lroundf :: "c_float \<Rightarrow> int option" where
  "lroundf (Fin x) = i32 (lround x)"
| "lroundf _ = None"

section \<open>Error bounds\<close>

lemma round_even_error: "\<bar>of_int (round_even y) - y\<bar> \<le> 1 / 2"
proof -
  have "0 \<le> y - of_int \<lfloor>y\<rfloor>" "y - of_int \<lfloor>y\<rfloor> < 1" by linarith+
  then show ?thesis unfolding round_even_def Let_def by (simp add: abs_if) linarith
qed

lemma round_even_int [simp]: "round_even (of_int i) = i"
  by (simp add: round_even_def)

lemma floorlog2_bounds:
  assumes "0 < n"
  shows "2 ^ (floorlog 2 n - 1) \<le> n" "n < 2 ^ floorlog 2 n" "0 < floorlog 2 n"
  using floorlog_bounds [of n 2] assms by (auto simp: floorlog_def)

lemma rat_exp_bounds:
  assumes "0 < x"
  shows "2 powi (rat_exp x) \<le> x" "x < 2 powi (rat_exp x + 1)"
proof -
  obtain n d where q: "quotient_of x = (n, d)" by fastforce
  have d: "0 < d" using quotient_of_denom_pos [OF q] .
  have x: "x = of_int n / of_int d" using quotient_of_div [OF q] .
  then have n: "0 < n" using assms d by (simp add: zero_less_divide_iff)
  define a where "a = floorlog 2 (nat n)"
  define b where "b = floorlog 2 (nat d)"
  have fa: "2 ^ (a - 1) \<le> nat n" "nat n < 2 ^ a" "0 < a"
    using floorlog2_bounds [of "nat n"] n by (auto simp: a_def)
  have fb: "2 ^ (b - 1) \<le> nat d" "nat d < 2 ^ b" "0 < b"
    using floorlog2_bounds [of "nat d"] d by (auto simp: b_def)
  have na: "(2::rat) powi (int a - 1) \<le> of_int n" "of_int n < (2::rat) powi (int a)"
  proof -
    have "(2::rat) ^ (a - 1) \<le> of_nat (nat n)" using fa(1) by (metis of_nat_le_iff of_nat_numeral of_nat_power)
    then show "(2::rat) powi (int a - 1) \<le> of_int n" using fa(3) n by (simp add: power_int_def nat_diff_distrib)
    have "of_nat (nat n) < (2::rat) ^ a" using fa(2) by (metis of_nat_less_iff of_nat_numeral of_nat_power)
    then show "of_int n < (2::rat) powi (int a)" using n by (simp add: power_int_def)
  qed
  have db: "(2::rat) powi (int b - 1) \<le> of_int d" "of_int d < (2::rat) powi (int b)"
  proof -
    have "(2::rat) ^ (b - 1) \<le> of_nat (nat d)" using fb(1) by (metis of_nat_le_iff of_nat_numeral of_nat_power)
    then show "(2::rat) powi (int b - 1) \<le> of_int d" using fb(3) d by (simp add: power_int_def nat_diff_distrib)
    have "of_nat (nat d) < (2::rat) ^ b" using fb(2) by (metis of_nat_less_iff of_nat_numeral of_nat_power)
    then show "of_int d < (2::rat) powi (int b)" using d by (simp add: power_int_def)
  qed
  let ?k = "int a - int b"
  have dpos: "(0::rat) < of_int d" using d by simp
  have lo: "2 powi (?k - 1) \<le> x"
  proof -
    have "2 powi (?k - 1) * of_int d \<le> (2::rat) powi (?k - 1) * 2 powi (int b)"
      by (intro mult_left_mono) (use db in auto)
    also have "\<dots> = 2 powi (?k - 1 + int b)" by (rule power_int_add [symmetric]) simp
    also have "\<dots> = 2 powi (int a - 1)" by simp
    also have "\<dots> \<le> of_int n" by (rule na)
    finally show ?thesis using dpos by (simp add: x pos_le_divide_eq)
  qed
  have hi: "x < 2 powi (?k + 1)"
  proof -
    have "of_int n < (2::rat) powi (int a)" by (rule na)
    also have "\<dots> = 2 powi (?k + 1 + (int b - 1))" by simp
    also have "\<dots> = 2 powi (?k + 1) * 2 powi (int b - 1)" by (rule power_int_add) simp
    also have "\<dots> \<le> 2 powi (?k + 1) * of_int d" by (intro mult_left_mono) (use db in auto)
    finally show ?thesis using dpos by (simp add: x pos_divide_less_eq)
  qed
  have re: "rat_exp x = (if 2 powi ?k \<le> x then ?k else ?k - 1)"
    by (simp add: rat_exp_def q a_def b_def)
  show "2 powi (rat_exp x) \<le> x" "x < 2 powi (rat_exp x + 1)"
    using lo hi by (auto simp: re)
qed

lemma ulp32_pos: "0 < ulp32 x"
  by (simp add: ulp32_def)

lemma ulp32_le: "2 powi (-126) \<le> \<bar>x\<bar> \<Longrightarrow> ulp32 x \<le> \<bar>x\<bar> / 2 ^ 23"
proof -
  assume a: "2 powi (-126) \<le> \<bar>x\<bar>"
  moreover have "(0::rat) < 2 powi (-126)" by simp
  ultimately have pos: "0 < \<bar>x\<bar>" by (rule order_less_le_trans [rotated])
  have "(2::rat) powi (-126) < 2 powi (rat_exp \<bar>x\<bar> + 1)"
    using a rat_exp_bounds(2) [OF pos] by (rule order_le_less_trans)
  then have "-126 < rat_exp \<bar>x\<bar> + 1"
    using power_int_increasing [of "rat_exp \<bar>x\<bar> + 1" "-126" "2 :: rat"] by (cases "rat_exp \<bar>x\<bar> + 1 \<le> -126") auto
  then have "max (rat_exp \<bar>x\<bar> - 23) (-149) = rat_exp \<bar>x\<bar> - 23" by simp
  then have "ulp32 x = 2 powi (rat_exp \<bar>x\<bar> - 23)" by (simp only: ulp32_def)
  also have "\<dots> = 2 powi (rat_exp \<bar>x\<bar>) / 2 ^ 23" by (simp add: power_int_diff)
  also have "\<dots> \<le> \<bar>x\<bar> / 2 ^ 23" using rat_exp_bounds(1) [OF pos] by (simp add: divide_right_mono)
  finally show ?thesis .
qed

lemma f32_rat_error:
  assumes "2 powi (-126) \<le> \<bar>x\<bar>"
  shows "\<bar>f32_rat x - x\<bar> \<le> \<bar>x\<bar> / 2 ^ 24"
proof -
  have x: "x \<noteq> 0" using assms by auto
  have u: "0 < ulp32 x" by (rule ulp32_pos)
  have "f32_rat x - x = (of_int (round_even (x / ulp32 x)) - x / ulp32 x) * ulp32 x"
    using x u by (simp add: f32_rat_def algebra_simps)
  then have "\<bar>f32_rat x - x\<bar> = \<bar>of_int (round_even (x / ulp32 x)) - x / ulp32 x\<bar> * ulp32 x"
    using u by (simp add: abs_mult)
  also have "\<dots> \<le> 1 / 2 * ulp32 x" using round_even_error u by (intro mult_right_mono) auto
  also have "\<dots> \<le> 1 / 2 * (\<bar>x\<bar> / 2 ^ 23)" using ulp32_le [OF assms] by simp
  finally show ?thesis by simp
qed


text \<open>A value is exactly representable if it is a dyadic rational of at most 24 bits in the normal range.\<close>

lemma f32_rat_exact:
  assumes "x = of_int m * 2 powi e" "\<bar>m\<bar> < 2 ^ 24" "-149 \<le> e"
  shows "f32_rat x = x"
proof (cases "m = 0")
  case True
  then show ?thesis using assms by (simp add: f32_rat_def)
next
  case False
  let ?u = "max (rat_exp \<bar>x\<bar> - 23) (-149)"
  have x: "x \<noteq> 0" using assms(1) False by simp
  have "\<bar>rat_of_int m\<bar> < of_int (2 ^ 24)" using assms(2) by (simp only: of_int_abs [symmetric] of_int_less_iff)
  then have "\<bar>x\<bar> < of_int (2 ^ 24) * 2 powi e"
    unfolding assms(1) abs_mult by (simp add: mult_strict_right_mono)
  also have "of_int (2 ^ 24) * 2 powi e = (2::rat) powi 24 * 2 powi e" by simp
  also have "\<dots> = 2 powi (24 + e)" by (rule power_int_add [symmetric]) simp
  finally have "(2::rat) powi (rat_exp \<bar>x\<bar>) < 2 powi (24 + e)"
    using rat_exp_bounds(1) [of "\<bar>x\<bar>"] x by simp
  then have "rat_exp \<bar>x\<bar> < 24 + e"
    using power_int_increasing [of "24 + e" "rat_exp \<bar>x\<bar>" "2 :: rat"] by (cases "24 + e \<le> rat_exp \<bar>x\<bar>") auto
  then have le: "?u \<le> e" using assms(3) by simp
  have "x / ulp32 x = of_int m * (2 powi e / 2 powi ?u)" by (simp add: ulp32_def assms(1))
  also have "\<dots> = of_int m * 2 powi (e - ?u)" by (simp add: power_int_diff)
  also have "\<dots> = of_int (m * 2 ^ nat (e - ?u))" using le by (simp add: power_int_def)
  finally have "x / ulp32 x = of_int (m * 2 ^ nat (e - ?u))" .
  then have "of_int (round_even (x / ulp32 x)) * ulp32 x = x / ulp32 x * ulp32 x" by (simp only: round_even_int)
  then show ?thesis using x ulp32_pos [of x] by (simp add: f32_rat_def)
qed

lemma f32_small: "\<bar>f32_rat x\<bar> < 2 ^ 128 \<Longrightarrow> f32 x = Fin (f32_rat x)"
  by (auto simp: f32_def Let_def abs_if split: if_splits)

lemma lround_unique:
  assumes "\<bar>of_int k - x\<bar> < 1 / 2"
  shows "lround x = k"
proof -
  have a: "of_int k - 1 / 2 < x" "x < of_int k + 1 / 2" using assms by (auto simp: abs_if split: if_splits)
  have "\<lfloor>x + 1 / 2\<rfloor> = k" by (rule floor_unique) (use a in simp_all)
  moreover have "\<lfloor>- x + 1 / 2\<rfloor> = - k" by (rule floor_unique) (use a in simp_all)
  ultimately show ?thesis by (simp add: lround_def)
qed

end
