(* ===== verification/Thl.thy ===== *)
theory Thl
  imports C_Float
begin

text \<open>
  The turret heading lock, \<^verbatim>\<open>main/mkh_thl.cpp\<close>: the tunables, the shortest-path error
  \<open>wrap180\<close>, the P-only control law and the status snapshot. All values are single precision
  floats; the tunables are whatever the serial console set them to, whose line parser is in
  \<open>Peripherals\<close>. The log line is not modelled.
\<close>

datatype mkh_thl_state_t = MKH_THL_STATE_OFF | MKH_THL_STATE_ENGAGED | MKH_THL_STATE_CALIBRATING_BLOCKED

record thl_vars =
  s_deadbandDeg :: c_float
  s_kpPctPerDeg :: c_float
  s_floorPct :: c_float
  s_ceilingPct :: c_float
  s_cancelThresholdPct :: c_float
  s_statusState :: mkh_thl_state_t
  s_statusErrorDeg :: c_float
  s_statusOutputPct :: c_float

definition thl_boot :: thl_vars where
  "thl_boot = \<lparr>s_deadbandDeg = Fin 2, s_kpPctPerDeg = Fin 3, s_floorPct = Fin 15, s_ceilingPct = Fin 60,
     s_cancelThresholdPct = Fin 10, s_statusState = MKH_THL_STATE_OFF, s_statusErrorDeg = Fin 0,
     s_statusOutputPct = Fin 0\<rparr>"

text \<open>\<open>fmodf\<close> is exact: the remainder has the sign of the dividend.\<close>

fun fmodf :: "c_float \<Rightarrow> rat \<Rightarrow> c_float" where
  "fmodf (Fin x) m = Fin (x - m * of_int (c_trunc (x / m)))"
| "fmodf _ m = NaN"

definition wrap180 :: "c_float \<Rightarrow> c_float" where
  "wrap180 deg0 =
     (let deg = fmodf deg0 360
      in if f_less (Fin 180) deg then f_sub deg (Fin 360)
         else if f_less deg (Fin (-180)) \<or> deg = Fin (-180) then f_add deg (Fin 360)
         else deg)"

definition mkh_thl_compute_output_pct :: "thl_vars \<Rightarrow> c_float \<Rightarrow> c_float \<Rightarrow> c_float \<times> c_float" where
  "mkh_thl_compute_output_pct v referenceDeg headingDeg =
     (let error = wrap180 (f_sub referenceDeg headingDeg)
      in if f_less (f_abs error) (s_deadbandDeg v) then (Fin 0, error)
         else
           (let out0 = f_mul (s_kpPctPerDeg v) error;
                out1 = (if f_less (s_ceilingPct v) out0 then s_ceilingPct v
                        else if f_less out0 (f_neg (s_ceilingPct v)) then f_neg (s_ceilingPct v) else out0);
                out2 = (if f_less (Fin 0) out1 \<and> f_less out1 (s_floorPct v) then s_floorPct v
                        else if f_less out1 (Fin 0) \<and> f_less (f_neg (s_floorPct v)) out1 then f_neg (s_floorPct v)
                        else out1)
            in (out2, error)))"

definition mkh_thl_set_status :: "mkh_thl_state_t \<Rightarrow> c_float \<Rightarrow> c_float \<Rightarrow> thl_vars \<Rightarrow> thl_vars" where
  "mkh_thl_set_status state errorDeg outputPct v =
     v\<lparr>s_statusState := state, s_statusErrorDeg := errorDeg, s_statusOutputPct := outputPct\<rparr>"

section \<open>The shortest path\<close>

definition float_value :: "rat \<Rightarrow> bool" where
  "float_value x \<longleftrightarrow> (\<exists>m e. x = of_int m * 2 powi e \<and> \<bar>m\<bar> < 2 ^ 24 \<and> -149 \<le> e)"

lemma float_value_f32: "float_value x \<Longrightarrow> \<bar>x\<bar> < 2 ^ 128 \<Longrightarrow> f32 x = Fin x"
  using f32_small [of x] f32_rat_exact by (auto simp: float_value_def)

lemma fmod_bounds:
  fixes x m :: rat
  assumes "0 < m"
  shows "\<bar>x - m * of_int (c_trunc (x / m))\<bar> < m" "0 \<le> x \<Longrightarrow> 0 \<le> x - m * of_int (c_trunc (x / m))"
    "x \<le> 0 \<Longrightarrow> x - m * of_int (c_trunc (x / m)) \<le> 0"
proof -
  have d: "x = m * (x / m)" using assms by simp
  have pos: "0 \<le> x - m * of_int \<lfloor>x / m\<rfloor> \<and> x - m * of_int \<lfloor>x / m\<rfloor> < m" for x :: rat
    using assms floor_divide_lower [of m x] floor_divide_upper [of m x] by (simp add: algebra_simps)
  have c: "c_trunc (x / m) = (if 0 \<le> x then \<lfloor>x / m\<rfloor> else - \<lfloor>- x / m\<rfloor>)"
    using assms by (simp add: c_trunc_def zero_le_divide_iff)
  show "\<bar>x - m * of_int (c_trunc (x / m))\<bar> < m" "0 \<le> x \<Longrightarrow> 0 \<le> x - m * of_int (c_trunc (x / m))"
    "x \<le> 0 \<Longrightarrow> x - m * of_int (c_trunc (x / m)) \<le> 0"
    using pos [of x] pos [of "- x"] by (auto simp: c abs_if)
qed

text \<open>A multiple of \<open>2 powi e\<close> with \<open>e \<le> 3\<close> stays one after adding multiples of 360.\<close>

lemma shift_360:
  assumes "x = of_int m * 2 powi e" "e \<le> 3"
  shows "\<exists>m'. x + 360 * of_int k = of_int m' * (2::rat) powi e"
proof -
  have "(360::rat) = of_int (45 * 2 ^ nat (3 - e)) * 2 powi e"
  proof -
    have "(2::rat) ^ nat (3 - e) * 2 powi e = 2 powi (3 - e) * 2 powi e" using assms(2) by (simp add: power_int_def)
    also have "\<dots> = 2 powi 3" by (simp flip: power_int_add)
    finally show ?thesis by (simp add: mult.assoc)
  qed
  then have "x + 360 * of_int k = of_int (m + 45 * 2 ^ nat (3 - e) * k) * 2 powi e"
    using assms(1) by (simp add: algebra_simps)
  then show ?thesis by blast
qed


lemma powi_mono2: "a \<le> b \<Longrightarrow> (2::rat) powi a \<le> 2 powi b"
  by (rule power_int_increasing) simp_all

lemma float_value_shift:
  assumes d: "d = of_int m * 2 powi e" "\<bar>m\<bar> < 2 ^ 24" "-149 \<le> e" and big: "128 \<le> \<bar>d\<bar>"
    and x: "x = d + 360 * of_int k" "\<bar>x\<bar> < 2 ^ 8"
  shows "float_value x"
proof -
  have "rat_of_int \<bar>m\<bar> < of_int (2 ^ 24)" using d(2) by (simp only: of_int_less_iff)
  then have "\<bar>d\<bar> < of_int (2 ^ 24) * 2 powi e"
    unfolding d(1) abs_mult of_int_abs by (simp add: mult_strict_right_mono)
  also have "of_int (2 ^ 24) * 2 powi e = (2::rat) powi 24 * 2 powi e" by simp
  also have "\<dots> = 2 powi (24 + e)" by (rule power_int_add [symmetric]) simp
  finally have "(2::rat) powi 7 < 2 powi (24 + e)" using big by (rule_tac order_le_less_trans) simp_all
  then have e17: "-16 \<le> e" using powi_mono2 [of "24 + e" 7] by (cases "24 + e \<le> 7") auto
  obtain m' f where mf: "x = of_int m' * 2 powi f" "f = min e 3"
  proof (cases "e \<le> 3")
    case True
    then show ?thesis using shift_360 [OF d(1), of k] x(1) that by (auto simp: min_def)
  next
    case False
    then have "d = of_int (m * 2 ^ nat (e - 3)) * 2 powi 3"
      using d(1) power_int_add [of "2::rat" "e - 3" 3] by (simp add: power_int_def)
    from shift_360 [OF this, of k] x(1) that False show ?thesis by (auto simp: min_def)
  qed
  have f16: "-16 \<le> f" using e17 mf(2) by simp
  have "\<bar>of_int m'\<bar> * (2::rat) powi (-16) \<le> \<bar>of_int m'\<bar> * 2 powi f"
    by (intro mult_left_mono powi_mono2 f16) simp
  also have "\<dots> < 2 ^ 8" using x(2) mf(1) by (simp add: abs_mult)
  finally have "\<bar>rat_of_int m'\<bar> < 2 ^ 8 * 2 ^ 16" by (simp add: power_int_def field_simps)
  then have "of_int \<bar>m'\<bar> < (of_int (2 ^ 24) :: rat)" by simp
  then have "\<bar>m'\<bar> < 2 ^ 24" by (simp only: of_int_less_iff)
  then show ?thesis using mf(1) f16 unfolding float_value_def by (intro exI [of _ m'] exI [of _ f]) auto
qed

text \<open>The heading error is the shortest path: for every float angle, \<open>wrap180\<close> computes without any
  rounding the representative of the angle modulo 360 that lies in \<open>(-180, 180]\<close>.\<close>

theorem wrap180_shortest_path:
  assumes "float_value d"
  shows "\<exists>w k. wrap180 (Fin d) = Fin w \<and> -180 < w \<and> w \<le> 180 \<and> d = w + 360 * of_int k"
proof -
  define q where "q = c_trunc (d / 360)"
  define r where "r = d - 360 * of_int q"
  have r: "fmodf (Fin d) 360 = Fin r" by (simp add: r_def q_def)
  have b: "\<bar>r\<bar> < 360" "0 \<le> d \<Longrightarrow> 0 \<le> r" "d \<le> 0 \<Longrightarrow> r \<le> 0"
    using fmod_bounds [of 360 d] by (simp_all add: r_def q_def)
  have rd: "\<bar>r\<bar> \<le> \<bar>d\<bar>"
  proof -
    have "0 \<le> 360 * rat_of_int q" if "0 \<le> d" using that by (simp add: q_def c_trunc_def)
    moreover have "360 * rat_of_int q \<le> 0" if "d \<le> 0"
      using that by (cases "d = 0") (auto simp: q_def c_trunc_def)
    ultimately show ?thesis using b(2,3) by (cases "0 \<le> d") (auto simp: r_def abs_if)
  qed
  obtain m e where d: "d = of_int m * 2 powi e" "\<bar>m\<bar> < 2 ^ 24" "-149 \<le> e"
    using assms by (auto simp: float_value_def)
  have exact: "f32 (r + 360 * of_int j) = Fin (r + 360 * of_int j)"
    if "180 \<le> \<bar>r\<bar>" "\<bar>r + 360 * of_int j\<bar> < 2 ^ 8" for j
  proof -
    have "float_value (r + 360 * of_int j)"
      by (rule float_value_shift [OF d, of _ "j - q"]) (use that rd in \<open>auto simp: r_def algebra_simps\<close>)
    then show ?thesis using that(2) by (intro float_value_f32) auto
  qed
  consider "180 < r" | "r \<le> -180" | "-180 < r" "r \<le> 180" by linarith
  then show ?thesis
  proof cases
    case 1
    then have "wrap180 (Fin d) = Fin (r - 360)"
      using exact [of "-1"] b(1) by (simp add: wrap180_def r f_sub_def abs_if del: fmodf.simps)
    then show ?thesis using 1 b(1) by (intro exI [of _ "r - 360"] exI [of _ "q + 1"]) (auto simp: r_def algebra_simps abs_if split: if_splits)
  next
    case 2
    then have "wrap180 (Fin d) = Fin (r + 360)"
      using exact [of 1] b(1) by (auto simp: wrap180_def r abs_if Let_def simp del: fmodf.simps split: if_splits)
    then show ?thesis using 2 b(1) by (intro exI [of _ "r + 360"] exI [of _ "q - 1"]) (auto simp: r_def algebra_simps abs_if split: if_splits)
  next
    case 3
    then have "wrap180 (Fin d) = Fin r" by (simp add: wrap180_def r del: fmodf.simps)
    then show ?thesis using 3 by (intro exI [of _ r] exI [of _ q]) (auto simp: r_def)
  qed
qed


lemma float_value_int: "\<bar>i\<bar> < 2 ^ 24 \<Longrightarrow> float_value (of_int i)"
  unfolding float_value_def by (rule exI [of _ i], rule exI [of _ 0]) simp

theorem wrap180_shortest_path_witness:
  "\<exists>w k. wrap180 (Fin 725) = Fin w \<and> -180 < w \<and> w \<le> 180 \<and> 725 = w + 360 * of_int k"
  using wrap180_shortest_path [of 725] float_value_int [of 725] by simp

section \<open>The control law\<close>

lemma f_less_finite: "f_less (Fin x) y \<Longrightarrow> (\<exists>b. y = Fin b \<and> x < b) \<or> y = PInf"
  by (cases y) auto

text \<open>C27: The control law stays inside its limits under four conditions: gain, floor and ceiling are finite,
  gain and floor are not negative, the floor is not above the ceiling, and the error is finite. Then
  every output is zero or has a magnitude between floor and ceiling, and it is zero when the error is
  inside the deadband.\<close>

theorem thl_output_limits:
  assumes "s_floorPct v = Fin lo" "s_ceilingPct v = Fin hi" "s_kpPctPerDeg v = Fin kp"
    and "0 \<le> lo" "lo \<le> hi" "0 \<le> kp"
    and "mkh_thl_compute_output_pct v reference heading = (out, error)" "error = Fin e"
  shows "\<exists>x. out = Fin x \<and> (x = 0 \<or> lo \<le> \<bar>x\<bar> \<and> \<bar>x\<bar> \<le> hi) \<and>
             (f_less (Fin \<bar>e\<bar>) (s_deadbandDeg v) \<longrightarrow> x = 0)"
proof -
  have w: "wrap180 (f_sub reference heading) = Fin e"
    using assms(7,8) by (simp add: mkh_thl_compute_output_pct_def Let_def split: if_splits)
  define raw where "raw = f_mul (Fin kp) (Fin e)"
  have raw: "raw = PInf \<or> raw = NInf \<or> (\<exists>y. raw = Fin y)" by (auto simp: raw_def f32_def Let_def)
  have out: "out = (if f_less (Fin \<bar>e\<bar>) (s_deadbandDeg v) then Fin 0
      else let out1 = (if f_less (Fin hi) raw then Fin hi else if f_less raw (Fin (- hi)) then Fin (- hi) else raw)
      in if f_less (Fin 0) out1 \<and> f_less out1 (Fin lo) then Fin lo
         else if f_less out1 (Fin 0) \<and> f_less (Fin (- lo)) out1 then Fin (- lo) else out1)"
  proof -
    have "out = fst (mkh_thl_compute_output_pct v reference heading)" using assms(7) by simp
    also have "\<dots> = (if f_less (Fin \<bar>e\<bar>) (s_deadbandDeg v) then Fin 0
      else let out1 = (if f_less (Fin hi) raw then Fin hi else if f_less raw (Fin (- hi)) then Fin (- hi) else raw)
      in if f_less (Fin 0) out1 \<and> f_less out1 (Fin lo) then Fin lo
         else if f_less out1 (Fin 0) \<and> f_less (Fin (- lo)) out1 then Fin (- lo) else out1)"
      by (simp only: mkh_thl_compute_output_pct_def assms(1-3) raw_def w Let_def f_neg.simps f_abs.simps
          if_distrib [of fst] fst_conv)
    finally show ?thesis .
  qed
  define g where "g r = (let out1 = (if f_less (Fin hi) r then Fin hi else if f_less r (Fin (- hi)) then Fin (- hi) else r)
      in if f_less (Fin 0) out1 \<and> f_less out1 (Fin lo) then Fin lo
         else if f_less out1 (Fin 0) \<and> f_less (Fin (- lo)) out1 then Fin (- lo) else out1)" for r
  have g: "\<exists>x. g raw = Fin x \<and> (x = 0 \<or> lo \<le> \<bar>x\<bar> \<and> \<bar>x\<bar> \<le> hi)"
    using raw
  proof (elim disjE exE)
    fix y assume "raw = Fin y"
    then show ?thesis using assms(4-6) by (cases "y < 0") (auto simp: g_def Let_def)
  qed (use assms(4-6) in \<open>auto simp: g_def Let_def\<close>)
  show ?thesis
    using g unfolding out g_def [symmetric] by (cases "f_less (Fin \<bar>e\<bar>) (s_deadbandDeg v)") simp_all
qed

lemma floor_1_18 [simp]: "\<lfloor>1 / 18 :: rat\<rfloor> = 0"
  by (rule floor_unique) simp_all

lemma error_30_10: "wrap180 (f_sub (Fin 30) (Fin 10)) = Fin 20" "f32 20 = Fin 20"
proof -
  show f: "f32 20 = Fin 20" using float_value_f32 [OF float_value_int [of 20]] by simp
  show "wrap180 (f_sub (Fin 30) (Fin 10)) = Fin 20"
    by (simp add: f_sub_def wrap180_def Let_def c_trunc_def f)
qed

theorem thl_output_limits_witness:
  "\<exists>out x. mkh_thl_compute_output_pct thl_boot (Fin 30) (Fin 10) = (out, Fin 20) \<and> out = Fin x \<and>
     (x = 0 \<or> 15 \<le> \<bar>x\<bar> \<and> \<bar>x\<bar> \<le> 60)"
proof -
  have "snd (mkh_thl_compute_output_pct thl_boot (Fin 30) (Fin 10)) = Fin 20"
    by (simp add: mkh_thl_compute_output_pct_def error_30_10 Let_def)
  then obtain out where o: "mkh_thl_compute_output_pct thl_boot (Fin 30) (Fin 10) = (out, Fin 20)"
    by (metis prod.collapse)
  from thl_output_limits [of thl_boot 15 60 3, OF _ _ _ _ _ _ o refl] o show ?thesis
    by (simp add: thl_boot_def)
qed

text \<open>The limits are not enforced among the tunables: a floor tuned above the ceiling wins, so the
  output can exceed the configured ceiling.\<close>

theorem thl_floor_above_ceiling:
  assumes "s_floorPct v = Fin lo" "s_ceilingPct v = Fin hi" "s_kpPctPerDeg v = Fin 1" "s_deadbandDeg v = Fin 2"
    and "0 < hi" "hi < lo" "hi \<le> 20"
  shows "fst (mkh_thl_compute_output_pct v (Fin 30) (Fin 10)) = Fin lo"
  using assms(5-) by (auto simp: mkh_thl_compute_output_pct_def error_30_10 Let_def assms(1-4))

theorem thl_floor_above_ceiling_witness:
  "fst (mkh_thl_compute_output_pct (thl_boot\<lparr>s_kpPctPerDeg := Fin 1, s_floorPct := Fin 80, s_ceilingPct := Fin 5\<rparr>) (Fin 30) (Fin 10)) = Fin 80"
  by (rule thl_floor_above_ceiling [where hi = 5]) (simp_all add: thl_boot_def)

end
