(* ===== verification/Drive.thy ===== *)
theory Drive
  imports Thl Mkh_Config "HOL-Library.Monad_Syntax"
begin

text \<open>
  The drive pipeline of \<^verbatim>\<open>main/sketch.cpp\<close>: raw stick and trigger readings to channel bytes,
  the invert and max attributes of a binding, the latched, pulse and heading-lock state
  machines, and the per-tick sweep \<open>processMappedInputs\<close> that sums the bindings of every port.
  The sweep returns the \<open>mkh_set_channel\<close> calls it makes, in order. The console messages are
  left out. An option result is \<open>None\<close> only where the result of \<open>lroundf\<close> is not specified or the
  sum with the neutral value overflows an \<open>int\<close>.
\<close>

section \<open>Axis and trigger curves\<close>

definition mkh_stick_axis_magnitude :: int where "mkh_stick_axis_magnitude = 512"

definition mkh_stick_deadzone_percent :: int where "mkh_stick_deadzone_percent = 8"

definition clamp_byte :: "int \<Rightarrow> int" where
  "clamp_byte value = (let v = (if value > 0xFF then 0xFF else value) in if v < 0 then 0 else v)"

definition mkStickYToChannelByte :: "int \<Rightarrow> u8 option" where
  "mkStickYToChannelByte axisY =
     (let deadzone = c_div (mkh_stick_axis_magnitude * mkh_stick_deadzone_percent) 100
      in if - deadzone \<le> axisY \<and> axisY \<le> deadzone then Some 0x80
         else
           (let forward = axisY < 0;
                magnitude = (if forward then - axisY else axisY);
                travel = mkh_stick_axis_magnitude - deadzone;
                fraction0 = f_div_const (f32 (of_int (magnitude - deadzone))) (of_int travel);
                fraction = (if f_less (Fin 1) fraction0 then Fin 1 else fraction0);
                scale = (if forward then Fin 127 else Fin 128)
            in do { r \<leftarrow> lroundf (f_mul (f_mul (if forward then Fin 1 else Fin (-1)) fraction) scale);
                    Some (to_u8 (clamp_byte (128 + r))) }))"

definition mkTriggerToChannelByte :: "int \<Rightarrow> u8 option" where
  "mkTriggerToChannelByte triggerValue =
     (let magnitude = 1023; deadzone = c_div (magnitude * mkh_stick_deadzone_percent) 100
      in if triggerValue \<le> deadzone then Some 0x80
         else
           (let travel = magnitude - deadzone;
                fraction0 = f_div_const (f32 (of_int (triggerValue - deadzone))) (of_int travel);
                fraction = (if f_less (Fin 1) fraction0 then Fin 1 else fraction0)
            in do { r \<leftarrow> lroundf (f_mul fraction (Fin 127));
                    let value = 128 + r;
                    Some (to_u8 (if value > 0xFF then 0xFF else value)) }))"

definition mkApplyBindingConfig :: "u8 \<Rightarrow> mkh_binding \<Rightarrow> u8" where
  "mkApplyBindingConfig rawByte b =
     (let value1 = uint rawByte;
          value2 = (if b_invert b then clamp_byte (0x100 - value1) else value1)
      in if b_mode b = MKH_MODE_THL then to_u8 value2
         else
           (let delta = c_div ((value2 - 0x80) * int (b_max_percent b)) 100
            in to_u8 (clamp_byte (0x80 + delta))))"

section \<open>Controller and per-binding state\<close>

record controller =
  axisX :: int
  axisY :: int
  axisRX :: int
  axisRY :: int
  brake :: int
  throttle :: int
  btn_a :: bool
  btn_b :: bool
  btn_x :: bool
  btn_y :: bool
  l1 :: bool
  r1 :: bool
  thumbL :: bool
  thumbR :: bool
  dpad :: u8

definition bool_int :: "bool \<Rightarrow> int" where
  "bool_int b = (if b then 1 else 0)"

fun readTokenRaw :: "controller \<Rightarrow> mkh_input_source \<Rightarrow> int" where
  "readTokenRaw ctl MKH_INPUT_LSNS = axisY ctl"
| "readTokenRaw ctl MKH_INPUT_LSEW = axisX ctl"
| "readTokenRaw ctl MKH_INPUT_RSNS = axisRY ctl"
| "readTokenRaw ctl MKH_INPUT_RSEW = axisRX ctl"
| "readTokenRaw ctl MKH_INPUT_LT = brake ctl"
| "readTokenRaw ctl MKH_INPUT_RT = throttle ctl"
| "readTokenRaw ctl MKH_INPUT_BTN_A = bool_int (btn_a ctl)"
| "readTokenRaw ctl MKH_INPUT_BTN_B = bool_int (btn_b ctl)"
| "readTokenRaw ctl MKH_INPUT_BTN_X = bool_int (btn_x ctl)"
| "readTokenRaw ctl MKH_INPUT_BTN_Y = bool_int (btn_y ctl)"
| "readTokenRaw ctl MKH_INPUT_LB = bool_int (l1 ctl)"
| "readTokenRaw ctl MKH_INPUT_RB = bool_int (r1 ctl)"
| "readTokenRaw ctl MKH_INPUT_DPAD_UP = bool_int (dpad ctl AND 1 \<noteq> 0)"
| "readTokenRaw ctl MKH_INPUT_DPAD_DOWN = bool_int (dpad ctl AND 2 \<noteq> 0)"
| "readTokenRaw ctl MKH_INPUT_DPAD_LEFT = bool_int (dpad ctl AND 8 \<noteq> 0)"
| "readTokenRaw ctl MKH_INPUT_DPAD_RIGHT = bool_int (dpad ctl AND 4 \<noteq> 0)"
| "readTokenRaw ctl MKH_INPUT_L3 = bool_int (thumbL ctl)"
| "readTokenRaw ctl MKH_INPUT_R3 = bool_int (thumbR ctl)"
| "readTokenRaw ctl MKH_INPUT_NONE = 0"

text \<open>One cell of the ten arrays indexed by device, port and binding.\<close>

record drive_slot =
  latchState :: bool
  latchPrevPressed :: bool
  pulseArmed :: bool
  pulseArmedFrame :: u32
  pulseActive :: bool
  pulseStartFrame :: u32
  pulsePrevPressed :: bool
  thlEngaged :: bool
  thlReferenceDeg :: c_float
  thlPrevPressed :: bool

definition clear_slot :: drive_slot where
  "clear_slot = \<lparr>latchState = False, latchPrevPressed = False, pulseArmed = False, pulseArmedFrame = 0,
     pulseActive = False, pulseStartFrame = 0, pulsePrevPressed = False, thlEngaged = False,
     thlReferenceDeg = Fin 0, thlPrevPressed = False\<rparr>"

type_synonym slot_table = "drive_slot list list list"

definition clearLatchStateForPort :: "nat \<Rightarrow> nat \<Rightarrow> slot_table \<Rightarrow> slot_table" where
  "clearLatchStateForPort dev port tb =
     tb[dev := (tb ! dev)[port := replicate mkh_max_bindings_per_port clear_slot]]"

definition clearLatchStateForDevice :: "nat \<Rightarrow> slot_table \<Rightarrow> slot_table" where
  "clearLatchStateForDevice dev tb = fold (clearLatchStateForPort dev) [0..<6] tb"

definition clearAllLatchState :: "slot_table \<Rightarrow> slot_table" where
  "clearAllLatchState tb = fold clearLatchStateForDevice [0..<3] tb"

section \<open>The state machines of one binding\<close>

definition mkh_frame_interval_ms :: u32 where "mkh_frame_interval_ms = 100"

definition mkh_pulse_frames :: u32 where "mkh_pulse_frames = 1"

text \<open>What one sweep reads besides the controller: the frame number, the sensor and the tunables.\<close>

record tick =
  currentFrame :: u32
  imu_ready :: bool
  imu_heading :: c_float

definition level_byte :: "bool \<Rightarrow> u8" where
  "level_byte on = (if on then 0xFF else 0x80)"

definition latch_step :: "bool \<Rightarrow> drive_slot \<Rightarrow> u8 \<times> drive_slot" where
  "latch_step pressed s =
     (let s1 = (if pressed \<and> \<not> latchPrevPressed s then s\<lparr>latchState := \<not> latchState s\<rparr> else s);
          s2 = s1\<lparr>latchPrevPressed := pressed\<rparr>
      in (level_byte (latchState s2), s2))"

definition pulse_step :: "u32 \<Rightarrow> bool \<Rightarrow> drive_slot \<Rightarrow> u8 \<times> drive_slot" where
  "pulse_step fr pressed s =
     (let isNewPress = (pressed \<and> \<not> pulsePrevPressed s);
          s1 = s\<lparr>pulsePrevPressed := pressed\<rparr>;
          s2 = (if isNewPress \<and> \<not> pulseArmed s1 \<and> \<not> pulseActive s1
                then s1\<lparr>pulseArmed := True, pulseArmedFrame := fr\<rparr> else s1);
          s3 = (if pulseArmed s2 \<and> fr \<noteq> pulseArmedFrame s2
                then s2\<lparr>pulseArmed := False, pulseActive := True, pulseStartFrame := fr\<rparr> else s2);
          s4 = (if pulseActive s3 \<and> pulseStartFrame s3 + mkh_pulse_frames \<le> fr
                then s3\<lparr>pulseActive := False\<rparr> else s3)
      in (level_byte (pulseActive s4), s4))"

definition thl_press :: "tick \<Rightarrow> bool \<Rightarrow> drive_slot \<times> thl_vars \<Rightarrow> drive_slot \<times> thl_vars" where
  "thl_press t pressed = (\<lambda>(s, v).
     (let isNewPress = (pressed \<and> \<not> thlPrevPressed s);
          s1 = s\<lparr>thlPrevPressed := pressed\<rparr>
      in if \<not> isNewPress then (s1, v)
         else if thlEngaged s1
           then (s1\<lparr>thlEngaged := False\<rparr>, mkh_thl_set_status MKH_THL_STATE_OFF (Fin 0) (Fin 0) v)
         else if \<not> imu_ready t
           then (s1, mkh_thl_set_status MKH_THL_STATE_CALIBRATING_BLOCKED (Fin 0) (Fin 0) v)
         else (s1\<lparr>thlEngaged := True, thlReferenceDeg := imu_heading t\<rparr>, v)))"

definition thl_step :: "tick \<Rightarrow> bool \<Rightarrow> drive_slot \<times> thl_vars \<Rightarrow> (u8 \<times> drive_slot \<times> thl_vars) option" where
  "thl_step t pressed sv =
     (let (s, v) = thl_press t pressed sv
      in if thlEngaged s then
           (let (outputPct, errorDeg) = mkh_thl_compute_output_pct v (thlReferenceDeg s) (imu_heading t)
            in do { delta \<leftarrow> lroundf (f_mul (f_div_const outputPct 100) (Fin 127));
                    level \<leftarrow> i32 (0x80 + delta);
                    Some (to_u8 (clamp_byte level), s,
                          mkh_thl_set_status MKH_THL_STATE_ENGAGED errorDeg outputPct v) })
         else Some (0x80, s,
                mkh_thl_set_status (if imu_ready t then MKH_THL_STATE_OFF else MKH_THL_STATE_CALIBRATING_BLOCKED)
                  (Fin 0) (Fin 0) v))"

definition pressed_level :: "controller \<Rightarrow> mkh_input_source \<Rightarrow> bool" where
  "pressed_level ctl input =
     (if mkh_config_input_class input = MKH_INPUT_CLASS_TRIGGER
      then readTokenRaw ctl input > c_div 1023 2 else readTokenRaw ctl input \<noteq> 0)"

definition binding_step ::
  "controller \<Rightarrow> tick \<Rightarrow> mkh_binding \<Rightarrow> drive_slot \<times> thl_vars \<Rightarrow> (u8 \<times> drive_slot \<times> thl_vars) option" where
  "binding_step ctl t b = (\<lambda>(s, v).
     (let cls = mkh_config_input_class (b_input b); pressed = pressed_level ctl (b_input b)
      in if cls = MKH_INPUT_CLASS_AXIS
           then map_option (\<lambda>r. (r, s, v)) (mkStickYToChannelByte (readTokenRaw ctl (b_input b)))
         else if cls = MKH_INPUT_CLASS_TRIGGER \<and> b_mode b = MKH_MODE_PROPORTIONAL
           then map_option (\<lambda>r. (r, s, v)) (mkTriggerToChannelByte (readTokenRaw ctl (b_input b)))
         else if b_mode b = MKH_MODE_LATCHED then (let (r, s') = latch_step pressed s in Some (r, s', v))
         else if b_mode b = MKH_MODE_PULSE then (let (r, s') = pulse_step (currentFrame t) pressed s in Some (r, s', v))
         else if b_mode b = MKH_MODE_THL then thl_step t pressed (s, v)
         else Some (level_byte pressed, s, v)))"

section \<open>One port\<close>

text \<open>Pass 1 computes the raw byte of every binding and advances its state.\<close>

fun pass1 :: "controller \<Rightarrow> tick \<Rightarrow> mkh_binding list \<Rightarrow> drive_slot list \<Rightarrow> thl_vars \<Rightarrow>
    (u8 list \<times> drive_slot list \<times> thl_vars) option" where
  "pass1 ctl t (b # bs) (s # ss) v =
     do { (r, s', v') \<leftarrow> binding_step ctl t b (s, v);
          (rs, ss', v'') \<leftarrow> pass1 ctl t bs ss v';
          Some (r # rs, s' # ss', v'') }"
| "pass1 ctl t bs ss v = Some ([], ss, v)"

definition engaged_index :: "mkh_binding list \<Rightarrow> drive_slot list \<Rightarrow> nat option" where
  "engaged_index bs ss = List.find (\<lambda>i. b_mode (bs ! i) = MKH_MODE_THL \<and> thlEngaged (ss ! i)) [0..<length bs]"

definition deflection_pct :: "u8 \<Rightarrow> c_float" where
  "deflection_pct r = f_mul (f_div_const (f_abs (f32 (of_int (uint r - 0x80)))) 127) (Fin 100)"

definition cancelling_index :: "c_float \<Rightarrow> nat \<Rightarrow> u8 list \<Rightarrow> nat option" where
  "cancelling_index threshold thl rs =
     List.find (\<lambda>i. i \<noteq> thl \<and> f_less threshold (deflection_pct (rs ! i))) [0..<length rs]"

text \<open>Pass 2: manual override cancels an engaged lock, otherwise the lock silences the other bindings.\<close>

definition pass2 :: "mkh_binding list \<Rightarrow> u8 list \<times> drive_slot list \<times> thl_vars \<Rightarrow> u8 list \<times> drive_slot list \<times> thl_vars" where
  "pass2 bs = (\<lambda>(rs, ss, v).
     (case engaged_index bs ss of
        None \<Rightarrow> (rs, ss, v)
      | Some i \<Rightarrow>
          (case cancelling_index (s_cancelThresholdPct v) i rs of
             Some _ \<Rightarrow> (rs[i := 0x80], ss[i := (ss ! i)\<lparr>thlEngaged := False\<rparr>],
                        mkh_thl_set_status MKH_THL_STATE_OFF (Fin 0) (Fin 0) v)
           | None \<Rightarrow> (map (\<lambda>k. if k = i then rs ! k else 0x80) [0..<length rs], ss, v))))"

text \<open>Pass 3: invert and max of every binding, the sum clamped to one byte.\<close>

definition pass3 :: "mkh_binding list \<Rightarrow> u8 list \<Rightarrow> u8" where
  "pass3 bs rs =
     (let sumDelta = sum_list (map2 (\<lambda>b r. uint (mkApplyBindingConfig r b) - 0x80) bs rs);
          sum1 = (if sumDelta > 127 then 127 else sumDelta);
          sum2 = (if sum1 < -128 then -128 else sum1)
      in to_u8 (0x80 + sum2))"

definition port_step ::
  "controller \<Rightarrow> tick \<Rightarrow> mkh_binding list \<Rightarrow> drive_slot list \<times> thl_vars \<Rightarrow> (u8 \<times> drive_slot list \<times> thl_vars) option" where
  "port_step ctl t bs = (\<lambda>(ss, v).
     do { p1 \<leftarrow> pass1 ctl t bs ss v;
          let (rs, ss', v') = pass2 bs p1;
          Some (pass3 bs rs, ss', v') })"

section \<open>The sweep\<close>

type_synonym channel_call = "nat \<times> nat \<times> u8"

fun sweep_ports ::
  "controller \<Rightarrow> tick \<Rightarrow> config_state \<Rightarrow> (nat \<times> nat) list \<Rightarrow> slot_table \<times> thl_vars \<Rightarrow>
   (channel_call list \<times> slot_table \<times> thl_vars) option" where
  "sweep_ports ctl t cfg [] st = Some ([], st)"
| "sweep_ports ctl t cfg ((dev, port) # ps) (tb, v) =
     (case mkh_config_get cfg (int dev) (int port) of
        None \<Rightarrow> sweep_ports ctl t cfg ps (tb, v)
      | Some c \<Rightarrow>
          if bindings c = [] then sweep_ports ctl t cfg ps (tb, v)
          else do { (byte, ss, v') \<leftarrow> port_step ctl t (bindings c) (tb ! dev ! port, v);
                    (calls, st') \<leftarrow> sweep_ports ctl t cfg ps (tb[dev := (tb ! dev)[port := ss]], v');
                    Some ((dev, port, byte) # calls, st') })"

definition all_ports :: "(nat \<times> nat) list" where
  "all_ports = concat (map (\<lambda>d. map (\<lambda>p. (d, p)) [0..<6]) [0..<3])"

definition processMappedInputs ::
  "controller \<Rightarrow> u32 \<Rightarrow> bool \<Rightarrow> c_float \<Rightarrow> config_state \<Rightarrow> slot_table \<times> thl_vars \<Rightarrow>
   (channel_call list \<times> slot_table \<times> thl_vars) option" where
  "processMappedInputs ctl millis ready heading cfg st =
     sweep_ports ctl \<lparr>currentFrame = millis div mkh_frame_interval_ms, imu_ready = ready, imu_heading = heading\<rparr>
       cfg all_ports st"

text \<open>The failsafe of \<open>onDisconnectedController\<close>: every assigned channel to neutral, all runtime state
  cleared.\<close>

definition disconnect_failsafe :: "config_state \<Rightarrow> slot_table \<Rightarrow> channel_call list \<times> slot_table" where
  "disconnect_failsafe cfg tb =
     (map (\<lambda>(d, p). (d, p, 0x80))
        (filter (\<lambda>(d, p). case mkh_config_get cfg (int d) (int p) of None \<Rightarrow> False | Some c \<Rightarrow> bindings c \<noteq> []) all_ports),
      clearAllLatchState tb)"

end
