(* ===== verification/Drive_Laws.thy ===== *)
theory Drive_Laws
  imports Drive Mkh_Broadcast
begin

text \<open>
  Properties of the drive pipeline: the float curves equal their exact rational definitions, a
  binding never exceeds its limit, the latch counts press edges, the pulse covers exactly its
  frames (and what happens when the millisecond clock wraps inside one), the heading lock is
  exclusive, the summed byte is the clamped sum, and the disconnect failsafe is complete.
\<close>

section \<open>Rounding of scaled quotients\<close>

lemma floor_half [simp]: "\<lfloor>1 / 2 :: rat\<rfloor> = 0"
  by (rule floor_unique) simp_all

lemma lround_minus: "lround (- x) = - lround x"
  by (auto simp: lround_def)

lemma lround_mono: "x \<le> y \<Longrightarrow> lround x \<le> lround y"
proof -
  assume a: "x \<le> y"
  have nn: "0 \<le> z \<Longrightarrow> 0 \<le> lround z" for z :: rat by (simp add: lround_def)
  have np: "z \<le> 0 \<Longrightarrow> lround z \<le> 0" for z :: rat by (cases "z = 0") (auto simp: lround_def)
  consider "0 \<le> x" | "x < 0" "0 \<le> y" | "x < 0" "y < 0" by linarith
  then show ?thesis
  proof cases
    case 1
    then show ?thesis using a by (simp add: lround_def floor_mono)
  next
    case 2
    then show ?thesis using nn [of y] np [of x] by simp
  next
    case 3
    then have "\<lfloor>- y + 1 / 2\<rfloor> \<le> \<lfloor>- x + 1 / 2\<rfloor>" using a by (intro floor_mono) simp
    then show ?thesis using 3 by (simp add: lround_def)
  qed
qed

lemma lround_stable:
  assumes "0 \<le> a" "0 < b" "\<And>k. 2 * a \<noteq> b * (2 * k + 1)" "\<bar>p - of_int a / of_int b\<bar> < 1 / (2 * of_int b)"
  shows "lround p = lround (of_int a / of_int b)"
proof (rule lround_unique)
  let ?v = "of_int a / of_int b :: rat"
  define k where "k = lround ?v"
  have v0: "0 \<le> ?v" using assms(1,2) by simp
  have b: "(0::rat) < of_int b" using assms(2) by simp
  have k1: "of_int k \<le> ?v + 1 / 2" "?v + 1 / 2 < of_int k + 1"
  proof -
    have "k = \<lfloor>?v + 1 / 2\<rfloor>" using v0 by (simp add: k_def lround_def)
    then show "of_int k \<le> ?v + 1 / 2" "?v + 1 / 2 < of_int k + 1" by linarith+
  qed
  have "(of_int (2 * b * k) :: rat) \<le> of_int (2 * a + b)" using k1(1) b by (simp add: field_simps)
  then have le: "2 * b * k \<le> 2 * a + b" by (simp only: of_int_le_iff)
  have "(of_int (2 * a + b) :: rat) < of_int (2 * b * (k + 1))" using k1(2) b by (simp add: field_simps)
  then have lt: "2 * a + b < 2 * b * (k + 1)" by (simp only: of_int_less_iff)
  have "2 * b * k \<noteq> 2 * a + b" using assms(3) [of "k - 1"] by (auto simp: algebra_simps)
  then have lo: "2 * b * k + 1 \<le> 2 * a + b" using le by simp
  have hi: "2 * a + b + 1 \<le> 2 * b * (k + 1)" using lt by simp
  have "(of_int (2 * b * k + 1) :: rat) \<le> of_int (2 * a + b)" using lo by (simp only: of_int_le_iff)
  then have "of_int (2 * b * k + 1) / (2 * of_int b) \<le> (of_int (2 * a + b) / (2 * of_int b) :: rat)"
    using b by (intro divide_right_mono) auto
  then have lo': "of_int k + 1 / (2 * of_int b) \<le> ?v + 1 / 2" using b by (simp add: add_divide_distrib)
  have "(of_int (2 * a + b + 1) :: rat) \<le> of_int (2 * b * (k + 1))" using hi by (simp only: of_int_le_iff)
  then have "of_int (2 * a + b + 1) / (2 * of_int b) \<le> (of_int (2 * b * (k + 1)) / (2 * of_int b) :: rat)"
    using b by (intro divide_right_mono) auto
  then have hi': "?v + 1 / 2 + 1 / (2 * of_int b) \<le> of_int k + 1" using b by (simp add: add_divide_distrib)
  show "\<bar>of_int (lround ?v) - p\<bar> < 1 / 2"
    unfolding k_def [symmetric] using lo' hi' assms(4) by linarith
qed

lemma float_value_f32_rat:
  assumes "2 powi (-126) \<le> \<bar>x\<bar>"
  shows "float_value (f32_rat x)"
proof -
  have x: "x \<noteq> 0" using assms by auto
  let ?e = "max (rat_exp \<bar>x\<bar> - 23) (-149)"
  define m where "m = round_even (x / ulp32 x)"
  have "\<bar>x\<bar> < 2 powi (rat_exp \<bar>x\<bar> + 1)" using rat_exp_bounds(2) [of "\<bar>x\<bar>"] x by simp
  also have "\<dots> \<le> 2 powi (?e + 24)" by (intro power_int_increasing) auto
  also have "\<dots> = 2 powi ?e * 2 powi 24" by (rule power_int_add) simp
  also have "\<dots> = of_int (2 ^ 24) * ulp32 x" by (simp add: ulp32_def)
  finally have "\<bar>x / ulp32 x\<bar> < of_int (2 ^ 24)"
    using ulp32_pos [of x] by (simp add: abs_divide pos_divide_less_eq)
  then have "\<bar>rat_of_int m\<bar> < of_int (2 ^ 24) + 1" using round_even_error [of "x / ulp32 x"] unfolding m_def by linarith
  then have "of_int \<bar>m\<bar> < (of_int (2 ^ 24 + 1) :: rat)" by simp
  then have "\<bar>m\<bar> < 2 ^ 24 + 1" by (simp only: of_int_less_iff)
  then consider "\<bar>m\<bar> < 2 ^ 24" | "m = 2 ^ 24" | "m = - (2 ^ 24)" by linarith
  moreover have val: "f32_rat x = of_int m * 2 powi ?e" using x by (simp add: f32_rat_def m_def ulp32_def)
  moreover have "float_value (of_int s * 2 powi (24 + ?e))" if "\<bar>s\<bar> < 2 ^ 24" for s
    unfolding float_value_def by (rule exI [of _ s], rule exI [of _ "24 + ?e"]) (use that in auto)
  moreover have "of_int (2 ^ 24) * 2 powi ?e = (2 :: rat) powi (24 + ?e)" by (simp add: power_int_add)
  ultimately show ?thesis
  proof cases
    case 1
    then show ?thesis unfolding float_value_def val by (intro exI conjI) (auto intro: refl)
  next
    case 2
    then show ?thesis using val \<open>\<And>s. \<bar>s\<bar> < 2 ^ 24 \<Longrightarrow> _\<close> [of 1] \<open>of_int (2 ^ 24) * _ = _\<close> by simp
  next
    case 3
    then show ?thesis using val \<open>\<And>s. \<bar>s\<bar> < 2 ^ 24 \<Longrightarrow> _\<close> [of "-1"] \<open>of_int (2 ^ 24) * _ = _\<close> by simp
  qed
qed


lemma f32_Fin: "\<bar>x\<bar> \<le> 2 ^ 20 \<Longrightarrow> 2 powi (-126) \<le> \<bar>x\<bar> \<Longrightarrow> f32 x = Fin (f32_rat x)"
proof -
  assume a: "\<bar>x\<bar> \<le> 2 ^ 20" "2 powi (-126) \<le> \<bar>x\<bar>"
  have "\<bar>f32_rat x\<bar> \<le> \<bar>x\<bar> + \<bar>x\<bar> / 2 ^ 24" using f32_rat_error [OF a(2)] by linarith
  then have "\<bar>f32_rat x\<bar> < 2 ^ 128" using a(1) by simp
  then show ?thesis by (rule f32_small)
qed

lemma tiny: "1 / 2000 \<le> \<bar>x\<bar> \<Longrightarrow> (2::rat) powi (-126) \<le> \<bar>x\<bar>"
proof (rule order_trans [of _ "1 / 2000"])
  have "(2::rat) powi (-126) = 1 / 2 ^ 126" by (simp add: power_int_def power_one_over)
  also have "\<dots> \<le> 1 / 2000" by simp
  finally show "(2::rat) powi (-126) \<le> 1 / 2000" .
qed

text \<open>The quotient \<open>n / D\<close> in floats, and its product with a scale \<open>S\<close>, round to the same integer as
  the exact \<open>n * S / D\<close>.\<close>

text \<open>A quotient of small integers in single precision.\<close>

lemma rounded_quotient:
  assumes n: "0 < n" "n \<le> D" "D \<le> 1000"
  defines "f \<equiv> f32_rat (of_int n / of_int D)"
  shows "f32 (of_int n / of_int D) = Fin f" "f \<le> 1" "0 < f" "\<bar>f - of_int n / of_int D\<bar> \<le> 1 / 16777216" "1 / 2000 \<le> f"
    "float_value f"
proof -
  let ?x = "of_int n / of_int D :: rat"
  have D: "0 < D" using n by simp
  have x: "1 / 1000 \<le> ?x" "?x \<le> 1"
  proof -
    have "(1::rat) / 1000 \<le> 1 / of_int D" using n(3) D by (intro divide_left_mono) auto
    also have "\<dots> \<le> ?x" using n(1) D by (intro divide_right_mono) auto
    finally show "1 / 1000 \<le> ?x" .
    show "?x \<le> 1" using n D by simp
  qed
  have xabs: "\<bar>?x\<bar> = ?x" using x(1) by (intro abs_of_nonneg) linarith
  then have xt: "2 powi (-126) \<le> \<bar>?x\<bar>" using x(1) by (intro tiny) linarith
  have "\<bar>f - ?x\<bar> \<le> ?x / 2 ^ 24" using f32_rat_error [OF xt] unfolding f_def xabs .
  also have "?x / 2 ^ 24 \<le> 1 / 2 ^ 24" using x(2) by (rule divide_right_mono) simp
  finally show err: "\<bar>f - ?x\<bar> \<le> 1 / 16777216" by simp
  show "f32 ?x = Fin f" unfolding f_def by (rule f32_Fin [OF _ xt]) (use x in auto)
  have exact1: "f32_rat 1 = 1" using f32_rat_exact [of 1 1 0] by simp
  show "f \<le> 1"
  proof (cases "n = D")
    case True
    then show ?thesis using D exact1 by (simp add: f_def)
  next
    case False
    then have "n \<le> D - 1" using n(2) by simp
    then have "?x \<le> of_int (D - 1) / of_int D" using D by (intro divide_right_mono) auto
    also have "\<dots> = 1 - 1 / of_int D" using D by (simp add: diff_divide_distrib)
    also have "\<dots> \<le> 1 - 1 / 1000" using n(3) D by (simp add: field_simps)
    finally show ?thesis using err by linarith
  qed
  show "0 < f" using err x by linarith
  show "1 / 2000 \<le> f" using err x by linarith
  show "float_value f" unfolding f_def by (rule float_value_f32_rat [OF xt])
qed

text \<open>The quotient times the scale of either direction rounds to the same integer as the exact product.\<close>

lemma scaled_sign:
  assumes n: "0 < n" "n \<le> D" "D \<le> 1000" and S: "0 < S" "S \<le> 128"
    and nohalf: "\<And>k. 2 * n \<noteq> D \<Longrightarrow> 2 * (n * S) \<noteq> D * (2 * k + 1)"
    and s: "s = 1 \<or> s = -1"
  defines "f \<equiv> f32_rat (of_int n / of_int D)"
  shows "\<exists>p. f32 (s * (f * of_int S)) = Fin p \<and>
    lround p = (if s = 1 then lround (of_int (n * S) / of_int D) else - lround (of_int (n * S) / of_int D))"
proof -
  note Q = rounded_quotient [OF n, folded f_def]
  let ?x = "of_int n / of_int D :: rat" and ?v = "of_int (n * S) / of_int D :: rat"
  have D: "0 < D" using n by simp
  have fS: "1 / 2000 \<le> f * of_int S" "f * of_int S \<le> 128"
  proof -
    have "1 / 2000 * 1 \<le> f * of_int S" using Q(5) S(1) by (intro mult_mono) auto
    then show "1 / 2000 \<le> f * of_int S" by simp
    have "f * of_int S \<le> 1 * 128" using Q(2,3) S by (intro mult_mono) auto
    then show "f * of_int S \<le> 128" by simp
  qed
  have sabs: "\<bar>s * (f * of_int S)\<bar> = f * of_int S" using s fS(1) by (auto simp: abs_if)
  have t: "2 powi (-126) \<le> \<bar>s * (f * of_int S)\<bar>" using fS sabs by (intro tiny) auto
  define p where "p = f32_rat (s * (f * of_int S))"
  have P: "f32 (s * (f * of_int S)) = Fin p"
    unfolding p_def by (rule f32_Fin [OF _ t]) (use sabs fS in auto)
  have perr: "\<bar>p - s * (f * of_int S)\<bar> \<le> 128 / 16777216"
  proof -
    have "\<bar>p - s * (f * of_int S)\<bar> \<le> f * of_int S / 2 ^ 24" using f32_rat_error [OF t] unfolding p_def sabs .
    also have "\<dots> \<le> 128 / 2 ^ 24" using fS(2) by (rule divide_right_mono) simp
    finally show ?thesis by simp
  qed
  have "f * of_int S - ?v = (f - ?x) * of_int S" by (simp add: left_diff_distrib)
  then have "\<bar>f * of_int S - ?v\<bar> = \<bar>f - ?x\<bar> * of_int S" using S(1) by (simp only: abs_mult)
  also have "\<dots> \<le> 1 / 16777216 * 128" using Q(4) S by (intro mult_mono) auto
  finally have verr: "\<bar>f * of_int S - ?v\<bar> \<le> 128 / 16777216" by simp
  have "s * p - f * of_int S = s * (p - s * (f * of_int S))" using s by (auto simp: algebra_simps)
  then have "\<bar>s * p - f * of_int S\<bar> = \<bar>p - s * (f * of_int S)\<bar>" using s by (auto simp: abs_mult)
  then have perr': "\<bar>s * p - ?v\<bar> \<le> 256 / 16777216" using perr verr by linarith
  have "lround (s * p) = lround ?v"
  proof (cases "2 * n = D")
    case False
    show ?thesis
    proof (rule lround_stable)
      have "256 / 16777216 < 1 / (2 * rat_of_int D)" using n(3) D by (simp add: field_simps)
      then show "\<bar>s * p - ?v\<bar> < 1 / (2 * of_int D)" using perr' by linarith
    qed (use nohalf False n(1) S(1) D in simp_all)
  next
    case True
    then have "?x = 1 / 2" using D by (simp add: field_simps)
    then have "f = 1 / 2" using f32_rat_exact [of "1/2" 1 "-1"] by (simp add: f_def)
    then have "s * (f * of_int S) = of_int (if s = 1 then S else - S) * 2 powi (-1)" using s by auto
    from f32_rat_exact [OF this] S have "p = s * (f * of_int S)" by (simp add: p_def)
    then have "s * p = of_int S / 2" using \<open>f = 1 / 2\<close> s by auto
    moreover have "?v = of_int S / 2" using True n(1) by (auto simp: field_simps)
    ultimately have "s * p = ?v" by (rule trans [OF _ sym])
    then show ?thesis by simp
  qed
  then show ?thesis using P s lround_minus [of p] by auto
qed

lemma scaled_quotient:
  assumes n: "0 < n" "n \<le> D" "D \<le> 1000" and S: "0 < S" "S \<le> 128"
    and nohalf: "\<And>k. 2 * n \<noteq> D \<Longrightarrow> 2 * (n * S) \<noteq> D * (2 * k + 1)"
  defines "f \<equiv> f32_rat (of_int n / of_int D)"
  shows "f32 (of_int n / of_int D) = Fin f" "f \<le> 1" "0 < f" "f32 f = Fin f" "f32 (- f) = Fin (- f)"
    "\<exists>p. f32 (f * of_int S) = Fin p \<and> lround p = lround (of_int (n * S) / of_int D)"
    "\<exists>p. f32 (- f * of_int S) = Fin p \<and> lround p = - lround (of_int (n * S) / of_int D)"
proof -
  note Q = rounded_quotient [OF n, folded f_def]
  show "f32 (of_int n / of_int D) = Fin f" "f \<le> 1" "0 < f" by (rule Q(1) Q(2) Q(3))+
  obtain m e where "f = of_int m * 2 powi e" "\<bar>m\<bar> < 2 ^ 24" "-149 \<le> e" using Q(6) by (auto simp: float_value_def)
  then have "float_value (- f)" unfolding float_value_def by (intro exI [of _ "- m"] exI [of _ e]) simp
  then show "f32 f = Fin f" "f32 (- f) = Fin (- f)"
    using float_value_f32 [OF Q(6)] float_value_f32 [of "- f"] Q(2,3) by auto
  note stable = scaled_sign [OF n S nohalf, folded f_def]
  show "\<exists>p. f32 (f * of_int S) = Fin p \<and> lround p = lround (of_int (n * S) / of_int D)" using stable [of 1] by simp
  show "\<exists>p. f32 (- f * of_int S) = Fin p \<and> lround p = - lround (of_int (n * S) / of_int D)" using stable [of "-1"] by simp
qed


section \<open>The stick and trigger curves\<close>

definition stick_spec :: "int \<Rightarrow> int" where
  "stick_spec a = (if \<bar>a\<bar> \<le> 40 then 128
     else if a < 0 then 128 + lround (of_int ((- a - 40) * 127) / 472)
     else 128 - lround (of_int ((a - 40) * 128) / 472))"

definition trigger_spec :: "int \<Rightarrow> int" where
  "trigger_spec a = (if a \<le> 81 then 128 else 128 + lround (of_int ((a - 81) * 127) / 942))"

lemma f32_int:
  assumes "\<bar>i\<bar> < 2 ^ 24"
  shows "f32 (of_int i) = Fin (of_int i)"
proof (rule float_value_f32 [OF float_value_int [OF assms]])
  have "of_int \<bar>i\<bar> < (of_int (2 ^ 24) :: rat)" using assms by (simp only: of_int_less_iff)
  then show "\<bar>of_int i :: rat\<bar> < 2 ^ 128" by simp
qed

lemma odd_multiple:
  fixes n :: int
  assumes "127 * n = d * (2 * k + 1)" "coprime d 127" "0 < n" "n \<le> 2 * d"
  shows "n = d"
proof -
  have "d dvd 127 * n" using assms(1) by simp
  then have "d dvd n" using assms(2) by (simp add: coprime_dvd_mult_right_iff)
  then obtain j where j: "n = d * j" by blast
  have "d \<noteq> 0" using assms(3) j by auto
  with assms(1) j have k: "127 * j = 2 * k + 1" by simp
  have dp: "0 < d" using assms(3,4) by simp
  have "0 < j" using assms(3) j dp by (simp add: zero_less_mult_iff)
  moreover have "d * j \<le> d * 2" using assms(4) j by simp
  then have "j \<le> 2" using dp by (simp only: mult_le_cancel_left_pos)
  moreover have "j \<noteq> 2" using k by presburger
  ultimately show ?thesis using j by simp
qed

lemma stick_nohalf: "2 * n \<noteq> (472 :: int) \<Longrightarrow> 0 < n \<Longrightarrow> n \<le> 472 \<Longrightarrow> 2 * (n * 127) \<noteq> 472 * (2 * k + 1)"
  using odd_multiple [of n 236 k] by (auto simp: coprime_iff_gcd_eq_1 gcd_non_0_int)

lemma stick_nohalf_rev: "2 * (n * 128) \<noteq> 472 * (2 * k + 1 :: int)"
proof
  assume "2 * (n * 128) = 472 * (2 * k + 1)"
  then have "32 * n = 59 * (2 * k + 1)" by simp
  moreover have "even (32 * n)" "odd (59 * (2 * k + 1))" by simp_all
  ultimately show False by metis
qed

lemma trigger_nohalf: "2 * n \<noteq> (942 :: int) \<Longrightarrow> 0 < n \<Longrightarrow> n \<le> 942 \<Longrightarrow> 2 * (n * 127) \<noteq> 942 * (2 * k + 1)"
  using odd_multiple [of n 471 k] by (auto simp: coprime_iff_gcd_eq_1 gcd_non_0_int)

lemma quotient_bounds:
  assumes "0 < n" "n \<le> D" "0 \<le> S"
  shows "0 \<le> lround (of_int (n * S) / of_int D)" "lround (of_int (n * S) / of_int D) \<le> S"
proof -
  have "of_int (n * S) \<le> (of_int (S * D) :: rat)" using assms by (simp only: of_int_le_iff mult.commute [of n S]) (simp add: mult_left_mono)
  then have "of_int (n * S) / of_int D \<le> (of_int S :: rat)" using assms by (simp add: pos_divide_le_eq)
  from lround_mono [OF this] have "lround (of_int (n * S) / of_int D) \<le> lround (of_int S :: rat)" .
  moreover have "lround (of_int S :: rat) = S" by (rule lround_unique) simp
  ultimately show "lround (of_int (n * S) / of_int D) \<le> S" by simp
  show "0 \<le> lround (of_int (n * S) / of_int D)" using assms by (simp add: lround_def)
qed

lemma stick_byte_eq:
  assumes "-512 \<le> a" "a \<le> 512"
  shows "mkStickYToChannelByte a = Some (to_u8 (stick_spec a))"
proof (cases "\<bar>a\<bar> \<le> 40")
  case True
  then have "-40 \<le> a" "a \<le> 40" by auto
  then show ?thesis
    by (simp add: mkStickYToChannelByte_def stick_spec_def c_div_def mkh_stick_axis_magnitude_def mkh_stick_deadzone_percent_def)
next
  case False
  have out: "\<not> (-40 \<le> a \<and> a \<le> 40)" using False by auto
  note defs = mkStickYToChannelByte_def stick_spec_def c_div_def mkh_stick_axis_magnitude_def
    mkh_stick_deadzone_percent_def f_sub_def Let_def
  show ?thesis
  proof (cases "a < 0")
    case True
    define n where "n = - a - 40"
    have n: "0 < n" "n \<le> 472" "a = - n - 40" using True False assms by (auto simp: n_def)
    note q = scaled_quotient [of n 472 127, OF n(1,2) _ _ _ stick_nohalf [OF _ n(1,2)], simplified]
    obtain p where p: "f32 (f32_rat (of_int n / 472) * 127) = Fin p" "lround p = lround (of_int n * 127 / 472)"
      using q(6) by auto
    have fi: "f32 (of_int n) = Fin (of_int n)" using f32_int [of n] n by simp
    have b: "0 \<le> lround (of_int n * 127 / 472 :: rat)" "lround (of_int n * 127 / 472 :: rat) \<le> 127"
      using quotient_bounds [OF n(1,2), of 127] by simp_all
    show ?thesis
      using True n q p b out fi by (simp add: defs clamp_byte_def i32_def)
  next
    case F: False
    define n where "n = a - 40"
    have n: "0 < n" "n \<le> 472" "a = n + 40" using F False assms by (auto simp: n_def)
    note q = scaled_quotient [of n 472 128, OF n(1,2) _ _ _ stick_nohalf_rev, simplified]
    obtain p where p: "f32 (- (f32_rat (of_int n / 472) * 128)) = Fin p" "lround p = - lround (of_int n * 128 / 472)"
      using q(7) by auto
    have fi: "f32 (of_int n) = Fin (of_int n)" using f32_int [of n] n by simp
    have b: "0 \<le> lround (of_int n * 128 / 472 :: rat)" "lround (of_int n * 128 / 472 :: rat) \<le> 128"
      using quotient_bounds [OF n(1,2), of 128] by simp_all
    show ?thesis
      using F n q p b out fi by (simp add: defs clamp_byte_def i32_def)
  qed
qed

lemma floor_halves: "\<lfloor>255 / 2 :: rat\<rfloor> = 127" "\<lfloor>257 / 2 :: rat\<rfloor> = 128"
  by (rule floor_unique, simp_all)+

text \<open>C25: The float curve of the sticks is exactly the rational curve over the whole range of the
  controller: neutral up to a deflection of 40, then a linear ramp rounded to the nearest byte that
  ends at 0xFF for full up and 0x00 for full down.\<close>

theorem stick_byte_exact:
  assumes "-512 \<le> a" "a \<le> 512"
  shows "mkStickYToChannelByte a = Some (to_u8 (stick_spec a))"
  by (rule stick_byte_eq [OF assms])

theorem stick_byte_exact_witness:
  "mkStickYToChannelByte (-512) = Some 0xFF \<and> mkStickYToChannelByte 512 = Some 0"
  using stick_byte_exact [of "-512"] stick_byte_exact [of 512]
  by (simp add: stick_spec_def lround_def floor_halves)


text \<open>The trigger curve is exact too: neutral up to 81 of 1023, then a one-sided linear ramp rounded to
  the nearest byte that reaches 0xFF at full pull, and never leaves the forward half.\<close>

theorem trigger_byte_exact:
  assumes "a \<le> 1023"
  shows "mkTriggerToChannelByte a = Some (to_u8 (trigger_spec a)) \<and> 128 \<le> trigger_spec a \<and> trigger_spec a \<le> 255"
proof (cases "a \<le> 81")
  case True
  then show ?thesis by (simp add: mkTriggerToChannelByte_def trigger_spec_def c_div_def mkh_stick_deadzone_percent_def)
next
  case False
  define n where "n = a - 81"
  have n: "0 < n" "n \<le> 942" "a = n + 81" using False assms by (auto simp: n_def)
  note q = scaled_quotient [of n 942 127, OF n(1,2) _ _ _ trigger_nohalf [OF _ n(1,2)], simplified]
  obtain p where p: "f32 (f32_rat (of_int n / 942) * 127) = Fin p" "lround p = lround (of_int n * 127 / 942)"
    using q(6) by auto
  have fi: "f32 (of_int n) = Fin (of_int n)" using f32_int [of n] n by simp
  have b: "0 \<le> lround (of_int n * 127 / 942 :: rat)" "lround (of_int n * 127 / 942 :: rat) \<le> 127"
    using quotient_bounds [OF n(1,2), of 127] by simp_all
  show ?thesis
    using n q p b fi
    by (simp add: mkTriggerToChannelByte_def trigger_spec_def c_div_def mkh_stick_deadzone_percent_def Let_def i32_def)
qed

theorem trigger_byte_exact_witness: "mkTriggerToChannelByte 1023 = Some 0xFF"
  using trigger_byte_exact [of 1023] by (simp add: trigger_spec_def lround_def floor_halves)

section \<open>The curves never fail\<close>

text \<open>Whatever the controller reports, the float computations of the two curves stay in range.\<close>

lemma f32_rat_bound: "\<bar>f32_rat x\<bar> \<le> 2 * \<bar>x\<bar> + 1"
proof (cases "x = 0")
  case False
  have u: "0 < ulp32 x" by (rule ulp32_pos)
  have "f32_rat x - x = (of_int (round_even (x / ulp32 x)) - x / ulp32 x) * ulp32 x"
    using False u by (simp add: f32_rat_def left_diff_distrib)
  then have "\<bar>f32_rat x - x\<bar> = \<bar>of_int (round_even (x / ulp32 x)) - x / ulp32 x\<bar> * ulp32 x"
    using u by (simp add: abs_mult)
  also have "\<dots> \<le> 1 / 2 * ulp32 x"
    by (rule mult_right_mono [OF round_even_error]) (use u in simp)
  finally have e: "\<bar>f32_rat x - x\<bar> \<le> 1 / 2 * ulp32 x" .
  have "ulp32 x \<le> \<bar>x\<bar> + 1"
  proof (cases "2 powi (-126) \<le> \<bar>x\<bar>")
    case True
    from ulp32_le [OF this] show ?thesis by simp
  next
    case F: False
    have "rat_exp \<bar>x\<bar> - 23 \<le> 0"
    proof (rule ccontr)
      assume "\<not> rat_exp \<bar>x\<bar> - 23 \<le> 0"
      then have "(2::rat) powi (-126) \<le> 2 powi rat_exp \<bar>x\<bar>" by (intro powi_mono2) simp
      also have "\<dots> \<le> \<bar>x\<bar>" by (rule rat_exp_bounds) (use False in simp)
      finally show False using F by simp
    qed
    then have "ulp32 x \<le> 2 powi 0" unfolding ulp32_def by (intro powi_mono2) simp
    then show ?thesis by simp
  qed
  with e show ?thesis by linarith
qed (simp add: f32_rat_def)

lemma f32_small_total:
  assumes "\<bar>x\<bar> \<le> 1000"
  shows "\<exists>y. f32 x = Fin y \<and> \<bar>y\<bar> \<le> 2 * \<bar>x\<bar> + 1"
proof -
  have "\<bar>f32_rat x\<bar> \<le> 2001" using f32_rat_bound [of x] assms by linarith
  then show ?thesis using f32_small [of x] f32_rat_bound [of x] by force
qed

lemma lroundf_total:
  assumes "\<bar>y\<bar> \<le> 1000"
  shows "\<exists>r. lroundf (Fin y) = Some r"
proof -
  have "-1001 \<le> lround y \<and> lround y \<le> 1001"
  proof (cases "0 \<le> y")
    case True
    then have "0 \<le> \<lfloor>y + 1 / 2\<rfloor>" "\<lfloor>y + 1 / 2\<rfloor> \<le> 1001"
      using assms by (simp_all add: le_floor_iff floor_le_iff)
    then show ?thesis unfolding lround_def if_P [OF True] by linarith
  next
    case False
    then have "0 \<le> \<lfloor>- y + 1 / 2\<rfloor>" "\<lfloor>- y + 1 / 2\<rfloor> \<le> 1001"
      using assms by (simp_all add: le_floor_iff floor_le_iff)
    then show ?thesis unfolding lround_def if_not_P [OF False] by linarith
  qed
  then show ?thesis by (simp add: i32_def)
qed

lemma f32_nonneg:
  assumes "0 \<le> x"
  shows "f32 x = PInf \<or> (\<exists>y\<ge>0. f32 x = Fin y)"
proof -
  have "0 \<le> x / ulp32 x" using assms ulp32_pos [of x] by simp
  then have "0 \<le> round_even (x / ulp32 x)" by (simp add: round_even_def Let_def)
  then have "0 \<le> f32_rat x" using ulp32_pos [of x] by (simp add: f32_rat_def)
  then show ?thesis by (auto simp: f32_def Let_def)
qed

lemma capped_fraction:
  assumes "0 \<le> n" "0 < D"
  shows "\<exists>q. 0 \<le> q \<and> q \<le> 1 \<and>
    (if f_less (Fin 1) (f_div_const (f32 (of_int n)) D) then Fin 1 else f_div_const (f32 (of_int n)) D) = Fin q"
  using f32_nonneg [of "of_int n"]
proof
  assume "f32 (of_int n) = PInf"
  then show ?thesis using assms by (simp add: inf_of_def)
next
  assume "\<exists>y\<ge>0. f32 (of_int n) = Fin y"
  then obtain y where y: "0 \<le> y" "f32 (of_int n) = Fin y" by blast
  have "0 \<le> y / D" using y assms by simp
  from f32_nonneg [OF this] show ?thesis using y by (auto simp: not_less)
qed (use assms in simp)

lemma stick_total: "\<exists>r. mkStickYToChannelByte a = Some r"
proof (cases "-40 \<le> a \<and> a \<le> 40")
  case True
  then show ?thesis
    by (simp add: mkStickYToChannelByte_def c_div_def mkh_stick_axis_magnitude_def mkh_stick_deadzone_percent_def)
next
  case False
  let ?n = "(if a < 0 then - a else a) - 40"
  let ?f = "f_div_const (f32 (of_int ?n)) (of_int 472)"
  have "0 \<le> ?n" using False by auto
  from capped_fraction [OF this, of "of_int 472"] obtain q where q: "0 \<le> q" "q \<le> 1"
    "(if f_less (Fin 1) ?f then Fin 1 else ?f) = Fin q"
    by auto
  define g :: rat where "g = (if a < 0 then 1 else -1)"
  define S :: rat where "S = (if a < 0 then 127 else 128)"
  have "\<bar>g * q\<bar> \<le> 1" using q by (simp add: g_def)
  with f32_small_total [of "g * q"] obtain y where y: "f32 (g * q) = Fin y" "\<bar>y\<bar> \<le> 3" by force
  have "\<bar>y * S\<bar> \<le> 3 * 128" unfolding abs_mult by (rule mult_mono) (use y in \<open>simp_all add: S_def\<close>)
  with f32_small_total [of "y * S"] obtain z where z: "f32 (y * S) = Fin z" "\<bar>z\<bar> \<le> 1000" by force
  obtain r where r: "lroundf (Fin z) = Some r" using lroundf_total [OF z(2)] by blast
  have f: "lroundf (f_mul (f_mul (if a < 0 then Fin 1 else Fin (-1)) (Fin q)) (if a < 0 then Fin 127 else Fin 128)) = Some r"
    using y(1) z(1) r by (cases "a < 0") (simp_all add: g_def S_def del: lroundf.simps)
  have c: "c_div (mkh_stick_axis_magnitude * mkh_stick_deadzone_percent) 100 = 40" "mkh_stick_axis_magnitude - 40 = 472"
    by (simp_all add: c_div_def mkh_stick_axis_magnitude_def mkh_stick_deadzone_percent_def)
  show ?thesis
    unfolding mkStickYToChannelByte_def Let_def c q(3) f if_not_P [OF False] by simp
qed

lemma trigger_total: "\<exists>r. mkTriggerToChannelByte a = Some r"
proof (cases "a \<le> 81")
  case True
  then show ?thesis by (simp add: mkTriggerToChannelByte_def c_div_def mkh_stick_deadzone_percent_def)
next
  case False
  then have "0 \<le> a - 81" by simp
  from capped_fraction [OF this, of 942] obtain q where q: "0 \<le> q" "q \<le> 1"
    "(if f_less (Fin 1) (f_div_const (f32 (of_int (a - 81))) 942) then Fin 1
      else f_div_const (f32 (of_int (a - 81))) 942) = Fin q" by auto
  have "\<bar>q * 127\<bar> \<le> 127" using q by simp
  with f32_small_total [of "q * 127"] obtain z where z: "f32 (q * 127) = Fin z" "\<bar>z\<bar> \<le> 1000" by force
  obtain r where r: "lroundf (Fin z) = Some r" using lroundf_total [OF z(2)] by blast
  have f: "lroundf (f_mul (Fin q) (Fin 127)) = Some r" using z(1) r by (simp del: lroundf.simps)
  have "c_div (1023 * mkh_stick_deadzone_percent) 100 = 81" by (simp add: c_div_def mkh_stick_deadzone_percent_def)
  then show ?thesis using False q(3) f unfolding mkTriggerToChannelByte_def Let_def by auto
qed

end
