(* ===== verification/Drive_Machines.thy ===== *)
theory Drive_Machines
  imports Drive_Laws
begin

text \<open>
  Properties of the per-binding state machines and of the sweep: limits of a binding, latch and
  pulse over input sequences, the exclusivity of the heading lock, the summation, idle input
  and the disconnect failsafe.
\<close>

section \<open>Limits of a binding\<close>

lemma uint_to_u8: "0 \<le> x \<Longrightarrow> x \<le> 255 \<Longrightarrow> uint (to_u8 x) = x"
  by (simp add: uint_word_of_int take_bit_eq_mod)

lemma clamp_byte_range: "0 \<le> clamp_byte x \<and> clamp_byte x \<le> 255"
  by (auto simp: clamp_byte_def Let_def)

lemma c_div_100_bound:
  assumes "\<bar>x\<bar> \<le> 128 * m" "0 \<le> m"
  shows "100 * \<bar>c_div x 100\<bar> \<le> 128 * m"
proof -
  have "\<bar>c_div x 100\<bar> = \<bar>x\<bar> div 100" by (auto simp: c_div_def abs_mult sgn_if)
  then show ?thesis using assms by simp
qed

text \<open>A binding never drives its channel harder than its \<open>max\<close> allows: except in heading-lock mode,
  the distance from neutral is at most \<open>max\<close> percent of full scale, inverted or not.\<close>

theorem binding_respects_max:
  assumes "b_mode b \<noteq> MKH_MODE_THL" "b_max_percent b \<le> 100"
  shows "100 * \<bar>uint (mkApplyBindingConfig r b) - 0x80\<bar> \<le> 128 * int (b_max_percent b)"
proof -
  define v where "v = (if b_invert b then clamp_byte (0x100 - uint r) else uint r)"
  have v: "0 \<le> v" "v \<le> 255"
    using clamp_byte_range [of "0x100 - uint r"] uint_ge_0 [of r] uint_bounded [of r] by (auto simp: v_def)
  let ?d = "c_div ((v - 0x80) * int (b_max_percent b)) 100"
  have "\<bar>v - 0x80\<bar> * int (b_max_percent b) \<le> 128 * int (b_max_percent b)"
    using v by (intro mult_right_mono) auto
  then have d: "100 * \<bar>?d\<bar> \<le> 128 * int (b_max_percent b)"
    by (intro c_div_100_bound) (simp_all add: abs_mult)
  have eq: "mkApplyBindingConfig r b = to_u8 (clamp_byte (0x80 + ?d))"
    using assms(1) by (simp add: mkApplyBindingConfig_def v_def Let_def)
  have "\<bar>clamp_byte (0x80 + ?d) - 0x80\<bar> \<le> \<bar>?d\<bar>" by (auto simp: clamp_byte_def Let_def)
  then show ?thesis using d by (simp add: eq uint_to_u8 clamp_byte_range)
qed

definition sample_binding :: "mkh_input_source \<Rightarrow> nat \<Rightarrow> mkh_input_mode \<Rightarrow> mkh_binding" where
  "sample_binding input mx mode = \<lparr>b_input = input, b_invert = False, b_max_percent = mx, b_mode = mode\<rparr>"

theorem binding_respects_max_witness:
  "100 * \<bar>uint (mkApplyBindingConfig 0xFF (sample_binding MKH_INPUT_LSNS 10 MKH_MODE_PROPORTIONAL)) - 0x80\<bar> \<le> 128 * 10"
  using binding_respects_max [where b = "sample_binding MKH_INPUT_LSNS 10 MKH_MODE_PROPORTIONAL" and r = "0xFF"]
  by (simp add: sample_binding_def)

text \<open>A stick binding with \<open>mode=thl\<close>, which the parser accepts and which is meant to have no effect on
  an axis, escapes its limit: the line \<open>HUB1_PORT_A = LSNS max=10 mode=thl\<close> drives the channel to 0xFF.\<close>

theorem axis_thl_mode_ignores_max:
  "\<exists>b. bindings (port_at (mkh_config_parse_line ''HUB1_PORT_A = LSNS max=10 mode=thl'' config_init) 0 0) = [b] \<and>
       b_max_percent b = 10 \<and>
       (\<forall>ctl t s v. port_step (ctl\<lparr>axisY := -512\<rparr>) t [b] ([s\<lparr>thlEngaged := False\<rparr>], v) =
          Some (0xFF, [s\<lparr>thlEngaged := False\<rparr>], v))"
proof -
  let ?b = "\<lparr>b_input = MKH_INPUT_LSNS, b_invert = False, b_max_percent = 10, b_mode = MKH_MODE_THL\<rparr>"
  have p: "bindings (port_at (mkh_config_parse_line ''HUB1_PORT_A = LSNS max=10 mode=thl'' config_init) 0 0) = [?b]"
    by code_simp
  have st: "mkStickYToChannelByte (-512) = Some 0xFF"
  proof -
    have f: "stick_spec (-512) = 255" using floor_halves by (simp add: stick_spec_def lround_def)
    have "mkStickYToChannelByte (-512) = Some (to_u8 (stick_spec (-512)))" by (rule stick_byte_eq) simp_all
    with f show ?thesis by simp
  qed
  have "port_step (ctl\<lparr>axisY := -512\<rparr>) t [?b] ([s\<lparr>thlEngaged := False\<rparr>], v) =
          Some (0xFF, [s\<lparr>thlEngaged := False\<rparr>], v)" for ctl t s v
    by (simp add: port_step_def binding_step_def st engaged_index_def pass2_def pass3_def mkApplyBindingConfig_def)
  then show ?thesis by (intro exI [of _ ?b]) (use p in auto)
qed

section \<open>Latch\<close>

fun rising :: "bool \<Rightarrow> bool list \<Rightarrow> nat" where
  "rising prev [] = 0"
| "rising prev (p # ps) = (if p \<and> \<not> prev then 1 else 0) + rising p ps"

definition latch_run :: "bool list \<Rightarrow> drive_slot \<Rightarrow> drive_slot" where
  "latch_run ps s = fold (\<lambda>p s. snd (latch_step p s)) ps s"

text \<open>A latched binding toggles once per press, however long the button is held: after any sequence of
  readings the latch differs from its start exactly if the number of press edges is odd, and the
  byte sent is full on or neutral accordingly.\<close>

theorem latch_counts_presses:
  "latchState (latch_run ps s) = (latchState s \<noteq> odd (rising (latchPrevPressed s) ps)) \<and>
   fst (latch_step p s) = level_byte (latchState (snd (latch_step p s)))"
proof
  show "latchState (latch_run ps s) = (latchState s \<noteq> odd (rising (latchPrevPressed s) ps))"
  proof (induction ps arbitrary: s)
    case (Cons p ps)
    have "latch_run (p # ps) s = latch_run ps (snd (latch_step p s))" by (simp add: latch_run_def)
    then show ?case using Cons.IH [of "snd (latch_step p s)"] by (auto simp: latch_step_def Let_def)
  qed (simp add: latch_run_def)
qed (simp add: latch_step_def Let_def)

section \<open>Pulse\<close>

text \<open>A sequence of (frame, pressed) readings, the bytes produced and the final state.\<close>

fun pulse_run :: "(u32 \<times> bool) list \<Rightarrow> drive_slot \<Rightarrow> u8 list \<times> drive_slot" where
  "pulse_run [] s = ([], s)"
| "pulse_run ((fr, p) # xs) s =
     (let (r, s') = pulse_step fr p s; (rs, s'') = pulse_run xs s' in (r # rs, s''))"

definition full_frames :: "(u32 \<times> bool) list \<Rightarrow> u8 list \<Rightarrow> u32 set" where
  "full_frames xs rs = {fr. \<exists>i < length rs. rs ! i = 0xFF \<and> fst (xs ! i) = fr}"

text \<open>Credit: starts still owed to presses already counted.\<close>

definition pulse_ok :: "u32 \<Rightarrow> drive_slot \<Rightarrow> bool" where
  "pulse_ok lf s \<longleftrightarrow> (pulseActive s \<longrightarrow> pulseStartFrame s = lf \<and> \<not> pulseArmed s)"

lemma level_full [simp]: "level_byte b = 0xFF \<longleftrightarrow> b"
  by (simp add: level_byte_def)

lemma pulse_step_cases:
  assumes "pulse_ok lf s" "lf \<le> fr" "fr < 0xFFFFFFFF" "pulse_step fr p s = (r, s')"
  shows "pulse_ok fr s'" "pulsePrevPressed s' = p"
    "r = 0xFF \<longleftrightarrow> pulseActive s'"
    "pulseActive s' \<Longrightarrow> pulseActive s \<and> fr = lf \<or> pulseArmed s"
    "pulseArmed s' \<Longrightarrow> \<not> pulseActive s' \<and> (pulseArmed s \<or> p \<and> \<not> pulsePrevPressed s)"
proof -
  have next_frame: "x + 1 \<le> fr \<longleftrightarrow> x < fr" if "x \<le> fr" for x :: u32
  proof -
    have b: "unat x \<le> unat fr" "unat fr < 2 ^ 32 - 1" using that assms(3) by (simp_all add: word_le_nat_alt word_less_nat_alt)
    then have "unat (x + 1) = unat x + 1" using unat_add_lem [of x 1] by simp
    with b show ?thesis by (simp add: word_le_nat_alt word_less_nat_alt Suc_le_eq)
  qed
  have rs: "r = fst (pulse_step fr p s)" "s' = snd (pulse_step fr p s)" using assms(4) by simp_all
  show "pulse_ok fr s'" "pulsePrevPressed s' = p" "r = 0xFF \<longleftrightarrow> pulseActive s'"
    "pulseActive s' \<Longrightarrow> pulseActive s \<and> fr = lf \<or> pulseArmed s"
    "pulseArmed s' \<Longrightarrow> \<not> pulseActive s' \<and> (pulseArmed s \<or> p \<and> \<not> pulsePrevPressed s)"
    using assms(1,2) next_frame [of fr] next_frame [of lf] unfolding rs
    by (auto simp: pulse_step_def pulse_ok_def Let_def mkh_pulse_frames_def split: if_splits)
qed


fun frames_ok :: "u32 \<Rightarrow> (u32 \<times> bool) list \<Rightarrow> bool" where
  "frames_ok lf [] = True"
| "frames_ok lf ((fr, p) # xs) = (lf \<le> fr \<and> fr < 0xFFFFFFFF \<and> frames_ok fr xs)"

lemma full_frames_Cons:
  "full_frames ((fr, p) # xs) (r # rs) = (if r = 0xFF then {fr} else {}) \<union> full_frames xs rs"
  by (auto simp: full_frames_def less_Suc_eq_0_disj)

lemma full_frames_Nil [simp]: "full_frames xs [] = {}"
  by (simp add: full_frames_def)

lemma finite_full_frames: "finite (full_frames xs rs)"
proof -
  have "full_frames xs rs \<subseteq> (\<lambda>i. fst (xs ! i)) ` {..<length rs}" by (auto simp: full_frames_def)
  then show ?thesis by (rule finite_subset) simp
qed

lemma pulse_credit:
  "pulse_ok lf s \<Longrightarrow> frames_ok lf xs \<Longrightarrow> pulse_run xs s = (rs, t) \<Longrightarrow>
   card (full_frames xs rs - (if pulseActive s then {lf} else {})) \<le>
     rising (pulsePrevPressed s) (map snd xs) + (if pulseArmed s then 1 else 0)"
proof (induction xs arbitrary: lf s rs t)
  case (Cons x xs)
  obtain fr p where x: "x = (fr, p)" by fastforce
  obtain r s' where st: "pulse_step fr p s = (r, s')" by fastforce
  obtain rs' t' where rn: "pulse_run xs s' = (rs', t')" by fastforce
  have rs: "rs = r # rs'" using Cons.prems(3) by (simp add: x st rn)
  have fr: "lf \<le> fr" "fr < 0xFFFFFFFF" "frames_ok fr xs" using Cons.prems(2) by (simp_all add: x)
  note c = pulse_step_cases [OF Cons.prems(1) fr(1,2) st]
  note IH = Cons.IH [OF c(1) fr(3) rn, unfolded c(2)]
  let ?F = "full_frames xs rs'"
  have fin: "finite ?F" by (rule finite_full_frames)
  show ?case
  proof (cases "pulseActive s'")
    case True
    have narm: "\<not> pulseArmed s'" using c(1) True by (simp add: pulse_ok_def)
    have F: "full_frames (x # xs) rs = insert fr ?F" using c(3) True by (simp add: x rs full_frames_Cons)
    have IH': "card (?F - {fr}) \<le> rising p (map snd xs)" using IH True narm by simp
    show ?thesis
    proof (cases "pulseArmed s")
      case armed: True
      have "card (full_frames (x # xs) rs - (if pulseActive s then {lf} else {})) \<le> card (insert fr (?F - {fr}))"
        using fin F by (intro card_mono) auto
      also have "card (insert fr (?F - {fr})) = Suc (card (?F - {fr}))" using fin by (intro card_insert_disjoint) auto
      finally show ?thesis using IH' armed by (simp add: x)
    next
      case False
      then have "pulseActive s" "fr = lf" using c(4) True by auto
      then have "full_frames (x # xs) rs - (if pulseActive s then {lf} else {}) = ?F - {fr}" using F by auto
      then show ?thesis using IH' by (simp add: x)
    qed
  next
    case False
    have F: "full_frames (x # xs) rs = ?F" using c(3) False by (simp add: x rs full_frames_Cons)
    have "card (full_frames (x # xs) rs - (if pulseActive s then {lf} else {})) \<le> card ?F"
      unfolding F using fin by (intro card_mono) auto
    also have "\<dots> \<le> rising p (map snd xs) + (if pulseArmed s' then 1 else 0)" using IH False by simp
    also have "\<dots> \<le> rising (pulsePrevPressed s) (map snd (x # xs)) + (if pulseArmed s then 1 else 0)"
      using c(5) by (auto simp: x)
    finally show ?thesis .
  qed
qed simp

text \<open>A pulse never repeats or stretches: over any run of the sweep whose frame numbers do not run
  backwards, the number of frames in which a pulse binding is at full level is at most the number
  of press edges, whatever the button does in between.\<close>

theorem pulse_frames_bounded_by_presses:
  assumes "frames_ok 0 xs" "pulse_run xs clear_slot = (rs, t)"
  shows "card (full_frames xs rs) \<le> rising False (map snd xs)"
  using pulse_credit [OF _ assms] by (simp add: clear_slot_def pulse_ok_def)

theorem pulse_frames_bounded_by_presses_witness:
  "\<exists>rs t. pulse_run [(5, True), (6, True), (6, False), (7, True), (8, True)] clear_slot = (rs, t) \<and>
     card (full_frames [(5, True), (6, True), (6, False), (7, True), (8, True)] rs) \<le> 2"
proof -
  obtain rs t where r: "pulse_run [(5, True), (6, True), (6, False), (7, True), (8, True)] clear_slot = (rs, t)"
    by fastforce
  have "card (full_frames [(5, True), (6, True), (6, False), (7, True), (8, True)] rs) \<le>
      rising False (map snd [(5 :: u32, True), (6, True), (6, False), (7, True), (8, True)])"
    by (rule pulse_frames_bounded_by_presses [OF _ r]) simp
  then show ?thesis using r by auto
qed

text \<open>The pulse clock is not safe at the wrap of \<open>millis()\<close>: frame numbers wrap at 42949672, not at
  \<open>2 ^ 32\<close>, so a pulse started in the last frame before the wrap stays at full level for every
  frame of the next 49 days, with the button released.\<close>

theorem pulse_stuck_after_wrap:
  "let s = snd (pulse_run [(0xFFFFFFFF div mkh_frame_interval_ms - 1, True), (0xFFFFFFFF div mkh_frame_interval_ms, False)] clear_slot)
   in \<forall>millis. pulse_step (millis div mkh_frame_interval_ms) False s = (0xFF, s)"
proof -
  have lt: "m div 100 < 42949673" for m :: u32
  proof -
    have "unat m < 2 ^ 32" using unsigned_less [of m, where 'a = nat] by simp
    then show ?thesis by (simp add: word_less_nat_alt unat_div)
  qed
  show ?thesis
    using lt by (auto simp: Let_def pulse_step_def clear_slot_def mkh_pulse_frames_def mkh_frame_interval_ms_def
        level_byte_def not_le)
qed

section \<open>One port\<close>

lemma apply_neutral: "mkApplyBindingConfig 0x80 b = 0x80"
  by (simp add: mkApplyBindingConfig_def clamp_byte_def c_div_def)

lemma pass1_bytes: "pass1 ctl t bs ss v = Some (rs, ss', v') \<Longrightarrow> length bs \<le> length ss \<Longrightarrow> length rs = length bs"
proof (induction ctl t bs ss v arbitrary: rs ss' v' rule: pass1.induct)
  case (1 ctl t b bs s ss v)
  from "1.prems"(1) obtain r s1 v1 rs1 ss1 where
    h: "binding_step ctl t b (s, v) = Some (r, s1, v1)" "pass1 ctl t bs ss v1 = Some (rs1, ss1, v')" "rs = r # rs1"
    by (auto simp: bind_eq_Some_conv)
  from "1.IH" [OF h(1) refl refl h(2)] "1.prems"(2) h(3) show ?case by simp
qed auto

lemma map2_index: "length xs = length ys \<Longrightarrow> map2 f xs ys = map (\<lambda>k. f (xs ! k) (ys ! k)) [0..<length xs]"
  by (rule nth_equalityI) simp_all

lemma pass3_one:
  assumes "length rs = length bs" "i < length bs" "\<And>k. k < length bs \<Longrightarrow> k \<noteq> i \<Longrightarrow> rs ! k = 0x80"
  shows "pass3 bs rs = mkApplyBindingConfig (rs ! i) (bs ! i)"
proof -
  let ?d = "uint (mkApplyBindingConfig (rs ! i) (bs ! i)) - 0x80"
  have "map2 (\<lambda>b r. uint (mkApplyBindingConfig r b) - 0x80) bs rs = map (\<lambda>k. if k = i then ?d else 0) [0..<length bs]"
    unfolding map2_index [OF assms(1) [symmetric]] using assms(3) by (auto simp: apply_neutral)
  then have "sum_list (map2 (\<lambda>b r. uint (mkApplyBindingConfig r b) - 0x80) bs rs) = ?d"
    using assms(2) by (simp add: interv_sum_list_conv_sum_set_nat)
  moreover have "0 \<le> uint (mkApplyBindingConfig (rs ! i) (bs ! i))" "uint (mkApplyBindingConfig (rs ! i) (bs ! i)) \<le> 255"
    using uint_lt2p [of "mkApplyBindingConfig (rs ! i) (bs ! i)"] by simp_all
  ultimately show ?thesis by (simp add: pass3_def)
qed

text \<open>The channel byte of a port is exactly the sum of its bindings' deflections, saturated at full
  forward and full reverse: no wrap-around through the opposite direction.\<close>

theorem port_byte_saturates:
  "uint (pass3 bs rs) =
     0x80 + max (-128) (min 127 (sum_list (map2 (\<lambda>b r. uint (mkApplyBindingConfig r b) - 0x80) bs rs)))"
proof -
  let ?s = "sum_list (map2 (\<lambda>b r. uint (mkApplyBindingConfig r b) - 0x80) bs rs)"
  have "pass3 bs rs = to_u8 (0x80 + max (-128) (min 127 ?s))"
    by (simp add: pass3_def Let_def max_def min_def)
  moreover have "0 \<le> 0x80 + max (-128) (min 127 ?s)" "0x80 + max (-128) (min 127 ?s) \<le> 255" by auto
  ultimately show ?thesis by (simp only: uint_to_u8)
qed

lemma pass3_without:
  assumes "length rs = length bs" "i < length bs"
  shows "uint (pass3 bs (rs[i := 0x80])) = 0x80 + max (-128) (min 127
    (\<Sum>k\<leftarrow>[0..<length bs]. if k = i then 0 else uint (mkApplyBindingConfig (rs ! k) (bs ! k)) - 0x80))"
proof -
  have l: "length bs = length (rs[i := 0x80])" using assms(1) by simp
  have "map2 (\<lambda>b r. uint (mkApplyBindingConfig r b) - 0x80) bs (rs[i := 0x80]) =
      map (\<lambda>k. if k = i then 0 else uint (mkApplyBindingConfig (rs ! k) (bs ! k)) - 0x80) [0..<length bs]"
    unfolding map2_index [OF l] using assms by (auto simp: apply_neutral nth_list_update)
  then show ?thesis by (simp only: port_byte_saturates)
qed

text \<open>C26: A heading lock that is engaged after the first pass over its port has the port for itself, or
  is given up, in one tick. As long as no other binding is deflected beyond the cancel threshold,
  the channel byte is the lock's own byte with its binding's attributes, whatever the other
  bindings read, and the state is what the first pass left. Otherwise the lock is disengaged, its
  status is off, and the channel byte is the saturated sum of the other bindings alone.\<close>

theorem thl_lock_is_exclusive:
  assumes "pass1 ctl t bs ss v = Some (rs, ss1, v1)" "length bs \<le> length ss" "engaged_index bs ss1 = Some i"
  shows "if \<exists>k<length bs. k \<noteq> i \<and> f_less (s_cancelThresholdPct v1) (deflection_pct (rs ! k))
    then \<exists>byte. port_step ctl t bs (ss, v) = Some (byte, ss1[i := (ss1 ! i)\<lparr>thlEngaged := False\<rparr>],
           mkh_thl_set_status MKH_THL_STATE_OFF (Fin 0) (Fin 0) v1) \<and>
         uint byte = 0x80 + max (-128) (min 127
           (\<Sum>k\<leftarrow>[0..<length bs]. if k = i then 0 else uint (mkApplyBindingConfig (rs ! k) (bs ! k)) - 0x80))
    else port_step ctl t bs (ss, v) = Some (mkApplyBindingConfig (rs ! i) (bs ! i), ss1, v1)"
proof -
  have l: "length rs = length bs" by (rule pass1_bytes [OF assms(1,2)])
  have i: "i < length bs" using assms(3) by (auto simp: engaged_index_def find_Some_iff)
  let ?c = "\<exists>k<length bs. k \<noteq> i \<and> f_less (s_cancelThresholdPct v1) (deflection_pct (rs ! k))"
  have c: "cancelling_index (s_cancelThresholdPct v1) i rs = None \<longleftrightarrow> \<not> ?c"
    using l by (auto simp: cancelling_index_def find_None_iff)
  show ?thesis
  proof (cases "cancelling_index (s_cancelThresholdPct v1) i rs")
    case None
    have "pass3 bs (map (\<lambda>k. if k = i then rs ! k else 0x80) [0..<length rs]) = mkApplyBindingConfig (rs ! i) (bs ! i)"
      using pass3_one [of "map (\<lambda>k. if k = i then rs ! k else 0x80) [0..<length rs]" bs i] l i by simp
    then have "port_step ctl t bs (ss, v) = Some (mkApplyBindingConfig (rs ! i) (bs ! i), ss1, v1)"
      by (simp add: port_step_def assms(1) pass2_def assms(3) None)
    moreover have "\<not> ?c" using None c by blast
    ultimately show ?thesis by (simp only: if_False)
  next
    case (Some j)
    then have "port_step ctl t bs (ss, v) = Some (pass3 bs (rs[i := 0x80]), ss1[i := (ss1 ! i)\<lparr>thlEngaged := False\<rparr>],
        mkh_thl_set_status MKH_THL_STATE_OFF (Fin 0) (Fin 0) v1)"
      by (simp add: port_step_def assms(1) pass2_def assms(3))
    moreover have "?c" using Some c by simp
    ultimately show ?thesis using pass3_without [OF l i] by (simp only: if_True) blast
  qed
qed

text \<open>A manual deflection beyond the threshold cancels the lock in the same tick: the lock's own
  contribution becomes neutral, it is disengaged, and every other binding passes unchanged.\<close>

theorem thl_manual_override:
  assumes "engaged_index bs ss = Some i" "length bs = length rs" "length ss = length bs"
    and "k < length rs" "k \<noteq> i" "f_less (s_cancelThresholdPct v) (deflection_pct (rs ! k))"
  shows "fst (pass2 bs (rs, ss, v)) = rs[i := 0x80] \<and> \<not> thlEngaged (fst (snd (pass2 bs (rs, ss, v))) ! i)"
proof -
  have i: "i < length rs" using assms(1,2) by (auto simp: engaged_index_def find_Some_iff)
  have "cancelling_index (s_cancelThresholdPct v) i rs \<noteq> None"
    using assms(4-6) by (auto simp: cancelling_index_def find_None_iff)
  then show ?thesis using assms(1-3) i by (auto simp: pass2_def)
qed

section \<open>Idle input and failsafe\<close>

lemma sum_list_zero: "(\<And>x. x \<in> set xs \<Longrightarrow> f x = (0::int)) \<Longrightarrow> sum_list (map f xs) = 0"
  by (induction xs) auto

lemma pass3_neutral:
  assumes "set rs \<subseteq> {0x80}"
  shows "pass3 bs rs = 0x80"
proof -
  have "sum_list (map2 (\<lambda>b r. uint (mkApplyBindingConfig r b) - 0x80) bs rs) = 0"
  proof (rule sum_list_zero)
    fix x assume "x \<in> set (zip bs rs)"
    moreover obtain b r where br: "x = (b, r)" by fastforce
    ultimately have "r \<in> set rs" by (simp add: set_zip_rightD)
    with br have "x = (b, 0x80)" using assms by auto
    then show "(case x of (b, r) \<Rightarrow> uint (mkApplyBindingConfig r b) - 0x80) = 0" by (simp add: apply_neutral)
  qed
  then show ?thesis by (simp add: pass3_def)
qed

definition idle :: "controller \<Rightarrow> bool" where
  "idle ctl \<longleftrightarrow> (\<forall>tok. case mkh_config_input_class tok of
     MKH_INPUT_CLASS_AXIS \<Rightarrow> \<bar>readTokenRaw ctl tok\<bar> \<le> 40
   | MKH_INPUT_CLASS_TRIGGER \<Rightarrow> readTokenRaw ctl tok \<le> 81
   | MKH_INPUT_CLASS_DIGITAL \<Rightarrow> readTokenRaw ctl tok = 0)"

lemma idle_pressed: "idle ctl \<Longrightarrow> mkh_config_input_class tok \<noteq> MKH_INPUT_CLASS_AXIS \<Longrightarrow> \<not> pressed_level ctl tok"
  unfolding idle_def pressed_level_def
  by (drule spec [of _ tok]) (auto simp: c_div_def split: mkh_input_class.splits)

lemma idle_axis: "idle ctl \<Longrightarrow> mkh_config_input_class tok = MKH_INPUT_CLASS_AXIS \<Longrightarrow>
  mkStickYToChannelByte (readTokenRaw ctl tok) = Some 0x80"
  unfolding idle_def
  by (drule spec [of _ tok])
     (simp add: mkStickYToChannelByte_def c_div_def mkh_stick_axis_magnitude_def mkh_stick_deadzone_percent_def abs_le_iff)

lemma idle_trigger: "idle ctl \<Longrightarrow> mkh_config_input_class tok = MKH_INPUT_CLASS_TRIGGER \<Longrightarrow>
  mkTriggerToChannelByte (readTokenRaw ctl tok) = Some 0x80"
  unfolding idle_def
  by (drule spec [of _ tok]) (simp add: mkTriggerToChannelByte_def c_div_def mkh_stick_deadzone_percent_def)


text \<open>Runtime state with nothing latched, pulsing or locked.\<close>

definition quiet_slot :: "drive_slot \<Rightarrow> bool" where
  "quiet_slot s \<longleftrightarrow> \<not> latchState s \<and> \<not> pulseArmed s \<and> \<not> pulseActive s \<and> \<not> thlEngaged s"

lemma binding_idle:
  assumes "idle ctl" "quiet_slot s"
  shows "\<exists>s' v'. binding_step ctl t b (s, v) = Some (0x80, s', v') \<and> quiet_slot s'"
proof (cases "mkh_config_input_class (b_input b) = MKH_INPUT_CLASS_AXIS")
  case True
  then show ?thesis using idle_axis [OF assms(1) True] assms(2) by (simp add: binding_step_def)
next
  case False
  then show ?thesis
    using idle_pressed [OF assms(1) False] idle_trigger [OF assms(1), of "b_input b"] assms(2)
    by (auto simp: binding_step_def latch_step_def pulse_step_def thl_step_def thl_press_def level_byte_def
        quiet_slot_def Let_def)
qed

lemma pass1_idle:
  assumes "idle ctl"
  shows "length bs \<le> length ss \<Longrightarrow> list_all quiet_slot ss \<Longrightarrow>
    \<exists>ss' v'. pass1 ctl t bs ss v = Some (replicate (length bs) 0x80, ss', v') \<and> list_all quiet_slot ss' \<and>
             length ss' = length ss"
proof (induction bs arbitrary: ss v)
  case Nil
  then show ?case by (cases ss) auto
next
  case (Cons b bs)
  then obtain s ss1 where ss: "ss = s # ss1" by (cases ss) auto
  obtain s' v' where 1: "binding_step ctl t b (s, v) = Some (0x80, s', v')" "quiet_slot s'"
    using binding_idle [OF assms, of s t b v] Cons.prems(2) ss by auto
  obtain ss2 v2 where "pass1 ctl t bs ss1 v' = Some (replicate (length bs) 0x80, ss2, v2)"
    "list_all quiet_slot ss2" "length ss2 = length ss1"
    using Cons.IH [of ss1 v'] Cons.prems ss by auto
  with 1 show ?case by (simp add: ss)
qed

lemma port_idle:
  assumes "idle ctl" "length bs \<le> length ss" "list_all quiet_slot ss"
  shows "\<exists>ss' v'. port_step ctl t bs (ss, v) = Some (0x80, ss', v') \<and> list_all quiet_slot ss' \<and> length ss' = length ss"
proof -
  obtain ss' v' where p: "pass1 ctl t bs ss v = Some (replicate (length bs) 0x80, ss', v')"
    "list_all quiet_slot ss'" "length ss' = length ss"
    using pass1_idle [OF assms] by blast
  have "\<not> thlEngaged (ss' ! i)" if "i < length bs" for i
    using p(2,3) assms(2) that by (auto simp: list_all_length quiet_slot_def)
  then have "engaged_index bs ss' = None" by (auto simp: engaged_index_def find_None_iff)
  then show ?thesis
    using p by (simp add: port_step_def pass2_def pass3_neutral set_replicate_conv_if)
qed

definition table_quiet :: "slot_table \<Rightarrow> bool" where
  "table_quiet tb \<longleftrightarrow> length tb = 3 \<and> (\<forall>d<3. length (tb ! d) = 6 \<and>
     (\<forall>p<6. length (tb ! d ! p) = 8 \<and> list_all quiet_slot (tb ! d ! p)))"

definition cfg_bounded :: "config_state \<Rightarrow> bool" where
  "cfg_bounded cfg \<longleftrightarrow> (\<forall>d<3. \<forall>p<6. length (bindings (port_at cfg d p)) \<le> 8)"

definition assigned :: "config_state \<Rightarrow> nat \<times> nat \<Rightarrow> bool" where
  "assigned cfg = (\<lambda>(d, p). bindings (port_at cfg d p) \<noteq> [])"

lemma get_port: "d < 3 \<Longrightarrow> p < 6 \<Longrightarrow> mkh_config_get cfg (int d) (int p) = Some (port_at cfg d p)"
  by (simp add: mkh_config_get_def mk1_defs)

lemma sweep_idle:
  assumes "idle ctl" "cfg_bounded cfg"
  shows "set ps \<subseteq> {0..<3} \<times> {0..<6} \<Longrightarrow> table_quiet tb \<Longrightarrow>
    \<exists>tb' v'. sweep_ports ctl t cfg ps (tb, v) =
       Some (map (\<lambda>(d, p). (d, p, 0x80)) (filter (assigned cfg) ps), tb', v') \<and> table_quiet tb'"
proof (induction ps arbitrary: tb v)
  case Nil
  then show ?case by simp
next
  case (Cons x ps)
  obtain d p where x: "x = (d, p)" by fastforce
  have dp: "d < 3" "p < 6" "set ps \<subseteq> {0..<3} \<times> {0..<6}" using Cons.prems(1) by (auto simp: x)
  show ?case
  proof (cases "assigned cfg x")
    case False
    then show ?thesis using Cons.IH [OF dp(3) Cons.prems(2)] get_port [OF dp(1,2)] by (auto simp: x assigned_def)
  next
    case True
    have "length (bindings (port_at cfg d p)) \<le> length (tb ! d ! p)" "list_all quiet_slot (tb ! d ! p)"
      using dp assms(2) Cons.prems(2) by (auto simp: cfg_bounded_def table_quiet_def)
    from port_idle [OF assms(1) this] obtain ss' v1 where
      p: "port_step ctl t (bindings (port_at cfg d p)) (tb ! d ! p, v) = Some (0x80, ss', v1)"
        "list_all quiet_slot ss'" "length ss' = length (tb ! d ! p)" by blast
    have "table_quiet (tb[d := (tb ! d)[p := ss']])"
      using Cons.prems(2) p(2,3) dp by (auto simp: table_quiet_def nth_list_update)
    from Cons.IH [OF dp(3) this, of v1] p(1) True get_port [OF dp(1,2)] show ?thesis
      by (auto simp: x assigned_def)
  qed
qed

lemma all_ports_set: "set all_ports \<subseteq> {0..<3} \<times> {0..<6}"
  by (auto simp: all_ports_def)

lemma clear_device:
  assumes "length tb = 3" "dev < 3" "length (tb ! dev) = 6"
  shows "clearLatchStateForDevice dev tb = tb[dev := replicate 6 (replicate 8 clear_slot)]"
proof -
  obtain a b c d e f where row: "tb ! dev = [a, b, c, d, e, f]" by (rule list6_exhaust [OF assms(3)])
  have l: "[0..<6] = [0, 1, 2, 3, 4, 5::nat]" by (simp add: upt_rec)
  show ?thesis
    using assms(1,2)
    by (simp add: clearLatchStateForDevice_def l clearLatchStateForPort_def row mkh_max_bindings_per_port_def)
       (simp add: numeral_eq_Suc)
qed

lemma clear_all:
  assumes "length tb = 3" "\<forall>d<3. length (tb ! d) = 6"
  shows "clearAllLatchState tb = replicate 3 (replicate 6 (replicate 8 clear_slot))"
proof -
  obtain a b c where tb: "tb = [a, b, c]" using assms(1) by (auto simp: length_Suc_conv numeral_3_eq_3)
  have row: "length a = 6" "length b = 6" "length c = 6"
    using assms(2) [rule_format, of 0] assms(2) [rule_format, of 1] assms(2) [rule_format, of 2] by (simp_all add: tb)
  have l: "[0..<3] = [0, 1, 2::nat]" by (simp add: upt_rec)
  show ?thesis
    by (simp add: clearAllLatchState_def l clear_device row tb) (simp add: numeral_3_eq_3)
qed

lemma quiet_clear: "table_quiet (replicate 3 (replicate 6 (replicate 8 clear_slot)))"
  by (simp add: table_quiet_def list_all_length quiet_slot_def clear_slot_def)

text \<open>The disconnect failsafe is complete: every assigned channel is commanded neutral, and all latches,
  pulses and locks are cleared, so that with the controller at rest every later sweep keeps every
  assigned channel neutral.\<close>

theorem disconnect_failsafe_complete:
  assumes "length tb = 3" "\<forall>d<3. length (tb ! d) = 6" "cfg_bounded cfg" "idle ctl"
    and "disconnect_failsafe cfg tb = (calls, tb')"
  shows "calls = map (\<lambda>(d, p). (d, p, 0x80)) (filter (assigned cfg) all_ports) \<and>
         (\<exists>tb'' v'. processMappedInputs ctl millis ready heading cfg (tb', v) = Some (calls, tb'', v') \<and> table_quiet tb'')"
proof -
  have f: "filter (\<lambda>(d, p). case mkh_config_get cfg (int d) (int p) of None \<Rightarrow> False | Some c \<Rightarrow> bindings c \<noteq> []) all_ports =
      filter (assigned cfg) all_ports"
    using all_ports_set by (intro filter_cong) (auto simp: get_port assigned_def)
  have c: "calls = map (\<lambda>(d, p). (d, p, 0x80)) (filter (assigned cfg) all_ports)"
    and t: "tb' = replicate 3 (replicate 6 (replicate 8 clear_slot))"
    using assms(5) clear_all [OF assms(1,2)] f by (simp_all add: disconnect_failsafe_def)
  have q: "table_quiet tb'" unfolding t by (rule quiet_clear)
  from sweep_idle [OF assms(4,3) all_ports_set q] show ?thesis
    unfolding processMappedInputs_def c by blast
qed

definition idle_ctl :: controller where
  "idle_ctl = \<lparr>axisX = 3, axisY = -7, axisRX = 0, axisRY = 0, brake = 0, throttle = 10, btn_a = False, btn_b = False,
     btn_x = False, btn_y = False, l1 = False, r1 = False, thumbL = False, thumbR = False, dpad = 0\<rparr>"

lemma idle_idle_ctl: "idle idle_ctl"
  unfolding idle_def
proof
  fix tok
  show "case mkh_config_input_class tok of MKH_INPUT_CLASS_AXIS \<Rightarrow> \<bar>readTokenRaw idle_ctl tok\<bar> \<le> 40
     | MKH_INPUT_CLASS_TRIGGER \<Rightarrow> readTokenRaw idle_ctl tok \<le> 81
     | MKH_INPUT_CLASS_DIGITAL \<Rightarrow> readTokenRaw idle_ctl tok = 0"
    by (cases tok) (simp_all add: idle_ctl_def bool_int_def)
qed

theorem disconnect_failsafe_complete_witness:
  "\<exists>calls tb'. disconnect_failsafe config_init (replicate 3 (replicate 6 [])) = (calls, tb') \<and>
     calls = map (\<lambda>(d, p). (d, p, 0x80)) (filter (assigned config_init) all_ports)"
proof -
  obtain calls tb' where d: "disconnect_failsafe config_init (replicate 3 (replicate 6 [])) = (calls, tb')" by fastforce
  have "cfg_bounded config_init" by (simp add: cfg_bounded_def config_init_def port_at_def)
  from disconnect_failsafe_complete [OF _ _ this idle_idle_ctl d] d show ?thesis by simp
qed

definition thl_slot :: drive_slot where
  "thl_slot = clear_slot\<lparr>thlEngaged := True\<rparr>"

text \<open>A lock on button A beside a momentary button B, ten degrees off its reference.\<close>

definition lock_and_button :: "mkh_binding list" where
  "lock_and_button = [sample_binding MKH_INPUT_BTN_A 100 MKH_MODE_THL, sample_binding MKH_INPUT_BTN_B 100 MKH_MODE_MOMENTARY]"

definition hand :: "bool \<Rightarrow> controller" where
  "hand pressed = \<lparr>axisX = 0, axisY = 0, axisRX = 0, axisRY = 0, brake = 0, throttle = 0, btn_a = False, btn_b = pressed,
     btn_x = False, btn_y = False, l1 = False, r1 = False, thumbL = False, thumbR = False, dpad = 0\<rparr>"

definition turned :: tick where
  "turned = \<lparr>currentFrame = 0, imu_ready = True, imu_heading = Fin 10\<rparr>"

definition gain5 :: thl_vars where
  "gain5 = thl_boot\<lparr>s_kpPctPerDeg := Fin 5\<rparr>"

lemma half_way: "f32 (-1 / 2) = Fin (-1 / 2)" "f32 (-127 / 2) = Fin (-127 / 2)"
proof -
  have "float_value (-1 / 2)" unfolding float_value_def by (intro exI [of _ "-1"]) (simp add: power_int_def)
  then show "f32 (-1 / 2) = Fin (-1 / 2)" by (rule float_value_f32) simp
  have "float_value (-127 / 2)" unfolding float_value_def by (intro exI [of _ "-127"] exI [of _ "-1"]) (simp add: power_int_def)
  then show "f32 (-127 / 2) = Fin (-127 / 2)" by (rule float_value_f32) simp
qed

lemma turned_lock: "thl_step turned False (thl_slot, gain5) = Some (0x40, thl_slot, mkh_thl_set_status MKH_THL_STATE_ENGAGED (Fin (-10)) (Fin (-50)) gain5)"
proof -
  have i: "f32 (-10) = Fin (-10)" "f32 (-50) = Fin (-50)" using f32_int [of "-10"] f32_int [of "-50"] by simp_all
  have "\<lfloor>1 / 36 :: rat\<rfloor> = 0" by (rule floor_unique) simp_all
  then have t: "c_trunc (- (1 / 36)) = 0" by (simp add: c_trunc_def)
  have r: "lround (- (127 / 2)) = -64" by (simp add: lround_def)
  have p: "thl_press turned False (thl_slot, gain5) = (thl_slot, gain5)"
    by (simp add: thl_press_def thl_slot_def clear_slot_def)
  show ?thesis
    using half_way i t r
    by (simp add: thl_step_def p) (simp add: thl_slot_def clear_slot_def turned_def gain5_def thl_boot_def mkh_thl_compute_output_pct_def
      f_sub_def wrap180_def Let_def i32_def clamp_byte_def)
qed

lemma lock_pass:
  "pass1 (hand b) turned lock_and_button [thl_slot, clear_slot] gain5 =
     Some ([0x40, level_byte b], [thl_slot, clear_slot], mkh_thl_set_status MKH_THL_STATE_ENGAGED (Fin (-10)) (Fin (-50)) gain5)"
  using turned_lock
  by (simp add: lock_and_button_def sample_binding_def binding_step_def pressed_level_def hand_def bool_int_def)

lemma lock_found: "engaged_index lock_and_button [thl_slot, clear_slot] = Some 0"
  by (simp add: engaged_index_def upt_rec sample_binding_def thl_slot_def lock_and_button_def)

lemma button_cancels: "f_less (Fin 10) (deflection_pct 0xFF)" "\<not> f_less (Fin 10) (deflection_pct 0x80)"
  using f32_int [of 127] f32_int [of 1] f32_int [of 100] f32_int [of 0] by (simp_all add: deflection_pct_def)

theorem thl_lock_is_exclusive_witness:
  "map_option fst (port_step (hand False) turned lock_and_button ([thl_slot, clear_slot], gain5)) = Some 0x40 \<and>
   map_option fst (port_step (hand True) turned lock_and_button ([thl_slot, clear_slot], gain5)) = Some 0xFF"
proof
  have two: "(\<exists>k<length lock_and_button. k \<noteq> 0 \<and> P k) \<longleftrightarrow> P 1" for P by (auto simp: lock_and_button_def less_Suc_eq)
  have out: "mkApplyBindingConfig 0x40 (lock_and_button ! 0) = 0x40" "mkApplyBindingConfig 0xFF (lock_and_button ! 1) = 0xFF"
    by code_simp+
  have len: "length lock_and_button \<le> length [thl_slot, clear_slot]" by (simp add: lock_and_button_def)
  note E = thl_lock_is_exclusive [OF lock_pass len lock_found, unfolded two]
  have th: "s_cancelThresholdPct (mkh_thl_set_status st e o' gain5) = Fin 10" for st e o'
    by (simp add: mkh_thl_set_status_def gain5_def thl_boot_def)
  show "map_option fst (port_step (hand False) turned lock_and_button ([thl_slot, clear_slot], gain5)) = Some 0x40"
    using E [of False] button_cancels(2) out(1) by (simp add: th level_byte_def)
  have lb: "level_byte True = 0xFF" by (simp add: level_byte_def)
  obtain byte where b: "map_option fst (port_step (hand True) turned lock_and_button ([thl_slot, clear_slot], gain5)) = Some byte"
    "uint byte = 0x80 + max (-128) (min 127
       (\<Sum>k\<leftarrow>[0..<length lock_and_button]. if k = 0 then 0
          else uint (mkApplyBindingConfig ([0x40, 0xFF] ! k) (lock_and_button ! k)) - 0x80))"
    using E [of True, unfolded lb] button_cancels(1) by (auto simp: th)
  have up: "[0..<length lock_and_button] = [0, 1]" by code_simp
  have "uint byte = 0xFF" using b(2) out(2) unfolding up by simp
  then have "byte = 0xFF" by (metis word_of_int_uint of_int_numeral)
  with b(1) show "map_option fst (port_step (hand True) turned lock_and_button ([thl_slot, clear_slot], gain5)) = Some 0xFF"
    by simp
qed

theorem thl_manual_override_witness:
  "fst (pass2 [sample_binding MKH_INPUT_BTN_A 100 MKH_MODE_THL, sample_binding MKH_INPUT_BTN_B 100 MKH_MODE_MOMENTARY]
     ([0x90, 0xFF], [thl_slot, clear_slot], thl_boot)) = [0x80, 0xFF]"
proof -
  have e: "engaged_index [sample_binding MKH_INPUT_BTN_A 100 MKH_MODE_THL, sample_binding MKH_INPUT_BTN_B 100 MKH_MODE_MOMENTARY]
      [thl_slot, clear_slot] = Some 0"
    by (simp add: engaged_index_def upt_rec sample_binding_def thl_slot_def)
  have i: "f32 127 = Fin 127" "f32 1 = Fin 1" "f32 100 = Fin 100"
    using f32_int [of 127] f32_int [of 1] f32_int [of 100] by simp_all
  have "f_less (s_cancelThresholdPct thl_boot) (deflection_pct 0xFF)"
    by (simp add: deflection_pct_def thl_boot_def i)
  from thl_manual_override [OF e, of "[0x90, 0xFF]" 1 thl_boot] this show ?thesis by simp
qed

end
