(* ===== verification/Storage.thy ===== *)
theory Storage
  imports Config_Laws
begin

text \<open>
  \<^verbatim>\<open>main/mkh_storage.cpp\<close>: the configuration file in flash. The file system (LittleFS) is not part
  of the repository: its calls are the fields of a record that every function takes as a
  parameter, and the laws the storage code relies on are the predicates \<open>store_laws\<close>,
  \<open>store_works\<close> and \<open>store_healthy\<close> over the contents of the store. A write reports how many
  characters it put down, which may be fewer than asked for. Saving also yields the states of the store
  between two calls, at any of which the power can fail. Log lines are left out.
\<close>

section \<open>The file system\<close>

record 'fs littlefs =
  fs_begin :: "'fs \<Rightarrow> bool \<times> 'fs"
  fs_exists :: "string \<Rightarrow> 'fs \<Rightarrow> bool"
  fs_open_read :: "string \<Rightarrow> 'fs \<Rightarrow> string option"
  fs_open_write :: "string \<Rightarrow> 'fs \<Rightarrow> 'fs option"
  fs_write :: "string \<Rightarrow> string \<Rightarrow> 'fs \<Rightarrow> nat \<times> 'fs"
  fs_remove :: "string \<Rightarrow> 'fs \<Rightarrow> bool \<times> 'fs"
  fs_rename :: "string \<Rightarrow> string \<Rightarrow> 'fs \<Rightarrow> bool \<times> 'fs"

text \<open>
  \<open>view\<close> reads the store as a map from paths to contents. Opening for writing truncates, a write
  appends as many characters as it reports, and a call that reports failure changes nothing.
\<close>

definition store_laws :: "'fs littlefs \<Rightarrow> ('fs \<Rightarrow> string \<Rightarrow> string option) \<Rightarrow> bool" where
  "store_laws L view \<longleftrightarrow>
     (\<forall>fs. view (snd (fs_begin L fs)) = view fs) \<and>
     (\<forall>p fs. fs_exists L p fs \<longleftrightarrow> view fs p \<noteq> None) \<and>
     (\<forall>p fs. fs_open_read L p fs = view fs p) \<and>
     (\<forall>p fs fs'. fs_open_write L p fs = Some fs' \<longrightarrow> view fs' = (view fs)(p \<mapsto> [])) \<and>
     (\<forall>p d c fs. view fs p = Some c \<longrightarrow>
        fst (fs_write L p d fs) \<le> length d \<and>
        view (snd (fs_write L p d fs)) = (view fs)(p \<mapsto> c @ take (fst (fs_write L p d fs)) d)) \<and>
     (\<forall>p fs. view (snd (fs_remove L p fs)) = (if fst (fs_remove L p fs) then (view fs)(p := None) else view fs)) \<and>
     (\<forall>p q fs. view (snd (fs_rename L p q fs)) =
        (if fst (fs_rename L p q fs) then (view fs)(q := view fs p, p := None) else view fs))"

text \<open>A store whose calls never report failure, and one that moreover has room for every write.\<close>

definition store_works :: "'fs littlefs \<Rightarrow> bool" where
  "store_works L \<longleftrightarrow> (\<forall>fs. fst (fs_begin L fs)) \<and> (\<forall>p fs. fs_open_write L p fs \<noteq> None) \<and>
     (\<forall>p fs. fst (fs_remove L p fs)) \<and> (\<forall>p q fs. fst (fs_rename L p q fs))"

definition store_healthy :: "'fs littlefs \<Rightarrow> bool" where
  "store_healthy L \<longleftrightarrow> store_works L \<and> (\<forall>p d fs. fst (fs_write L p d fs) = length d)"

section \<open>Constants\<close>

definition config_file_path :: string where "config_file_path = ''/mk1config.txt''"

definition config_tmp_path :: string where "config_tmp_path = ''/mk1config.txt.tmp''"

definition config_schema_version_current :: int where "config_schema_version_current = 3"

definition config_schema_header :: string where
  "config_schema_header = ''# MK1CONFIG_SCHEMA_VERSION=3'' @ [CHR 0x0A]"

definition default_config_text :: string where
  "default_config_text =
     ''# MK1CONFIG_SCHEMA_VERSION=3'' @ [CHR 0x0A] @
     ''HUB1_PORT_A = LSNS invert=no max=100 curve=linear'' @ [CHR 0x0A] @
     ''HUB2_PORT_A = RSNS invert=no max=100 curve=linear'' @ [CHR 0x0A]"

section \<open>Operations\<close>

text \<open>\<open>sscanf(first_line, "# MK1CONFIG_SCHEMA_VERSION=%d", &version) == 1\<close>; the blank of the format
  matches any white space.\<close>

definition parseSchemaVersion :: "string \<Rightarrow> int" where
  "parseSchemaVersion first_line =
     (case Option.bind (match_prefix ''#'' first_line) (\<lambda>s1.
           Option.bind (match_prefix ''MK1CONFIG_SCHEMA_VERSION='' (dropWhile is_space s1)) strtol10) of
        Some (version, _) \<Rightarrow> version
      | None \<Rightarrow> 0)"

text \<open>The store after each call of a save, and the value returned. The results of the two writes are not
  looked at.\<close>

definition save_trace :: "'fs littlefs \<Rightarrow> config_state \<Rightarrow> 'fs \<Rightarrow> bool \<times> 'fs list" where
  "save_trace L cfg fs =
     (case mkh_config_serialize 2048 cfg of
        None \<Rightarrow> (False, [])
      | Some buf \<Rightarrow>
          (case fs_open_write L config_tmp_path fs of
             None \<Rightarrow> (False, [])
           | Some fs1 \<Rightarrow>
               (let fs2 = snd (fs_write L config_tmp_path config_schema_header fs1);
                    fs3 = snd (fs_write L config_tmp_path buf fs2);
                    (gone, fs4) = (if fs_exists L config_file_path fs3 then fs_remove L config_file_path fs3
                                   else (True, fs3))
                in if \<not> gone then (False, [fs1, fs2, fs3, fs4])
                   else (let (renamed, fs5) = fs_rename L config_tmp_path config_file_path fs4
                         in (renamed, [fs1, fs2, fs3, fs4, fs5])))))"

definition mkh_storage_save_config :: "'fs littlefs \<Rightarrow> config_state \<times> 'fs \<Rightarrow> bool \<times> config_state \<times> 'fs" where
  "mkh_storage_save_config L = (\<lambda>(cfg, fs).
     (let (ok, states) = save_trace L cfg fs
      in (ok, if ok then mkh_config_note_source True cfg else cfg, last (fs # states))))"

definition no_config_file :: "config_state \<Rightarrow> config_state" where
  "no_config_file cfg = mkh_config_apply_compiled_in_fallbacks (mkh_config_note_source False cfg)"

definition readAndParseConfigFile :: "'fs littlefs \<Rightarrow> config_state \<times> 'fs \<Rightarrow> config_state \<times> 'fs" where
  "readAndParseConfigFile L = (\<lambda>(cfg, fs).
     (case fs_open_read L config_file_path fs of
        None \<Rightarrow> (no_config_file cfg, fs)
      | Some content \<Rightarrow>
          (let ls = read_lines content;
               fileSchemaVersion = (case ls of [] \<Rightarrow> -1 | l # _ \<Rightarrow> parseSchemaVersion l);
               cfg1 = mkh_config_apply_compiled_in_fallbacks (mkh_config_note_source True (parse_lines ls cfg))
           in if 0 \<le> fileSchemaVersion \<and> fileSchemaVersion < config_schema_version_current
              then snd (mkh_storage_save_config L (cfg1, fs))
              else (cfg1, fs))))"

definition mkh_storage_boot_read :: "'fs littlefs \<Rightarrow> config_state \<times> 'fs \<Rightarrow> config_state \<times> 'fs" where
  "mkh_storage_boot_read L = (\<lambda>(cfg, fs).
     (let cfg0 = mkh_config_set_defaults cfg;
          (mounted, fs0) = fs_begin L fs
      in if \<not> mounted then (no_config_file cfg0, fs0)
         else if fs_exists L config_file_path fs0 then readAndParseConfigFile L (cfg0, fs0)
         else (case fs_open_write L config_file_path fs0 of
                 None \<Rightarrow> (no_config_file cfg0, fs0)
               | Some fs1 \<Rightarrow>
                   readAndParseConfigFile L (cfg0, snd (fs_write L config_file_path default_config_text fs1)))))"

definition mkh_storage_reload_config :: "'fs littlefs \<Rightarrow> config_state \<times> 'fs \<Rightarrow> config_state \<times> 'fs" where
  "mkh_storage_reload_config L = (\<lambda>(cfg, fs). readAndParseConfigFile L (mkh_config_set_defaults cfg, fs))"

end
