(* ===== verification/Storage_Laws.thy ===== *)
theory Storage_Laws
  imports Storage
begin

text \<open>
  What saving and booting guarantee, and where they do not: a save that reported success is what
  the next boot restores (except for the two ports with a compiled-in fallback), a boot writes
  an outdated file back once, the file is never half written, and there is one point of a save
  at which a power failure loses the configuration.
\<close>

section \<open>The saved text\<close>

definition saved_text :: "config_state \<Rightarrow> string" where
  "saved_text cfg = config_schema_header @ concat (serialized_lines cfg)"

lemma schema_line: "config_schema_header = ''# MK1CONFIG_SCHEMA_VERSION=3'' @ [CHR 0x0A]"
  by (simp add: config_schema_header_def)

lemma schema_line_ignored: "mkh_config_parse_line ''# MK1CONFIG_SCHEMA_VERSION=3'' st = st"
  by (simp add: mkh_config_parse_line_def Let_def strncpy_term_def rstrip_def skip_spaces_def is_blank_def)

lemma schema_line_version: "parseSchemaVersion ''# MK1CONFIG_SCHEMA_VERSION=3'' = 3"
  by code_simp

lemma read_saved_text:
  assumes "config_ok cfg"
  shows "read_lines (saved_text cfg) =
    ''# MK1CONFIG_SCHEMA_VERSION=3'' # map (\<lambda>(d, p, b). binding_text d p b) (table_entries cfg)"
proof -
  let ?ls = "''# MK1CONFIG_SCHEMA_VERSION=3'' # map (\<lambda>(d, p, b). binding_text d p b) (table_entries cfg)"
  have "saved_text cfg = concat (map (\<lambda>l. l @ [CHR 0x0A]) ?ls)"
    by (simp add: saved_text_def schema_line serialized_texts)
  moreover have "\<forall>l \<in> set ?ls. CHR 0x0A \<notin> set l"
    using table_entries_ok [OF assms] newline_not_in_text by fastforce
  ultimately show ?thesis by (simp only: read_lines_concat)
qed

lemma parse_saved_text:
  assumes "config_ok cfg" "d < 3" "p < 6"
  shows "bindings (port_at (parse_lines (read_lines (saved_text cfg)) (mkh_config_set_defaults st)) d p) =
      map normal_binding (bindings (port_at cfg d p))"
    "s_skipped_lines (parse_lines (read_lines (saved_text cfg)) (mkh_config_set_defaults st)) = 0"
proof -
  let ?es = "table_entries cfg" and ?st = "mkh_config_set_defaults st"
  have es: "\<forall>(d, p, b) \<in> set ?es. d < 3 \<and> p < 6 \<and> binding_ok b" using table_entries_ok [OF assms(1)] by blast
  have room: "\<forall>d < 3. \<forall>p < 6. length (bindings (port_at ?st d p)) + length (entries_at d p ?es)
      \<le> mkh_max_bindings_per_port"
    using config_ok_port [OF assms(1)] by (simp add: port_at_defaults entries_at_table port_ok_def)
  have "parse_lines (read_lines (saved_text cfg)) ?st =
      parse_lines (map (\<lambda>(d, p, b). binding_text d p b) ?es) ?st"
    by (simp add: read_saved_text [OF assms(1)] parse_lines_def schema_line_ignored)
  then show
    "bindings (port_at (parse_lines (read_lines (saved_text cfg)) ?st) d p) = map normal_binding (bindings (port_at cfg d p))"
    "s_skipped_lines (parse_lines (read_lines (saved_text cfg)) ?st) = 0"
    using parse_saved_entries [OF es config_ok_defaults room] assms(2,3)
    by (simp_all add: port_at_defaults entries_at_table, simp add: mkh_config_set_defaults_def)
qed

section \<open>Fallbacks\<close>

definition with_fallback :: "nat \<Rightarrow> nat \<Rightarrow> mkh_binding list \<Rightarrow> mkh_binding list" where
  "with_fallback d p bs =
     (if d = 0 \<and> p = 0 \<and> bs = [] then [fallback_binding MKH_INPUT_LSNS]
      else if d = 1 \<and> p = 0 \<and> bs = [] then [fallback_binding MKH_INPUT_RSNS] else bs)"

lemma note_source_simps [simp]:
  "port_at (mkh_config_note_source b cfg) = port_at cfg" "config_ok (mkh_config_note_source b cfg) = config_ok cfg"
  "s_skipped_lines (mkh_config_note_source b cfg) = s_skipped_lines cfg"
  "s_source_is_file (mkh_config_note_source b cfg) = b"
  by (simp_all add: mkh_config_note_source_def port_at_def [abs_def] config_ok_def)

lemma apply_fallback_ok:
  assumes "config_ok cfg" "d < 3" "i \<noteq> MKH_INPUT_NONE"
  shows "config_ok (apply_fallback d i cfg)"
  using assms
  by (auto simp: apply_fallback_def port_ok_def binding_ok_def fallback_binding_def mkh_max_bindings_per_port_def
      intro!: config_ok_set_port)

lemma apply_fallback_port:
  assumes "config_ok cfg" "d < 3"
  shows "bindings (port_at (apply_fallback d i cfg) d' p') =
    (if d' = d \<and> p' = 0 \<and> bindings (port_at cfg d' p') = [] then [fallback_binding i] else bindings (port_at cfg d' p'))"
  using assms by (auto simp: apply_fallback_def port_at_set_port)

lemma apply_fallback_rest [simp]:
  "s_skipped_lines (apply_fallback d i cfg) = s_skipped_lines cfg"
  "s_source_is_file (apply_fallback d i cfg) = s_source_is_file cfg"
  by (simp_all add: apply_fallback_def set_port_def)

lemma fallbacks:
  assumes "config_ok cfg"
  shows "config_ok (mkh_config_apply_compiled_in_fallbacks cfg)"
    "bindings (port_at (mkh_config_apply_compiled_in_fallbacks cfg) d p) = with_fallback d p (bindings (port_at cfg d p))"
    "s_skipped_lines (mkh_config_apply_compiled_in_fallbacks cfg) = s_skipped_lines cfg"
    "s_source_is_file (mkh_config_apply_compiled_in_fallbacks cfg) = s_source_is_file cfg"
  using assms
  by (auto simp: mkh_config_apply_compiled_in_fallbacks_def apply_fallback_ok apply_fallback_port with_fallback_def)

section \<open>Loading\<close>

lemma store_lawsD:
  assumes "store_laws L view"
  shows "view (snd (fs_begin L fs)) = view fs"
    "fs_exists L p fs \<longleftrightarrow> view fs p \<noteq> None"
    "fs_open_read L p fs = view fs p"
    "fs_open_write L p fs = Some fs' \<Longrightarrow> view fs' = (view fs)(p \<mapsto> [])"
    "view fs p = Some c \<Longrightarrow> fst (fs_write L p d fs) \<le> length d"
    "view fs p = Some c \<Longrightarrow> view (snd (fs_write L p d fs)) = (view fs)(p \<mapsto> c @ take (fst (fs_write L p d fs)) d)"
    "view (snd (fs_remove L p fs)) = (if fst (fs_remove L p fs) then (view fs)(p := None) else view fs)"
    "view (snd (fs_rename L p q fs)) = (if fst (fs_rename L p q fs) then (view fs)(q := view fs p, p := None) else view fs)"
  using assms unfolding store_laws_def by blast+

lemma store_healthyD:
  assumes "store_healthy L"
  shows "store_works L" "fst (fs_begin L fs)" "fs_open_write L p fs \<noteq> None" "fst (fs_write L p d fs) = length d"
    "fst (fs_remove L p fs)" "fst (fs_rename L p q fs)"
  using assms by (simp_all add: store_healthy_def store_works_def)

text \<open>The configuration a boot or a reload resolves from a current file.\<close>

definition restored :: "config_state \<Rightarrow> config_state \<Rightarrow> bool" where
  "restored cfg cfg' \<longleftrightarrow> config_ok cfg' \<and> s_source_is_file cfg' \<and> s_skipped_lines cfg' = 0 \<and>
     (\<forall>d < 3. \<forall>p < 6. bindings (port_at cfg' d p) =
        with_fallback d p (map normal_binding (bindings (port_at cfg d p))))"

lemma read_saved_file:
  assumes "store_laws L view" "config_ok cfg" "view fs config_file_path = Some (saved_text cfg)"
    and "readAndParseConfigFile L (mkh_config_set_defaults st, fs) = (cfg', fs')"
  shows "fs' = fs \<and> restored cfg cfg'"
proof -
  let ?p = "parse_lines (read_lines (saved_text cfg)) (mkh_config_set_defaults st)"
  have v: "(case read_lines (saved_text cfg) of [] \<Rightarrow> -1 | l # _ \<Rightarrow> parseSchemaVersion l) = 3"
    by (simp add: read_saved_text [OF assms(2)] schema_line_version)
  have "cfg' = mkh_config_apply_compiled_in_fallbacks (mkh_config_note_source True ?p)" "fs' = fs"
    using assms(4) by (simp_all add: readAndParseConfigFile_def store_lawsD [OF assms(1)] assms(3) v Let_def
        config_schema_version_current_def)
  then show ?thesis
    using parse_saved_text [OF assms(2)] parse_saved_text(2) [OF assms(2), of 0 0] parse_lines_ok [OF config_ok_defaults]
    by (simp add: restored_def fallbacks)
qed

lemma paths_distinct [simp]: "config_file_path \<noteq> config_tmp_path" "config_tmp_path \<noteq> config_file_path"
  by (simp_all add: config_file_path_def config_tmp_path_def)

lemma boot_saved_file:
  assumes "store_laws L view" "fst (fs_begin L fs)" "config_ok cfg" "view fs config_file_path = Some (saved_text cfg)"
    and "mkh_storage_boot_read L (st, fs) = (cfg', fs')"
  shows "view fs' = view fs \<and> restored cfg cfg'"
proof -
  obtain m fs0 where b: "fs_begin L fs = (m, fs0)" by fastforce
  have m: "m" "view fs0 = view fs" using assms(2) b store_lawsD(1) [OF assms(1), of fs] by simp_all
  have "readAndParseConfigFile L (mkh_config_set_defaults st, fs0) = (cfg', fs')"
    using assms(4,5) b m by (simp add: mkh_storage_boot_read_def store_lawsD(2) [OF assms(1)])
  from read_saved_file [OF assms(1,3) _ this] assms(4) m(2) show ?thesis by simp
qed

section \<open>Saving\<close>

text \<open>What the two writes of a save report, and the text they put into the temporary file.\<close>

definition save_counts :: "'fs littlefs \<Rightarrow> config_state \<Rightarrow> 'fs \<Rightarrow> (nat \<times> nat) option" where
  "save_counts L cfg fs =
     Option.bind (mkh_config_serialize 2048 cfg) (\<lambda>buf.
       map_option (\<lambda>fs1. let (n, fs2) = fs_write L config_tmp_path config_schema_header fs1
                         in (n, fst (fs_write L config_tmp_path buf fs2)))
         (fs_open_write L config_tmp_path fs))"

definition put_down :: "string \<Rightarrow> nat \<times> nat \<Rightarrow> string" where
  "put_down buf = (\<lambda>(n, m). take n config_schema_header @ take m buf)"

lemma put_down_complete:
  assumes "n \<le> length config_schema_header" "m \<le> length buf"
  shows "put_down buf (n, m) = config_schema_header @ buf \<longleftrightarrow> n = length config_schema_header \<and> m = length buf"
proof
  assume "put_down buf (n, m) = config_schema_header @ buf"
  then have "length (put_down buf (n, m)) = length (config_schema_header @ buf)" by simp
  then show "n = length config_schema_header \<and> m = length buf" using assms by (simp add: put_down_def)
qed (simp add: put_down_def)

definition save_point :: "(string \<Rightarrow> string option) \<Rightarrow> (string \<Rightarrow> string option) \<Rightarrow> string \<Rightarrow> bool" where
  "save_point old now new \<longleftrightarrow> now config_file_path = old config_file_path \<or> now config_file_path = Some new \<or>
     now config_file_path = None \<and> now config_tmp_path = Some new"

lemma save_trace_cases:
  assumes L: "store_laws L view" and buf: "mkh_config_serialize 2048 cfg = Some buf"
    and tr: "save_trace L cfg fs = (ok, states)"
  obtains "fs_open_write L config_tmp_path fs = None" "\<not> ok" "states = []" "save_counts L cfg fs = None"
    | n m where "save_counts L cfg fs = Some (n, m)" "n \<le> length config_schema_header" "m \<le> length buf"
      "\<forall>fs' \<in> set states. save_point (view fs) (view fs') (put_down buf (n, m))"
      "ok \<Longrightarrow> states \<noteq> [] \<and> view (last states) config_file_path = Some (put_down buf (n, m))"
      "store_works L \<Longrightarrow> ok"
      "store_works L \<Longrightarrow> view fs config_file_path \<noteq> None \<Longrightarrow> \<exists>fs' \<in> set states. view fs' config_file_path = None"
proof (cases "fs_open_write L config_tmp_path fs")
  case None
  then show ?thesis using tr buf by (intro that(1)) (simp_all add: save_trace_def save_counts_def)
next
  case (Some fs1)
  note D = store_lawsD [OF L]
  define n where "n = fst (fs_write L config_tmp_path config_schema_header fs1)"
  define fs2 where "fs2 = snd (fs_write L config_tmp_path config_schema_header fs1)"
  define m where "m = fst (fs_write L config_tmp_path buf fs2)"
  define fs3 where "fs3 = snd (fs_write L config_tmp_path buf fs2)"
  have counts: "save_counts L cfg fs = Some (n, m)"
    by (simp add: save_counts_def buf Some n_def m_def fs2_def split_def Let_def)
  have v1: "view fs1 = (view fs)(config_tmp_path \<mapsto> [])" using D(4) [OF Some] .
  have n: "n \<le> length config_schema_header" unfolding n_def by (rule D(5) [of fs1 _ "[]"]) (simp add: v1)
  have v2: "view fs2 = (view fs)(config_tmp_path \<mapsto> take n config_schema_header)"
    using D(6) [of fs1 config_tmp_path "[]"] by (simp add: v1 fs2_def n_def)
  have m: "m \<le> length buf" unfolding m_def by (rule D(5) [of fs2 _ "take n config_schema_header"]) (simp add: v2)
  have v3: "view fs3 = (view fs)(config_tmp_path \<mapsto> put_down buf (n, m))"
    using D(6) [of fs2 config_tmp_path "take n config_schema_header"] by (simp add: v2 fs3_def m_def put_down_def)
  define rm where "rm = (if fs_exists L config_file_path fs3 then fs_remove L config_file_path fs3 else (True, fs3))"
  define rn where "rn = fs_rename L config_tmp_path config_file_path (snd rm)"
  have t: "(ok, states) = (if \<not> fst rm then (False, [fs1, fs2, fs3, snd rm]) else (fst rn, [fs1, fs2, fs3, snd rm, snd rn]))"
    using tr unfolding save_trace_def buf Some option.case rn_def rm_def fs3_def fs2_def Let_def split_def
    by (simp split: if_splits)
  have v4: "view (snd rm) = (if fst rm then (view fs3)(config_file_path := None) else view fs3)"
    using D(7) [of config_file_path fs3] D(2) [of config_file_path fs3] by (auto simp: rm_def fun_eq_iff)
  have v5: "view (snd rn) = (if fst rn then (view (snd rm))(config_file_path := view (snd rm) config_tmp_path,
      config_tmp_path := None) else view (snd rm))"
    unfolding rn_def by (rule D(8))
  have h: "store_works L \<Longrightarrow> fst rm \<and> fst rn" by (simp add: store_works_def rm_def rn_def)
  show ?thesis
    by (rule that(2) [OF counts n m])
       (use t v1 v2 v3 v4 v5 h in \<open>cases "fst rm"; cases "fst rn"; simp add: save_point_def\<close>)+
qed

lemma healthy_counts:
  assumes "store_healthy L" "mkh_config_serialize 2048 cfg = Some buf"
  shows "save_counts L cfg fs = Some (length config_schema_header, length buf)"
  using store_healthyD(3) [OF assms(1), of config_tmp_path fs]
  by (auto simp: save_counts_def assms(2) split_def store_healthyD(4) [OF assms(1)])

lemma save_trace_points:
  assumes "store_laws L view" "mkh_config_serialize 2048 cfg = Some buf" "save_trace L cfg fs = (ok, states)" "store_healthy L"
  shows "\<forall>fs' \<in> set states. save_point (view fs) (view fs') (config_schema_header @ buf)" "ok"
    "states \<noteq> [] \<and> view (last states) config_file_path = Some (config_schema_header @ buf)"
    "view fs config_file_path \<noteq> None \<Longrightarrow> \<exists>fs' \<in> set states. view fs' config_file_path = None"
proof -
  have c: "save_counts L cfg fs = Some (length config_schema_header, length buf)" by (rule healthy_counts [OF assms(4,2)])
  have p: "put_down buf (length config_schema_header, length buf) = config_schema_header @ buf" by (simp add: put_down_def)
  note h = store_healthyD(1) [OF assms(4)]
  show "\<forall>fs' \<in> set states. save_point (view fs) (view fs') (config_schema_header @ buf)"
    by (rule save_trace_cases [OF assms(1-3)]) (use c p in simp_all)
  show ok by (rule save_trace_cases [OF assms(1-3)]) (use c h in simp_all)
  then show "states \<noteq> [] \<and> view (last states) config_file_path = Some (config_schema_header @ buf)"
    by (rule_tac save_trace_cases [OF assms(1-3)]) (use c p in simp_all)
  show "view fs config_file_path \<noteq> None \<Longrightarrow> \<exists>fs' \<in> set states. view fs' config_file_path = None"
    by (rule save_trace_cases [OF assms(1-3)]) (use c h in simp_all)
qed

lemma save_config_eq:
  assumes "store_laws L view" "mkh_storage_save_config L (cfg, fs) = (True, cfg', fs')"
  obtains buf n m where "mkh_config_serialize 2048 cfg = Some buf" "save_counts L cfg fs = Some (n, m)"
    "n \<le> length config_schema_header" "m \<le> length buf" "view fs' config_file_path = Some (put_down buf (n, m))"
    "config_schema_header @ buf = saved_text cfg"
proof -
  obtain ok states where tr: "save_trace L cfg fs = (ok, states)" by fastforce
  have e: "ok" "fs' = last (fs # states)"
    using assms(2) tr by (simp_all add: mkh_storage_save_config_def split: if_splits)
  obtain buf where buf: "mkh_config_serialize 2048 cfg = Some buf"
    using tr e(1) by (cases "mkh_config_serialize 2048 cfg") (simp_all add: save_trace_def)
  then have s: "config_schema_header @ buf = saved_text cfg" by (simp add: serialize_eq saved_text_def split: if_splits)
  show ?thesis
    by (rule save_trace_cases [OF assms(1) buf tr]) (use e s buf that in simp_all)
qed

section \<open>Properties\<close>

text \<open>C19: What the next boot makes of a save that reported success, on any store that mounts again. The
  config file holds what the two writes of the save put down. If both wrote everything, the boot
  writes nothing, skips no line and restores the bindings of every port, where the mode of a
  binding on a stick axis comes back as proportional and an empty port A of hub 1 or hub 2 gets its
  compiled-in stick binding. A port with a binding whose stick bindings are all proportional comes
  back exactly.\<close>

theorem save_then_boot:
  assumes "store_laws L view" "config_ok cfg"
    and "mkh_storage_save_config L (cfg, fs) = (True, cfg1, fs1)"
    and "fst (fs_begin L fs1)" "mkh_storage_boot_read L (cfg0, fs1) = (cfg2, fs2)"
    and "d < 3" "p < 6"
  shows "\<exists>buf n m. mkh_config_serialize 2048 cfg = Some buf \<and> save_counts L cfg fs = Some (n, m) \<and>
     view fs1 config_file_path = Some (take n config_schema_header @ take m buf) \<and>
     (n = length config_schema_header \<and> m = length buf \<longrightarrow>
        view fs2 = view fs1 \<and> s_skipped_lines cfg2 = 0 \<and>
        bindings (port_at cfg2 d p) = with_fallback d p (map normal_binding (bindings (port_at cfg d p))) \<and>
        (bindings (port_at cfg d p) \<noteq> [] \<and>
         (\<forall>b\<in>set (bindings (port_at cfg d p)).
            mkh_config_input_class (b_input b) = MKH_INPUT_CLASS_AXIS \<longrightarrow> b_mode b = MKH_MODE_PROPORTIONAL) \<longrightarrow>
         bindings (port_at cfg2 d p) = bindings (port_at cfg d p)))"
proof -
  obtain buf n m where s: "mkh_config_serialize 2048 cfg = Some buf" "save_counts L cfg fs = Some (n, m)"
    "n \<le> length config_schema_header" "m \<le> length buf" "view fs1 config_file_path = Some (put_down buf (n, m))"
    "config_schema_header @ buf = saved_text cfg" by (rule save_config_eq [OF assms(1,3)])
  let ?bs = "bindings (port_at cfg d p)"
  have "view fs2 = view fs1 \<and> s_skipped_lines cfg2 = 0 \<and> bindings (port_at cfg2 d p) = with_fallback d p (map normal_binding ?bs)"
    if "n = length config_schema_header" "m = length buf"
  proof -
    have "view fs1 config_file_path = Some (saved_text cfg)" using s(5,6) that by (simp add: put_down_def)
    from boot_saved_file [OF assms(1,4,2) this assms(5)] assms(6,7) show ?thesis by (simp add: restored_def)
  qed
  moreover have "with_fallback d p (map normal_binding ?bs) = ?bs"
    if "?bs \<noteq> []" "\<forall>b\<in>set ?bs. mkh_config_input_class (b_input b) = MKH_INPUT_CLASS_AXIS \<longrightarrow> b_mode b = MKH_MODE_PROPORTIONAL"
    using that(1) normal_bindings_same [OF that(2)] by (simp add: with_fallback_def)
  moreover have "view fs1 config_file_path = Some (take n config_schema_header @ take m buf)" using s(5) by (simp add: put_down_def)
  ultimately show ?thesis using s(1,2) by (intro exI [of _ buf] exI [of _ n] exI [of _ m]) auto
qed

text \<open>C20: What the config file holds between any two calls of a save: what it held before, or what the two
  writes of this save put into the temporary file, or nothing while the temporary file holds
  that. It is the complete new text exactly if both writes wrote everything, and it never mixes old and
  new. But nobody looks: when opening, removing and renaming succeed, the save reports success
  and replaces the old configuration by that text, however short the writes were.\<close>

theorem save_file_contents:
  assumes "store_laws L view" "mkh_config_serialize 2048 cfg = Some buf" "fs_open_write L config_tmp_path fs \<noteq> None"
  shows "\<exists>n m. save_counts L cfg fs = Some (n, m) \<and> n \<le> length config_schema_header \<and> m \<le> length buf \<and>
     (\<forall>fs' \<in> set (snd (save_trace L cfg fs)).
        view fs' config_file_path = view fs config_file_path \<or>
        view fs' config_file_path = Some (take n config_schema_header @ take m buf) \<or>
        view fs' config_file_path = None \<and> view fs' config_tmp_path = Some (take n config_schema_header @ take m buf)) \<and>
     (take n config_schema_header @ take m buf = config_schema_header @ buf \<longleftrightarrow>
        n = length config_schema_header \<and> m = length buf) \<and>
     (store_works L \<longrightarrow> fst (save_trace L cfg fs) \<and>
        view (last (snd (save_trace L cfg fs))) config_file_path = Some (take n config_schema_header @ take m buf))"
proof -
  obtain ok states where tr: "save_trace L cfg fs = (ok, states)" by fastforce
  show ?thesis
  proof (rule save_trace_cases [OF assms(1,2) tr])
    assume "fs_open_write L config_tmp_path fs = None"
    then show ?thesis using assms(3) by simp
  next
    fix n m
    assume h: "save_counts L cfg fs = Some (n, m)" "n \<le> length config_schema_header" "m \<le> length buf"
      "\<forall>fs' \<in> set states. save_point (view fs) (view fs') (put_down buf (n, m))"
      "ok \<Longrightarrow> states \<noteq> [] \<and> view (last states) config_file_path = Some (put_down buf (n, m))" "store_works L \<Longrightarrow> ok"
    note P = h(4) [unfolded save_point_def put_down_def prod.case] and C = put_down_complete [OF h(2,3), unfolded put_down_def prod.case]
    have W: "store_works L \<longrightarrow> ok \<and> view (last states) config_file_path = Some (take n config_schema_header @ take m buf)"
      using h(5,6) unfolding put_down_def prod.case by blast
    show ?thesis
      unfolding tr fst_conv snd_conv by (intro exI [of _ n] exI [of _ m] conjI h(1-3) P C W)
  qed
qed

text \<open>The compiled-in default text is the saved text of the fallback table.\<close>

definition default_table :: config_state where
  "default_table = mkh_config_apply_compiled_in_fallbacks config_init"

lemma config_ok_init: "config_ok config_init"
  by (auto simp: config_ok_def config_init_def port_ok_def list_all_iff)

lemma default_table_text: "saved_text default_table = default_config_text"
  by code_simp

lemma default_table_port:
  "d < 3 \<Longrightarrow> p < 6 \<Longrightarrow> bindings (port_at default_table d p) = with_fallback d p []"
  by (simp add: default_table_def fallbacks [OF config_ok_init]) (simp add: config_init_def port_at_def)

lemma boot_without_file:
  assumes L: "store_laws L view" "store_healthy L" and none: "view fs config_file_path = None"
    and boot: "mkh_storage_boot_read L (st, fs) = (cfg', fs')"
  shows "restored default_table cfg'"
proof -
  obtain m fs0 where b: "fs_begin L fs = (m, fs0)" by fastforce
  have m: "m" "view fs0 = view fs"
    using store_healthyD(2) [OF L(2), of fs] b store_lawsD(1) [OF L(1), of fs] by simp_all
  obtain fs1 where w: "fs_open_write L config_file_path fs0 = Some fs1"
    using store_healthyD(3) [OF L(2), of config_file_path fs0] by auto
  let ?fs = "snd (fs_write L config_file_path default_config_text fs1)"
  have v: "view ?fs config_file_path = Some (saved_text default_table)"
    using store_lawsD(6) [OF L(1), of fs1 config_file_path "[]"] store_lawsD(4) [OF L(1) w]
    by (simp add: default_table_text store_healthyD(4) [OF L(2)])
  have ok: "config_ok default_table" by (simp add: default_table_def fallbacks [OF config_ok_init])
  have "readAndParseConfigFile L (mkh_config_set_defaults st, ?fs) = (cfg', fs')"
    using boot b m none w by (simp add: mkh_storage_boot_read_def store_lawsD(2) [OF L(1)])
  from read_saved_file [OF L(1) ok v this] show ?thesis by simp
qed

lemma fallback_normal [simp]: "map normal_binding (with_fallback d p []) = with_fallback d p []"
  by (simp add: with_fallback_def normal_binding_def fallback_binding_def)

lemma with_fallback_idem [simp]: "with_fallback d p (with_fallback d p bs) = with_fallback d p bs"
  by (simp add: with_fallback_def)

text \<open>C21: Replacing the file is not atomic: every save over an existing file passes through a state from
  which a boot forgets both the old and the new configuration and comes up with the compiled-in
  defaults, the complete new text left unread in the temporary file.\<close>

theorem save_window_loses_config:
  assumes "store_laws L view" "store_healthy L" "mkh_config_serialize 2048 cfg = Some buf"
    and "view fs config_file_path \<noteq> None"
  shows "\<exists>fs' \<in> set (snd (save_trace L cfg fs)). view fs' config_tmp_path = Some (config_schema_header @ buf) \<and>
     (\<forall>cfg0 d p. d \<in> {0, 1, 2} \<and> p \<in> {0..<6} \<longrightarrow>
        bindings (port_at (fst (mkh_storage_boot_read L (cfg0, fs'))) d p) = with_fallback d p [])"
proof -
  obtain ok states where tr: "save_trace L cfg fs = (ok, states)" by fastforce
  note S = save_trace_points [OF assms(1,3) tr assms(2)]
  obtain fs' where fs': "fs' \<in> set states" "view fs' config_file_path = None" using S(4) assms(4) by blast
  have tmp: "view fs' config_tmp_path = Some (config_schema_header @ buf)"
    using S(1) fs' assms(4) by (auto simp: save_point_def)
  have "bindings (port_at (fst (mkh_storage_boot_read L (cfg0, fs'))) d p) = with_fallback d p []"
    if "d \<in> {0, 1, 2}" "p \<in> {0..<6}" for cfg0 d p
  proof -
    obtain c f where b: "mkh_storage_boot_read L (cfg0, fs') = (c, f)" by fastforce
    have dp: "d < 3" "p < 6" using that by auto
    from boot_without_file [OF assms(1,2) fs'(2) b] dp show ?thesis
      by (simp add: b restored_def default_table_port)
  qed
  then show ?thesis using fs'(1) tmp tr by (intro bexI [of _ fs']) auto
qed

section \<open>Migration\<close>

lemma parse_line_source:
  "mkh_config_parse_line l (st\<lparr>s_source_is_file := b\<rparr>) = (mkh_config_parse_line l st)\<lparr>s_source_is_file := b\<rparr>"
  by (simp add: mkh_config_parse_line_def Let_def skip_line_def add_binding_def set_port_def port_at_def
      split: option.split list.split prod.split)

lemma parse_lines_source:
  "parse_lines ls (st\<lparr>s_source_is_file := b\<rparr>) = (parse_lines ls st)\<lparr>s_source_is_file := b\<rparr>"
  by (induction ls arbitrary: st) (simp_all add: parse_lines_def parse_line_source)

lemma parse_defaults_port:
  "port_at (parse_lines ls (mkh_config_set_defaults st)) = port_at (parse_lines ls (mkh_config_set_defaults st'))"
proof -
  have "mkh_config_set_defaults st = (mkh_config_set_defaults st')\<lparr>s_source_is_file := s_source_is_file st\<rparr>"
    by (simp add: mkh_config_set_defaults_def)
  then show ?thesis by (simp only: parse_lines_source) (simp add: port_at_def [abs_def])
qed

definition loaded :: "string \<Rightarrow> nat \<Rightarrow> nat \<Rightarrow> mkh_binding list" where
  "loaded content d p =
     with_fallback d p (bindings (port_at (parse_lines (read_lines content) (mkh_config_set_defaults config_init)) d p))"

definition stale :: "string \<Rightarrow> bool" where
  "stale content \<longleftrightarrow> (case read_lines content of [] \<Rightarrow> False
     | l # _ \<Rightarrow> 0 \<le> parseSchemaVersion l \<and> parseSchemaVersion l < config_schema_version_current)"

lemma load_file:
  assumes L: "store_laws L view" "store_healthy L" and held: "view fs config_file_path = Some content"
    and run: "readAndParseConfigFile L (mkh_config_set_defaults st, fs) = (cfg', fs')"
  shows "config_ok cfg'" "bindings (port_at cfg' d p) = loaded content d p"
    "\<not> stale content \<Longrightarrow> fs' = fs"
    "stale content \<Longrightarrow> mkh_config_serialize 2048 cfg' \<noteq> None \<Longrightarrow> view fs' config_file_path = Some (saved_text cfg')"
proof -
  define c1 where "c1 = mkh_config_apply_compiled_in_fallbacks
     (mkh_config_note_source True (parse_lines (read_lines content) (mkh_config_set_defaults st)))"
  have ok: "config_ok c1" and b: "bindings (port_at c1 d p) = loaded content d p"
    using parse_lines_ok [OF config_ok_defaults, of "read_lines content" st]
    by (simp_all add: c1_def fallbacks loaded_def parse_defaults_port [of _ st config_init])
  have r: "(cfg', fs') = (if stale content then snd (mkh_storage_save_config L (c1, fs)) else (c1, fs))"
    using run unfolding readAndParseConfigFile_def prod.case store_lawsD(3) [OF L(1)] held option.case Let_def c1_def stale_def
    by (cases "read_lines content") simp_all
  obtain ok' c2 fs2 where sv: "mkh_storage_save_config L (c1, fs) = (ok', c2, fs2)" using prod_cases3 by blast
  have c2: "c2 = c1 \<or> c2 = mkh_config_note_source True c1"
    using sv by (auto simp: mkh_storage_save_config_def split: prod.splits if_splits)
  then have same: "port_at c2 = port_at c1" "config_ok c2" "mkh_config_serialize 2048 c2 = mkh_config_serialize 2048 c1"
    "serialized_lines c2 = serialized_lines c1"
    using ok by (auto simp: mkh_config_serialize_def table_entries_def serialized_lines_def)
  show "config_ok cfg'" "bindings (port_at cfg' d p) = loaded content d p" "\<not> stale content \<Longrightarrow> fs' = fs"
    using r sv ok b same by (auto split: if_splits)
  assume st: "stale content" and ser: "mkh_config_serialize 2048 cfg' \<noteq> None"
  have e: "cfg' = c2" "fs' = fs2" using r sv st by simp_all
  obtain buf where buf: "mkh_config_serialize 2048 c1 = Some buf" using ser e same by auto
  obtain ok'' states where tr: "save_trace L c1 fs = (ok'', states)" by fastforce
  note T = save_trace_points [OF L(1) buf tr L(2)]
  have "fs2 = last states" using sv tr T(3) by (simp add: mkh_storage_save_config_def)
  moreover have "config_schema_header @ buf = saved_text c1"
    using buf by (simp add: serialize_eq saved_text_def split: if_splits)
  ultimately have "view fs2 config_file_path = Some (saved_text c1)" using T(3) by simp
  then show "view fs' config_file_path = Some (saved_text cfg')" using e same by (simp add: saved_text_def)
qed

lemma boot_file:
  assumes L: "store_laws L view" "store_healthy L" and boot: "mkh_storage_boot_read L (st, fs) = (cfg', fs')"
  obtains fs0 where "readAndParseConfigFile L (mkh_config_set_defaults st, fs0) = (cfg', fs')"
    "view fs0 config_file_path = Some (case view fs config_file_path of None \<Rightarrow> default_config_text | Some c \<Rightarrow> c)"
    "view fs config_file_path \<noteq> None \<Longrightarrow> view fs0 = view fs"
proof -
  obtain m f where b: "fs_begin L fs = (m, f)" by fastforce
  have m: "m" "view f = view fs"
    using store_healthyD(2) [OF L(2), of fs] b store_lawsD(1) [OF L(1), of fs] by simp_all
  obtain fs1 where w: "fs_open_write L config_file_path f = Some fs1"
    using store_healthyD(3) [OF L(2), of config_file_path f] by auto
  show ?thesis
  proof (cases "view fs config_file_path")
    case None
    have "view (snd (fs_write L config_file_path default_config_text fs1)) config_file_path = Some default_config_text"
      using store_lawsD(6) [OF L(1), of fs1 config_file_path "[]"] store_lawsD(4) [OF L(1) w]
      by (simp add: store_healthyD(4) [OF L(2)])
    with None show ?thesis
      using boot b m w by (intro that) (simp_all add: mkh_storage_boot_read_def store_lawsD(2) [OF L(1)])
  next
    case (Some c)
    then show ?thesis
      using boot b m by (intro that [of f]) (simp_all add: mkh_storage_boot_read_def store_lawsD(2) [OF L(1)])
  qed
qed

lemma default_text_fresh: "\<not> stale default_config_text"
  by code_simp

lemma saved_text_fresh: "config_ok cfg \<Longrightarrow> \<not> stale (saved_text cfg)"
  by (simp add: stale_def read_saved_text schema_line_version config_schema_version_current_def)

lemma loaded_saved:
  assumes "config_ok cfg" "d < 3" "p < 6"
  shows "loaded (saved_text cfg) d p = with_fallback d p (map normal_binding (bindings (port_at cfg d p)))"
  by (simp add: loaded_def parse_saved_text [OF assms])

text \<open>Migration runs at most once: after any boot whose table fits the save buffer, the next boot writes
  nothing and comes up with the same bindings, up to the mode of stick bindings, which the write-back
  of an outdated file does not keep.\<close>

theorem migration_once:
  assumes L: "store_laws L view" "store_healthy L"
    and first: "mkh_storage_boot_read L (st, fs) = (cfg1, fs1)" "mkh_config_serialize 2048 cfg1 \<noteq> None"
    and second: "mkh_storage_boot_read L (st', fs1) = (cfg2, fs2)" and dp: "d < 3" "p < 6"
  shows "view fs2 = view fs1 \<and> map normal_binding (bindings (port_at cfg2 d p)) = map normal_binding (bindings (port_at cfg1 d p))"
proof -
  obtain fs0 where fs0: "readAndParseConfigFile L (mkh_config_set_defaults st, fs0) = (cfg1, fs1)"
    "view fs0 config_file_path = Some (case view fs config_file_path of None \<Rightarrow> default_config_text | Some c \<Rightarrow> c)"
    using boot_file [OF L first(1)] by blast
  define content where "content = (case view fs config_file_path of None \<Rightarrow> default_config_text | Some c \<Rightarrow> c)"
  note F = load_file [OF L fs0(2) [folded content_def] fs0(1)]
  define now where "now = (if stale content then saved_text cfg1 else content)"
  have held: "view fs1 config_file_path = Some now"
    using F(3,4) first(2) fs0(2) by (auto simp: now_def content_def [symmetric])
  have fresh: "\<not> stale now" using saved_text_fresh [OF F(1)] by (simp add: now_def)
  have nb: "normal_binding (normal_binding b) = normal_binding b" for b by (simp add: normal_binding_def)
  have same: "map normal_binding (loaded now d p) = map normal_binding (bindings (port_at cfg1 d p))"
  proof (cases "stale content")
    case False
    then show ?thesis using F(2) by (simp add: now_def)
  next
    case True
    have idem: "with_fallback d p (map normal_binding (with_fallback d p bs)) = map normal_binding (with_fallback d p bs)" for bs
      by (auto simp: with_fallback_def)
    show ?thesis
      using True loaded_saved [OF F(1) dp] F(2) [of d p]
      by (simp add: now_def loaded_def idem nb comp_def)
  qed
  obtain fs3 where fs3: "readAndParseConfigFile L (mkh_config_set_defaults st', fs3) = (cfg2, fs2)"
    "view fs3 config_file_path = Some now" "view fs3 = view fs1"
    using boot_file [OF L second] held by (metis option.case(2) option.distinct(1))
  note S = load_file [OF L fs3(2) fs3(1)]
  show ?thesis using S(2) [of d p] S(3) [OF fresh] fs3(3) same by simp
qed

section \<open>Witnesses\<close>

definition mem_fs :: "(string \<Rightarrow> string option) littlefs" where
  "mem_fs = \<lparr>fs_begin = (\<lambda>fs. (True, fs)), fs_exists = (\<lambda>p fs. fs p \<noteq> None), fs_open_read = (\<lambda>p fs. fs p),
     fs_open_write = (\<lambda>p fs. Some (fs(p \<mapsto> []))), fs_write = (\<lambda>p d fs. (length d, fs(p := map_option (\<lambda>c. c @ d) (fs p)))),
     fs_remove = (\<lambda>p fs. (True, fs(p := None))), fs_rename = (\<lambda>p q fs. (True, fs(q := fs p, p := None)))\<rparr>"

lemma mem_fs_laws: "store_laws mem_fs (\<lambda>fs. fs)" "store_healthy mem_fs"
  by (auto simp: store_laws_def store_healthy_def store_works_def mem_fs_def)

text \<open>The same store with files of at most 40 characters.\<close>

definition tight_fs :: "(string \<Rightarrow> string option) littlefs" where
  "tight_fs = mem_fs\<lparr>fs_write := (\<lambda>p d fs. let n = min (length d) (40 - length (the (fs p)))
     in (n, fs(p := map_option (\<lambda>c. c @ take n d) (fs p))))\<rparr>"

lemma tight_fs_laws: "store_laws tight_fs (\<lambda>fs. fs)" "store_works tight_fs"
  by (auto simp: store_laws_def store_works_def tight_fs_def mem_fs_def Let_def)

lemma default_table_ok: "config_ok default_table"
  by (simp add: default_table_def fallbacks [OF config_ok_init])

lemma default_table_fits: "mkh_config_serialize 2048 default_table = Some (drop 29 default_config_text)"
  by code_simp

lemma default_table_saves: "\<exists>cfg fs. mkh_storage_save_config mem_fs (default_table, Map.empty) = (True, cfg, fs)"
proof -
  obtain ok states where tr: "save_trace mem_fs default_table Map.empty = (ok, states)" by fastforce
  have ok using save_trace_points(2) [OF mem_fs_laws(1) default_table_fits tr mem_fs_laws(2)] .
  then show ?thesis by (simp add: mkh_storage_save_config_def tr)
qed

theorem save_then_boot_witness:
  "\<exists>cfg fs cfg2 fs2. mkh_storage_save_config mem_fs (default_table, Map.empty) = (True, cfg, fs) \<and>
     mkh_storage_boot_read mem_fs (config_init, fs) = (cfg2, fs2) \<and>
     bindings (port_at cfg2 1 0) = [fallback_binding MKH_INPUT_RSNS]"
proof -
  obtain cfg fs where s: "mkh_storage_save_config mem_fs (default_table, Map.empty) = (True, cfg, fs)"
    using default_table_saves by blast
  obtain cfg2 fs2 where b: "mkh_storage_boot_read mem_fs (config_init, fs) = (cfg2, fs2)" by fastforce
  have m: "fst (fs_begin mem_fs fs)" by (simp add: mem_fs_def)
  have c: "save_counts mem_fs default_table Map.empty = Some (length config_schema_header, length (drop 29 default_config_text))"
    by (rule healthy_counts [OF mem_fs_laws(2) default_table_fits])
  from save_then_boot [OF mem_fs_laws(1) default_table_ok s m b, of 1 0] c default_table_fits
  have "bindings (port_at cfg2 1 0) = with_fallback 1 0 (map normal_binding (with_fallback 1 0 []))"
    by (simp add: default_table_port)
  then have "bindings (port_at cfg2 1 0) = [fallback_binding MKH_INPUT_RSNS]" by (simp only: fallback_normal) (simp add: with_fallback_def)
  with s b show ?thesis by blast
qed

text \<open>A full store: the save over an old file succeeds and leaves the header and eleven characters.\<close>

theorem save_file_contents_witness:
  "fst (save_trace tight_fs default_table [config_file_path \<mapsto> default_config_text]) \<and>
   last (snd (save_trace tight_fs default_table [config_file_path \<mapsto> default_config_text])) config_file_path =
     Some (config_schema_header @ take 11 (drop 29 default_config_text))"
proof -
  let ?old = "[config_file_path \<mapsto> default_config_text]"
  have o: "fs_open_write tight_fs config_tmp_path ?old \<noteq> None" using tight_fs_laws(2) by (simp add: store_works_def)
  have c: "save_counts tight_fs default_table ?old = Some (29, 11)"
    by (simp add: save_counts_def default_table_fits tight_fs_def mem_fs_def config_schema_header_def default_config_text_def)
  have l: "length config_schema_header = 29" by (simp add: config_schema_header_def)
  from save_file_contents [OF tight_fs_laws(1) default_table_fits o] c l tight_fs_laws(2) show ?thesis by auto
qed

theorem save_window_loses_config_witness:
  "\<exists>fs \<in> set (snd (save_trace mem_fs default_table [config_file_path \<mapsto> []])).
     bindings (port_at (fst (mkh_storage_boot_read mem_fs (config_init, fs))) 2 3) = []"
proof -
  obtain fs where fs: "fs \<in> set (snd (save_trace mem_fs default_table [config_file_path \<mapsto> []]))"
    "\<forall>cfg0 d p. d \<in> {0, 1, 2} \<and> p \<in> {0..<6} \<longrightarrow>
        bindings (port_at (fst (mkh_storage_boot_read mem_fs (cfg0, fs))) d p) = with_fallback d p []"
    using save_window_loses_config [OF mem_fs_laws default_table_fits, of "[config_file_path \<mapsto> []]"] by fastforce
  then have "bindings (port_at (fst (mkh_storage_boot_read mem_fs (config_init, fs))) 2 3) = with_fallback 2 3 []" by simp
  with fs(1) show ?thesis by (intro bexI [of _ fs]) (simp_all add: with_fallback_def)
qed

theorem migration_once_witness:
  "\<exists>cfg1 fs1 cfg2 fs2. mkh_storage_boot_read mem_fs (config_init, Map.empty) = (cfg1, fs1) \<and>
     mkh_storage_boot_read mem_fs (cfg1, fs1) = (cfg2, fs2) \<and> fs2 = fs1"
proof -
  obtain cfg1 fs1 where b: "mkh_storage_boot_read mem_fs (config_init, Map.empty) = (cfg1, fs1)" by fastforce
  obtain cfg2 fs2 where b2: "mkh_storage_boot_read mem_fs (cfg1, fs1) = (cfg2, fs2)" by fastforce
  have r: "restored default_table cfg1" by (rule boot_without_file [OF mem_fs_laws _ b]) simp
  have "length (bindings (port_at cfg1 d p)) = length (bindings (port_at default_table d p))" if "d < 3" "p < 6" for d p
    using r that by (simp add: restored_def default_table_port)
  then have "length (table_entries cfg1) = length (table_entries default_table)"
    by (simp add: table_entries_def upt_rec)
  moreover have "length (table_entries default_table) = 2" by code_simp
  ultimately have "mkh_config_serialize 2048 cfg1 \<noteq> None"
    using length_serialized [of cfg1] r by (simp add: serialize_eq restored_def)
  from migration_once [OF mem_fs_laws b this b2, of 0 0] b b2 show ?thesis by simp
qed

end
