(* ===== verification/Editor.thy ===== *)
theory Editor
  imports Storage Drive
begin

text \<open>
  The on-device mapping editor of \<^verbatim>\<open>main/sketch.cpp\<close>: hub select, port select, capture and settings
  pages, their prompts, the pending session that collects edits over several ports, and the
  three places where it reaches the live table (Test, Save, Reset). A touch handler takes the
  tap's display coordinates and the clock and returns the new state, or \<open>None\<close> where the code
  would index \<open>pendingEdits\<close> or a binding array out of range. Drawing is left out, except for the
  variables the drawing functions assign and the array elements they read. The C array
  \<open>bindings[8]\<close> with its \<open>binding_count\<close> is the list of its first \<open>binding_count\<close> elements.
\<close>

section \<open>Pages and state\<close>

datatype UiPage = PAGE_SPLASH | PAGE_STATS | PAGE_DASHBOARD | PAGE_EDIT_SELECT | PAGE_EDIT_PORTS
  | PAGE_EDIT_CAPTURE | PAGE_EDIT_SETTINGS | PAGE_IDLE | PAGE_COUNT

record EditContext =
  selected_device :: int
  selected_port :: int
  selected_valid :: bool
  captured_input :: mkh_input_source
  capture_valid :: bool
  editing_binding_index :: int

record PendingPortEdit =
  dirty :: bool
  edits :: "mkh_binding list"

record attributes =
  at_invert :: bool
  at_max :: nat
  at_mode :: mkh_input_mode

record 'fs app =
  currentPage :: UiPage
  lastTouchActivityMs :: u32
  idleEnteredMs :: u32
  idleSleepHoldActive :: bool
  idleSleepHoldStartMs :: u32
  editCtx :: EditContext
  settingsBackToCapture :: bool
  pendingEdits :: "PendingPortEdit list list"
  testActive :: bool
  exitPromptActive :: bool
  resetAllPromptActive :: bool
  capturePromptActive :: bool
  captureReplaceAddPromptActive :: bool
  settingsPromptActive :: bool
  settingsWorking :: attributes
  settingsBaseline :: attributes
  live :: config_state
  slots :: slot_table
  disk :: 'fs

definition blank_attributes :: attributes where
  "blank_attributes = \<lparr>at_invert = False, at_max = 100, at_mode = MKH_MODE_PROPORTIONAL\<rparr>"

text \<open>The statics before \<open>setup\<close>.\<close>

definition app_init :: "config_state \<Rightarrow> slot_table \<Rightarrow> 'fs \<Rightarrow> 'fs app" where
  "app_init cfg tb fs =
     \<lparr>currentPage = PAGE_SPLASH, lastTouchActivityMs = 0, idleEnteredMs = 0, idleSleepHoldActive = False,
      idleSleepHoldStartMs = 0,
      editCtx = \<lparr>selected_device = -1, selected_port = -1, selected_valid = False, captured_input = MKH_INPUT_NONE,
                 capture_valid = False, editing_binding_index = 0\<rparr>,
      settingsBackToCapture = False,
      pendingEdits = replicate 3 (replicate 6 \<lparr>dirty = False, edits = []\<rparr>),
      testActive = False, exitPromptActive = False, resetAllPromptActive = False, capturePromptActive = False,
      captureReplaceAddPromptActive = False, settingsPromptActive = False,
      settingsWorking = blank_attributes, settingsBaseline = blank_attributes,
      live = cfg, slots = tb, disk = fs\<rparr>"

section \<open>Hit zones\<close>

type_synonym rect = "int \<times> int \<times> int \<times> int"

definition in_rect :: "rect \<Rightarrow> int \<Rightarrow> int \<Rightarrow> bool" where
  "in_rect r touchX touchY =
     (case r of (x, w, y, h) \<Rightarrow> x \<le> touchX \<and> touchX < x + w \<and> y \<le> touchY \<and> touchY < y + h)"

definition scr_w :: int where "scr_w = 320"
definition header_h :: int where "header_h = 28"

definition settings_hit :: rect where "settings_hit = (0, 54, 0, 40)"
definition test_toggle :: rect where "test_toggle = (scr_w - 32, 30, 2, header_h - 4)"
definition select_back :: rect where "select_back = (20, 120, 180, 40)"
definition exit_prompt_left :: rect where "exit_prompt_left = (20, 120, 180, 40)"
definition exit_prompt_right :: rect where "exit_prompt_right = (180, 120, 180, 40)"
definition mkh_edit_max_active_device :: int where "mkh_edit_max_active_device = 2"

definition hubBtnY :: "int \<Rightarrow> int" where "hubBtnY idx = 30 + idx * (40 + 10)"
definition hub_btn :: "int \<Rightarrow> rect" where "hub_btn idx = (20, 280, hubBtnY idx, 40)"

definition portCellX :: "int \<Rightarrow> int" where "portCellX col = 20 + col * (80 + 20)"
definition portCellY :: "int \<Rightarrow> int" where "portCellY row = 40 + row * (50 + 20)"

definition portGridColRow :: "int \<Rightarrow> int \<times> int" where
  "portGridColRow port = (c_div port 2, if port - 2 * c_div port 2 = 0 then 1 else 0)"

definition port_cell :: "int \<Rightarrow> rect" where
  "port_cell p = (case portGridColRow p of (col, row) \<Rightarrow> (portCellX col, 80, portCellY row, 50))"

definition capture_left :: rect where "capture_left = (20, 120, 180, 40)"
definition capture_right :: rect where "capture_right = (180, 120, 180, 40)"

definition spage_toggle_mid_x :: int where "spage_toggle_mid_x = 160"
definition spage_slider_x :: int where "spage_slider_x = 20 + 40 + 8"
definition spage_slider_w :: int where "spage_slider_w = 260 - 8 - spage_slider_x"
definition spage_prev :: rect where "spage_prev = (20, 50, 132, 40)"
definition spage_add :: rect where "spage_add = (80, 70, 132, 40)"
definition spage_remove :: rect where "spage_remove = (160, 70, 132, 40)"
definition spage_next :: rect where "spage_next = (240, 60, 132, 40)"
definition spage_back :: rect where "spage_back = (20, 80, 180, 40)"
definition spage_reset :: rect where "spage_reset = (120, 80, 180, 40)"
definition spage_save :: rect where "spage_save = (220, 80, 180, 40)"

lemmas rect_defs = in_rect_def scr_w_def header_h_def settings_hit_def test_toggle_def select_back_def
  exit_prompt_left_def exit_prompt_right_def hubBtnY_def hub_btn_def portCellX_def portCellY_def
  port_cell_def capture_left_def capture_right_def spage_toggle_mid_x_def spage_slider_x_def
  spage_slider_w_def spage_prev_def spage_add_def spage_remove_def spage_next_def spage_back_def
  spage_reset_def spage_save_def

section \<open>The pending session\<close>

definition pending_at :: "'fs app \<Rightarrow> int \<Rightarrow> int \<Rightarrow> PendingPortEdit option" where
  "pending_at a dev port = Option.bind (arr_get (pendingEdits a) dev) (\<lambda>row. arr_get row port)"

definition set_pending :: "int \<Rightarrow> int \<Rightarrow> PendingPortEdit \<Rightarrow> 'fs app \<Rightarrow> 'fs app option" where
  "set_pending dev port pe a =
     do { row \<leftarrow> arr_get (pendingEdits a) dev;
          row' \<leftarrow> arr_set row port pe;
          rows \<leftarrow> arr_set (pendingEdits a) dev row';
          Some (a\<lparr>pendingEdits := rows\<rparr>) }"

text \<open>The bindings of a live port, none for an invalid one.\<close>

definition live_bindings :: "'fs app \<Rightarrow> int \<Rightarrow> int \<Rightarrow> mkh_binding list" where
  "live_bindings a dev port = (case mkh_config_get (live a) dev port of None \<Rightarrow> [] | Some cfg \<Rightarrow> bindings cfg)"

definition effectiveBindingCount :: "'fs app \<Rightarrow> int \<Rightarrow> int \<Rightarrow> int option" where
  "effectiveBindingCount a dev port =
     do { pe \<leftarrow> pending_at a dev port;
          Some (int (length (if dirty pe then edits pe else live_bindings a dev port))) }"

definition effectiveBinding :: "'fs app \<Rightarrow> int \<Rightarrow> int \<Rightarrow> int \<Rightarrow> mkh_binding option" where
  "effectiveBinding a dev port idx =
     do { pe \<leftarrow> pending_at a dev port;
          arr_get (if dirty pe then edits pe else live_bindings a dev port) idx }"

definition sessionHasPendingEdits :: "'fs app \<Rightarrow> bool" where
  "sessionHasPendingEdits a = list_ex (\<lambda>row. list_ex dirty row) (pendingEdits a)"

definition clearPendingSession :: "'fs app \<Rightarrow> 'fs app" where
  "clearPendingSession a =
     a\<lparr>pendingEdits := map (map (\<lambda>pe. pe\<lparr>dirty := False\<rparr>)) (pendingEdits a)\<rparr>"

definition push_port :: "nat \<times> nat \<Rightarrow> 'fs app \<Rightarrow> 'fs app" where
  "push_port = (\<lambda>(d, p) a.
     (let pe = pendingEdits a ! d ! p
      in if dirty pe
         then a\<lparr>live := mkh_config_set_port_bindings (int d) (int p) (edits pe) (int (length (edits pe))) (live a),
                slots := clearLatchStateForPort d p (slots a)\<rparr>
         else a))"

definition pushPendingSessionToLiveTable :: "'fs app \<Rightarrow> 'fs app" where
  "pushPendingSessionToLiveTable a = fold push_port all_ports a"

definition clearEditContext :: "'fs app \<Rightarrow> 'fs app" where
  "clearEditContext a =
     a\<lparr>editCtx := (editCtx a)\<lparr>selected_device := -1, selected_port := -1, selected_valid := False,
         captured_input := MKH_INPUT_NONE, capture_valid := False\<rparr>\<rparr>"

definition clearEditorSession :: "'fs app \<Rightarrow> 'fs app" where
  "clearEditorSession a = (clearPendingSession (clearEditContext a))\<lparr>testActive := False\<rparr>"

definition testToggleHit :: "int \<Rightarrow> int \<Rightarrow> bool" where
  "testToggleHit touchX touchY = in_rect test_toggle touchX touchY"

definition handleTestToggleTap :: "'fs app \<Rightarrow> 'fs app" where
  "handleTestToggleTap a =
     (let a1 = a\<lparr>testActive := \<not> testActive a\<rparr>
      in if testActive a1 then pushPendingSessionToLiveTable a1 else a1)"

section \<open>Navigation\<close>

text \<open>Drawing the port grid reads the effective list of all six ports of the hub, drawing the settings
  page the pending entry of the port.\<close>

definition drawPortSelect :: "'fs app \<Rightarrow> 'fs app option" where
  "drawPortSelect a =
     (if list_all (\<lambda>p. effectiveBindingCount a (selected_device (editCtx a)) p \<noteq> None) [0..5] then Some a else None)"

definition drawHubSelect :: "'fs app \<Rightarrow> 'fs app" where
  "drawHubSelect a = a\<lparr>exitPromptActive := False, resetAllPromptActive := False\<rparr>"

definition drawSettingsPage :: "'fs app \<Rightarrow> 'fs app option" where
  "drawSettingsPage a =
     do { _ \<leftarrow> pending_at a (selected_device (editCtx a)) (selected_port (editCtx a));
          Some (a\<lparr>settingsPromptActive := False\<rparr>) }"

definition initDashboard :: "u32 \<Rightarrow> 'fs app \<Rightarrow> 'fs app" where
  "initDashboard now a = a\<lparr>lastTouchActivityMs := now\<rparr>"

definition drawIdlePage :: "u32 \<Rightarrow> 'fs app \<Rightarrow> 'fs app" where
  "drawIdlePage now a = a\<lparr>idleEnteredMs := now, idleSleepHoldActive := False\<rparr>"

definition attributes_of :: "mkh_binding \<Rightarrow> attributes" where
  "attributes_of b = \<lparr>at_invert = b_invert b, at_max = b_max_percent b, at_mode = b_mode b\<rparr>"

definition new_binding :: mkh_binding where
  "new_binding = \<lparr>b_input = MKH_INPUT_NONE, b_invert = False, b_max_percent = 100, b_mode = MKH_MODE_PROPORTIONAL\<rparr>"

text \<open>The settings case of \<open>goToPage\<close>: seed the working copy, find the baseline of the binding being
  edited and commit a captured input that differs from it.\<close>

definition enterSettings :: "'fs app \<Rightarrow> 'fs app option" where
  "enterSettings a =
     (let ctx = editCtx a; dev = selected_device ctx; port = selected_port ctx; idx = editing_binding_index ctx
      in do { pe \<leftarrow> pending_at a dev port;
              let bs = (if dirty pe then edits pe else live_bindings a dev port);
              let idxIsNewSlot = (int (length bs) \<le> idx);
              baseline \<leftarrow> (if idxIsNewSlot then Some new_binding else arr_get bs idx);
              let captured = (capture_valid ctx \<and> captured_input ctx \<noteq> b_input baseline);
              let b = (if captured then baseline\<lparr>b_input := captured_input ctx\<rparr> else baseline);
              bs' \<leftarrow> (if \<not> captured then Some bs
                     else if idxIsNewSlot
                       then (if mkh_max_bindings_per_port \<le> length bs then None else Some (bs @ [b]))
                     else arr_set bs idx b);
              a1 \<leftarrow> set_pending dev port \<lparr>dirty = dirty pe \<or> captured, edits = bs'\<rparr> a;
              drawSettingsPage
                (a1\<lparr>settingsWorking := attributes_of b, settingsBaseline := attributes_of b,
                    editCtx := ctx\<lparr>captured_input := b_input b, capture_valid := (b_input b \<noteq> MKH_INPUT_NONE)\<rparr>\<rparr>) })"

definition goToPage :: "u32 \<Rightarrow> UiPage \<Rightarrow> 'fs app \<Rightarrow> 'fs app option" where
  "goToPage now pg a =
     (let a1 = a\<lparr>currentPage := pg\<rparr>
      in case pg of
        PAGE_SPLASH \<Rightarrow> Some a1
      | PAGE_STATS \<Rightarrow> Some a1
      | PAGE_DASHBOARD \<Rightarrow> Some (initDashboard now a1)
      | PAGE_EDIT_SELECT \<Rightarrow> Some (drawHubSelect a1)
      | PAGE_EDIT_PORTS \<Rightarrow> drawPortSelect a1
      | PAGE_EDIT_CAPTURE \<Rightarrow> Some (a1\<lparr>capturePromptActive := False, captureReplaceAddPromptActive := False\<rparr>)
      | PAGE_EDIT_SETTINGS \<Rightarrow> enterSettings a1
      | PAGE_IDLE \<Rightarrow> Some (drawIdlePage now a1)
      | PAGE_COUNT \<Rightarrow> Some a1)"

definition save_live :: "'fs littlefs \<Rightarrow> 'fs app \<Rightarrow> 'fs app" where
  "save_live L a =
     (case mkh_storage_save_config L (live a, disk a) of (_, cfg, fs) \<Rightarrow> a\<lparr>live := cfg, disk := fs\<rparr>)"

definition performSaveAndExit :: "'fs littlefs \<Rightarrow> u32 \<Rightarrow> 'fs app \<Rightarrow> 'fs app option" where
  "performSaveAndExit L now a =
     goToPage now PAGE_DASHBOARD (clearEditorSession (save_live L (pushPendingSessionToLiveTable a)))"

section \<open>Hub select\<close>

definition wipe_table :: "config_state \<Rightarrow> config_state" where
  "wipe_table cfg = fold (\<lambda>(d, p). mkh_config_set_port_bindings (int d) (int p) [] 0) all_ports cfg"

definition dispatchHubSelectTouch :: "'fs littlefs \<Rightarrow> u32 \<Rightarrow> int \<Rightarrow> int \<Rightarrow> 'fs app \<Rightarrow> 'fs app option" where
  "dispatchHubSelectTouch L now touchX touchY a =
     (if exitPromptActive a then
        (if in_rect exit_prompt_left touchX touchY
         then performSaveAndExit L now (a\<lparr>exitPromptActive := False\<rparr>)
         else if in_rect exit_prompt_right touchX touchY
         then goToPage now PAGE_DASHBOARD (clearEditorSession (a\<lparr>exitPromptActive := False\<rparr>))
         else Some a)
      else if resetAllPromptActive a then
        (if in_rect exit_prompt_left touchX touchY
         then goToPage now PAGE_DASHBOARD (clearEditorSession
                ((save_live L (a\<lparr>live := wipe_table (live a), slots := clearAllLatchState (slots a)\<rparr>))
                   \<lparr>resetAllPromptActive := False\<rparr>))
         else if in_rect exit_prompt_right touchX touchY
         then Some (drawHubSelect (a\<lparr>resetAllPromptActive := False\<rparr>))
         else Some a)
      else if testToggleHit touchX touchY then Some (handleTestToggleTap a)
      else if in_rect exit_prompt_right touchX touchY then Some (a\<lparr>resetAllPromptActive := True\<rparr>)
      else if in_rect select_back touchX touchY then
        (if sessionHasPendingEdits a then Some (a\<lparr>exitPromptActive := True\<rparr>)
         else goToPage now PAGE_DASHBOARD (clearEditorSession a))
      else
        (case List.find (\<lambda>i. in_rect (hub_btn i) touchX touchY) [0..2] of
           None \<Rightarrow> Some a
         | Some i \<Rightarrow>
             if i \<ge> mkh_edit_max_active_device then Some a
             else goToPage now PAGE_EDIT_PORTS
                    (a\<lparr>editCtx := (editCtx a)\<lparr>selected_device := i, selected_port := -1, selected_valid := False\<rparr>\<rparr>)))"

section \<open>Port select\<close>

definition select_port :: "u32 \<Rightarrow> int \<Rightarrow> 'fs app \<Rightarrow> 'fs app option" where
  "select_port now p a =
     (let ctx = editCtx a;
          samePort = (selected_valid ctx \<and> selected_port ctx = p);
          ctx1 = (if samePort then ctx else ctx\<lparr>captured_input := MKH_INPUT_NONE, capture_valid := False\<rparr>);
          a1 = a\<lparr>editCtx := ctx1\<lparr>selected_port := p, selected_valid := True\<rparr>\<rparr>
      in do { count \<leftarrow> effectiveBindingCount a1 (selected_device (editCtx a1)) p;
              if count > 0
              then do { first \<leftarrow> effectiveBinding a1 (selected_device (editCtx a1)) p 0;
                        goToPage now PAGE_EDIT_SETTINGS
                          (a1\<lparr>editCtx := (editCtx a1)\<lparr>editing_binding_index := 0, captured_input := b_input first,
                                 capture_valid := True\<rparr>,
                              settingsBackToCapture := False\<rparr>) }
              else goToPage now PAGE_EDIT_CAPTURE (a1\<lparr>editCtx := (editCtx a1)\<lparr>editing_binding_index := 0\<rparr>\<rparr>) })"

definition dispatchPortSelectTouch :: "u32 \<Rightarrow> int \<Rightarrow> int \<Rightarrow> 'fs app \<Rightarrow> 'fs app option" where
  "dispatchPortSelectTouch now touchX touchY a =
     (if testToggleHit touchX touchY then Some (handleTestToggleTap a)
      else if in_rect select_back touchX touchY then goToPage now PAGE_EDIT_SELECT (clearEditContext a)
      else
        (case List.find (\<lambda>p. in_rect (port_cell p) touchX touchY) [0..5] of
           None \<Rightarrow> Some a
         | Some p \<Rightarrow> select_port now p a))"

section \<open>Capture\<close>

definition captureHasNext :: "'fs app \<Rightarrow> bool" where
  "captureHasNext a = capture_valid (editCtx a)"

definition dispatchCaptureTouch :: "u32 \<Rightarrow> int \<Rightarrow> int \<Rightarrow> 'fs app \<Rightarrow> 'fs app option" where
  "dispatchCaptureTouch now touchX touchY a =
     (let inLeftBtn = in_rect capture_left touchX touchY; inRightBtn = in_rect capture_right touchX touchY;
          dev = selected_device (editCtx a); port = selected_port (editCtx a)
      in if capturePromptActive a then
           (if inLeftBtn then goToPage now PAGE_EDIT_PORTS (a\<lparr>capturePromptActive := False\<rparr>)
            else if inRightBtn then
              goToPage now PAGE_EDIT_PORTS
                (a\<lparr>capturePromptActive := False,
                   editCtx := (editCtx a)\<lparr>captured_input := MKH_INPUT_NONE, capture_valid := False\<rparr>\<rparr>)
            else Some a)
         else if captureReplaceAddPromptActive a then
           (if inLeftBtn then
              goToPage now PAGE_EDIT_SETTINGS
                (a\<lparr>captureReplaceAddPromptActive := False, settingsBackToCapture := True\<rparr>)
            else if inRightBtn then
              do { count \<leftarrow> effectiveBindingCount a dev port;
                   goToPage now PAGE_EDIT_SETTINGS
                     (a\<lparr>captureReplaceAddPromptActive := False,
                        editCtx := (editCtx a)\<lparr>editing_binding_index := count\<rparr>, settingsBackToCapture := True\<rparr>) }
            else Some a)
         else if testToggleHit touchX touchY then Some (handleTestToggleTap a)
         else if inLeftBtn then
           (if capture_valid (editCtx a) then Some (a\<lparr>capturePromptActive := True\<rparr>)
            else goToPage now PAGE_EDIT_PORTS a)
         else if inRightBtn \<and> captureHasNext a then
           do { count \<leftarrow> effectiveBindingCount a dev port;
                if count > 0 then Some (a\<lparr>captureReplaceAddPromptActive := True\<rparr>)
                else goToPage now PAGE_EDIT_SETTINGS
                       (a\<lparr>editCtx := (editCtx a)\<lparr>editing_binding_index := 0\<rparr>, settingsBackToCapture := True\<rparr>) }
         else Some a)"

definition mkh_capture_threshold_percent :: int where "mkh_capture_threshold_percent = 25"

definition stickPastCaptureThreshold :: "int \<Rightarrow> bool" where
  "stickPastCaptureThreshold axisValue =
     (let threshold = c_div (mkh_stick_axis_magnitude * mkh_capture_threshold_percent) 100
      in axisValue \<le> - threshold \<or> axisValue \<ge> threshold)"

definition triggerPastCaptureThreshold :: "int \<Rightarrow> bool" where
  "triggerPastCaptureThreshold triggerValue =
     (let threshold = c_div (1023 * mkh_capture_threshold_percent) 100 in triggerValue \<ge> threshold)"

definition applyCapture :: "mkh_input_source \<Rightarrow> 'fs app \<Rightarrow> 'fs app" where
  "applyCapture token a =
     (if capture_valid (editCtx a) \<and> captured_input (editCtx a) = token then a
      else a\<lparr>editCtx := (editCtx a)\<lparr>captured_input := token, capture_valid := True\<rparr>\<rparr>)"

text \<open>The tests of \<open>checkCapture\<close> in their order, with the token each captures.\<close>

definition capture_tests :: "controller \<Rightarrow> (bool \<times> mkh_input_source) list" where
  "capture_tests ctl =
     [(stickPastCaptureThreshold (axisY ctl), MKH_INPUT_LSNS), (stickPastCaptureThreshold (axisX ctl), MKH_INPUT_LSEW),
      (stickPastCaptureThreshold (axisRY ctl), MKH_INPUT_RSNS), (stickPastCaptureThreshold (axisRX ctl), MKH_INPUT_RSEW),
      (triggerPastCaptureThreshold (brake ctl), MKH_INPUT_LT), (triggerPastCaptureThreshold (throttle ctl), MKH_INPUT_RT),
      (btn_a ctl, MKH_INPUT_BTN_A), (btn_b ctl, MKH_INPUT_BTN_B), (btn_x ctl, MKH_INPUT_BTN_X), (btn_y ctl, MKH_INPUT_BTN_Y),
      (l1 ctl, MKH_INPUT_LB), (r1 ctl, MKH_INPUT_RB),
      (dpad ctl AND 1 \<noteq> 0, MKH_INPUT_DPAD_UP), (dpad ctl AND 2 \<noteq> 0, MKH_INPUT_DPAD_DOWN),
      (dpad ctl AND 8 \<noteq> 0, MKH_INPUT_DPAD_LEFT), (dpad ctl AND 4 \<noteq> 0, MKH_INPUT_DPAD_RIGHT),
      (thumbL ctl, MKH_INPUT_L3), (thumbR ctl, MKH_INPUT_R3)]"

definition checkCapture :: "controller option \<Rightarrow> 'fs app \<Rightarrow> 'fs app" where
  "checkCapture ctl a =
     (case ctl of
        None \<Rightarrow> a
      | Some c \<Rightarrow> (case List.find fst (capture_tests c) of None \<Rightarrow> a | Some (_, token) \<Rightarrow> applyCapture token a))"

section \<open>Settings\<close>

fun nextModeFor :: "mkh_input_mode \<Rightarrow> mkh_input_mode" where
  "nextModeFor MKH_MODE_PROPORTIONAL = MKH_MODE_MOMENTARY"
| "nextModeFor MKH_MODE_MOMENTARY = MKH_MODE_LATCHED"
| "nextModeFor MKH_MODE_LATCHED = MKH_MODE_PULSE"
| "nextModeFor MKH_MODE_PULSE = MKH_MODE_THL"
| "nextModeFor MKH_MODE_THL = MKH_MODE_PROPORTIONAL"

definition spage_max_snap_band_percent :: int where "spage_max_snap_band_percent = 2"

definition applyMaxEndSnap :: "int \<Rightarrow> nat" where
  "applyMaxEndSnap percent0 =
     (let percent1 = (if percent0 < 0 then 0 else percent0);
          percent = (if percent1 > 100 then 100 else percent1)
      in if percent \<le> spage_max_snap_band_percent then 0
         else if percent \<ge> 100 - spage_max_snap_band_percent then 100
         else nat percent)"

definition settingsSeedPendingIfNeeded :: "int \<Rightarrow> int \<Rightarrow> 'fs app \<Rightarrow> 'fs app option" where
  "settingsSeedPendingIfNeeded dev port a =
     do { pe \<leftarrow> pending_at a dev port;
          if dirty pe then Some a else set_pending dev port (pe\<lparr>edits := live_bindings a dev port\<rparr>) a }"

text \<open>The common shape of a commit: seed, then overwrite the binding if the index is in use.\<close>

definition commit_binding ::
  "int \<Rightarrow> int \<Rightarrow> int \<Rightarrow> (mkh_binding \<Rightarrow> mkh_binding) \<Rightarrow> 'fs app \<Rightarrow> 'fs app option" where
  "commit_binding dev port idx f a =
     do { a1 \<leftarrow> settingsSeedPendingIfNeeded dev port a;
          pe \<leftarrow> pending_at a1 dev port;
          if idx < int (length (edits pe))
          then do { b \<leftarrow> arr_get (edits pe) idx;
                    bs \<leftarrow> arr_set (edits pe) idx (f b);
                    set_pending dev port \<lparr>dirty = True, edits = bs\<rparr> a1 }
          else Some a1 }"

definition with_attributes :: "attributes \<Rightarrow> mkh_binding \<Rightarrow> mkh_binding" where
  "with_attributes w b = b\<lparr>b_invert := at_invert w, b_max_percent := at_max w, b_mode := at_mode w\<rparr>"

definition settingsCommitWorkingIfDirty :: "int \<Rightarrow> int \<Rightarrow> int \<Rightarrow> 'fs app \<Rightarrow> 'fs app option" where
  "settingsCommitWorkingIfDirty dev port idx a =
     (if settingsWorking a = settingsBaseline a then Some a
      else commit_binding dev port idx (with_attributes (settingsWorking a)) a)"

text \<open>KEEP and SAVE write the whole binding, the displayed input included.\<close>

definition commitShown :: "int \<Rightarrow> int \<Rightarrow> int \<Rightarrow> 'fs app \<Rightarrow> 'fs app option" where
  "commitShown dev port idx a =
     commit_binding dev port idx
       (\<lambda>b. (with_attributes (settingsWorking a) b)\<lparr>b_input := captured_input (editCtx a)\<rparr>) a"

definition show_binding :: "int \<Rightarrow> mkh_binding \<Rightarrow> 'fs app \<Rightarrow> 'fs app" where
  "show_binding idx b a =
     a\<lparr>settingsWorking := attributes_of b, settingsBaseline := attributes_of b,
       editCtx := (editCtx a)\<lparr>editing_binding_index := idx, captured_input := b_input b, capture_valid := True\<rparr>\<rparr>"

definition settingsLoadBindingAt :: "int \<Rightarrow> int \<Rightarrow> int \<Rightarrow> 'fs app \<Rightarrow> 'fs app option" where
  "settingsLoadBindingAt dev port idx a =
     do { b \<leftarrow> effectiveBinding a dev port idx; drawSettingsPage (show_binding idx b a) }"

definition settings_page_to :: "int \<Rightarrow> int \<Rightarrow> int \<Rightarrow> int \<Rightarrow> 'fs app \<Rightarrow> 'fs app option" where
  "settings_page_to dev port idx idx' a =
     do { a1 \<leftarrow> settingsCommitWorkingIfDirty dev port idx a; settingsLoadBindingAt dev port idx' a1 }"

definition no_capture :: "'fs app \<Rightarrow> 'fs app" where
  "no_capture a = a\<lparr>editCtx := (editCtx a)\<lparr>captured_input := MKH_INPUT_NONE, capture_valid := False\<rparr>\<rparr>"

definition settings_remove :: "u32 \<Rightarrow> UiPage \<Rightarrow> int \<Rightarrow> int \<Rightarrow> int \<Rightarrow> 'fs app \<Rightarrow> 'fs app option" where
  "settings_remove now backTarget dev port idx a =
     do { a1 \<leftarrow> settingsSeedPendingIfNeeded dev port a;
          pe \<leftarrow> pending_at a1 dev port;
          let count = int (length (edits pe));
          (a2, count') \<leftarrow>
            (if idx < count then
               (if idx < 0 then None
                else do { a2 \<leftarrow> set_pending dev port
                            \<lparr>dirty = True, edits = take (nat idx) (edits pe) @ drop (nat idx + 1) (edits pe)\<rparr> a1;
                          Some (a2, count - 1) })
             else Some (a1, count));
          if count' = 0 then goToPage now backTarget (no_capture a2)
          else settingsLoadBindingAt dev port (if idx \<ge> count' then count' - 1 else idx) a2 }"

definition settings_reset :: "'fs littlefs \<Rightarrow> int \<Rightarrow> int \<Rightarrow> 'fs app \<Rightarrow> 'fs app option" where
  "settings_reset L dev port a =
     (case mkh_storage_reload_config L (live a, disk a) of (cfg, fs) \<Rightarrow>
        (let a1 = (clearPendingSession (a\<lparr>live := cfg, disk := fs\<rparr>))\<lparr>testActive := False\<rparr>
         in case live_bindings a1 dev port of
              b # _ \<Rightarrow> drawSettingsPage (show_binding 0 b a1)
            | [] \<Rightarrow> drawSettingsPage (no_capture
                      (a1\<lparr>settingsWorking := blank_attributes, settingsBaseline := blank_attributes,
                          editCtx := (editCtx a1)\<lparr>editing_binding_index := 0\<rparr>\<rparr>))))"

definition dispatchSettingsTouch :: "'fs littlefs \<Rightarrow> u32 \<Rightarrow> int \<Rightarrow> int \<Rightarrow> 'fs app \<Rightarrow> 'fs app option" where
  "dispatchSettingsTouch L now touchX touchY a =
     (let dev = selected_device (editCtx a); port = selected_port (editCtx a); idx = editing_binding_index (editCtx a);
          backTarget = (if settingsBackToCapture a then PAGE_EDIT_CAPTURE else PAGE_EDIT_PORTS);
          work = settingsWorking a;
          inToggleRow = (44 \<le> touchY \<and> touchY < 44 + 40);
          inMaxRow = (88 \<le> touchY \<and> touchY < 88 + 40 \<and> at_mode work \<noteq> MKH_MODE_THL)
      in if settingsPromptActive a then
           (if in_rect exit_prompt_left touchX touchY then
              do { a1 \<leftarrow> commitShown dev port idx a;
                   goToPage now backTarget (a1\<lparr>settingsPromptActive := False\<rparr>) }
            else if in_rect exit_prompt_right touchX touchY
            then goToPage now backTarget (a\<lparr>settingsPromptActive := False\<rparr>)
            else Some a)
         else if testToggleHit touchX touchY then Some (handleTestToggleTap a)
         else if inToggleRow \<and> touchX < spage_toggle_mid_x
         then Some (a\<lparr>settingsWorking := work\<lparr>at_invert := \<not> at_invert work\<rparr>\<rparr>)
         else if inToggleRow \<and> touchX \<ge> spage_toggle_mid_x
         then Some (a\<lparr>settingsWorking := work\<lparr>at_mode := nextModeFor (at_mode work)\<rparr>\<rparr>)
         else if inMaxRow \<and> 20 \<le> touchX \<and> touchX < 20 + 40
         then Some (a\<lparr>settingsWorking := work\<lparr>at_max := applyMaxEndSnap (int (at_max work) - 1)\<rparr>\<rparr>)
         else if inMaxRow \<and> 260 \<le> touchX \<and> touchX < 260 + 40
         then Some (a\<lparr>settingsWorking := work\<lparr>at_max := applyMaxEndSnap (int (at_max work) + 1)\<rparr>\<rparr>)
         else if inMaxRow \<and> spage_slider_x \<le> touchX \<and> touchX < spage_slider_x + spage_slider_w
         then (let rel1 = (if touchX - spage_slider_x < 0 then 0 else touchX - spage_slider_x);
                   rel = (if rel1 > spage_slider_w then spage_slider_w else rel1)
               in Some (a\<lparr>settingsWorking := work\<lparr>at_max := applyMaxEndSnap (c_div (rel * 100) spage_slider_w)\<rparr>\<rparr>))
         else if in_rect spage_prev touchX touchY \<or> in_rect spage_next touchX touchY then
           do { count \<leftarrow> effectiveBindingCount a dev port;
                if in_rect spage_prev touchX touchY \<and> count > 1 \<and> idx > 0 then settings_page_to dev port idx (idx - 1) a
                else if in_rect spage_next touchX touchY \<and> count > 1 \<and> idx < count - 1
                then settings_page_to dev port idx (idx + 1) a
                else Some a }
         else if in_rect spage_add touchX touchY then
           do { count \<leftarrow> effectiveBindingCount a dev port;
                if count \<ge> int mkh_max_bindings_per_port then Some a
                else goToPage now PAGE_EDIT_CAPTURE ((no_capture a)\<lparr>settingsBackToCapture := True\<rparr>) }
         else if in_rect spage_remove touchX touchY then settings_remove now backTarget dev port idx a
         else if in_rect spage_back touchX touchY then
           (if settingsWorking a \<noteq> settingsBaseline a then Some (a\<lparr>settingsPromptActive := True\<rparr>)
            else goToPage now backTarget a)
         else if in_rect spage_reset touchX touchY then settings_reset L dev port a
         else if in_rect spage_save touchX touchY then
           do { a1 \<leftarrow> commitShown dev port idx a; performSaveAndExit L now a1 }
         else Some a)"

end
