(* ===== verification/Editor_Laws.thy ===== *)
theory Editor_Laws
  imports Editor Storage_Laws Drive_Machines
begin

text \<open>
  The editor's invariant and what it gives: the effective view of every port (\<open>eff\<close>) is the
  abstract state of a session; each lemma says how one operation changes it. Every tap keeps the
  invariant, and the one tap that can leave the arrays is characterised exactly.
\<close>

section \<open>The effective view\<close>

definition eff :: "'fs app \<Rightarrow> int \<Rightarrow> int \<Rightarrow> mkh_binding list" where
  "eff a dev port =
     (let pe = pendingEdits a ! nat dev ! nat port in if dirty pe then edits pe else live_bindings a dev port)"

definition binds_ok :: "mkh_binding list \<Rightarrow> bool" where
  "binds_ok bs \<longleftrightarrow> length bs \<le> mkh_max_bindings_per_port \<and> list_all binding_ok bs"

definition hub_valid :: "int \<Rightarrow> bool" where "hub_valid dev \<longleftrightarrow> 0 \<le> dev \<and> dev < 3"

definition channel_valid :: "int \<Rightarrow> bool" where "channel_valid port \<longleftrightarrow> 0 \<le> port \<and> port < 6"

definition shape :: "'fs app \<Rightarrow> bool" where
  "shape a \<longleftrightarrow> length (pendingEdits a) = 3 \<and> list_all (\<lambda>row. length row = 6) (pendingEdits a)"

lemma valid_nat: "hub_valid d \<Longrightarrow> nat d < 3" "channel_valid p \<Longrightarrow> nat p < 6"
  by (auto simp: hub_valid_def channel_valid_def)

lemma shapeD: "shape a \<Longrightarrow> i < 3 \<Longrightarrow> length (pendingEdits a ! i) = 6"
  by (simp add: shape_def list_all_length)

lemma pending_at_eq:
  "shape a \<Longrightarrow> hub_valid dev \<Longrightarrow> channel_valid port \<Longrightarrow>
   pending_at a dev port = Some (pendingEdits a ! nat dev ! nat port)"
  using shapeD [of a "nat dev"] valid_nat(1) [of dev]
  by (simp add: pending_at_def arr_get_def hub_valid_def channel_valid_def shape_def)

lemma live_bindings_eq:
  "hub_valid dev \<Longrightarrow> channel_valid port \<Longrightarrow> live_bindings a dev port = bindings (port_at (live a) (nat dev) (nat port))"
  by (simp add: live_bindings_def mkh_config_get_def hub_valid_def channel_valid_def mkh_mk6_num_devices_def
      mkh_mk6_num_channels_def)

lemma count_eq:
  "shape a \<Longrightarrow> hub_valid dev \<Longrightarrow> channel_valid port \<Longrightarrow>
   effectiveBindingCount a dev port = Some (int (length (eff a dev port)))"
  by (simp add: effectiveBindingCount_def pending_at_eq eff_def Let_def)

lemma effective_eq:
  "shape a \<Longrightarrow> hub_valid dev \<Longrightarrow> channel_valid port \<Longrightarrow> effectiveBinding a dev port idx = arr_get (eff a dev port) idx"
  by (simp add: effectiveBinding_def pending_at_eq eff_def Let_def)

definition put_pending :: "int \<Rightarrow> int \<Rightarrow> PendingPortEdit \<Rightarrow> 'fs app \<Rightarrow> 'fs app" where
  "put_pending dev port pe a =
     a\<lparr>pendingEdits := (pendingEdits a)[nat dev := (pendingEdits a ! nat dev)[nat port := pe]]\<rparr>"

lemma set_pending_eq:
  "shape a \<Longrightarrow> hub_valid dev \<Longrightarrow> channel_valid port \<Longrightarrow> set_pending dev port pe a = Some (put_pending dev port pe a)"
  using shapeD [of a "nat dev"] valid_nat(1) [of dev]
  by (simp add: set_pending_def put_pending_def arr_get_def arr_set_def hub_valid_def channel_valid_def shape_def)

lemma put_pending_at:
  assumes "shape a" "hub_valid dev" "channel_valid port" "hub_valid d" "channel_valid p"
  shows "pendingEdits (put_pending dev port pe a) ! nat d ! nat p =
    (if d = dev \<and> p = port then pe else pendingEdits a ! nat d ! nat p)"
  using assms shapeD [OF assms(1), of "nat dev"]
  by (auto simp: put_pending_def hub_valid_def channel_valid_def shape_def nth_list_update)

text \<open>The session part of the invariant, and the part that depends on the page.\<close>

definition slots_ok :: "slot_table \<Rightarrow> bool" where
  "slots_ok tb \<longleftrightarrow> length tb = 3 \<and> (\<forall>d<3. length (tb ! d) = 6 \<and> (\<forall>p<6. length (tb ! d ! p) = 8))"

definition sess_ok :: "'fs app \<Rightarrow> bool" where
  "sess_ok a \<longleftrightarrow> shape a \<and> config_ok (live a) \<and> slots_ok (slots a) \<and>
     list_all (list_all (\<lambda>pe. dirty pe \<longrightarrow> binds_ok (edits pe))) (pendingEdits a) \<and>
     at_max (settingsWorking a) \<le> 100 \<and> at_max (settingsBaseline a) \<le> 100 \<and>
     (capture_valid (editCtx a) \<longrightarrow> captured_input (editCtx a) \<noteq> MKH_INPUT_NONE)"

abbreviation cur_dev :: "'fs app \<Rightarrow> int" where "cur_dev a \<equiv> selected_device (editCtx a)"
abbreviation cur_port :: "'fs app \<Rightarrow> int" where "cur_port a \<equiv> selected_port (editCtx a)"
abbreviation cur_idx :: "'fs app \<Rightarrow> int" where "cur_idx a \<equiv> editing_binding_index (editCtx a)"
abbreviation cur_count :: "'fs app \<Rightarrow> int" where "cur_count a \<equiv> int (length (eff a (cur_dev a) (cur_port a)))"

definition port_focus :: "'fs app \<Rightarrow> bool" where
  "port_focus a \<longleftrightarrow> hub_valid (cur_dev a) \<and> channel_valid (cur_port a)"

definition page_ok :: "'fs app \<Rightarrow> bool" where
  "page_ok a =
     (case currentPage a of
        PAGE_EDIT_PORTS \<Rightarrow> hub_valid (cur_dev a)
      | PAGE_EDIT_CAPTURE \<Rightarrow> port_focus a \<and> (0 \<le> cur_idx a \<and> cur_idx a < cur_count a \<or> cur_idx a = 0) \<and>
          (captureReplaceAddPromptActive a \<longrightarrow> capture_valid (editCtx a) \<and> 0 < cur_count a)
      | PAGE_EDIT_SETTINGS \<Rightarrow> port_focus a \<and>
          (0 \<le> cur_idx a \<and> cur_idx a < cur_count a \<and> capture_valid (editCtx a) \<or> cur_count a = 0 \<and> cur_idx a = 0)
      | _ \<Rightarrow> True)"

definition ed_ok :: "'fs app \<Rightarrow> bool" where
  "ed_ok a \<longleftrightarrow> sess_ok a \<and> page_ok a"

lemma sess_okD:
  assumes "sess_ok a"
  shows "shape a" "config_ok (live a)" "at_max (settingsWorking a) \<le> 100" "at_max (settingsBaseline a) \<le> 100"
    "capture_valid (editCtx a) \<Longrightarrow> captured_input (editCtx a) \<noteq> MKH_INPUT_NONE"
    "slots_ok (slots a)"
  using assms by (auto simp: sess_ok_def)

lemma live_ok: "config_ok (live a) \<Longrightarrow> hub_valid d \<Longrightarrow> channel_valid p \<Longrightarrow> binds_ok (live_bindings a d p)"
  using config_ok_port [of "live a" "nat d" "nat p"] valid_nat
  by (simp add: live_bindings_eq binds_ok_def port_ok_def)

lemma pending_ok:
  "sess_ok a \<Longrightarrow> hub_valid d \<Longrightarrow> channel_valid p \<Longrightarrow> dirty (pendingEdits a ! nat d ! nat p) \<Longrightarrow>
   binds_ok (edits (pendingEdits a ! nat d ! nat p))"
  using shapeD [of a "nat d"] valid_nat by (simp add: sess_ok_def list_all_length shape_def)

lemma eff_ok: "sess_ok a \<Longrightarrow> hub_valid d \<Longrightarrow> channel_valid p \<Longrightarrow> binds_ok (eff a d p)"
  using pending_ok [of a d p] live_ok [of a d p] by (auto simp: eff_def Let_def sess_ok_def)

lemma eff_cong:
  "pendingEdits b = pendingEdits a \<Longrightarrow> live b = live a \<Longrightarrow> eff b = eff a"
  by (intro ext) (simp add: eff_def live_bindings_def Let_def)

lemma sess_ok_cong:
  "pendingEdits b = pendingEdits a \<Longrightarrow> live b = live a \<Longrightarrow> settingsWorking b = settingsWorking a \<Longrightarrow>
   settingsBaseline b = settingsBaseline a \<Longrightarrow> editCtx b = editCtx a \<Longrightarrow> slots b = slots a \<Longrightarrow> sess_ok b = sess_ok a"
  by (simp add: sess_ok_def shape_def)

lemma eff_put:
  assumes "shape a" "hub_valid dev" "channel_valid port" "hub_valid d" "channel_valid p" "dirty pe"
  shows "eff (put_pending dev port pe a) d p = (if d = dev \<and> p = port then edits pe else eff a d p)"
  using put_pending_at [OF assms(1-5), of pe] assms(6)
  by (simp add: eff_def Let_def) (simp add: live_bindings_def put_pending_def)

lemma put_pending_fields [simp]:
  "live (put_pending dev port pe a) = live a" "editCtx (put_pending dev port pe a) = editCtx a"
  "currentPage (put_pending dev port pe a) = currentPage a"
  "settingsWorking (put_pending dev port pe a) = settingsWorking a"
  "settingsBaseline (put_pending dev port pe a) = settingsBaseline a"
  "disk (put_pending dev port pe a) = disk a" "slots (put_pending dev port pe a) = slots a"
  "settingsBackToCapture (put_pending dev port pe a) = settingsBackToCapture a"
  by (simp_all add: put_pending_def)

lemma sess_ok_put:
  assumes "sess_ok a" "dirty pe \<longrightarrow> binds_ok (edits pe)"
  shows "sess_ok (put_pending dev port pe a)"
proof -
  let ?P = "\<lambda>pe. dirty pe \<longrightarrow> binds_ok (edits pe)"
  have ok: "list_all (list_all ?P) (pendingEdits a)" "list_all (\<lambda>row. length row = 6) (pendingEdits a)"
    using assms(1) by (simp_all add: sess_ok_def shape_def)
  have "list_all (list_all ?P) (pendingEdits (put_pending dev port pe a))"
    unfolding put_pending_def using ok(1) assms(2) by (auto intro!: list_all_update dest: list_all_nth)
  moreover have "shape (put_pending dev port pe a)"
    unfolding put_pending_def shape_def using assms(1) ok(2)
    by (auto simp: sess_ok_def shape_def intro!: list_all_update dest: list_all_nth)
  ultimately show ?thesis using assms(1) by (simp add: sess_ok_def)
qed

section \<open>Committing the session\<close>

definition untouched :: "'fs app \<Rightarrow> 'fs app \<Rightarrow> bool" where
  "untouched a b \<longleftrightarrow> live b = live a \<and> slots b = slots a \<and> disk b = disk a"

lemma untouched_trans: "untouched a b \<Longrightarrow> untouched b c \<Longrightarrow> untouched a c"
  by (simp add: untouched_def)

text \<open>Everything but the live table, the latch state and the disk.\<close>

definition same_ui :: "'fs app \<Rightarrow> 'fs app \<Rightarrow> bool" where
  "same_ui a b \<longleftrightarrow> b\<lparr>live := live a, slots := slots a, disk := disk a\<rparr> = a"

lemma same_uiD:
  assumes "same_ui a b"
  shows "currentPage b = currentPage a" "editCtx b = editCtx a" "pendingEdits b = pendingEdits a"
    "settingsWorking b = settingsWorking a" "settingsBaseline b = settingsBaseline a"
    "captureReplaceAddPromptActive b = captureReplaceAddPromptActive a" "testActive b = testActive a"
    "exitPromptActive b = exitPromptActive a" "settingsPromptActive b = settingsPromptActive a"
    "capturePromptActive b = capturePromptActive a" "settingsBackToCapture b = settingsBackToCapture a"
    "resetAllPromptActive b = resetAllPromptActive a"
  using arg_cong [OF assms [unfolded same_ui_def], of currentPage] arg_cong [OF assms [unfolded same_ui_def], of editCtx]
    arg_cong [OF assms [unfolded same_ui_def], of pendingEdits] arg_cong [OF assms [unfolded same_ui_def], of settingsWorking]
    arg_cong [OF assms [unfolded same_ui_def], of settingsBaseline]
    arg_cong [OF assms [unfolded same_ui_def], of captureReplaceAddPromptActive]
    arg_cong [OF assms [unfolded same_ui_def], of testActive]
    arg_cong [OF assms [unfolded same_ui_def], of exitPromptActive]
    arg_cong [OF assms [unfolded same_ui_def], of settingsPromptActive]
    arg_cong [OF assms [unfolded same_ui_def], of capturePromptActive]
    arg_cong [OF assms [unfolded same_ui_def], of settingsBackToCapture]
    arg_cong [OF assms [unfolded same_ui_def], of resetAllPromptActive]
  by simp_all

lemma same_ui_refl [simp]: "same_ui a a"
  by (simp add: same_ui_def)

lemma same_ui_trans: "same_ui a b \<Longrightarrow> same_ui b c \<Longrightarrow> same_ui a c"
proof -
  assume ab: "same_ui a b" and bc: "same_ui b c"
  have "c\<lparr>live := live a, slots := slots a, disk := disk a\<rparr> =
      (c\<lparr>live := live b, slots := slots b, disk := disk b\<rparr>)\<lparr>live := live a, slots := slots a, disk := disk a\<rparr>"
    by simp
  also have "\<dots> = b\<lparr>live := live a, slots := slots a, disk := disk a\<rparr>" by (simp only: bc [unfolded same_ui_def])
  also have "\<dots> = a" using ab by (simp only: same_ui_def)
  finally show ?thesis by (simp only: same_ui_def)
qed

lemma sess_ok_same_ui: "same_ui a b \<Longrightarrow> config_ok (live b) \<Longrightarrow> slots_ok (slots b) \<Longrightarrow> sess_ok a \<Longrightarrow> sess_ok b"
  by (simp add: sess_ok_def shape_def same_uiD)

lemma set_port_bindings_at:
  assumes "config_ok cfg" "d < 3" "p < 6" "binds_ok bs"
  shows "config_ok (mkh_config_set_port_bindings (int d) (int p) bs (int (length bs)) cfg)"
    "port_at (mkh_config_set_port_bindings (int d) (int p) bs (int (length bs)) cfg) d' p' =
      (if d' = d \<and> p' = p then \<lparr>bindings = bs, from_file = True\<rparr> else port_at cfg d' p')"
  using assms
  by (auto simp: mkh_config_set_port_bindings_def mkh_mk6_num_devices_def mkh_mk6_num_channels_def binds_ok_def
      port_at_set_port port_ok_def intro!: config_ok_set_port)

text \<open>Clearing state keeps the shape of the table.\<close>

lemma slots_ok_set:
  assumes "slots_ok tb" "length ss = 8"
  shows "slots_ok (tb[d := (tb ! d)[p := ss]])"
proof (cases "d < length tb")
  case True
  have "length (((tb ! d)[p := ss]) ! q) = 8" if "q < 6" for q
    using that True assms by (cases "p = q") (simp_all add: slots_ok_def)
  then show ?thesis using assms True by (auto simp: slots_ok_def nth_list_update)
qed (use assms in \<open>simp add: list_update_beyond\<close>)

lemma slots_ok_clear_port: "slots_ok tb \<Longrightarrow> slots_ok (clearLatchStateForPort d p tb)"
  by (simp add: clearLatchStateForPort_def slots_ok_set mkh_max_bindings_per_port_def)

lemma slots_ok_clear_device: "slots_ok tb \<Longrightarrow> slots_ok (clearLatchStateForDevice d tb)"
  unfolding clearLatchStateForDevice_def by (rule fold_invariant_prop [where P = slots_ok]) (auto intro: slots_ok_clear_port)

lemma slots_ok_clear_all: "slots_ok tb \<Longrightarrow> slots_ok (clearAllLatchState tb)"
  unfolding clearAllLatchState_def by (rule fold_invariant_prop [where P = slots_ok]) (auto intro: slots_ok_clear_device)

lemma push_port_facts:
  assumes "sess_ok a" "d < 3" "p < 6"
  shows "slots_ok (slots (push_port (d, p) a))"
    "same_ui a (push_port (d, p) a)" "config_ok (live (push_port (d, p) a))" "disk (push_port (d, p) a) = disk a"
    "d' < 3 \<Longrightarrow> p' < 6 \<Longrightarrow> bindings (port_at (live (push_port (d, p) a)) d' p') =
      (if d' = d \<and> p' = p then eff a (int d) (int p) else bindings (port_at (live a) d' p'))"
proof -
  let ?pe = "pendingEdits a ! d ! p"
  have v: "hub_valid (int d)" "channel_valid (int p)" using assms(2,3) by (simp_all add: hub_valid_def channel_valid_def)
  have "dirty ?pe \<Longrightarrow> binds_ok (edits ?pe)" using pending_ok [OF assms(1) v] by simp
  then show "slots_ok (slots (push_port (d, p) a))"
    "same_ui a (push_port (d, p) a)" "config_ok (live (push_port (d, p) a))" "disk (push_port (d, p) a) = disk a"
    "d' < 3 \<Longrightarrow> p' < 6 \<Longrightarrow> bindings (port_at (live (push_port (d, p) a)) d' p') =
      (if d' = d \<and> p' = p then eff a (int d) (int p) else bindings (port_at (live a) d' p'))"
    using assms set_port_bindings_at [of "live a" d p "edits ?pe"] sess_okD(2,6) [OF assms(1)]
    by (auto intro: slots_ok_clear_port simp: push_port_def Let_def same_ui_def eff_def live_bindings_eq v)
qed

lemma push_ports:
  assumes "sess_ok a" "\<forall>(d, p) \<in> set ps. d < 3 \<and> p < 6"
  shows "slots_ok (slots (fold push_port ps a)) \<and> same_ui a (fold push_port ps a) \<and> config_ok (live (fold push_port ps a)) \<and> disk (fold push_port ps a) = disk a \<and>
    (\<forall>d p. d < 3 \<longrightarrow> p < 6 \<longrightarrow> bindings (port_at (live (fold push_port ps a)) d p) =
      (if (d, p) \<in> set ps then eff a (int d) (int p) else bindings (port_at (live a) d p)))"
  using assms(2)
proof (induction ps rule: rev_induct)
  case Nil
  then show ?case using assms(1) by (simp add: sess_ok_def)
next
  case (snoc dp ps)
  obtain d p where dp: "dp = (d, p)" "d < 3" "p < 6" using snoc.prems by (cases dp) auto
  let ?b = "fold push_port ps a"
  have IH0: "slots_ok (slots ?b)" using snoc by auto
  have IH: "same_ui a ?b" "config_ok (live ?b)" "disk ?b = disk a"
    "\<And>d p. d < 3 \<Longrightarrow> p < 6 \<Longrightarrow> bindings (port_at (live ?b) d p) =
      (if (d, p) \<in> set ps then eff a (int d) (int p) else bindings (port_at (live a) d p))"
    using snoc by auto
  have ok: "sess_ok ?b" by (rule sess_ok_same_ui [OF IH(1,2) IH0 assms(1)])
  have "eff ?b (int d) (int p) = eff a (int d) (int p)"
    using IH(4) dp same_uiD(3) [OF IH(1)]
    by (auto simp: eff_def Let_def live_bindings_eq hub_valid_def channel_valid_def)
  then show ?case
    using push_port_facts [OF ok dp(2,3)] IH same_ui_trans [OF IH(1)] by (auto simp: dp(1))
qed

lemma all_ports_mem: "(d, p) \<in> set all_ports \<longleftrightarrow> d < 3 \<and> p < 6"
  by (auto simp: all_ports_def image_iff)

text \<open>Pushing makes the live table the effective view, and the effective view stays.\<close>

lemma push_session:
  assumes "sess_ok a"
  shows "same_ui a (pushPendingSessionToLiveTable a)" "sess_ok (pushPendingSessionToLiveTable a)"
    "disk (pushPendingSessionToLiveTable a) = disk a"
    "hub_valid d \<Longrightarrow> channel_valid p \<Longrightarrow> live_bindings (pushPendingSessionToLiveTable a) d p = eff a d p"
    "hub_valid d \<Longrightarrow> channel_valid p \<Longrightarrow> eff (pushPendingSessionToLiveTable a) d p = eff a d p"
proof -
  have "\<forall>(d, p) \<in> set all_ports. d < 3 \<and> p < 6" using all_ports_mem by auto
  note P = push_ports [OF assms this, folded pushPendingSessionToLiveTable_def]
  show u: "same_ui a (pushPendingSessionToLiveTable a)" "disk (pushPendingSessionToLiveTable a) = disk a"
    using P all_ports_mem by auto
  show "sess_ok (pushPendingSessionToLiveTable a)"
    using sess_ok_same_ui [OF u(1) _ _ assms] P all_ports_mem by auto
  show l: "live_bindings (pushPendingSessionToLiveTable a) d p = eff a d p" if "hub_valid d" "channel_valid p" for d p
    using P all_ports_mem that valid_nat(1) [of d] valid_nat(2) [of p]
    by (auto simp: live_bindings_eq hub_valid_def channel_valid_def)
  show "eff (pushPendingSessionToLiveTable a) d p = eff a d p" if "hub_valid d" "channel_valid p"
    using l [OF that] same_uiD(3) [OF u(1)] by (simp add: eff_def Let_def)
qed

lemma clear_pending:
  assumes "shape a" "hub_valid d" "channel_valid p"
  shows "eff (clearPendingSession a) d p = live_bindings a d p"
  using assms shapeD [OF assms(1), of "nat d"] valid_nat(1) [of d] valid_nat(2) [of p]
  by (simp add: eff_def Let_def clearPendingSession_def shape_def channel_valid_def live_bindings_def)

lemma sess_ok_clear_pending: "sess_ok a \<Longrightarrow> sess_ok (clearPendingSession a)"
  by (auto simp: sess_ok_def clearPendingSession_def shape_def list_all_iff)

lemma clear_session:
  assumes "sess_ok a"
  shows "sess_ok (clearEditorSession a)" "untouched a (clearEditorSession a)"
    "currentPage (clearEditorSession a) = currentPage a"
proof -
  have "sess_ok (clearEditContext a)" using assms by (simp add: sess_ok_def shape_def clearEditContext_def)
  from sess_ok_clear_pending [OF this] show "sess_ok (clearEditorSession a)"
    unfolding clearEditorSession_def by (subst sess_ok_cong [of _ "clearPendingSession (clearEditContext a)"]) simp_all
qed (simp_all add: untouched_def clearEditorSession_def clearPendingSession_def clearEditContext_def)

lemma clear_context: "sess_ok a \<Longrightarrow> sess_ok (clearEditContext a) \<and> untouched a (clearEditContext a)"
  by (simp add: sess_ok_def shape_def clearEditContext_def untouched_def)

lemma test_tap:
  assumes "sess_ok a"
  shows "sess_ok (handleTestToggleTap a)"
    "currentPage (handleTestToggleTap a) = currentPage a" "editCtx (handleTestToggleTap a) = editCtx a"
    "captureReplaceAddPromptActive (handleTestToggleTap a) = captureReplaceAddPromptActive a"
    "hub_valid d \<Longrightarrow> channel_valid p \<Longrightarrow> eff (handleTestToggleTap a) d p = eff a d p"
proof -
  let ?a = "a\<lparr>testActive := \<not> testActive a\<rparr>"
  have ok: "sess_ok ?a" using assms by (subst sess_ok_cong [of _ a]) simp_all
  have e: "eff ?a = eff a" by (rule eff_cong) simp_all
  note P = push_session [OF ok]
  show "sess_ok (handleTestToggleTap a)"
    "currentPage (handleTestToggleTap a) = currentPage a" "editCtx (handleTestToggleTap a) = editCtx a"
    "captureReplaceAddPromptActive (handleTestToggleTap a) = captureReplaceAddPromptActive a"
    "hub_valid d \<Longrightarrow> channel_valid p \<Longrightarrow> eff (handleTestToggleTap a) d p = eff a d p"
    using ok P(2) P(5) same_uiD [OF P(1)] e by (cases "testActive a"; simp add: handleTestToggleTap_def Let_def)+
qed

lemma save_live_facts:
  assumes "sess_ok a"
  shows "sess_ok (save_live L a)" "hub_valid d \<Longrightarrow> channel_valid p \<Longrightarrow> live_bindings (save_live L a) d p = live_bindings a d p"
    "same_ui a (save_live L a)"
proof -
  obtain ok cfg fs where s: "mkh_storage_save_config L (live a, disk a) = (ok, cfg, fs)" using prod_cases3 by blast
  have c: "cfg = live a \<or> cfg = mkh_config_note_source True (live a)"
    using s by (auto simp: mkh_storage_save_config_def split: prod.splits if_splits)
  have u: "same_ui a (save_live L a)" by (simp add: save_live_def s same_ui_def)
  show "same_ui a (save_live L a)" by (rule u)
  have "config_ok cfg" using c sess_okD(2) [OF assms] by auto
  then show "sess_ok (save_live L a)" by (intro sess_ok_same_ui [OF u _ _ assms]) (simp_all add: save_live_def s sess_okD(6) [OF assms])
  show "hub_valid d \<Longrightarrow> channel_valid p \<Longrightarrow> live_bindings (save_live L a) d p = live_bindings a d p"
    using c by (auto simp: live_bindings_eq save_live_def s)
qed

end
