(* ===== verification/Editor_Safety.thy ===== *)
theory Editor_Safety
  imports Editor_Laws
begin

text \<open>
  Every tap on the four editor pages keeps the editor's invariant and stays inside the arrays,
  with one exception: ADD on the capture page for a port whose eight slots are taken.
\<close>

section \<open>Navigation\<close>

lemma sess_ok_upd [simp]:
  "sess_ok (a\<lparr>currentPage := pg\<rparr>) = sess_ok a"
  "sess_ok (a\<lparr>lastTouchActivityMs := t\<rparr>) = sess_ok a"
  "sess_ok (a\<lparr>idleEnteredMs := t\<rparr>) = sess_ok a"
  "sess_ok (a\<lparr>idleSleepHoldActive := c\<rparr>) = sess_ok a"
  "sess_ok (a\<lparr>idleSleepHoldStartMs := t\<rparr>) = sess_ok a"
  "sess_ok (a\<lparr>settingsBackToCapture := c\<rparr>) = sess_ok a"
  "sess_ok (a\<lparr>testActive := c\<rparr>) = sess_ok a"
  "sess_ok (a\<lparr>exitPromptActive := c\<rparr>) = sess_ok a"
  "sess_ok (a\<lparr>resetAllPromptActive := c\<rparr>) = sess_ok a"
  "sess_ok (a\<lparr>capturePromptActive := c\<rparr>) = sess_ok a"
  "sess_ok (a\<lparr>captureReplaceAddPromptActive := c\<rparr>) = sess_ok a"
  "sess_ok (a\<lparr>settingsPromptActive := c\<rparr>) = sess_ok a"
  by (simp_all add: sess_ok_def shape_def)

lemma eff_upd [simp]:
  "eff (a\<lparr>currentPage := pg\<rparr>) = eff a"
  "eff (a\<lparr>lastTouchActivityMs := t\<rparr>) = eff a"
  "eff (a\<lparr>idleEnteredMs := t\<rparr>) = eff a"
  "eff (a\<lparr>idleSleepHoldActive := c\<rparr>) = eff a"
  "eff (a\<lparr>idleSleepHoldStartMs := t\<rparr>) = eff a"
  "eff (a\<lparr>editCtx := ctx\<rparr>) = eff a"
  "eff (a\<lparr>settingsBackToCapture := c\<rparr>) = eff a"
  "eff (a\<lparr>testActive := c\<rparr>) = eff a"
  "eff (a\<lparr>exitPromptActive := c\<rparr>) = eff a"
  "eff (a\<lparr>resetAllPromptActive := c\<rparr>) = eff a"
  "eff (a\<lparr>capturePromptActive := c\<rparr>) = eff a"
  "eff (a\<lparr>captureReplaceAddPromptActive := c\<rparr>) = eff a"
  "eff (a\<lparr>settingsPromptActive := c\<rparr>) = eff a"
  "eff (a\<lparr>settingsWorking := w\<rparr>) = eff a"
  "eff (a\<lparr>settingsBaseline := w\<rparr>) = eff a"
  "eff (a\<lparr>slots := tb\<rparr>) = eff a"
  by (rule eff_cong; simp)+

lemma sess_ok_ctxI:
  "sess_ok a \<Longrightarrow> (capture_valid ctx \<Longrightarrow> captured_input ctx \<noteq> MKH_INPUT_NONE) \<Longrightarrow> sess_ok (a\<lparr>editCtx := ctx\<rparr>)"
  by (simp add: sess_ok_def shape_def)

lemma go_dashboard:
  "sess_ok a \<Longrightarrow> succeeds (goToPage now PAGE_DASHBOARD a) (\<lambda>b. ed_ok b \<and> untouched a b)"
  by (simp add: goToPage_def initDashboard_def ed_ok_def page_ok_def untouched_def Let_def)

lemma go_select:
  "sess_ok a \<Longrightarrow> succeeds (goToPage now PAGE_EDIT_SELECT a) (\<lambda>b. ed_ok b \<and> untouched a b)"
  by (simp add: goToPage_def drawHubSelect_def ed_ok_def page_ok_def untouched_def Let_def)

lemma go_ports:
  assumes "sess_ok a" "hub_valid (cur_dev a)"
  shows "succeeds (goToPage now PAGE_EDIT_PORTS a) (\<lambda>b. ed_ok b \<and> untouched a b)"
proof -
  have "effectiveBindingCount (a\<lparr>currentPage := PAGE_EDIT_PORTS\<rparr>) (cur_dev a) p \<noteq> None" if "p \<in> {0..5}" for p
    using that assms by (subst count_eq) (auto simp: sess_ok_def shape_def channel_valid_def)
  then have "list_all (\<lambda>p. effectiveBindingCount (a\<lparr>currentPage := PAGE_EDIT_PORTS\<rparr>) (cur_dev a) p \<noteq> None) [0..5]"
    by (simp add: list_all_iff)
  then show ?thesis
    using assms by (simp add: goToPage_def drawPortSelect_def ed_ok_def page_ok_def untouched_def Let_def)
qed

lemma go_capture:
  "sess_ok a \<Longrightarrow> port_focus a \<Longrightarrow> 0 \<le> cur_idx a \<and> cur_idx a < cur_count a \<or> cur_idx a = 0 \<Longrightarrow>
   succeeds (goToPage now PAGE_EDIT_CAPTURE a) (\<lambda>b. ed_ok b \<and> untouched a b)"
  by (simp add: goToPage_def ed_ok_def page_ok_def untouched_def Let_def port_focus_def)

lemma draw_settings:
  "shape a \<Longrightarrow> port_focus a \<Longrightarrow> drawSettingsPage a = Some (a\<lparr>settingsPromptActive := False\<rparr>)"
  by (simp add: drawSettingsPage_def pending_at_eq port_focus_def)

lemma arr_get_int: "0 \<le> i \<Longrightarrow> i < int (length xs) \<Longrightarrow> arr_get xs i = Some (xs ! nat i)"
  by (simp add: arr_get_def)

lemma arr_set_int: "0 \<le> i \<Longrightarrow> i < int (length xs) \<Longrightarrow> arr_set xs i x = Some (xs[nat i := x])"
  by (simp add: arr_set_def)

lemma binds_ok_update: "binds_ok bs \<Longrightarrow> binding_ok b \<Longrightarrow> binds_ok (bs[i := b])"
  by (simp add: binds_ok_def list_all_update)

lemma binds_ok_nth: "binds_ok bs \<Longrightarrow> i < length bs \<Longrightarrow> binding_ok (bs ! i)"
  by (simp add: binds_ok_def list_all_nth)

lemma attributes_max: "at_max (attributes_of b) = b_max_percent b"
  by (simp add: attributes_of_def)

text \<open>What entering the settings page leaves behind: the binding under the index, its attributes shown.\<close>

lemma shown_ok:
  assumes "sess_ok a" "port_focus a" "dirty pe \<longrightarrow> binds_ok (edits pe)" "binding_ok b"
    and eff: "eff (put_pending (cur_dev a) (cur_port a) pe a) (cur_dev a) (cur_port a) = bs"
    and idx: "0 \<le> cur_idx a" "cur_idx a < int (length bs)" and pg: "currentPage a = PAGE_EDIT_SETTINGS"
  shows "succeeds (drawSettingsPage ((put_pending (cur_dev a) (cur_port a) pe a)
      \<lparr>settingsWorking := attributes_of b, settingsBaseline := attributes_of b,
       editCtx := (editCtx a)\<lparr>captured_input := b_input b, capture_valid := (b_input b \<noteq> MKH_INPUT_NONE)\<rparr>\<rparr>))
    (\<lambda>c. ed_ok c \<and> untouched a c)"
proof -
  let ?p = "put_pending (cur_dev a) (cur_port a) pe a"
  let ?c = "?p\<lparr>settingsWorking := attributes_of b, settingsBaseline := attributes_of b,
       editCtx := (editCtx a)\<lparr>captured_input := b_input b, capture_valid := (b_input b \<noteq> MKH_INPUT_NONE)\<rparr>\<rparr>"
  have p: "sess_ok ?p" by (rule sess_ok_put [OF assms(1,3)])
  have c: "sess_ok ?c" using p assms(4) by (simp add: sess_ok_def shape_def attributes_max binding_ok_def)
  then have "drawSettingsPage ?c = Some (?c\<lparr>settingsPromptActive := False\<rparr>)"
    using assms(2) by (intro draw_settings) (simp_all add: sess_ok_def port_focus_def)
  then show ?thesis
    using c assms(2,4) idx eff pg
    by (simp add: ed_ok_def page_ok_def untouched_def port_focus_def binding_ok_def)
qed

lemma new_binding_ok: "i \<noteq> MKH_INPUT_NONE \<Longrightarrow> binding_ok (new_binding\<lparr>b_input := i\<rparr>)"
  by (simp add: new_binding_def binding_ok_def)

lemma enter_settings:
  assumes ok: "sess_ok a" and foc: "port_focus a" and pg: "currentPage a = PAGE_EDIT_SETTINGS"
    and idx: "0 \<le> cur_idx a \<and> cur_idx a < cur_count a \<or>
      cur_idx a = cur_count a \<and> cur_count a < 8 \<and> capture_valid (editCtx a)"
  shows "succeeds (enterSettings a) (\<lambda>b. ed_ok b \<and> untouched a b)"
proof -
  let ?d = "cur_dev a" and ?p = "cur_port a" and ?i = "cur_idx a" and ?ci = "captured_input (editCtx a)"
  let ?pe = "pendingEdits a ! nat ?d ! nat ?p" and ?bs = "eff a ?d ?p"
  have sh: "shape a" and v: "hub_valid ?d" "channel_valid ?p" using ok foc by (auto simp: sess_ok_def port_focus_def)
  have bs: "(if dirty ?pe then edits ?pe else live_bindings a ?d ?p) = ?bs" by (simp add: eff_def Let_def)
  have eb: "\<not> dirty ?pe \<Longrightarrow> live_bindings a ?d ?p = ?bs" by (simp add: eff_def Let_def)
  have bok: "binds_ok ?bs" by (rule eff_ok [OF ok v])
  have put: "eff (put_pending ?d ?p \<lparr>dirty = c, edits = bs'\<rparr> a) ?d ?p = (if c then bs' else live_bindings a ?d ?p)" for c bs'
    using put_pending_at [OF sh v v, of "\<lparr>dirty = c, edits = bs'\<rparr>"]
    by (simp add: eff_def Let_def) (simp add: live_bindings_def put_pending_def)
  show ?thesis
  proof (cases "?i < cur_count a")
    case True
    with idx have i: "0 \<le> ?i" by auto
    let ?b0 = "?bs ! nat ?i"
    let ?cap = "capture_valid (editCtx a) \<and> ?ci \<noteq> b_input ?b0"
    define b where "b = (if ?cap then ?b0\<lparr>b_input := ?ci\<rparr> else ?b0)"
    define bs' where "bs' = (if ?cap then ?bs[nat ?i := b] else ?bs)"
    have n: "nat ?i < length ?bs" using True i by simp
    have b: "binding_ok b" using binds_ok_nth [OF bok n] sess_okD(5) [OF ok] by (auto simp: b_def binding_ok_def)
    have "binds_ok bs'" using bok b by (simp add: bs'_def binds_ok_update)
    moreover have ev: "eff (put_pending ?d ?p \<lparr>dirty = dirty ?pe \<or> ?cap, edits = bs'\<rparr> a) ?d ?p = bs'"
      unfolding put by (simp add: bs'_def eb)
    ultimately have "succeeds (drawSettingsPage ((put_pending ?d ?p \<lparr>dirty = dirty ?pe \<or> ?cap, edits = bs'\<rparr> a)
      \<lparr>settingsWorking := attributes_of b, settingsBaseline := attributes_of b,
       editCtx := (editCtx a)\<lparr>captured_input := b_input b, capture_valid := (b_input b \<noteq> MKH_INPUT_NONE)\<rparr>\<rparr>))
      (\<lambda>c. ed_ok c \<and> untouched a c)"
      using True i by (intro shown_ok [OF ok foc _ b ev i _ pg]) (simp_all add: bs'_def)
    moreover have "enterSettings a = drawSettingsPage ((put_pending ?d ?p \<lparr>dirty = dirty ?pe \<or> ?cap, edits = bs'\<rparr> a)
      \<lparr>settingsWorking := attributes_of b, settingsBaseline := attributes_of b,
       editCtx := (editCtx a)\<lparr>captured_input := b_input b, capture_valid := (b_input b \<noteq> MKH_INPUT_NONE)\<rparr>\<rparr>)"
    proof (cases ?cap)
      case True
      show ?thesis
        unfolding enterSettings_def Let_def pending_at_eq [OF sh v] Option.bind.bind_lunit bs
        using True n i \<open>?i < cur_count a\<close>
        by (simp only: arr_get_int arr_set_int set_pending_eq [OF sh v] b_def bs'_def linorder_not_le [symmetric]
            Option.bind.bind_lunit simp_thms if_True if_False)
    next
      case False
      show ?thesis
        unfolding enterSettings_def Let_def pending_at_eq [OF sh v] Option.bind.bind_lunit bs
        using False n i \<open>?i < cur_count a\<close>
        by (simp only: arr_get_int arr_set_int set_pending_eq [OF sh v] b_def bs'_def linorder_not_le [symmetric]
            Option.bind.bind_lunit simp_thms if_True if_False)
    qed
    ultimately show ?thesis by simp
  next
    case False
    with idx have e: "?i = cur_count a" "cur_count a < 8" "capture_valid (editCtx a)" by auto
    have ci: "?ci \<noteq> MKH_INPUT_NONE" using sess_okD(5) [OF ok e(3)] .
    define b where "b = new_binding\<lparr>b_input := ?ci\<rparr>"
    have b: "binding_ok b" using new_binding_ok [OF ci] by (simp add: b_def)
    have "binds_ok (?bs @ [b])" using bok b e(2) by (simp add: binds_ok_def mkh_max_bindings_per_port_def)
    then have "succeeds (drawSettingsPage ((put_pending ?d ?p \<lparr>dirty = True, edits = ?bs @ [b]\<rparr> a)
      \<lparr>settingsWorking := attributes_of b, settingsBaseline := attributes_of b,
       editCtx := (editCtx a)\<lparr>captured_input := b_input b, capture_valid := (b_input b \<noteq> MKH_INPUT_NONE)\<rparr>\<rparr>))
      (\<lambda>c. ed_ok c \<and> untouched a c)"
      using e by (intro shown_ok [OF ok foc _ b _ _ _ pg, of _ "?bs @ [b]"]) (auto simp: put)
    moreover have "b_input new_binding = MKH_INPUT_NONE" by (simp add: new_binding_def)
    ultimately show ?thesis
      using e ci by (simp add: enterSettings_def Let_def pending_at_eq [OF sh v] bs
          set_pending_eq [OF sh v] b_def mkh_max_bindings_per_port_def)
  qed
qed

lemma enter_settings_full:
  assumes "sess_ok a" "port_focus a" "cur_idx a = cur_count a" "cur_count a = 8" "capture_valid (editCtx a)"
  shows "enterSettings a = None"
proof -
  have v: "shape a" "hub_valid (cur_dev a)" "channel_valid (cur_port a)"
    using assms(1,2) by (auto simp: sess_ok_def port_focus_def)
  have bs: "(if dirty (pendingEdits a ! nat (cur_dev a) ! nat (cur_port a))
      then edits (pendingEdits a ! nat (cur_dev a) ! nat (cur_port a)) else live_bindings a (cur_dev a) (cur_port a)) =
      eff a (cur_dev a) (cur_port a)" by (simp add: eff_def Let_def)
  show ?thesis
    using assms(3-5) sess_okD(5) [OF assms(1,5)]
    by (simp add: enterSettings_def Let_def pending_at_eq [OF v] bs mkh_max_bindings_per_port_def) (simp add: new_binding_def)
qed

section \<open>The handlers\<close>

abbreviation tap_result :: "bool \<Rightarrow> 'fs app \<Rightarrow> 'fs app option \<Rightarrow> bool" where
  "tap_result commit a r \<equiv> succeeds r (\<lambda>b. ed_ok b \<and> (commit \<or> untouched a b))"

lemma tap_quiet:
  assumes "succeeds r (\<lambda>b. ed_ok b \<and> untouched a' b)" "untouched a a'"
  shows "tap_result commit a r"
  using assms by (auto simp: untouched_def elim!: succeeds_mono)

lemma tap_commit: "succeeds r ed_ok \<Longrightarrow> commit \<Longrightarrow> tap_result commit a r"
  by (auto elim!: succeeds_mono)

lemma tap_if:
  "(c \<Longrightarrow> tap_result commit a u) \<Longrightarrow> (\<not> c \<Longrightarrow> tap_result commit a w) \<Longrightarrow> tap_result commit a (if c then u else w)"
  by simp

lemma tap_case:
  "(m = None \<Longrightarrow> tap_result commit a u) \<Longrightarrow> (\<And>i. m = Some i \<Longrightarrow> tap_result commit a (w i)) \<Longrightarrow>
   tap_result commit a (case m of None \<Rightarrow> u | Some i \<Rightarrow> w i)"
  by (cases m) simp_all

lemma tap_here: "ed_ok b \<Longrightarrow> commit \<or> untouched a b \<Longrightarrow> tap_result commit a (Some b)"
  by simp

lemma save_and_exit:
  assumes "sess_ok a"
  shows "succeeds (performSaveAndExit L now a) ed_ok"
  unfolding performSaveAndExit_def
  by (rule succeeds_mono [OF go_dashboard])
     (auto intro: clear_session save_live_facts push_session assms)

lemma wipe_ok: "config_ok cfg \<Longrightarrow> config_ok (wipe_table cfg)"
proof -
  have b: "binds_ok []" by (simp add: binds_ok_def)
  have "config_ok (fold (\<lambda>(d, p). mkh_config_set_port_bindings (int d) (int p) [] 0) ps cfg)"
    if "\<forall>(d, p) \<in> set ps. d < 3 \<and> p < 6" "config_ok cfg" for ps cfg
    using that by (induction ps arbitrary: cfg) (auto simp: set_port_bindings_at(1) [OF _ _ _ b, simplified])
  then show "config_ok cfg \<Longrightarrow> ?thesis" unfolding wipe_table_def using all_ports_mem by auto
qed

lemma test_page_ok:
  assumes "ed_ok a"
  shows "ed_ok (handleTestToggleTap a)"
proof -
  have ok: "sess_ok a" and pg: "page_ok a" using assms by (simp_all add: ed_ok_def)
  note T = test_tap [OF ok]
  have "port_focus a \<Longrightarrow> eff (handleTestToggleTap a) (cur_dev a) (cur_port a) = eff a (cur_dev a) (cur_port a)"
    by (rule T(5)) (simp_all add: port_focus_def)
  then have "page_ok (handleTestToggleTap a)"
    using pg by (cases "currentPage a") (auto simp: page_ok_def T port_focus_def)
  with T(1) show ?thesis by (simp add: ed_ok_def)
qed

lemma select_tap:
  assumes "ed_ok a" "currentPage a = PAGE_EDIT_SELECT"
  shows "tap_result ((exitPromptActive a \<or> resetAllPromptActive a) \<and> in_rect exit_prompt_left x y \<or> testToggleHit x y)
    a (dispatchHubSelectTouch L now x y a)"
proof -
  have ok: "sess_ok a" using assms(1) by (simp add: ed_ok_def)
  have self: "ed_ok (a\<lparr>exitPromptActive := c\<rparr>)" "ed_ok (a\<lparr>resetAllPromptActive := c\<rparr>)" for c
    using ok assms(2) by (simp_all add: ed_ok_def page_ok_def)
  have dash: "succeeds (goToPage now PAGE_DASHBOARD (clearEditorSession b)) (\<lambda>c. ed_ok c \<and> untouched b c)"
    if "sess_ok b" for b
    by (rule succeeds_mono [OF go_dashboard [OF clear_session(1) [OF that]]])
       (use clear_session(2) [OF that] in \<open>auto simp: untouched_def\<close>)
  have wipe: "succeeds (goToPage now PAGE_DASHBOARD (clearEditorSession
     ((save_live L (a\<lparr>live := wipe_table (live a), slots := clearAllLatchState (slots a)\<rparr>))\<lparr>resetAllPromptActive := False\<rparr>))) ed_ok"
  proof -
    have "sess_ok (a\<lparr>live := wipe_table (live a), slots := clearAllLatchState (slots a)\<rparr>)"
      using ok wipe_ok slots_ok_clear_all by (simp add: sess_ok_def shape_def)
    from save_live_facts(1) [OF this] show ?thesis by (intro succeeds_mono [OF dash]) simp_all
  qed
  have hub: "tap_result c a (goToPage now PAGE_EDIT_PORTS
       (a\<lparr>editCtx := (editCtx a)\<lparr>selected_device := i, selected_port := -1, selected_valid := False\<rparr>\<rparr>))"
    if "List.find P [0..2] = Some i" "\<not> i \<ge> mkh_edit_max_active_device" for i P c
  proof (rule tap_quiet [OF go_ports])
    have "i \<in> {0, 1, 2}" using that(1) by (auto simp: find_Some_iff upto.simps nth_Cons' split: if_splits)
    then show "hub_valid (cur_dev (a\<lparr>editCtx := (editCtx a)\<lparr>selected_device := i, selected_port := -1, selected_valid := False\<rparr>\<rparr>))"
      by (auto simp: hub_valid_def)
    show "sess_ok (a\<lparr>editCtx := (editCtx a)\<lparr>selected_device := i, selected_port := -1, selected_valid := False\<rparr>\<rparr>)"
      using ok sess_okD(5) [OF ok] by (intro sess_ok_ctxI) simp_all
  qed (simp add: untouched_def)
  have e: "sess_ok (a\<lparr>exitPromptActive := False\<rparr>)" using ok by simp
  have disc: "tap_result c a (goToPage now PAGE_DASHBOARD (clearEditorSession (a\<lparr>exitPromptActive := False\<rparr>)))" for c
    by (rule tap_quiet [OF dash [OF e]]) (simp add: untouched_def)
  have leave: "tap_result c a (goToPage now PAGE_DASHBOARD (clearEditorSession a))" for c
    by (rule tap_quiet [OF dash [OF ok]]) (simp add: untouched_def)
  have cancel: "ed_ok (drawHubSelect (a\<lparr>resetAllPromptActive := False\<rparr>))"
    using ok assms(2) by (simp add: ed_ok_def page_ok_def drawHubSelect_def)
  show ?thesis
    unfolding dispatchHubSelectTouch_def
    by (intro tap_if tap_case;
        (rule disc leave | rule tap_commit [OF save_and_exit [OF e]] tap_commit [OF wipe], blast
         | rule hub, assumption+ | rule tap_here, rule assms(1) self cancel test_page_ok [OF assms(1)],
           simp add: untouched_def drawHubSelect_def))
qed

lemma go_settings:
  assumes "sess_ok a" "port_focus a"
    and "0 \<le> cur_idx a \<and> cur_idx a < cur_count a \<or>
      cur_idx a = cur_count a \<and> cur_count a < 8 \<and> capture_valid (editCtx a)"
  shows "succeeds (goToPage now PAGE_EDIT_SETTINGS a) (\<lambda>b. ed_ok b \<and> untouched a b)"
  using enter_settings [of "a\<lparr>currentPage := PAGE_EDIT_SETTINGS\<rparr>"] assms
  by (simp add: goToPage_def Let_def port_focus_def untouched_def)

lemma select_port_tap:
  assumes ok: "sess_ok a" and v: "hub_valid (cur_dev a)" "channel_valid p"
  shows "tap_result c a (select_port now p a)"
proof -
  let ?ctx1 = "if selected_valid (editCtx a) \<and> selected_port (editCtx a) = p then editCtx a
     else (editCtx a)\<lparr>captured_input := MKH_INPUT_NONE, capture_valid := False\<rparr>"
  define a1 where "a1 = a\<lparr>editCtx := ?ctx1\<lparr>selected_port := p, selected_valid := True\<rparr>\<rparr>"
  have ok1: "sess_ok a1" unfolding a1_def using ok sess_okD(5) [OF ok] by (intro sess_ok_ctxI) (auto split: if_splits)
  have f: "cur_dev a1 = cur_dev a" "cur_port a1 = p" "eff a1 = eff a" "untouched a a1"
    by (simp_all add: a1_def untouched_def)
  have foc: "port_focus a1" using v f by (simp add: port_focus_def)
  have sh: "shape a1" using ok1 by (simp add: sess_ok_def)
  have cnt: "effectiveBindingCount a1 (cur_dev a1) p = Some (int (length (eff a (cur_dev a) p)))"
    using v f(1,3) count_eq [OF sh, of "cur_dev a" p] by simp
  have sel: "select_port now p a = Option.bind (effectiveBindingCount a1 (cur_dev a1) p) (\<lambda>count.
      if count > 0
      then Option.bind (effectiveBinding a1 (cur_dev a1) p 0) (\<lambda>first.
             goToPage now PAGE_EDIT_SETTINGS
              (a1\<lparr>editCtx := (editCtx a1)\<lparr>editing_binding_index := 0, captured_input := b_input first, capture_valid := True\<rparr>,
                  settingsBackToCapture := False\<rparr>))
      else goToPage now PAGE_EDIT_CAPTURE (a1\<lparr>editCtx := (editCtx a1)\<lparr>editing_binding_index := 0\<rparr>\<rparr>))"
    by (simp only: select_port_def Let_def a1_def)
  show ?thesis
  proof (cases "eff a (cur_dev a) p")
    case Nil
    let ?b = "a1\<lparr>editCtx := (editCtx a1)\<lparr>editing_binding_index := 0\<rparr>\<rparr>"
    have "sess_ok ?b" using ok1 sess_okD(5) [OF ok1] by (intro sess_ok_ctxI) simp_all
    then have "tap_result c a (goToPage now PAGE_EDIT_CAPTURE ?b)"
      using foc f(4) by (intro tap_quiet [OF go_capture]) (simp_all add: port_focus_def untouched_def)
    with Nil show ?thesis by (simp add: sel cnt)
  next
    case (Cons b0 bs)
    let ?b = "a1\<lparr>editCtx := (editCtx a1)\<lparr>editing_binding_index := 0, captured_input := b_input b0, capture_valid := True\<rparr>,
                  settingsBackToCapture := False\<rparr>"
    have "b_input b0 \<noteq> MKH_INPUT_NONE"
      using eff_ok [OF ok v] Cons by (simp add: binds_ok_def binding_ok_def)
    then have "sess_ok ?b" using sess_ok_ctxI [OF ok1] by simp
    moreover have "effectiveBinding a1 (cur_dev a1) p 0 = Some b0"
      using effective_eq [OF sh v(1) v(2), of 0] Cons f by (simp add: arr_get_def)
    moreover have "0 < cur_count ?b" using Cons f by simp
    ultimately have "tap_result c a (goToPage now PAGE_EDIT_SETTINGS ?b)"
      using foc f(4) by (intro tap_quiet [OF go_settings]) (simp_all add: port_focus_def untouched_def)
    with Cons show ?thesis by (simp add: sel cnt \<open>effectiveBinding a1 (cur_dev a1) p 0 = Some b0\<close>)
  qed
qed

lemma ports_tap:
  assumes "ed_ok a" "currentPage a = PAGE_EDIT_PORTS"
  shows "tap_result (testToggleHit x y) a (dispatchPortSelectTouch now x y a)"
proof -
  have ok: "sess_ok a" and v: "hub_valid (cur_dev a)" using assms by (simp_all add: ed_ok_def page_ok_def)
  have home: "tap_result c a (goToPage now PAGE_EDIT_SELECT (clearEditContext a))" for c
    using clear_context [OF ok] by (intro tap_quiet [OF go_select]) simp_all
  have port: "tap_result c a (select_port now i a)" if "List.find P [0..5] = Some i" for i P c
  proof (rule select_port_tap [OF ok v])
    have "[0..5] = [0, 1, 2, 3, 4, 5::int]" by (simp add: upto.simps)
    then show "channel_valid i" using that by (auto simp: channel_valid_def split: if_splits)
  qed
  show ?thesis
    unfolding dispatchPortSelectTouch_def
    by (intro tap_if tap_case;
        (rule home | rule port, assumption | rule tap_here, rule assms(1) test_page_ok [OF assms(1)],
           simp add: untouched_def))
qed

text \<open>The one tap that leaves the array: ADD in the capture prompt of a port with eight bindings.\<close>

definition add_overflow :: "int \<Rightarrow> int \<Rightarrow> 'fs app \<Rightarrow> bool" where
  "add_overflow x y a \<longleftrightarrow> currentPage a = PAGE_EDIT_CAPTURE \<and> \<not> capturePromptActive a \<and>
     captureReplaceAddPromptActive a \<and> in_rect capture_right x y \<and> cur_count a = 8"

lemma capture_rects: "in_rect capture_left x y \<Longrightarrow> \<not> in_rect capture_right x y"
  by (simp add: rect_defs)

lemma capture_tap:
  assumes "ed_ok a" "currentPage a = PAGE_EDIT_CAPTURE"
  shows "\<not> add_overflow x y a \<Longrightarrow> tap_result (testToggleHit x y) a (dispatchCaptureTouch now x y a)"
    and "add_overflow x y a \<Longrightarrow> dispatchCaptureTouch now x y a = None"
proof -
  have ok: "sess_ok a" and foc: "port_focus a"
    and idx: "0 \<le> cur_idx a \<and> cur_idx a < cur_count a \<or> cur_idx a = 0"
    and prompt: "captureReplaceAddPromptActive a \<Longrightarrow> capture_valid (editCtx a) \<and> 0 < cur_count a"
    using assms by (auto simp: ed_ok_def page_ok_def)
  have v: "hub_valid (cur_dev a)" "channel_valid (cur_port a)" using foc by (simp_all add: port_focus_def)
  have cnt: "effectiveBindingCount a (cur_dev a) (cur_port a) = Some (cur_count a)"
    using count_eq [OF sess_okD(1) [OF ok] v] by simp
  have le: "cur_count a \<le> 8" using eff_ok [OF ok v] by (simp add: binds_ok_def mkh_max_bindings_per_port_def)
  let ?nc = "(editCtx a)\<lparr>captured_input := MKH_INPUT_NONE, capture_valid := False\<rparr>"
  have keep: "tap_result c a (goToPage now PAGE_EDIT_PORTS (a\<lparr>capturePromptActive := False\<rparr>))" for c
    using ok v(1) by (intro tap_quiet [OF go_ports]) (simp_all add: untouched_def)
  have disc: "tap_result c a (goToPage now PAGE_EDIT_PORTS (a\<lparr>capturePromptActive := False, editCtx := ?nc\<rparr>))" for c
    using sess_ok_ctxI [of "a\<lparr>capturePromptActive := False\<rparr>" ?nc] ok v(1)
    by (intro tap_quiet [OF go_ports]) (simp_all add: untouched_def)
  have silent: "tap_result c a (goToPage now PAGE_EDIT_PORTS a)" for c
    using ok v(1) by (intro tap_quiet [OF go_ports]) (simp_all add: untouched_def)
  have repl: "tap_result c a (goToPage now PAGE_EDIT_SETTINGS (a\<lparr>captureReplaceAddPromptActive := False, settingsBackToCapture := True\<rparr>))"
    if "captureReplaceAddPromptActive a" for c
    using ok foc idx prompt [OF that] by (intro tap_quiet [OF go_settings]) (auto simp: untouched_def port_focus_def)
  have ctx: "sess_ok (a\<lparr>editCtx := (editCtx a)\<lparr>editing_binding_index := i\<rparr>\<rparr>)" for i
    using ok sess_okD(5) [OF ok] by (intro sess_ok_ctxI) simp_all
  have ctx2: "sess_ok (a\<lparr>captureReplaceAddPromptActive := False, editCtx := (editCtx a)\<lparr>editing_binding_index := i\<rparr>,
      settingsBackToCapture := True\<rparr>)" for i
    using sess_ok_ctxI [of "a\<lparr>captureReplaceAddPromptActive := False\<rparr>" "(editCtx a)\<lparr>editing_binding_index := i\<rparr>"]
      ok sess_okD(5) [OF ok] by simp
  have add: "tap_result c a (goToPage now PAGE_EDIT_SETTINGS (a\<lparr>captureReplaceAddPromptActive := False,
      editCtx := (editCtx a)\<lparr>editing_binding_index := cur_count a\<rparr>, settingsBackToCapture := True\<rparr>))"
    if "captureReplaceAddPromptActive a" "cur_count a \<noteq> 8" for c
    using ctx2 foc prompt [OF that(1)] that(2) le
    by (intro tap_quiet [OF go_settings]) (auto simp: untouched_def port_focus_def)
  have ask: "ed_ok (a\<lparr>captureReplaceAddPromptActive := True\<rparr>)" if "capture_valid (editCtx a)" "cur_count a > 0"
    using ok foc idx assms(2) that by (simp add: ed_ok_def page_ok_def port_focus_def)
  have ask2: "ed_ok (a\<lparr>capturePromptActive := True\<rparr>)"
    using ok foc idx prompt assms(2) by (simp add: ed_ok_def page_ok_def port_focus_def)
  have new: "tap_result c a (goToPage now PAGE_EDIT_SETTINGS (a\<lparr>editCtx := (editCtx a)\<lparr>editing_binding_index := 0\<rparr>,
      settingsBackToCapture := True\<rparr>))"
    if "capture_valid (editCtx a)" "\<not> cur_count a > 0" for c
    using ctx foc that by (intro tap_quiet [OF go_settings]) (auto simp: untouched_def port_focus_def)
  show "tap_result (testToggleHit x y) a (dispatchCaptureTouch now x y a)" if "\<not> add_overflow x y a"
    unfolding dispatchCaptureTouch_def Let_def cnt Option.bind.bind_lunit
    by (intro tap_if tap_case;
        (rule keep disc silent | rule repl new, (assumption | simp add: captureHasNext_def)+
         | rule add, assumption, use that assms(2) in \<open>simp add: add_overflow_def\<close>
         | rule tap_here, rule assms(1) ask2 test_page_ok [OF assms(1)], simp add: untouched_def
         | rule tap_here, rule ask, (simp add: captureHasNext_def untouched_def)+))
  show "dispatchCaptureTouch now x y a = None" if "add_overflow x y a"
  proof -
    let ?b = "a\<lparr>captureReplaceAddPromptActive := False, editCtx := (editCtx a)\<lparr>editing_binding_index := cur_count a\<rparr>,
      settingsBackToCapture := True, currentPage := PAGE_EDIT_SETTINGS\<rparr>"
    have t: "\<not> capturePromptActive a" "captureReplaceAddPromptActive a" "in_rect capture_right x y" "cur_count a = 8"
      using that by (auto simp: add_overflow_def)
    have nl: "\<not> in_rect capture_left x y" using capture_rects [of x y] t(3) by blast
    have "enterSettings ?b = None"
      using ctx2 [of "cur_count a"] foc prompt [OF t(2)] t(4)
      by (intro enter_settings_full) (simp_all add: port_focus_def)
    moreover have "dispatchCaptureTouch now x y a = enterSettings ?b"
      unfolding dispatchCaptureTouch_def Let_def cnt Option.bind.bind_lunit goToPage_def
      using t nl by simp
    ultimately show ?thesis by simp
  qed
qed

section \<open>The settings page\<close>

definition seeded :: "'fs app \<Rightarrow> 'fs app" where
  "seeded a = put_pending (cur_dev a) (cur_port a)
     \<lparr>dirty = dirty (pendingEdits a ! nat (cur_dev a) ! nat (cur_port a)), edits = eff a (cur_dev a) (cur_port a)\<rparr> a"

definition committed :: "mkh_binding list \<Rightarrow> 'fs app \<Rightarrow> 'fs app" where
  "committed bs a = put_pending (cur_dev a) (cur_port a) \<lparr>dirty = True, edits = bs\<rparr> a"

lemma put_pending_id: "put_pending d p (pendingEdits a ! nat d ! nat p) a = a"
  by (simp add: put_pending_def)

lemma put_pending_twice:
  "shape a \<Longrightarrow> hub_valid d \<Longrightarrow> channel_valid p \<Longrightarrow> put_pending d p y (put_pending d p x a) = put_pending d p y a"
  using valid_nat(1) [of d] by (simp add: put_pending_def shape_def)

lemma focus_valid:
  "sess_ok a \<Longrightarrow> port_focus a \<Longrightarrow> shape a"
  "port_focus a \<Longrightarrow> hub_valid (cur_dev a)" "port_focus a \<Longrightarrow> channel_valid (cur_port a)"
  by (simp_all add: sess_ok_def port_focus_def)

lemma seed_eq:
  assumes "sess_ok a" "port_focus a"
  shows "settingsSeedPendingIfNeeded (cur_dev a) (cur_port a) a = Some (seeded a)"
proof -
  obtain c bs where pe: "pendingEdits a ! nat (cur_dev a) ! nat (cur_port a) = \<lparr>dirty = c, edits = bs\<rparr>"
    by (cases "pendingEdits a ! nat (cur_dev a) ! nat (cur_port a)")
  show ?thesis
    using put_pending_id [of "cur_dev a" "cur_port a" a] assms
    by (simp add: settingsSeedPendingIfNeeded_def pending_at_eq focus_valid set_pending_eq seeded_def eff_def Let_def pe) metis
qed

lemma seeded_facts:
  assumes "sess_ok a" "port_focus a"
  shows "sess_ok (seeded a)" "untouched a (seeded a)" "currentPage (seeded a) = currentPage a" "editCtx (seeded a) = editCtx a"
    "hub_valid d \<Longrightarrow> channel_valid p \<Longrightarrow> eff (seeded a) d p = eff a d p"
    "pendingEdits (seeded a) ! nat (cur_dev a) ! nat (cur_port a) =
       \<lparr>dirty = dirty (pendingEdits a ! nat (cur_dev a) ! nat (cur_port a)), edits = eff a (cur_dev a) (cur_port a)\<rparr>"
    "settingsBackToCapture (seeded a) = settingsBackToCapture a"
proof -
  note F = focus_valid(1) [OF assms] focus_valid(2,3) [OF assms(2)]
  show "sess_ok (seeded a)"
    unfolding seeded_def using eff_ok [OF assms(1) F(2,3)] by (intro sess_ok_put [OF assms(1)]) simp
  show "hub_valid d \<Longrightarrow> channel_valid p \<Longrightarrow> eff (seeded a) d p = eff a d p"
    using put_pending_at [OF F, of d p]
    by (auto simp: seeded_def eff_def Let_def live_bindings_def)
  show "pendingEdits (seeded a) ! nat (cur_dev a) ! nat (cur_port a) =
       \<lparr>dirty = dirty (pendingEdits a ! nat (cur_dev a) ! nat (cur_port a)), edits = eff a (cur_dev a) (cur_port a)\<rparr>"
    unfolding seeded_def using put_pending_at [OF F F(2,3)] by simp
qed (simp_all add: seeded_def untouched_def)

lemma committed_facts:
  assumes ok: "sess_ok a" and foc: "port_focus a" and bs: "binds_ok bs"
  shows "sess_ok (committed bs a)" "untouched a (committed bs a)" "currentPage (committed bs a) = currentPage a"
    "editCtx (committed bs a) = editCtx a" "eff (committed bs a) (cur_dev a) (cur_port a) = bs"
    "hub_valid d \<Longrightarrow> channel_valid p \<Longrightarrow> (d, p) \<noteq> (cur_dev a, cur_port a) \<Longrightarrow> eff (committed bs a) d p = eff a d p"
    "settingsWorking (committed bs a) = settingsWorking a" "settingsBackToCapture (committed bs a) = settingsBackToCapture a"
  using sess_ok_put [OF ok, of "\<lparr>dirty = True, edits = bs\<rparr>"] bs focus_valid(1) [OF ok foc] focus_valid(2,3) [OF foc]
  by (auto simp: committed_def untouched_def eff_put)

lemma commit_eq:
  assumes ok: "sess_ok a" and foc: "port_focus a" and "0 \<le> i"
  shows "commit_binding (cur_dev a) (cur_port a) i f a =
    Some (if i < cur_count a
          then committed ((eff a (cur_dev a) (cur_port a))[nat i := f (eff a (cur_dev a) (cur_port a) ! nat i)]) a
          else seeded a)"
proof -
  note F = focus_valid(1) [OF ok foc] focus_valid(2,3) [OF foc]
  have sh: "shape (seeded a)" using seeded_facts(1) [OF ok foc] by (simp add: sess_ok_def)
  have p: "pending_at (seeded a) (cur_dev a) (cur_port a) =
      Some \<lparr>dirty = dirty (pendingEdits a ! nat (cur_dev a) ! nat (cur_port a)), edits = eff a (cur_dev a) (cur_port a)\<rparr>"
    using pending_at_eq [OF sh F(2,3)] seeded_facts(6) [OF ok foc] by simp
  have s: "set_pending (cur_dev a) (cur_port a) pe (seeded a) = Some (put_pending (cur_dev a) (cur_port a) pe a)" for pe
    unfolding set_pending_eq [OF sh F(2,3)] by (simp add: seeded_def put_pending_twice F)
  show ?thesis
    using assms(3) by (simp add: commit_binding_def seed_eq [OF ok foc] p s arr_get_int arr_set_int committed_def)
qed

lemma load_binding:
  assumes "sess_ok a" "port_focus a" "currentPage a = PAGE_EDIT_SETTINGS" "0 \<le> i" "i < cur_count a"
  shows "succeeds (settingsLoadBindingAt (cur_dev a) (cur_port a) i a) (\<lambda>b. ed_ok b \<and> untouched a b)"
proof -
  let ?b = "eff a (cur_dev a) (cur_port a) ! nat i"
  note v = focus_valid(1) [OF assms(1,2)] focus_valid(2,3) [OF assms(2)]
  have b: "binding_ok ?b" using binds_ok_nth [OF eff_ok [OF assms(1) v(2,3)]] assms(4,5) by simp
  let ?s = "show_binding i ?b a"
  have s: "sess_ok ?s"
    using assms(1) b by (simp add: sess_ok_def shape_def show_binding_def attributes_max binding_ok_def)
  have "drawSettingsPage ?s = Some (?s\<lparr>settingsPromptActive := False\<rparr>)"
    using s assms(2) by (intro draw_settings) (simp_all add: sess_ok_def port_focus_def show_binding_def)
  moreover have "ed_ok (?s\<lparr>settingsPromptActive := False\<rparr>)"
    using s assms(2-5) by (simp add: ed_ok_def page_ok_def port_focus_def show_binding_def)
  ultimately show ?thesis
    using assms(4,5) by (simp add: settingsLoadBindingAt_def effective_eq v arr_get_int untouched_def show_binding_def)
qed

lemma go_back:
  assumes "sess_ok a" "port_focus a" "0 \<le> cur_idx a \<and> cur_idx a < cur_count a \<or> cur_idx a = 0"
  shows "succeeds (goToPage now (if c then PAGE_EDIT_CAPTURE else PAGE_EDIT_PORTS) a) (\<lambda>b. ed_ok b \<and> untouched a b)"
  using go_capture [OF assms] go_ports [OF assms(1)] assms(2) by (simp add: port_focus_def)

lemma snap_le: "applyMaxEndSnap i \<le> 100"
  by (auto simp: applyMaxEndSnap_def spage_max_snap_band_percent_def Let_def)

lemma with_attributes_ok: "at_max w \<le> 100 \<Longrightarrow> binding_ok b \<Longrightarrow> binding_ok (with_attributes w b)"
  by (simp add: binding_ok_def with_attributes_def)

text \<open>After the commit of the shown binding: the same number of bindings, everything else in place.\<close>

definition kept :: "'fs app \<Rightarrow> 'fs app \<Rightarrow> bool" where
  "kept a b \<longleftrightarrow> sess_ok b \<and> port_focus b \<and> untouched a b \<and> currentPage b = currentPage a \<and> editCtx b = editCtx a \<and>
     cur_count b = cur_count a"

lemma commit_kept:
  assumes ok: "sess_ok a" and foc: "port_focus a" and i: "0 \<le> i"
    and f: "\<And>b. binding_ok b \<Longrightarrow> i < cur_count a \<Longrightarrow> binding_ok (f b)"
  shows "succeeds (commit_binding (cur_dev a) (cur_port a) i f a) (kept a)"
proof (cases "i < cur_count a")
  case True
  let ?bs = "eff a (cur_dev a) (cur_port a)"
  note F = focus_valid(1) [OF ok foc] focus_valid(2,3) [OF foc]
  have "binds_ok (?bs[nat i := f (?bs ! nat i)])"
    using eff_ok [OF ok F(2,3)] binds_ok_nth [OF eff_ok [OF ok F(2,3)], of "nat i"] f True i
    by (intro binds_ok_update) simp_all
  note C = committed_facts [OF ok foc this]
  show ?thesis using True C foc by (simp add: commit_eq [OF ok foc i] kept_def port_focus_def)
next
  case False
  note S = seeded_facts [OF ok foc]
  show ?thesis using False S foc by (simp add: commit_eq [OF ok foc i] kept_def port_focus_def)
qed

lemma commit_shown_kept:
  assumes "sess_ok a" "port_focus a"
    and "0 \<le> cur_idx a \<and> cur_idx a < cur_count a \<and> capture_valid (editCtx a) \<or> cur_count a = 0 \<and> cur_idx a = 0"
  shows "succeeds (commitShown (cur_dev a) (cur_port a) (cur_idx a) a) (kept a)"
  unfolding commitShown_def
proof (rule commit_kept [OF assms(1,2)])
  show "0 \<le> cur_idx a" using assms(3) by auto
  fix b assume "binding_ok b" "cur_idx a < cur_count a"
  then show "binding_ok (with_attributes (settingsWorking a) b\<lparr>b_input := captured_input (editCtx a)\<rparr>)"
    using assms(3) sess_okD(3,5) [OF assms(1)] by (auto simp: binding_ok_def with_attributes_def)
qed

lemma page_to_tap:
  assumes ok: "sess_ok a" and foc: "port_focus a" and pg: "currentPage a = PAGE_EDIT_SETTINGS"
    and "0 \<le> i" "i < cur_count a" "0 \<le> j" "j < cur_count a"
  shows "tap_result c a (settings_page_to (cur_dev a) (cur_port a) i j a)"
proof -
  have "succeeds (settingsCommitWorkingIfDirty (cur_dev a) (cur_port a) i a) (kept a)"
    unfolding settingsCommitWorkingIfDirty_def
    using commit_kept [OF ok foc assms(4), of "with_attributes (settingsWorking a)"] ok foc sess_okD(3) [OF ok]
    by (simp add: with_attributes_ok) (simp add: kept_def untouched_def)
  then show ?thesis
    unfolding settings_page_to_def
  proof (elim succeedsE)
    fix b assume b: "settingsCommitWorkingIfDirty (cur_dev a) (cur_port a) i a = Some b" "kept a b"
    have "cur_count b = cur_count a" using b(2) unfolding kept_def by blast
    then have "tap_result c a (settingsLoadBindingAt (cur_dev b) (cur_port b) j b)"
      using b(2) assms(6,7) pg unfolding kept_def by (intro tap_quiet [OF load_binding]) (simp_all only: simp_thms)
    then show "tap_result c a (Option.bind (settingsCommitWorkingIfDirty (cur_dev a) (cur_port a) i a)
        (settingsLoadBindingAt (cur_dev a) (cur_port a) j))"
      using b by (simp add: kept_def)
  qed
qed

lemma no_capture_facts:
  "sess_ok a \<Longrightarrow> sess_ok (no_capture a)" "port_focus (no_capture a) = port_focus a" "untouched a (no_capture a)"
  "eff (no_capture a) = eff a" "cur_dev (no_capture a) = cur_dev a" "cur_port (no_capture a) = cur_port a"
  "cur_idx (no_capture a) = cur_idx a" "currentPage (no_capture a) = currentPage a"
  by (simp_all add: no_capture_def untouched_def port_focus_def) (rule sess_ok_ctxI, simp_all)

lemma cleared:
  "sess_ok b \<Longrightarrow> port_focus a \<Longrightarrow> untouched a b \<Longrightarrow> editCtx b = editCtx a \<Longrightarrow>
   sess_ok (no_capture b) \<and> port_focus (no_capture b) \<and> untouched a (no_capture b)"
  using no_capture_facts(1) [of b] no_capture_facts(3) [of b] untouched_trans [of a b "no_capture b"]
  by (simp add: no_capture_facts(2)) (simp add: port_focus_def)

lemma remove_tap:
  assumes ok: "sess_ok a" and foc: "port_focus a" and pg: "currentPage a = PAGE_EDIT_SETTINGS"
    and idx: "0 \<le> cur_idx a \<and> cur_idx a < cur_count a \<or> cur_count a = 0 \<and> cur_idx a = 0"
  shows "tap_result m a (settings_remove now (if c then PAGE_EDIT_CAPTURE else PAGE_EDIT_PORTS)
    (cur_dev a) (cur_port a) (cur_idx a) a)"
proof -
  let ?bs = "eff a (cur_dev a) (cur_port a)" and ?t = "if c then PAGE_EDIT_CAPTURE else PAGE_EDIT_PORTS"
  note F = focus_valid(1) [OF ok foc] focus_valid(2,3) [OF foc]
  note S = seeded_facts [OF ok foc]
  have sh: "shape (seeded a)" using S(1) by (simp add: sess_ok_def)
  have p: "pending_at (seeded a) (cur_dev a) (cur_port a) =
      Some \<lparr>dirty = dirty (pendingEdits a ! nat (cur_dev a) ! nat (cur_port a)), edits = ?bs\<rparr>"
    using pending_at_eq [OF sh F(2,3)] S(6) by simp
  have s: "set_pending (cur_dev a) (cur_port a) pe (seeded a) = Some (put_pending (cur_dev a) (cur_port a) pe a)" for pe
    unfolding set_pending_eq [OF sh F(2,3)] by (simp add: seeded_def put_pending_twice F)
  show ?thesis
  proof (cases "cur_idx a < cur_count a")
    case False
    then have e: "?bs = []" "cur_idx a = 0" using idx by auto
    have "tap_result m a (goToPage now ?t (no_capture (seeded a)))"
    proof (rule tap_quiet [OF go_back])
      show "0 \<le> cur_idx (no_capture (seeded a)) \<and> cur_idx (no_capture (seeded a)) < cur_count (no_capture (seeded a)) \<or>
        cur_idx (no_capture (seeded a)) = 0" using e(2) by (simp add: no_capture_facts S)
    qed (use cleared [OF S(1) foc S(2,4)] in simp_all)
    then show ?thesis using e by (simp add: settings_remove_def seed_eq [OF ok foc] p)
  next
    case True
    with idx have i: "0 \<le> cur_idx a" by auto
    define bs' where "bs' = take (nat (cur_idx a)) ?bs @ drop (nat (cur_idx a) + 1) ?bs"
    have n: "int (length bs') = cur_count a - 1" using True i by (auto simp: bs'_def)
    have "list_all binding_ok bs'"
      using eff_ok [OF ok F(2,3)] unfolding bs'_def binds_ok_def list_all_iff
      by (auto dest: in_set_takeD in_set_dropD)
    then have b': "binds_ok bs'" using eff_ok [OF ok F(2,3)] n unfolding binds_ok_def by simp
    note C = committed_facts [OF ok foc b']
    have e: "take (nat (cur_idx a)) ?bs @ drop (nat (cur_idx a) + 1) ?bs = bs'" by (simp add: bs'_def)
    have r: "settings_remove now ?t (cur_dev a) (cur_port a) (cur_idx a) a =
      (if cur_count a - 1 = 0 then goToPage now ?t (no_capture (committed bs' a))
       else settingsLoadBindingAt (cur_dev a) (cur_port a)
              (if cur_idx a \<ge> cur_count a - 1 then cur_count a - 1 - 1 else cur_idx a) (committed bs' a))"
      unfolding settings_remove_def seed_eq [OF ok foc] Option.bind.bind_lunit p Let_def PendingPortEdit.select_convs
        e s committed_def [symmetric]
      using True i by (simp only: Option.bind.bind_lunit linorder_not_less [symmetric] if_True if_False simp_thms prod.case)
    have cc: "cur_count (committed bs' a) = cur_count a - 1" using C(4,5) n by simp
    show ?thesis
    proof (cases "cur_count a - 1 = 0")
      case True
      with \<open>cur_idx a < cur_count a\<close> i have z: "cur_idx a = 0" by simp
      have "tap_result m a (goToPage now ?t (no_capture (committed bs' a)))"
      proof (rule tap_quiet [OF go_back])
        show "0 \<le> cur_idx (no_capture (committed bs' a)) \<and> cur_idx (no_capture (committed bs' a)) < cur_count (no_capture (committed bs' a)) \<or>
          cur_idx (no_capture (committed bs' a)) = 0" using z by (simp add: no_capture_facts C)
      qed (use cleared [OF C(1) foc C(2,4)] in simp_all)
      with True show ?thesis unfolding r by simp
    next
      case False
      have "tap_result m a (settingsLoadBindingAt (cur_dev (committed bs' a)) (cur_port (committed bs' a))
          (if cur_idx a \<ge> cur_count a - 1 then cur_count a - 1 - 1 else cur_idx a) (committed bs' a))"
        using C foc pg cc False i n
        by (intro tap_quiet [OF load_binding]) (auto simp: port_focus_def)
      with False show ?thesis unfolding r by (simp add: C)
    qed
  qed
qed

lemma reload_ok: "config_ok (fst (mkh_storage_reload_config L (cfg, fs)))"
proof -
  have s: "config_ok (fst (snd (mkh_storage_save_config L (c, f))))" if "config_ok c" for c f
    using that by (simp add: mkh_storage_save_config_def split_def Let_def)
  have d: "config_ok (mkh_config_note_source b (mkh_config_set_defaults cfg))" for b by (simp add: config_ok_defaults)
  have p: "config_ok (mkh_config_note_source b (parse_lines ls (mkh_config_set_defaults cfg)))" for b ls
    by (simp add: parse_lines_ok config_ok_defaults)
  show ?thesis
    unfolding mkh_storage_reload_config_def readAndParseConfigFile_def prod.case no_config_file_def Let_def
    using fallbacks(1) [OF d] fallbacks(1) [OF p] s by (auto split: option.split)
qed

lemma reset_tap:
  assumes ok: "sess_ok a" and foc: "port_focus a" and pg: "currentPage a = PAGE_EDIT_SETTINGS"
  shows "succeeds (settings_reset L (cur_dev a) (cur_port a) a) ed_ok"
proof -
  obtain cfg fs where r: "mkh_storage_reload_config L (live a, disk a) = (cfg, fs)" by fastforce
  have c: "config_ok cfg" using reload_ok [of L "live a" "disk a"] r by simp
  define a1 where "a1 = (clearPendingSession (a\<lparr>live := cfg, disk := fs\<rparr>))\<lparr>testActive := False\<rparr>"
  have "sess_ok (a\<lparr>live := cfg, disk := fs\<rparr>)" using ok c by (simp add: sess_ok_def shape_def)
  from sess_ok_clear_pending [OF this] have ok1: "sess_ok a1" by (simp add: a1_def)
  have f: "editCtx a1 = editCtx a" "currentPage a1 = currentPage a" by (simp_all add: a1_def clearPendingSession_def)
  have foc1: "port_focus a1" using foc f by (simp add: port_focus_def)
  have v: "hub_valid (cur_dev a)" "channel_valid (cur_port a)" using foc by (simp_all add: port_focus_def)
  have "shape (a\<lparr>live := cfg, disk := fs\<rparr>)" using ok by (simp add: sess_ok_def shape_def)
  from clear_pending [OF this v] have e: "eff a1 (cur_dev a) (cur_port a) = live_bindings a1 (cur_dev a) (cur_port a)"
    by (simp add: a1_def) (simp add: live_bindings_def clearPendingSession_def)
  have res: "settings_reset L (cur_dev a) (cur_port a) a =
     (case live_bindings a1 (cur_dev a) (cur_port a) of
        b # _ \<Rightarrow> drawSettingsPage (show_binding 0 b a1)
      | [] \<Rightarrow> drawSettingsPage (no_capture (a1\<lparr>settingsWorking := blank_attributes, settingsBaseline := blank_attributes,
                          editCtx := (editCtx a1)\<lparr>editing_binding_index := 0\<rparr>\<rparr>)))"
    by (simp only: settings_reset_def r prod.case Let_def a1_def)
  show ?thesis
  proof (cases "live_bindings a1 (cur_dev a) (cur_port a)")
    case Nil
    let ?s = "no_capture (a1\<lparr>settingsWorking := blank_attributes, settingsBaseline := blank_attributes,
                          editCtx := (editCtx a1)\<lparr>editing_binding_index := 0\<rparr>\<rparr>)"
    have s: "sess_ok ?s" using ok1 by (simp add: sess_ok_def shape_def no_capture_def blank_attributes_def)
    then have "drawSettingsPage ?s = Some (?s\<lparr>settingsPromptActive := False\<rparr>)"
      using foc1 by (intro draw_settings) (simp_all add: sess_ok_def port_focus_def no_capture_def)
    moreover have "ed_ok (?s\<lparr>settingsPromptActive := False\<rparr>)"
      using s foc1 f pg Nil e by (simp add: ed_ok_def page_ok_def port_focus_def no_capture_def)
    ultimately show ?thesis using Nil by (simp add: res)
  next
    case (Cons b bs)
    have b: "binding_ok b" using live_ok [OF sess_okD(2) [OF ok1] v] Cons by (simp add: binds_ok_def)
    let ?s = "show_binding 0 b a1"
    have s: "sess_ok ?s" using ok1 b by (simp add: sess_ok_def shape_def show_binding_def attributes_max binding_ok_def)
    then have "drawSettingsPage ?s = Some (?s\<lparr>settingsPromptActive := False\<rparr>)"
      using foc1 by (intro draw_settings) (simp_all add: sess_ok_def port_focus_def show_binding_def)
    moreover have "ed_ok (?s\<lparr>settingsPromptActive := False\<rparr>)"
      using s foc1 f pg Cons e by (simp add: ed_ok_def page_ok_def port_focus_def show_binding_def)
    ultimately show ?thesis using Cons by (simp add: res)
  qed
qed

text \<open>What the settings page relies on, and the outcome of each of its ways out.\<close>

lemma settings_facts:
  assumes "ed_ok a" "currentPage a = PAGE_EDIT_SETTINGS"
  shows "sess_ok a" "port_focus a"
    "0 \<le> cur_idx a \<and> cur_idx a < cur_count a \<and> capture_valid (editCtx a) \<or> cur_count a = 0 \<and> cur_idx a = 0"
    "0 \<le> cur_idx a \<and> cur_idx a < cur_count a \<or> cur_idx a = 0"
    "0 \<le> cur_idx a \<and> cur_idx a < cur_count a \<or> cur_count a = 0 \<and> cur_idx a = 0"
  using assms by (auto simp: ed_ok_def page_ok_def)

lemma settings_keep:
  assumes "ed_ok a" "currentPage a = PAGE_EDIT_SETTINGS"
  shows "tap_result m a (Option.bind (commitShown (cur_dev a) (cur_port a) (cur_idx a) a) (\<lambda>b.
    goToPage now (if settingsBackToCapture a then PAGE_EDIT_CAPTURE else PAGE_EDIT_PORTS) (b\<lparr>settingsPromptActive := False\<rparr>)))"
proof -
  let ?d = "cur_dev a" and ?p = "cur_port a" and ?i = "cur_idx a"
  note ok = settings_facts(1) [OF assms(1,2)] and foc = settings_facts(2) [OF assms(1,2)]
    and idx = settings_facts(3) [OF assms(1,2)] and idx' = settings_facts(4,5) [OF assms(1,2)]
  show ?thesis
    using commit_shown_kept [OF ok foc idx]
  proof (elim succeedsE)
    fix b assume b: "commitShown ?d ?p ?i a = Some b" "kept a b"
    have k: "sess_ok b" "port_focus b" "untouched a b" "editCtx b = editCtx a" "cur_count b = cur_count a"
      using b(2) unfolding kept_def by blast+
    have "tap_result m a (goToPage now (if settingsBackToCapture a then PAGE_EDIT_CAPTURE else PAGE_EDIT_PORTS)
        (b\<lparr>settingsPromptActive := False\<rparr>))"
    proof (rule tap_quiet [OF go_back])
      show "0 \<le> cur_idx (b\<lparr>settingsPromptActive := False\<rparr>) \<and>
          cur_idx (b\<lparr>settingsPromptActive := False\<rparr>) < cur_count (b\<lparr>settingsPromptActive := False\<rparr>) \<or>
        cur_idx (b\<lparr>settingsPromptActive := False\<rparr>) = 0"
        using idx'(1) k(4,5) by simp
    qed (use k in \<open>simp_all add: port_focus_def untouched_def\<close>)
    with b(1) show ?thesis by simp
  qed
qed

lemma settings_save:
  assumes "ed_ok a" "currentPage a = PAGE_EDIT_SETTINGS" and m: m
  shows "tap_result m a (Option.bind (commitShown (cur_dev a) (cur_port a) (cur_idx a) a) (performSaveAndExit L now))"
proof -
  let ?d = "cur_dev a" and ?p = "cur_port a" and ?i = "cur_idx a"
  note ok = settings_facts(1) [OF assms(1,2)] and foc = settings_facts(2) [OF assms(1,2)]
    and idx = settings_facts(3) [OF assms(1,2)] and idx' = settings_facts(4,5) [OF assms(1,2)]
  show ?thesis
    using commit_shown_kept [OF ok foc idx]
  proof (elim succeedsE)
    fix b assume b: "commitShown ?d ?p ?i a = Some b" "kept a b"
    have "sess_ok b" using b(2) unfolding kept_def by blast
    from tap_commit [OF save_and_exit [OF this] m] b(1) show ?thesis by simp
  qed
qed

lemma settings_tap:
  assumes "ed_ok a" "currentPage a = PAGE_EDIT_SETTINGS"
  shows "tap_result (testToggleHit x y \<or> in_rect spage_reset x y \<or> in_rect spage_save x y) a
    (dispatchSettingsTouch L now x y a)"
proof -
  let ?d = "cur_dev a" and ?p = "cur_port a" and ?i = "cur_idx a"
  let ?m = "testToggleHit x y \<or> in_rect spage_reset x y \<or> in_rect spage_save x y"
  note ok = settings_facts(1) [OF assms] and foc = settings_facts(2) [OF assms]
    and idx = settings_facts(3) [OF assms] and idx' = settings_facts(4,5) [OF assms]
  have cnt: "effectiveBindingCount a ?d ?p = Some (cur_count a)"
    using count_eq [OF focus_valid(1) [OF ok foc] focus_valid(2,3) [OF foc]] by simp
  have home: "tap_result ?m a (goToPage now (if settingsBackToCapture a then PAGE_EDIT_CAPTURE else PAGE_EDIT_PORTS) a)"
    using ok foc idx' by (intro tap_quiet [OF go_back]) (simp_all add: untouched_def)
  have disc: "tap_result ?m a (goToPage now (if settingsBackToCapture a then PAGE_EDIT_CAPTURE else PAGE_EDIT_PORTS)
      (a\<lparr>settingsPromptActive := False\<rparr>))"
    using ok foc idx' by (intro tap_quiet [OF go_back]) (simp_all add: untouched_def port_focus_def)
  have attr: "ed_ok (a\<lparr>settingsWorking := w\<rparr>) \<and> (?m \<or> untouched a (a\<lparr>settingsWorking := w\<rparr>))" if "at_max w \<le> 100" for w
  proof -
    have "sess_ok (a\<lparr>settingsWorking := w\<rparr>)" using ok that by (simp add: sess_ok_def shape_def)
    with assms(2) foc idx show ?thesis by (simp add: ed_ok_def page_ok_def port_focus_def untouched_def)
  qed
  have ask: "ed_ok (a\<lparr>settingsPromptActive := True\<rparr>)"
    using ok assms(2) foc idx by (simp add: ed_ok_def page_ok_def port_focus_def)
  have add: "tap_result ?m a (goToPage now PAGE_EDIT_CAPTURE ((no_capture a)\<lparr>settingsBackToCapture := True\<rparr>))"
    using no_capture_facts(1) [OF ok] foc idx' no_capture_facts(2) [of a]
    by (intro tap_quiet [OF go_capture]) (simp_all add: no_capture_def untouched_def port_focus_def)
  show ?thesis
    unfolding dispatchSettingsTouch_def Let_def cnt Option.bind.bind_lunit
  proof (intro tap_if tap_case, goal_cases)
    case 1 show ?case by (rule settings_keep [OF assms])
  next
    case 2 show ?case by (rule disc)
  next
    case 4 then show ?case by (intro tap_here test_page_ok [OF assms(1)] disjI1)
  next
    case 5 show ?case by (rule tap_here; use attr sess_okD(3) [OF ok] in simp)
  next
    case 6 show ?case by (rule tap_here; use attr sess_okD(3) [OF ok] in simp)
  next
    case 7 show ?case by (rule tap_here; use attr snap_le in simp)
  next
    case 8 show ?case by (rule tap_here; use attr snap_le in simp)
  next
    case 9 show ?case by (rule tap_here; use attr snap_le in simp)
  next
    case 10
    then have "cur_count a > 1" "?i > 0" by blast+
    then show ?case using idx'(2) by (intro page_to_tap [OF ok foc assms(2)]) linarith+
  next
    case 11
    then have "cur_count a > 1" "?i < cur_count a - 1" by blast+
    then show ?case using idx'(2) by (intro page_to_tap [OF ok foc assms(2)]) linarith+
  next
    case 14 show ?case by (rule add)
  next
    case 15 show ?case by (rule remove_tap [OF ok foc assms(2) idx'(2)])
  next
    case 16 show ?case by (rule tap_here, rule ask, simp add: untouched_def)
  next
    case 17 show ?case by (rule home)
  next
    case 18 then show ?case by (intro tap_commit [OF reset_tap [OF ok foc assms(2)]]) simp
  next
    case 19 then show ?case by (intro settings_save [OF assms]) simp
  qed (use assms(1) in \<open>simp_all add: untouched_def\<close>)
qed

end
