(* ===== verification/Peripherals.thy ===== *)
theory Peripherals
  imports Thl C_Strings "HOL-Library.Monad_Syntax"
begin

text \<open>
  The inputs of the main loop other than the controller: the touch panel (\<^verbatim>\<open>main/mkh_touch.cpp\<close>),
  the gyroscope (\<^verbatim>\<open>main/mkh_imu.cpp\<close>), the serial tuning console of the heading lock
  (\<^verbatim>\<open>main/mkh_thl.cpp\<close>) and the battery reading of \<^verbatim>\<open>main/sketch.cpp\<close>. The I2C bus both chips
  hang on is the Arduino \<open>Wire\<close> library, a parameter: a transaction returns its status or the
  bytes read and the new state of the bus. Log lines are left out; every \<open>float\<close> operation rounds.
\<close>

section \<open>The bus\<close>

record 'w wire =
  wire_begin :: "'w \<Rightarrow> bool \<times> 'w"
  wire_send :: "u8 \<Rightarrow> u8 list \<Rightarrow> bool \<Rightarrow> 'w \<Rightarrow> u8 \<times> 'w"
  wire_request :: "u8 \<Rightarrow> nat \<Rightarrow> 'w \<Rightarrow> u8 list \<times> 'w"

text \<open>\<open>wire_send addr bytes stop\<close> is \<open>beginTransmission\<close>, the writes and \<open>endTransmission(stop)\<close>;
  \<open>wire_request addr n\<close> is \<open>requestFrom\<close> with the bytes that can then be read.\<close>

definition read_regs :: "'w wire \<Rightarrow> u8 \<Rightarrow> u8 \<Rightarrow> nat \<Rightarrow> 'w \<Rightarrow> u8 list option \<times> 'w" where
  "read_regs W addr reg len w =
     (let (err, w1) = wire_send W addr [reg] False w
      in if err \<noteq> 0 then (None, w1)
         else (let (buf, w2) = wire_request W addr len w1
               in (if length buf = len then Some buf else None, w2)))"

section \<open>Touch\<close>

definition cst816d_i2c_addr :: u8 where "cst816d_i2c_addr = 0x15"
definition reg_finger_num :: u8 where "reg_finger_num = 0x02"
definition display_w :: rat where "display_w = 320"
definition display_h :: rat where "display_h = 240"

record touch_state =
  s_touchReady :: bool
  s_wasPressed :: bool
  s_touchIntFlag :: bool

definition touch_boot :: touch_state where
  "touch_boot = \<lparr>s_touchReady = False, s_wasPressed = False, s_touchIntFlag = False\<rparr>"

definition touchIsr :: "touch_state \<Rightarrow> touch_state" where
  "touchIsr t = t\<lparr>s_touchIntFlag := True\<rparr>"

definition f_clamp :: "rat \<Rightarrow> rat \<Rightarrow> c_float \<Rightarrow> c_float" where
  "f_clamp lo hi v =
     (let v1 = (if f_less v (Fin lo) then Fin lo else v)
      in if f_less (Fin hi) v1 then Fin hi else v1)"

definition mkh_touch_raw_to_display :: "u16 \<Rightarrow> u16 \<Rightarrow> (int \<times> int) option" where
  "mkh_touch_raw_to_display rawX rawY =
     (let dx = f_sub (f_mul (f32 (10175 / 10000)) (f32 (of_int (uint rawY)))) (Fin 3);
          dy = f_sub (f32 (2716 / 10)) (f_mul (f32 (12114 / 10000)) (f32 (of_int (uint rawX))))
      in do { x \<leftarrow> lroundf (f_clamp 0 (display_w - 1) dx);
              y \<leftarrow> lroundf (f_clamp 0 (display_h - 1) dy);
              Some (x, y) })"

definition cst816ReadRegs :: "'w wire \<Rightarrow> u8 \<Rightarrow> nat \<Rightarrow> 'w \<Rightarrow> u8 list option \<times> 'w" where
  "cst816ReadRegs W reg len w = read_regs W cst816d_i2c_addr reg len w"

definition mkh_touch_init :: "'w wire \<Rightarrow> touch_state \<times> 'w \<Rightarrow> touch_state \<times> 'w" where
  "mkh_touch_init W = (\<lambda>(t, w).
     (let (up, w1) = wire_begin W w
      in if \<not> up then (t\<lparr>s_touchReady := False\<rparr>, w1)
         else (let (err, w2) = wire_send W cst816d_i2c_addr [] True w1
               in (t\<lparr>s_touchReady := (err = 0)\<rparr>, w2))))"

definition touch_coord :: "u8 \<Rightarrow> u8 \<Rightarrow> u16" where
  "touch_coord hi lo = push_bit 8 (ucast (hi AND 0x0F)) OR ucast lo"

definition mkh_touch_poll :: "'w wire \<Rightarrow> touch_state \<times> 'w \<Rightarrow> ((int \<times> int) option \<times> touch_state \<times> 'w) option" where
  "mkh_touch_poll W = (\<lambda>(t, w).
     (if \<not> s_touchReady t \<or> \<not> s_touchIntFlag t then Some (None, t, w)
      else (let t1 = t\<lparr>s_touchIntFlag := False\<rparr>; (buf, w1) = cst816ReadRegs W reg_finger_num 5 w
            in case buf of
                 None \<Rightarrow> Some (None, t1, w1)
               | Some b \<Rightarrow>
                   do { disp \<leftarrow> mkh_touch_raw_to_display (touch_coord (b ! 1) (b ! 2)) (touch_coord (b ! 3) (b ! 4));
                        let pressed = (0 < b ! 0);
                        let isNewPress = (pressed \<and> \<not> s_wasPressed t1);
                        Some (if isNewPress then Some disp else None, t1\<lparr>s_wasPressed := pressed\<rparr>, w1) })))"

definition mkh_touch_is_pressed :: "touch_state \<Rightarrow> bool" where
  "mkh_touch_is_pressed t = s_wasPressed t"

section \<open>Gyroscope\<close>

definition imu_i2c_addr_primary :: u8 where "imu_i2c_addr_primary = 0x6A"
definition imu_i2c_addr_secondary :: u8 where "imu_i2c_addr_secondary = 0x6B"
definition reg_ctrl3 :: u8 where "reg_ctrl3 = 0x04"
definition reg_ctrl7 :: u8 where "reg_ctrl7 = 0x08"
definition reg_who_am_i :: u8 where "reg_who_am_i = 0x00"
definition reg_gz_l :: u8 where "reg_gz_l = 0x3F"
definition reg_gz_h :: u8 where "reg_gz_h = 0x40"
definition imu_ctrl3_value :: u8 where "imu_ctrl3_value = 0x46"
definition imu_ctrl7_value :: u8 where "imu_ctrl7_value = 0x02"
definition imu_gyro_sensitivity :: rat where "imu_gyro_sensitivity = 128"
definition imu_bias_samples :: nat where "imu_bias_samples = 50"
definition imu_serial_log_interval_ms :: u32 where "imu_serial_log_interval_ms = 1000"

record imu_state =
  s_imuReady :: bool
  s_imuAddr :: u8
  s_biasDps :: c_float
  s_rateDps :: c_float
  s_headingDeg :: c_float
  s_lastSampleMs :: u32
  s_lastLogMs :: u32

definition imu_boot :: imu_state where
  "imu_boot = \<lparr>s_imuReady = False, s_imuAddr = 0, s_biasDps = Fin 0, s_rateDps = Fin 0, s_headingDeg = Fin 0,
     s_lastSampleMs = 0, s_lastLogMs = 0\<rparr>"

definition imuWriteReg :: "'w wire \<Rightarrow> u8 \<Rightarrow> u8 \<Rightarrow> u8 \<Rightarrow> 'w \<Rightarrow> bool \<times> 'w" where
  "imuWriteReg W addr reg val w = (let (err, w1) = wire_send W addr [reg, val] True w in (err = 0, w1))"

definition imuReadReg :: "'w wire \<Rightarrow> u8 \<Rightarrow> u8 \<Rightarrow> 'w \<Rightarrow> u8 option \<times> 'w" where
  "imuReadReg W addr reg w = (let (buf, w1) = read_regs W addr reg 1 w in (map_option (\<lambda>b. b ! 0) buf, w1))"

definition imuProbeAddress :: "'w wire \<Rightarrow> u8 \<Rightarrow> 'w \<Rightarrow> bool \<times> 'w" where
  "imuProbeAddress W addr w = (let (err, w1) = wire_send W addr [] True w in (err = 0, w1))"

text \<open>The two bytes of the rate register as a signed 16-bit number.\<close>

definition imuReadRawGz :: "'w wire \<Rightarrow> u8 \<Rightarrow> 'w \<Rightarrow> int option \<times> 'w" where
  "imuReadRawGz W addr w =
     (let (lo, w1) = imuReadReg W addr reg_gz_l w
      in case lo of
           None \<Rightarrow> (None, w1)
         | Some l \<Rightarrow> (let (hi, w2) = imuReadReg W addr reg_gz_h w1
                     in (map_option (\<lambda>h. sint (push_bit 8 (ucast h) OR ucast l :: u16)) hi, w2)))"

definition raw_dps :: "int \<Rightarrow> c_float" where
  "raw_dps raw = f_div_const (f32 (of_int raw)) imu_gyro_sensitivity"

fun bias_samples :: "'w wire \<Rightarrow> u8 \<Rightarrow> nat \<Rightarrow> c_float \<times> nat \<times> 'w \<Rightarrow> c_float \<times> nat \<times> 'w" where
  "bias_samples W addr 0 st = st"
| "bias_samples W addr (Suc n) (acc, gotSamples, w) =
     (let (raw, w1) = imuReadRawGz W addr w
      in bias_samples W addr n
           (case raw of None \<Rightarrow> (acc, gotSamples, w1)
            | Some r \<Rightarrow> (f_add acc (raw_dps r), gotSamples + 1, w1)))"

definition imu_calibrate :: "'w wire \<Rightarrow> u32 \<Rightarrow> u32 \<Rightarrow> imu_state \<times> 'w \<Rightarrow> imu_state \<times> 'w" where
  "imu_calibrate W now1 now2 = (\<lambda>(s, w).
     (let (acc, gotSamples, w1) = bias_samples W (s_imuAddr s) imu_bias_samples (Fin 0, 0, w)
      in if gotSamples = 0 then (s\<lparr>s_imuReady := False\<rparr>, w1)
         else (s\<lparr>s_biasDps := f_div_const acc (of_nat gotSamples), s_lastSampleMs := now1, s_lastLogMs := now2,
                 s_imuReady := True\<rparr>, w1)))"

text \<open>The identity register is read and only logged; the two clock readings are those after calibration.\<close>

definition mkh_imu_init :: "'w wire \<Rightarrow> u32 \<Rightarrow> u32 \<Rightarrow> imu_state \<times> 'w \<Rightarrow> imu_state \<times> 'w" where
  "mkh_imu_init W now1 now2 = (\<lambda>(s, w).
     (let (p1, w1) = imuProbeAddress W imu_i2c_addr_primary w;
          (p2, w2) = (if p1 then (False, w1) else imuProbeAddress W imu_i2c_addr_secondary w1)
      in if \<not> p1 \<and> \<not> p2 then (s\<lparr>s_imuReady := False\<rparr>, w2)
         else (let s1 = s\<lparr>s_imuAddr := (if p1 then imu_i2c_addr_primary else imu_i2c_addr_secondary)\<rparr>;
                   (who, w3) = imuReadReg W (s_imuAddr s1) reg_who_am_i w2;
                   (ok3, w4) = imuWriteReg W (s_imuAddr s1) reg_ctrl3 imu_ctrl3_value w3
               in if \<not> ok3 then (s1\<lparr>s_imuReady := False\<rparr>, w4)
                  else (let (ok7, w5) = imuWriteReg W (s_imuAddr s1) reg_ctrl7 imu_ctrl7_value w4
                        in if \<not> ok7 then (s1\<lparr>s_imuReady := False\<rparr>, w5) else imu_calibrate W now1 now2 (s1, w5)))))"

definition mkh_imu_poll :: "'w wire \<Rightarrow> u32 \<Rightarrow> imu_state \<times> 'w \<Rightarrow> imu_state \<times> 'w" where
  "mkh_imu_poll W now = (\<lambda>(s, w).
     (if \<not> s_imuReady s then (s, w)
      else (let (raw, w1) = imuReadRawGz W (s_imuAddr s) w
            in case raw of
                 None \<Rightarrow> (s, w1)
               | Some r \<Rightarrow>
                   (let dtSec = f_div_const (f32 (of_int (uint (now - s_lastSampleMs s)))) 1000;
                        rate = f_sub (raw_dps r) (s_biasDps s);
                        s1 = s\<lparr>s_lastSampleMs := now, s_rateDps := rate,
                               s_headingDeg := f_add (s_headingDeg s) (f_mul rate dtSec)\<rparr>
                    in (if now - s_lastLogMs s1 \<ge> imu_serial_log_interval_ms then s1\<lparr>s_lastLogMs := now\<rparr> else s1, w1)))))"

definition mkh_imu_rate_dps :: "imu_state \<Rightarrow> c_float" where "mkh_imu_rate_dps s = s_rateDps s"
definition mkh_imu_heading_deg :: "imu_state \<Rightarrow> c_float" where "mkh_imu_heading_deg s = s_headingDeg s"
definition mkh_imu_ready :: "imu_state \<Rightarrow> bool" where "mkh_imu_ready s = s_imuReady s"

section \<open>Reading a float\<close>

text \<open>
  \<open>strtof(s, &end)\<close>: \<open>None\<close> when nothing is converted, else the value and the rest. The value of a
  decimal or hexadecimal number is its exact value rounded once.
\<close>

fun match_prefix_ci :: "string \<Rightarrow> string \<Rightarrow> string option" where
  "match_prefix_ci [] s = Some s"
| "match_prefix_ci (p # ps) [] = None"
| "match_prefix_ci (p # ps) (c # cs) = (if to_lower c = p then match_prefix_ci ps cs else None)"

definition is_hex :: "char \<Rightarrow> bool" where
  "is_hex c \<longleftrightarrow> is_digit c \<or> 97 \<le> (of_char (to_lower c) :: nat) \<and> (of_char (to_lower c) :: nat) \<le> 102"

definition hex_value :: "char \<Rightarrow> int" where
  "hex_value c = (if is_digit c then digit_value c else int (of_char (to_lower c)) - 87)"

text \<open>Digits, an optional point and more digits; at least one digit in all.\<close>

definition scan_mantissa :: "(char \<Rightarrow> bool) \<Rightarrow> string \<Rightarrow> (string \<times> string \<times> string) option" where
  "scan_mantissa isd s =
     (let a = takeWhile isd s; r = dropWhile isd s;
          (b, r') = (case r of c # cs \<Rightarrow> if c = CHR ''.'' then (takeWhile isd cs, dropWhile isd cs) else ([], r)
                     | [] \<Rightarrow> ([], r))
      in if a @ b = [] then None else Some (a, b, r'))"

text \<open>An exponent is taken only if it has a digit.\<close>

definition scan_exponent :: "char \<Rightarrow> string \<Rightarrow> int \<times> string" where
  "scan_exponent mark s =
     (case s of
        c # cs \<Rightarrow>
          if to_lower c = mark then
            (let (neg, t) = (case cs of d # ds \<Rightarrow> if d = CHR ''-'' then (True, ds) else if d = CHR ''+'' then (False, ds)
                                                   else (False, cs)
                             | [] \<Rightarrow> (False, cs));
                 e = takeWhile is_digit t
             in if e = [] then (0, s) else (if neg then - digits_value e else digits_value e, dropWhile is_digit t))
          else (0, s)
      | [] \<Rightarrow> (0, s))"

definition base_value :: "int \<Rightarrow> (char \<Rightarrow> int) \<Rightarrow> string \<Rightarrow> int" where
  "base_value base val ds = fold (\<lambda>c v. v * base + val c) ds 0"

definition scan_number :: "string \<Rightarrow> (rat \<times> string) option" where
  "scan_number t =
     (case Option.bind (match_prefix_ci ''0x'' t) (scan_mantissa is_hex) of
        Some (a, b, r) \<Rightarrow>
          (let (e, r') = scan_exponent (CHR ''p'') r
           in Some (of_int (base_value 16 hex_value (a @ b)) * 2 powi (e - 4 * int (length b)), r'))
      | None \<Rightarrow>
          map_option (\<lambda>(a, b, r).
            (let (e, r') = scan_exponent (CHR ''e'') r
             in (of_int (base_value 10 digit_value (a @ b)) * 10 powi (e - int (length b)), r'))) (scan_mantissa is_digit t))"

definition scan_nan :: "string \<Rightarrow> string option" where
  "scan_nan t =
     map_option (\<lambda>r.
       (case r of
          c # cs \<Rightarrow>
            (let q = dropWhile (\<lambda>x. is_digit x \<or> to_lower x \<noteq> x \<or> 97 \<le> (of_char x :: nat) \<and> (of_char x :: nat) \<le> 122
                                     \<or> x = CHR ''_'') cs
             in if c = CHR ''('' \<and> q \<noteq> [] \<and> q ! 0 = CHR '')'' then tl q else r)
        | [] \<Rightarrow> r)) (match_prefix_ci ''nan'' t)"

definition strtof :: "string \<Rightarrow> (c_float \<times> string) option" where
  "strtof s0 =
     (let s = dropWhile is_space s0;
          (neg, t) = (case s of c # r \<Rightarrow> if c = CHR ''-'' then (True, r) else if c = CHR ''+'' then (False, r) else (False, s)
                      | [] \<Rightarrow> (False, s));
          result = (case match_prefix_ci ''infinity'' t of
                      Some r \<Rightarrow> Some (PInf, r)
                    | None \<Rightarrow>
                        (case match_prefix_ci ''inf'' t of
                           Some r \<Rightarrow> Some (PInf, r)
                         | None \<Rightarrow>
                             (case scan_nan t of
                                Some r \<Rightarrow> Some (NaN, r)
                              | None \<Rightarrow> map_option (\<lambda>(x, r). (f32 x, r)) (scan_number t))))
      in map_option (\<lambda>(x, r). (if neg then f_neg x else x, r)) result)"

section \<open>Tuning the heading lock\<close>

definition thl_tune_line_max :: nat where "thl_tune_line_max = 47"

definition set_tunable :: "string \<Rightarrow> c_float \<Rightarrow> thl_vars \<Rightarrow> thl_vars option" where
  "set_tunable param val v =
     (if strcaseeq param ''deadband'' then Some (v\<lparr>s_deadbandDeg := val\<rparr>)
      else if strcaseeq param ''kp'' then Some (v\<lparr>s_kpPctPerDeg := val\<rparr>)
      else if strcaseeq param ''floor'' then Some (v\<lparr>s_floorPct := val\<rparr>)
      else if strcaseeq param ''ceiling'' then Some (v\<lparr>s_ceilingPct := val\<rparr>)
      else if strcaseeq param ''cancel'' then Some (v\<lparr>s_cancelThresholdPct := val\<rparr>)
      else None)"

definition applyTuneLine :: "string \<Rightarrow> thl_vars \<Rightarrow> bool \<times> thl_vars" where
  "applyTuneLine line v =
     (case strtok_all line of
        cmd # param # valueStr # _ \<Rightarrow>
          if \<not> strcaseeq cmd ''thl'' then (False, v)
          else (case strtof valueStr of
                  None \<Rightarrow> (False, v)
                | Some (val, _) \<Rightarrow>
                    if f_less val (Fin 0) then (False, v)
                    else (case set_tunable param val v of None \<Rightarrow> (False, v) | Some v' \<Rightarrow> (True, v')))
      | _ \<Rightarrow> (False, v))"

text \<open>One character from the serial port; a line ends at its first NUL for the string functions.\<close>

definition serial_char :: "char \<Rightarrow> string \<times> thl_vars \<Rightarrow> string \<times> thl_vars" where
  "serial_char c = (\<lambda>(buf, v).
     (if c = CHR 0x0D then (buf, v)
      else if c = CHR 0x0A
        then (if buf = [] then (buf, v) else ([], snd (applyTuneLine (takeWhile (\<lambda>x. x \<noteq> CHR 0x00) buf) v)))
      else if length buf < thl_tune_line_max then (buf @ [c], v)
      else (buf, v)))"

definition mkh_thl_poll_serial_tuning :: "string \<Rightarrow> string \<times> thl_vars \<Rightarrow> string \<times> thl_vars" where
  "mkh_thl_poll_serial_tuning received bv = fold serial_char received bv"

section \<open>Battery\<close>

datatype BatteryState = BATTERY_GOOD | BATTERY_LOW | BATTERY_CRITICAL

record battery =
  batterySmoothedV :: c_float
  batteryHasReading :: bool
  lastBatteryReadMs :: u32

definition battery_boot :: battery where
  "battery_boot = \<lparr>batterySmoothedV = Fin 0, batteryHasReading = False, lastBatteryReadMs = 0\<rparr>"

definition mkh_battery_read_interval_ms :: u32 where "mkh_battery_read_interval_ms = 1000"
definition mkh_battery_ema_alpha :: c_float where "mkh_battery_ema_alpha = f32 (2 / 10)"
definition mkh_battery_low_v :: c_float where "mkh_battery_low_v = f32 (37 / 10)"
definition mkh_battery_critical_v :: c_float where "mkh_battery_critical_v = f32 (35 / 10)"
definition mkh_battery_divider_ratio :: c_float where "mkh_battery_divider_ratio = Fin 3"

definition f_le :: "c_float \<Rightarrow> c_float \<Rightarrow> bool" where
  "f_le a b \<longleftrightarrow> f_less a b \<or> a = b \<and> a \<noteq> NaN"

definition batteryStateFor :: "c_float \<Rightarrow> BatteryState" where
  "batteryStateFor volts =
     (if f_le volts mkh_battery_critical_v then BATTERY_CRITICAL
      else if f_le volts mkh_battery_low_v then BATTERY_LOW
      else BATTERY_GOOD)"

text \<open>\<open>pinMv\<close> is what \<open>analogReadMilliVolts\<close> returns.\<close>

definition updateBatteryReading :: "u32 \<Rightarrow> u32 \<Rightarrow> battery \<Rightarrow> battery" where
  "updateBatteryReading now pinMv b =
     (if batteryHasReading b \<and> now - lastBatteryReadMs b < mkh_battery_read_interval_ms then b
      else (let packV = f_mul (f_div_const (f32 (of_int (uint pinMv))) 1000) mkh_battery_divider_ratio
            in b\<lparr>lastBatteryReadMs := now, batteryHasReading := True,
                 batterySmoothedV :=
                   (if \<not> batteryHasReading b then packV
                    else f_add (f_mul (batterySmoothedV b) (f_sub (Fin 1) mkh_battery_ema_alpha))
                           (f_mul packV mkh_battery_ema_alpha))\<rparr>))"

end
