(* ===== verification/Peripherals_Laws.thy ===== *)
theory Peripherals_Laws
  imports Peripherals Drive_Machines
begin

text \<open>
  Facts about the peripherals: touch coordinates stay on the screen and a press is reported once,
  the gyroscope's calibration cancels a constant offset exactly, a tuning line changes at most
  one tunable, and two ways in which a fault of a peripheral is remembered for good.
\<close>

section \<open>Touch\<close>

lemma f32_not_nan [simp]: "f32 x \<noteq> NaN"
  by (simp add: f32_def Let_def)

lemma f_add_fin_not_nan: "b \<noteq> NaN \<Longrightarrow> f_add (Fin x) b \<noteq> NaN" "b \<noteq> NaN \<Longrightarrow> f_add b (Fin x) \<noteq> NaN"
  by (cases b; simp)+

lemma f_neg_nan [simp]: "f_neg a = NaN \<longleftrightarrow> a = NaN"
  by (cases a) simp_all

lemma clamp_fin:
  assumes "v \<noteq> NaN" "lo \<le> hi"
  obtains x where "f_clamp lo hi v = Fin x" "lo \<le> x" "x \<le> hi"
proof (cases v)
  case (Fin z)
  show ?thesis
    by (rule that [of "if z < lo then lo else if hi < z then hi else z"])
       (use assms(2) in \<open>auto simp: f_clamp_def Let_def Fin\<close>)
next
  case PInf
  show ?thesis by (rule that [of hi]) (use assms(2) in \<open>auto simp: f_clamp_def Let_def PInf\<close>)
next
  case NInf
  show ?thesis by (rule that [of lo]) (use assms(2) in \<open>auto simp: f_clamp_def Let_def NInf\<close>)
qed (use assms in simp)

lemma lround_int [simp]: "lround (of_int i) = i"
  by (rule lround_unique) simp

lemma lround_range: "of_int lo \<le> x \<Longrightarrow> x \<le> of_int hi \<Longrightarrow> lo \<le> lround x \<and> lround x \<le> hi"
  using lround_mono [of "of_int lo" x] lround_mono [of x "of_int hi"] by simp

lemma f32_const: "1 \<le> x \<Longrightarrow> x \<le> 1000 \<Longrightarrow> f32 x = Fin (f32_rat x)"
  by (rule f32_Fin) (auto intro: tiny)

lemma touch_display_range:
  obtains x y where "mkh_touch_raw_to_display rawX rawY = Some (x, y)" "0 \<le> x" "x \<le> 319" "0 \<le> y" "y \<le> 239"
proof -
  let ?dx = "f_sub (f_mul (f32 (10175 / 10000)) (f32 (of_int (uint rawY)))) (Fin 3)"
  let ?dy = "f_sub (f32 (2716 / 10)) (f_mul (f32 (12114 / 10000)) (f32 (of_int (uint rawX))))"
  have c: "f32 (10175 / 10000) = Fin (f32_rat (10175 / 10000))" "f32 (2716 / 10) = Fin (f32_rat (2716 / 10))"
    "f32 (12114 / 10000) = Fin (f32_rat (12114 / 10000))" by (rule f32_const; simp)+
  have m: "f_mul (Fin a) b \<noteq> NaN" if "b = Fin z" for a b z using that by simp
  have i: "\<exists>z. f32 (of_int (uint (raw :: u16))) = Fin z" for raw
  proof -
    have "\<bar>uint raw\<bar> < 2 ^ 24" using uint_lt2p [of raw] uint_ge_0 [of raw] by simp
    then have "float_value (of_int (uint raw))" by (rule float_value_int)
    moreover have "rat_of_int (uint raw) < of_int (2 ^ 16)" "rat_of_int (uint raw) \<ge> 0"
      using uint_lt2p [of raw] uint_ge_0 [of raw] by (simp_all only: of_int_less_iff of_int_0_le_iff) simp_all
    then have "\<bar>rat_of_int (uint raw)\<bar> < 2 ^ 128" by simp
    ultimately show ?thesis using float_value_f32 by blast
  qed
  have "?dx \<noteq> NaN" "?dy \<noteq> NaN"
    using i [of rawY] i [of rawX] m unfolding c f_sub_def by (auto intro!: f_add_fin_not_nan)
  then obtain x y where xy: "f_clamp 0 (display_w - 1) ?dx = Fin x" "0 \<le> x" "x \<le> display_w - 1"
    "f_clamp 0 (display_h - 1) ?dy = Fin y" "0 \<le> y" "y \<le> display_h - 1"
    using clamp_fin [of ?dx 0 "display_w - 1"] clamp_fin [of ?dy 0 "display_h - 1"]
    by (metis diff_ge_0_iff_ge display_h_def display_w_def one_le_numeral)
  have "0 \<le> lround x" "lround x \<le> 319" "0 \<le> lround y" "lround y \<le> 239"
    using lround_range [of 0 x 319] lround_range [of 0 y 239] xy by (simp_all add: display_w_def display_h_def)
  then have r: "mkh_touch_raw_to_display rawX rawY = Some (lround x, lround y)"
    unfolding mkh_touch_raw_to_display_def Let_def xy(1,4) by (simp add: i32_def)
  show ?thesis
    by (rule that [OF r]) (use lround_range [of 0 x 319] lround_range [of 0 y 239] xy in \<open>simp_all add: display_w_def display_h_def\<close>)
qed

text \<open>A poll never gets stuck on a conversion; what it returns is either nothing or a tap.\<close>

lemma touch_poll_cases:
  obtains (idle) "\<not> s_touchReady t \<or> \<not> s_touchIntFlag t" "mkh_touch_poll W (t, w) = Some (None, t, w)"
  | (fail) w' where "s_touchReady t" "s_touchIntFlag t" "cst816ReadRegs W reg_finger_num 5 w = (None, w')"
      "mkh_touch_poll W (t, w) = Some (None, t\<lparr>s_touchIntFlag := False\<rparr>, w')"
  | (read) b w' x y where "s_touchReady t" "s_touchIntFlag t" "cst816ReadRegs W reg_finger_num 5 w = (Some b, w')"
      "0 \<le> x" "x \<le> 319" "0 \<le> y" "y \<le> 239"
      "mkh_touch_poll W (t, w) = Some (if 0 < b ! 0 \<and> \<not> s_wasPressed t then Some (x, y) else None,
         t\<lparr>s_touchIntFlag := False, s_wasPressed := (0 < b ! 0)\<rparr>, w')"
proof (cases "\<not> s_touchReady t \<or> \<not> s_touchIntFlag t")
  case True
  then show ?thesis by (intro idle) (simp_all add: mkh_touch_poll_def)
next
  case False
  obtain buf w' where b: "cst816ReadRegs W reg_finger_num 5 w = (buf, w')" by fastforce
  show ?thesis
  proof (cases buf)
    case None
    with False b show ?thesis by (intro fail) (simp_all add: mkh_touch_poll_def)
  next
    case (Some bs)
    obtain x y where xy: "mkh_touch_raw_to_display (touch_coord (bs ! 1) (bs ! 2)) (touch_coord (bs ! 3) (bs ! 4)) = Some (x, y)"
      "0 \<le> x" "x \<le> 319" "0 \<le> y" "y \<le> 239" by (rule touch_display_range)
    show ?thesis
    proof (rule read)
      show "cst816ReadRegs W reg_finger_num 5 w = (Some bs, w')" using b Some by simp
      show "mkh_touch_poll W (t, w) = Some (if 0 < bs ! 0 \<and> \<not> s_wasPressed t then Some (x, y) else None,
         t\<lparr>s_touchIntFlag := False, s_wasPressed := (0 < bs ! 0)\<rparr>, w')"
        using False xy b Some by (simp add: mkh_touch_poll_def Let_def)
    qed (use False xy in simp_all)
  qed
qed

text \<open>A poll always returns, and the touch driver reports a tap exactly once per press and on the
  screen: when a poll returns coordinates, a panel interrupt was pending, the panel was released
  at the last reading and is pressed now, and the point lies in the 320 by 240 frame.\<close>

theorem touch_tap_sound:
  "\<exists>tap t' w'. mkh_touch_poll W (t, w) = Some (tap, t', w') \<and>
     (tap = None \<or> s_touchReady t \<and> s_touchIntFlag t \<and> \<not> s_wasPressed t \<and> s_wasPressed t' \<and>
       (\<exists>x y. tap = Some (x, y) \<and> 0 \<le> x \<and> x < 320 \<and> 0 \<le> y \<and> y < 240))"
  by (cases rule: touch_poll_cases [of t W w]) auto

text \<open>Polls without an interrupt in between.\<close>

fun polls :: "'w wire \<Rightarrow> nat \<Rightarrow> touch_state \<times> 'w \<Rightarrow> (touch_state \<times> 'w) option" where
  "polls W 0 tw = Some tw"
| "polls W (Suc n) tw = Option.bind (mkh_touch_poll W tw) (\<lambda>(tap, tw'). polls W n tw')"

text \<open>A release whose I2C read fails is lost: the poll has consumed the interrupt, so that until the
  next interrupt every poll leaves the panel pressed, although no finger is on it.\<close>

theorem touch_release_lost:
  assumes "s_touchReady t" "s_touchIntFlag t" "s_wasPressed t" "fst (cst816ReadRegs W reg_finger_num 5 w) = None"
  shows "\<exists>t' w'. polls W (Suc n) (t, w) = Some (t', w') \<and> mkh_touch_is_pressed t'"
proof -
  obtain w' where p: "mkh_touch_poll W (t, w) = Some (None, t\<lparr>s_touchIntFlag := False\<rparr>, w')"
    using assms by (cases rule: touch_poll_cases [of t W w]) auto
  have "polls W n (t\<lparr>s_touchIntFlag := False\<rparr>, w') = Some (t\<lparr>s_touchIntFlag := False\<rparr>, w')" for n
    by (induction n) (simp_all add: mkh_touch_poll_def)
  then show ?thesis using assms(3) by (simp add: p mkh_touch_is_pressed_def)
qed

definition dead_wire :: "unit wire" where
  "dead_wire = \<lparr>wire_begin = Pair True, wire_send = (\<lambda>a bs stop w. (1, w)), wire_request = (\<lambda>a n w. ([], w))\<rparr>"

theorem touch_release_lost_witness:
  "\<exists>t' w'. polls dead_wire (Suc 7) (\<lparr>s_touchReady = True, s_wasPressed = True, s_touchIntFlag = True\<rparr>, ()) = Some (t', w') \<and>
     mkh_touch_is_pressed t'"
  by (rule touch_release_lost) (simp_all add: cst816ReadRegs_def read_regs_def dead_wire_def)

section \<open>Gyroscope\<close>

definition steady :: "'w wire \<Rightarrow> u8 \<Rightarrow> int \<Rightarrow> bool" where
  "steady W addr r \<longleftrightarrow> (\<forall>w. fst (imuReadRawGz W addr w) = Some r)"

lemma steadyE:
  assumes "steady W addr r"
  obtains w' where "imuReadRawGz W addr w = (Some r, w')"
  using assms by (metis prod.collapse steady_def)

lemma sint_u16: "\<bar>sint (x :: u16)\<bar> \<le> 32768"
  using sint_ge [of x] sint_lt [of x] by simp

lemma raw_gz_range:
  assumes "imuReadRawGz W addr w = (Some r, w')"
  shows "\<bar>r\<bar> \<le> 2 ^ 15"
proof -
  obtain lo w1 where lo: "imuReadReg W addr reg_gz_l w = (lo, w1)" by fastforce
  obtain hi w2 where hi: "imuReadReg W addr reg_gz_h w1 = (hi, w2)" by fastforce
  define word where "word h l = (push_bit 8 (ucast h) OR ucast l :: u16)" for h l :: u8
  obtain x :: u16 where "r = sint x"
    using assms unfolding imuReadRawGz_def lo hi word_def [symmetric] Let_def prod.case
    by (cases lo; cases hi; simp only: option.case option.map prod.inject option.inject option.distinct simp_thms) blast+
  then have "\<bar>r\<bar> \<le> 32768" by (simp only: sint_u16)
  then show ?thesis by simp
qed

lemma float_value_128: "\<bar>m\<bar> < 2 ^ 24 \<Longrightarrow> float_value (of_int m / 128)"
proof -
  have "(2 :: rat) powi (-7) = 1 / 128" by (simp add: power_int_def power_divide)
  then show "\<bar>m\<bar> < 2 ^ 24 \<Longrightarrow> float_value (of_int m / 128)"
    unfolding float_value_def by (intro exI [of _ m] exI [of _ "-7"]) simp
qed

lemma f32_128:
  assumes "\<bar>m\<bar> < 2 ^ 24"
  shows "f32 (of_int m / 128) = Fin (of_int m / 128)"
proof -
  have "\<bar>rat_of_int m\<bar> < of_int (2 ^ 24)" using assms by (simp only: of_int_abs [symmetric] of_int_less_iff)
  then show ?thesis by (intro float_value_f32 float_value_128 assms) simp
qed

lemma f32_int_exact: "\<bar>m\<bar> < 2 ^ 24 \<Longrightarrow> f32 (of_int m) = Fin (of_int m)"
proof -
  assume m: "\<bar>m\<bar> < 2 ^ 24"
  then have "\<bar>rat_of_int m\<bar> < of_int (2 ^ 24)" by (simp only: of_int_abs [symmetric] of_int_less_iff)
  then show ?thesis by (intro float_value_f32 float_value_int m) simp
qed

lemma f32_zero [simp]: "f32 0 = Fin 0"
  using f32_int_exact [of 0] by simp

lemma raw_dps_exact: "\<bar>r\<bar> \<le> 2 ^ 15 \<Longrightarrow> raw_dps r = Fin (of_int r / 128)"
  using f32_int_exact [of r] f32_128 [of r] by (simp add: raw_dps_def imu_gyro_sensitivity_def)

lemma bias_samples_steady:
  assumes "steady W addr r" "\<bar>r\<bar> \<le> 2 ^ 15" "k + n \<le> 50"
  shows "\<exists>w'. bias_samples W addr n (Fin (of_int (int k * r) / 128), k, w) = (Fin (of_int (int (k + n) * r) / 128), k + n, w')"
  using assms(3)
proof (induction n arbitrary: k w)
  case (Suc n)
  obtain w1 where w1: "imuReadRawGz W addr w = (Some r, w1)" by (rule steadyE [OF assms(1)])
  have "int (k + 1) * \<bar>r\<bar> \<le> 50 * 2 ^ 15" using Suc.prems assms(2) by (intro mult_mono) auto
  then have "\<bar>int (k + 1) * r\<bar> < 2 ^ 24" by (simp add: abs_mult)
  from f32_128 [OF this] have
    "f_add (Fin (of_int (int k * r) / 128)) (raw_dps r) = Fin (of_int (int (k + 1) * r) / 128)"
    by (simp add: raw_dps_exact [OF assms(2)] algebra_simps add_divide_distrib)
  with Suc.IH [of "k + 1" w1] Suc.prems show ?case by (simp add: w1)
qed simp

lemma f32_elapsed:
  assumes "0 \<le> n" "n < 2 ^ 32"
  obtains y where "f_div_const (f32 (of_int n)) 1000 = Fin y"
proof (cases "n = 0")
  case True
  then show ?thesis by (intro that [of 0]) simp
next
  case False
  have n: "1 \<le> rat_of_int n" "rat_of_int n \<le> 4294967296"
    using assms False of_int_le_iff [of n "2 ^ 32", where 'a = rat] by simp_all
  let ?y = "f32_rat (of_int n)"
  have e: "\<bar>?y - of_int n\<bar> \<le> of_int n / 2 ^ 24" using f32_rat_error [of "of_int n"] n tiny [of "of_int n"] by simp
  moreover have "rat_of_int n / 2 ^ 24 \<le> of_int n / 2" using n by simp
  ultimately have "?y - of_int n \<le> of_int n / 2" "of_int n - ?y \<le> of_int n / 2" by linarith+
  then have y: "1 / 2 \<le> ?y" "?y \<le> 8589934592" using n by linarith+
  then have f: "f32 (of_int n) = Fin ?y" by (intro f32_small) simp
  have "1 / 2000 \<le> ?y / 1000" using y by simp
  then have t: "2 powi (-126) \<le> \<bar>?y / 1000\<bar>" using y by (intro tiny) simp
  define z where "z = ?y / 1000"
  have z: "0 \<le> z" "z \<le> 8589934592" using y by (simp_all add: z_def)
  have "\<bar>f32_rat z - z\<bar> \<le> z" using f32_rat_error [OF t] z(1) unfolding z_def by simp
  then have "\<bar>f32_rat z\<bar> \<le> 17179869184" using z by linarith
  then have "\<bar>f32_rat (?y / 1000)\<bar> < 2 ^ 128" unfolding z_def by simp
  from f32_small [OF this] show ?thesis by (intro that) (simp add: f)
qed

lemma poll_still:
  assumes "steady W (s_imuAddr s) r" "s_imuReady s" "s_biasDps s = Fin (of_int r / 128)" "s_headingDeg s = Fin 0"
  obtains s' w' where "mkh_imu_poll W now (s, w) = (s', w')" "s_imuReady s'" "s_imuAddr s' = s_imuAddr s"
    "s_biasDps s' = s_biasDps s" "s_headingDeg s' = Fin 0" "s_rateDps s' = Fin 0"
proof -
  obtain w1 where w1: "imuReadRawGz W (s_imuAddr s) w = (Some r, w1)" by (rule steadyE [OF assms(1)])
  obtain dt where dt: "f_div_const (f32 (of_int (uint (now - s_lastSampleMs s)))) 1000 = Fin dt"
    by (rule f32_elapsed [of "uint (now - s_lastSampleMs s)"]) (use uint_lt2p [of "now - s_lastSampleMs s"] in simp_all)
  have rate: "f_sub (raw_dps r) (s_biasDps s) = Fin 0"
    using raw_gz_range [OF w1] by (simp add: raw_dps_exact assms(3) f_sub_def)
  have head: "f_add (s_headingDeg s) (f_mul (f_sub (raw_dps r) (s_biasDps s))
      (f_div_const (f32 (of_int (uint (now - s_lastSampleMs s)))) 1000)) = Fin 0"
    unfolding rate dt assms(4) by simp
  show ?thesis
    by (rule that [of "fst (mkh_imu_poll W now (s, w))" "snd (mkh_imu_poll W now (s, w))"])
       (use assms(2) head rate in \<open>simp_all add: mkh_imu_poll_def w1 Let_def\<close>)
qed

definition poll_at :: "'w wire \<Rightarrow> u32 list \<Rightarrow> imu_state \<times> 'w \<Rightarrow> imu_state \<times> 'w" where
  "poll_at W = fold (mkh_imu_poll W)"

text \<open>A tank at rest does not turn: if the gyroscope reports the same raw rate at every reading
  during calibration and afterwards, a successful initialisation takes exactly that rate as the
  bias, and the heading stays zero through any number of polls at any times, over every
  wrap-around of the clock and without rounding drift.\<close>

theorem imu_still_no_drift:
  assumes "mkh_imu_init W now1 now2 (imu_boot, w) = (s, w')" "s_imuReady s" "steady W (s_imuAddr s) r"
  shows "s_biasDps s = Fin (of_int r / 128) \<and> s_headingDeg (fst (poll_at W ticks (s, w'))) = Fin 0"
proof -
  obtain s1 w1 where c: "imu_calibrate W now1 now2 (s1, w1) = (s, w')" "s_headingDeg s1 = Fin 0"
    using assms(1,2) unfolding mkh_imu_init_def
    by (auto simp: Let_def imu_boot_def split: prod.splits if_splits)
  obtain acc got w2 where b: "bias_samples W (s_imuAddr s1) imu_bias_samples (Fin 0, 0, w1) = (acc, got, w2)"
    by (metis prod.exhaust)
  have a: "s_imuAddr s = s_imuAddr s1" "s_headingDeg s = Fin 0" "got \<noteq> 0" "s_biasDps s = f_div_const acc (of_nat got)"
    using c assms(2) by (auto simp: imu_calibrate_def b split: if_splits)
  obtain w3 where r: "imuReadRawGz W (s_imuAddr s1) w = (Some r, w3)"
    by (rule steadyE [OF assms(3) [unfolded a(1)]])
  have acc: "acc = Fin (of_int (50 * r) / 128)" "got = 50"
    using bias_samples_steady [OF assms(3) [unfolded a(1)] raw_gz_range [OF r], of 0 50 w1] b
    by (simp_all add: imu_bias_samples_def)
  have bias: "s_biasDps s = Fin (of_int r / 128)"
    using f32_128 [of r] raw_gz_range [OF r] by (simp add: a(4) acc)
  have "s_headingDeg (fst (poll_at W ticks (s, w'))) = Fin 0"
    if "s_imuReady s" "steady W (s_imuAddr s) r" "s_biasDps s = Fin (of_int r / 128)" "s_headingDeg s = Fin 0" for s w'
    using that
  proof (induction ticks arbitrary: s w')
    case (Cons now ticks)
    obtain t w4 where t: "mkh_imu_poll W now (s, w') = (t, w4)" "s_imuReady t" "s_imuAddr t = s_imuAddr s"
      "s_biasDps t = s_biasDps s" "s_headingDeg t = Fin 0" by (rule poll_still [OF Cons.prems(2,1,3,4)])
    show ?case using Cons.IH [of t w4] Cons.prems t by (simp add: poll_at_def)
  qed (simp add: poll_at_def)
  with bias assms(2,3) a(2) show ?thesis by blast
qed

definition still_wire :: "u8 wire" where
  "still_wire = \<lparr>wire_begin = Pair True, wire_send = (\<lambda>a bs stop w. (0, if bs = [] then w else bs ! 0)),
     wire_request = (\<lambda>a n w. ([if w = reg_gz_l then 0x2A else if w = reg_gz_h then 0xFF else 0x05], w))\<rparr>"

lemma still_wire_reads: "imuReadRawGz still_wire addr w = (Some (-214), reg_gz_h)"
  by (simp add: imuReadRawGz_def imuReadReg_def read_regs_def still_wire_def reg_gz_l_def reg_gz_h_def)

theorem imu_still_no_drift_witness:
  "s_biasDps (fst (mkh_imu_init still_wire 7 7 (imu_boot, 0))) = Fin (- (214 / 128)) \<and>
   s_headingDeg (fst (poll_at still_wire [150, 330, 5] (mkh_imu_init still_wire 7 7 (imu_boot, 0)))) = Fin 0"
proof -
  obtain s w' where s: "mkh_imu_init still_wire 7 7 (imu_boot, 0) = (s, w')" by fastforce
  have st: "steady still_wire a (-214)" for a by (simp add: steady_def still_wire_reads)
  have b: "\<exists>w2. bias_samples still_wire a 50 (Fin 0, 0, w) = (Fin (- (2675 / 32)), 50, w2)" for a w
    using bias_samples_steady [OF st, of 0 50] by simp
  obtain w3 where w3: "bias_samples still_wire imu_i2c_addr_primary 50 (Fin 0, 0, reg_ctrl7) = (Fin (- (2675 / 32)), 50, w3)"
    using b by blast
  have bus: "fst (imuProbeAddress still_wire a v)" "snd (imuProbeAddress still_wire a v) = v"
    "imuWriteReg still_wire a q d v = (True, q)" for a v q d
    by (simp_all add: imuProbeAddress_def imuWriteReg_def still_wire_def)
  have "mkh_imu_init still_wire 7 7 (imu_boot, 0) =
      imu_calibrate still_wire 7 7 (imu_boot\<lparr>s_imuAddr := imu_i2c_addr_primary\<rparr>, reg_ctrl7)"
    by (simp add: mkh_imu_init_def bus split_def Let_def)
  then have "s_imuReady s" using s by (simp add: imu_calibrate_def imu_bias_samples_def w3)
  from imu_still_no_drift [OF s this st, of "[150, 330, 5]"] show ?thesis by (simp add: s)
qed

section \<open>The tuning console\<close>

definition tunables :: "thl_vars \<Rightarrow> c_float list" where
  "tunables v = [s_deadbandDeg v, s_kpPctPerDeg v, s_floorPct v, s_ceilingPct v, s_cancelThresholdPct v]"

text \<open>What a tuning line can do: nothing, or give one tunable a value that is not below zero.\<close>

lemma tune_line_cases:
  "applyTuneLine line v = (False, v) \<or>
   (\<exists>val v'. applyTuneLine line v = (True, v') \<and> \<not> f_less val (Fin 0) \<and>
     v' \<in> {v\<lparr>s_deadbandDeg := val\<rparr>, v\<lparr>s_kpPctPerDeg := val\<rparr>, v\<lparr>s_floorPct := val\<rparr>, v\<lparr>s_ceilingPct := val\<rparr>,
           v\<lparr>s_cancelThresholdPct := val\<rparr>})"
proof (cases "strtok_all line")
  case (Cons cmd rest)
  show ?thesis
  proof (cases "\<exists>param valueStr more. rest = param # valueStr # more")
    case True
    then obtain param valueStr more where r: "rest = param # valueStr # more" by blast
    show ?thesis
    proof (cases "strtof valueStr")
      case (Some p)
      obtain val tail where "p = (val, tail)" by fastforce
      with Some show ?thesis
        by (cases "f_less val (Fin 0)") (auto simp: applyTuneLine_def Cons r set_tunable_def)
    qed (simp add: applyTuneLine_def Cons r)
  next
    case False
    then show ?thesis by (auto simp: applyTuneLine_def Cons split: list.split)
  qed
qed (simp add: applyTuneLine_def)

definition console_ok :: "string \<times> thl_vars \<Rightarrow> bool" where
  "console_ok bv \<longleftrightarrow> length (fst bv) \<le> thl_tune_line_max \<and> list_all (\<lambda>x. \<not> f_less x (Fin 0)) (tunables (snd bv))"

lemma tune_line_ok:
  assumes "list_all (\<lambda>x. \<not> f_less x (Fin 0)) (tunables v)"
  shows "list_all (\<lambda>x. \<not> f_less x (Fin 0)) (tunables (snd (applyTuneLine line v)))"
  using tune_line_cases [of line v] assms by (auto simp: tunables_def)

lemma serial_char_ok: "console_ok bv \<Longrightarrow> console_ok (serial_char c bv)"
  using tune_line_ok [of "snd bv"] by (cases bv) (auto simp: console_ok_def serial_char_def)

text \<open>Whatever bytes arrive on the serial port, the tuning console never writes past the end of its
  line buffer and never makes a tunable negative, and the state of the lock other than its
  tunables stays as it is.\<close>

theorem serial_console_safe:
  assumes "length buf \<le> thl_tune_line_max" "list_all (\<lambda>x. \<not> f_less x (Fin 0)) (tunables v)"
    and "mkh_thl_poll_serial_tuning received (buf, v) = (buf', v')"
  shows "length buf' \<le> thl_tune_line_max \<and> list_all (\<lambda>x. \<not> f_less x (Fin 0)) (tunables v') \<and>
    s_statusState v' = s_statusState v \<and> s_statusErrorDeg v' = s_statusErrorDeg v \<and>
    s_statusOutputPct v' = s_statusOutputPct v"
proof -
  let ?st = "\<lambda>v. (s_statusState v, s_statusErrorDeg v, s_statusOutputPct v)"
  have line: "?st (snd (applyTuneLine line v)) = ?st v" for line v using tune_line_cases [of line v] by auto
  have char: "?st (snd (serial_char c bv)) = ?st (snd bv)" for c bv
    using line by (cases bv) (simp add: serial_char_def)
  have "console_ok (fold serial_char received bv) \<and> ?st (snd (fold serial_char received bv)) = ?st (snd bv)"
    if "console_ok bv" for bv
    using that
  proof (induction received arbitrary: bv)
    case (Cons c received)
    show ?case using Cons.IH [OF serial_char_ok [OF Cons.prems, of c]] char [of c bv] by simp
  qed simp
  from this [of "(buf, v)"] assms show ?thesis by (simp add: mkh_thl_poll_serial_tuning_def console_ok_def)
qed

theorem serial_console_safe_witness:
  "\<exists>buf' v'. mkh_thl_poll_serial_tuning (''thl floor 20'' @ [CHR 0x0A] @ replicate 60 (CHR ''x'')) ([], thl_boot) = (buf', v') \<and>
     length buf' \<le> 47 \<and> s_statusState v' = MKH_THL_STATE_OFF"
proof -
  obtain buf' v' where r: "mkh_thl_poll_serial_tuning (''thl floor 20'' @ [CHR 0x0A] @ replicate 60 (CHR ''x'')) ([], thl_boot) = (buf', v')"
    by fastforce
  from serial_console_safe [OF _ _ r] show ?thesis
    using r by (simp add: thl_tune_line_max_def tunables_def thl_boot_def)
qed

definition tuned_nan :: thl_vars where
  "tuned_nan = snd (mkh_thl_poll_serial_tuning (''thl kp nan'' @ [CHR 0x0A]) ([], thl_boot))"

lemma tuned_nan_eq: "tuned_nan = thl_boot\<lparr>s_kpPctPerDeg := NaN\<rparr>"
  by code_simp

text \<open>The console accepts the line "thl kp nan": the test for a negative value lets it through. From
  then on an engaged lock outside its deadband computes no motor value: the control law yields
  NaN, past both limits, and its conversion to an integer is unspecified.\<close>

theorem tune_nan_poisons_lock:
  "s_kpPctPerDeg tuned_nan = NaN \<and>
   fst (mkh_thl_compute_output_pct tuned_nan (Fin 30) (Fin 10)) = NaN \<and>
   thl_step \<lparr>currentFrame = 0, imu_ready = True, imu_heading = Fin 10\<rparr> False
     (clear_slot\<lparr>thlEngaged := True, thlReferenceDeg := Fin 30\<rparr>, tuned_nan) = None"
proof -
  have o: "mkh_thl_compute_output_pct tuned_nan (Fin 30) (Fin 10) = (NaN, Fin 20)"
    by (simp add: mkh_thl_compute_output_pct_def tuned_nan_eq thl_boot_def error_30_10 Let_def)
  then show ?thesis
    by (simp add: thl_step_def thl_press_def clear_slot_def) (simp add: tuned_nan_eq)
qed

end
