(* ===== verification/Gamepad.thy ===== *)
theory Gamepad
  imports Drive
begin

text \<open>
  The virtual gamepad of Bluepad32 (\<^verbatim>\<open>components/bluepad32/controller/uni_gamepad.c\<close>): its data, the
  button remapping between the report parser and the application, and the accessors of the
  Arduino \<open>Controller\<close> class (\<^verbatim>\<open>ArduinoController.h\<close>) through which the firmware reads it. The
  union of \<open>uni_controller_t\<close> is represented by what its members of interest read: the gamepad
  member and the button words of the mouse member.
\<close>

section \<open>Data\<close>

datatype uni_controller_class =
    UNI_CONTROLLER_CLASS_NONE
  | UNI_CONTROLLER_CLASS_GAMEPAD
  | UNI_CONTROLLER_CLASS_MOUSE
  | UNI_CONTROLLER_CLASS_KEYBOARD
  | UNI_CONTROLLER_CLASS_BALANCE_BOARD

record uni_gamepad =
  gp_dpad :: u8
  gp_axis_x :: int
  gp_axis_y :: int
  gp_axis_rx :: int
  gp_axis_ry :: int
  gp_brake :: int
  gp_throttle :: int
  gp_buttons :: u16
  gp_misc_buttons :: u8
  gp_gyro :: "int list"
  gp_accel :: "int list"

record uni_controller =
  klass :: uni_controller_class
  gamepad :: uni_gamepad
  mouse_buttons :: u16
  mouse_misc_buttons :: u8
  ctl_battery :: u8

definition zero_gamepad :: uni_gamepad where
  "zero_gamepad = \<lparr>gp_dpad = 0, gp_axis_x = 0, gp_axis_y = 0, gp_axis_rx = 0, gp_axis_ry = 0, gp_brake = 0,
     gp_throttle = 0, gp_buttons = 0, gp_misc_buttons = 0, gp_gyro = [0, 0, 0], gp_accel = [0, 0, 0]\<rparr>"

definition zero_controller :: uni_controller where
  "zero_controller = \<lparr>klass = UNI_CONTROLLER_CLASS_NONE, gamepad = zero_gamepad, mouse_buttons = 0,
     mouse_misc_buttons = 0, ctl_battery = 0\<rparr>"

text \<open>The positions of the bits in the button words.\<close>

definition dpad_bits :: "nat list" where "dpad_bits = [0, 1, 2, 3]"
definition button_bits :: "nat list" where "button_bits = [0, 1, 2, 3, 4, 5, 6, 7, 8, 9]"
definition misc_bits :: "nat list" where "misc_bits = [0, 1, 2, 3]"

section \<open>Accessors\<close>

definition ctl_buttons :: "uni_controller \<Rightarrow> u16" where
  "ctl_buttons c =
     (if klass c = UNI_CONTROLLER_CLASS_GAMEPAD then gp_buttons (gamepad c)
      else if klass c = UNI_CONTROLLER_CLASS_MOUSE then mouse_buttons c
      else 0)"

definition ctl_miscButtons :: "uni_controller \<Rightarrow> u16" where
  "ctl_miscButtons c =
     (if klass c = UNI_CONTROLLER_CLASS_GAMEPAD then ucast (gp_misc_buttons (gamepad c))
      else if klass c = UNI_CONTROLLER_CLASS_MOUSE then ucast (mouse_misc_buttons c)
      else 0)"

definition accessors :: "uni_controller \<Rightarrow> controller" where
  "accessors c =
     \<lparr>axisX = gp_axis_x (gamepad c), axisY = gp_axis_y (gamepad c), axisRX = gp_axis_rx (gamepad c),
      axisRY = gp_axis_ry (gamepad c), brake = gp_brake (gamepad c), throttle = gp_throttle (gamepad c),
      btn_a = bit (ctl_buttons c) 0, btn_b = bit (ctl_buttons c) 1, btn_x = bit (ctl_buttons c) 2,
      btn_y = bit (ctl_buttons c) 3, l1 = bit (ctl_buttons c) 4, r1 = bit (ctl_buttons c) 5,
      thumbL = bit (ctl_buttons c) 8, thumbR = bit (ctl_buttons c) 9, dpad = gp_dpad (gamepad c)\<rparr>"

section \<open>Remapping\<close>

datatype mappings_type = MAPPINGS_XBOX | MAPPINGS_SWITCH | MAPPINGS_CUSTOM

record uni_gamepad_mappings =
  map_dpad :: "nat list"
  map_button :: "nat list"
  map_misc :: "nat list"
  map_axis_x :: nat
  map_axis_y :: nat
  map_axis_rx :: nat
  map_axis_ry :: nat
  map_axis_x_inverted :: bool
  map_axis_y_inverted :: bool
  map_axis_rx_inverted :: bool
  map_axis_ry_inverted :: bool
  map_brake :: nat
  map_throttle :: nat

text \<open>The fields of one kind are a list in the order of their bits: up, down, right, left for the
  D-pad, and A to thumb R and system to capture for the buttons.\<close>

definition gamepad_default_mappings :: uni_gamepad_mappings where
  "gamepad_default_mappings =
     \<lparr>map_dpad = dpad_bits, map_button = button_bits, map_misc = misc_bits,
      map_axis_x = 0, map_axis_y = 1, map_axis_rx = 2, map_axis_ry = 3,
      map_axis_x_inverted = False, map_axis_y_inverted = False, map_axis_rx_inverted = False,
      map_axis_ry_inverted = False, map_brake = 0, map_throttle = 1\<rparr>"

definition get_mappings_value_for_axis :: "nat \<Rightarrow> uni_gamepad \<Rightarrow> int" where
  "get_mappings_value_for_axis axis_type gp =
     (if axis_type = 0 then gp_axis_x gp
      else if axis_type = 1 then gp_axis_y gp
      else if axis_type = 2 then gp_axis_rx gp
      else if axis_type = 3 then gp_axis_ry gp
      else -1)"

definition get_mappings_value_for_pedal :: "nat \<Rightarrow> uni_gamepad \<Rightarrow> int" where
  "get_mappings_value_for_pedal pedal_type gp =
     (if pedal_type = 1 then gp_throttle gp else if pedal_type = 0 then gp_brake gp else -1)"

text \<open>Each pressed bit is set at its mapped position.\<close>

definition remap_bits :: "'a::len word \<Rightarrow> nat list \<Rightarrow> 'a word" where
  "remap_bits old targets =
     fold (\<lambda>i new. if bit old i then new OR push_bit (targets ! i) 1 else new) [0..<length targets] 0"

definition remap_axis :: "bool \<Rightarrow> nat \<Rightarrow> uni_gamepad \<Rightarrow> int option" where
  "remap_axis inverted axis_type gp =
     (let v = get_mappings_value_for_axis axis_type gp in if inverted then i32 (- v) else Some v)"

definition swap_buttons :: "u16 \<Rightarrow> u16" where
  "swap_buttons old =
     (let new0 = old AND NOT 0x0F;
          new1 = (if bit old 0 then new0 OR push_bit 1 1 else new0);
          new2 = (if bit old 1 then new1 OR push_bit 0 1 else new1);
          new3 = (if bit old 2 then new2 OR push_bit 3 1 else new2)
      in if bit old 3 then new3 OR push_bit 2 1 else new3)"

text \<open>\<open>None\<close> is the overflow of negating the smallest 32-bit integer.\<close>

definition uni_gamepad_remap :: "mappings_type \<Rightarrow> uni_gamepad_mappings \<Rightarrow> uni_gamepad \<Rightarrow> uni_gamepad option" where
  "uni_gamepad_remap mt m gp =
     (case mt of
        MAPPINGS_XBOX \<Rightarrow> Some gp
      | MAPPINGS_SWITCH \<Rightarrow> Some (gp\<lparr>gp_buttons := swap_buttons (gp_buttons gp)\<rparr>)
      | MAPPINGS_CUSTOM \<Rightarrow>
          do { x \<leftarrow> remap_axis (map_axis_x_inverted m) (map_axis_x m) gp;
               y \<leftarrow> remap_axis (map_axis_y_inverted m) (map_axis_y m) gp;
               rx \<leftarrow> remap_axis (map_axis_rx_inverted m) (map_axis_rx m) gp;
               ry \<leftarrow> remap_axis (map_axis_ry_inverted m) (map_axis_ry m) gp;
               Some (zero_gamepad
                 \<lparr>gp_buttons := remap_bits (gp_buttons gp) (map_button m),
                  gp_dpad := remap_bits (gp_dpad gp) (map_dpad m),
                  gp_misc_buttons := remap_bits (gp_misc_buttons gp) (map_misc m),
                  gp_axis_x := x, gp_axis_y := y, gp_axis_rx := rx, gp_axis_ry := ry,
                  gp_brake := get_mappings_value_for_pedal (map_brake m) gp,
                  gp_throttle := get_mappings_value_for_pedal (map_throttle m) gp\<rparr>) })"

record mappings_state =
  mapping :: uni_gamepad_mappings
  mappings_kind :: mappings_type

definition uni_gamepad_set_mappings :: "uni_gamepad_mappings \<Rightarrow> mappings_state \<Rightarrow> mappings_state" where
  "uni_gamepad_set_mappings m s = s\<lparr>mappings_kind := MAPPINGS_CUSTOM, mapping := m\<rparr>"

definition uni_gamepad_set_mappings_type :: "mappings_type \<Rightarrow> mappings_state \<Rightarrow> mappings_state" where
  "uni_gamepad_set_mappings_type t s = s\<lparr>mappings_kind := t\<rparr>"

section \<open>Facts\<close>

lemma remap_bits_bit:
  "bit (remap_bits (old :: 'a::len word) targets) n \<longleftrightarrow>
   n < LENGTH('a) \<and> (\<exists>i<length targets. bit old i \<and> n = targets ! i)"
proof -
  have "bit (fold (\<lambda>i new. if bit old i then new OR push_bit (targets ! i) 1 else new) is r) n \<longleftrightarrow>
    bit r n \<or> n < LENGTH('a) \<and> (\<exists>i \<in> set is. bit old i \<and> n = targets ! i)" for "is" and r :: "'a word"
    by (induction "is" arbitrary: r) (auto simp: bit_simps)
  from this [of "[0..<length targets]" 0] show ?thesis by (auto simp: remap_bits_def)
qed

lemma remap_bits_id:
  assumes "\<And>i. i < length targets \<Longrightarrow> targets ! i = i" "\<And>n. bit w n \<Longrightarrow> n < length targets"
  shows "remap_bits w targets = w"
proof (rule bit_word_eqI)
  fix n assume n: "n < LENGTH('a)"
  show "bit (remap_bits w targets) n = bit w n"
    using assms(1) assms(2) [of n] n unfolding remap_bits_bit by fastforce
qed

text \<open>Swapping the face buttons for a Switch layout loses nothing: doing it twice gives the same
  report back, and every bit other than the four face buttons is untouched.\<close>

theorem switch_remap_involution:
  "Option.bind (uni_gamepad_remap MAPPINGS_SWITCH m gp) (uni_gamepad_remap MAPPINGS_SWITCH m') = Some gp \<and>
   (\<exists>gp'. uni_gamepad_remap MAPPINGS_SWITCH m gp = Some gp' \<and> drop_bit 4 (gp_buttons gp') = drop_bit 4 (gp_buttons gp))"
proof -
  have mask: "bit (0x0F :: u16) n \<longleftrightarrow> n < 4" for n
  proof -
    have "(0x0F :: u16) = mask 4" by (simp add: mask_eq_exp_minus_1)
    then show ?thesis by (simp only: bit_mask_iff) auto
  qed
  define put where "put k w = (w OR push_bit k 1 :: u16)" for k w
  define low where "low w = (w AND NOT 0x0F :: u16)" for w
  have f: "bit (put k w) n \<longleftrightarrow> bit w n \<or> n = k" "bit (low w) n \<longleftrightarrow> bit w n \<and> 4 \<le> n" if "n < 16" for k w n
    unfolding put_def low_def using that by (auto simp only: bit_simps bit_not_iff mask) simp_all
  have sb: "bit (swap_buttons w) n \<longleftrightarrow>
      (if n = 0 then bit w 1 else if n = 1 then bit w 0 else if n = 2 then bit w 3 else if n = 3 then bit w 2 else bit w n)"
    if "n < 16" for w :: u16 and n
    unfolding swap_buttons_def Let_def put_def [symmetric] low_def [symmetric] using that by (auto simp: f)
  have "swap_buttons (swap_buttons w) = w" for w
    by (rule bit_word_eqI) (auto simp: sb)
  moreover have "drop_bit 4 (swap_buttons w) = drop_bit 4 w" for w
  proof (rule bit_word_eqI)
    fix n assume "n < LENGTH(16)"
    show "bit (drop_bit 4 (swap_buttons w)) n = bit (drop_bit 4 w) n"
    proof (cases "4 + n < 16")
      case True
      then show ?thesis by (simp add: bit_simps sb)
    next
      case False
      then show ?thesis by (auto simp: bit_simps dest: bit_imp_le_length)
    qed
  qed
  ultimately show ?thesis by (simp add: uni_gamepad_remap_def)
qed

text \<open>Custom mappings set to the documented defaults change nothing that the firmware reads: all
  axes, pedals, the D-pad and the ten buttons come out as they went in, for reports that use
  only defined bits; motion sensor data, however, is dropped.\<close>

theorem default_custom_remap:
  assumes "\<And>n. bit (gp_buttons gp) n \<Longrightarrow> n < 10" "\<And>n. bit (gp_dpad gp) n \<Longrightarrow> n < 4"
    "\<And>n. bit (gp_misc_buttons gp) n \<Longrightarrow> n < 4"
  shows "uni_gamepad_remap MAPPINGS_CUSTOM gamepad_default_mappings gp =
    Some (gp\<lparr>gp_gyro := [0, 0, 0], gp_accel := [0, 0, 0]\<rparr>)"
proof -
  have ten: "button_bits ! i = i" if "i < length button_bits" for i
  proof -
    have "i \<in> {0, 1, 2, 3, 4, 5, 6, 7, 8, 9}" using that by (auto simp: button_bits_def)
    then show ?thesis by (auto simp: button_bits_def)
  qed
  have four: "dpad_bits ! i = i" if "i < length dpad_bits" for i
  proof -
    have "i \<in> {0, 1, 2, 3}" using that by (auto simp: dpad_bits_def)
    then show ?thesis by (auto simp: dpad_bits_def)
  qed
  have b: "remap_bits (gp_buttons gp) button_bits = gp_buttons gp"
    by (rule remap_bits_id [OF ten]; use assms(1) in \<open>fastforce simp: button_bits_def\<close>)
  have d4: "remap_bits w dpad_bits = w" if "\<And>n. bit w n \<Longrightarrow> n < 4" for w :: u8
    by (rule remap_bits_id [OF four]; use that in \<open>fastforce simp: dpad_bits_def\<close>)
  have m: "misc_bits = dpad_bits" by (simp add: misc_bits_def dpad_bits_def)
  show ?thesis
    using b d4 [OF assms(2)] d4 [OF assms(3)]
    by (simp add: uni_gamepad_remap_def gamepad_default_mappings_def remap_axis_def m zero_gamepad_def
        get_mappings_value_for_axis_def get_mappings_value_for_pedal_def)
qed

theorem default_custom_remap_witness:
  "uni_gamepad_remap MAPPINGS_CUSTOM gamepad_default_mappings (zero_gamepad\<lparr>gp_axis_y := -512, gp_gyro := [1, 2, 3]\<rparr>) =
   Some (zero_gamepad\<lparr>gp_axis_y := -512\<rparr>)"
  by (subst default_custom_remap) (simp_all add: zero_gamepad_def)

end
