(* ===== verification/Seats.thy ===== *)
theory Seats
  imports Gamepad
begin

text \<open>
  From a Bluetooth device to the \<open>Controller\<close> objects of the application: the connection part of
  Bluepad32's device table (\<^verbatim>\<open>uni_hid_device.c\<close>), the Arduino platform that gives a ready device one
  of four seats (\<^verbatim>\<open>arduino_platform.c\<close>), and \<open>Bluepad32::update\<close> (\<^verbatim>\<open>ArduinoBluepad32.cpp\<close>), which copies
  the seats and reports who came and went. Devices and seats are numbered as in their arrays;
  requests to a device (lights, rumble, disconnect) go through a queue of sixteen. Virtual
  devices are switched off by \<open>setup\<close> and are not modelled; the rest of the device table, with its
  timers, is in \<open>Ble_Link\<close>.
\<close>

section \<open>State\<close>

definition max_devices :: nat where "max_devices = 4"
definition gamepad_invalid :: int where "gamepad_invalid = -1"
definition max_pending_requests :: nat where "max_pending_requests = 16"

record controller_properties =
  p_btaddr :: "u8 list"
  p_type :: nat
  p_vendor_id :: u16
  p_product_id :: u16
  p_flags :: u16

definition no_properties :: controller_properties where
  "no_properties = \<lparr>p_btaddr = replicate 6 0, p_type = 0, p_vendor_id = 0, p_product_id = 0, p_flags = 0\<rparr>"

datatype request_cmd = Lightbar_color u8 u8 u8 | Player_leds u8 | Dual_rumble u16 u16 u8 u8 | Disconnect

text \<open>What the report parser of a device offers and what is known of the device.\<close>

record device_info =
  i_properties :: controller_properties
  has_player_leds :: bool
  has_rumble :: bool
  has_lightbar :: bool

record hid_device =
  connected :: bool
  device_ready :: bool
  info :: device_info
  instance_idx :: int

record arduino_controller =
  seat_idx :: int
  seat_data :: uni_controller
  data_updated :: bool
  seat_properties :: controller_properties

text \<open>\<open>device_calls\<close> records the parser and stack calls made on a device.\<close>

record platform =
  devices :: "hid_device list"
  seats :: "arduino_controller list"
  used_controllers :: int
  pending_queue :: "(int \<times> request_cmd) list"
  device_calls :: "(nat \<times> request_cmd) list"

definition empty_seat :: arduino_controller where
  "empty_seat = \<lparr>seat_idx = gamepad_invalid, seat_data = zero_controller, data_updated = False,
     seat_properties = no_properties\<rparr>"

definition blank_device :: hid_device where
  "blank_device = \<lparr>connected = False, device_ready = False,
     info = \<lparr>i_properties = no_properties, has_player_leds = False, has_rumble = False, has_lightbar = False\<rparr>,
     instance_idx = 0\<rparr>"

text \<open>The state after \<open>arduino_init\<close>; the platform data of a fresh device is zero.\<close>

definition arduino_init :: platform where
  "arduino_init = \<lparr>devices = replicate max_devices blank_device, seats = replicate max_devices empty_seat,
     used_controllers = 0, pending_queue = [], device_calls = []\<rparr>"

definition set_device :: "nat \<Rightarrow> hid_device \<Rightarrow> platform \<Rightarrow> platform" where
  "set_device d dv p = p\<lparr>devices := (devices p)[d := dv]\<rparr>"

section \<open>Platform callbacks\<close>

definition arduino_on_device_connected :: "nat \<Rightarrow> platform \<Rightarrow> platform" where
  "arduino_on_device_connected d p = set_device d ((devices p ! d)\<lparr>instance_idx := gamepad_invalid\<rparr>) p"

definition arduino_on_device_disconnected :: "nat \<Rightarrow> platform \<Rightarrow> platform" where
  "arduino_on_device_disconnected d p =
     (let i = instance_idx (devices p ! d)
      in if i \<noteq> gamepad_invalid then
           (if i < 0 \<or> i \<ge> int max_devices then p
            else set_device d ((devices p ! d)\<lparr>instance_idx := gamepad_invalid\<rparr>)
                   (p\<lparr>used_controllers := used_controllers p - 1, seats := (seats p)[nat i := empty_seat]\<rparr>))
         else p)"

definition property_flags :: "device_info \<Rightarrow> u16" where
  "property_flags io =
     (if has_player_leds io then push_bit 1 1 else 0) OR (if has_rumble io then push_bit 0 1 else 0) OR
     (if has_lightbar io then push_bit 2 1 else 0)"

definition seat_for :: "nat \<Rightarrow> device_info \<Rightarrow> arduino_controller \<Rightarrow> arduino_controller" where
  "seat_for i io s =
     s\<lparr>seat_idx := int i, seat_properties := (i_properties io)\<lparr>p_flags := property_flags io\<rparr>\<rparr>"

text \<open>The first component is \<open>UNI_ERROR_SUCCESS\<close>.\<close>

definition arduino_on_device_ready :: "nat \<Rightarrow> platform \<Rightarrow> bool \<times> platform" where
  "arduino_on_device_ready d p =
     (let dv = devices p ! d
      in if used_controllers p = int max_devices then (False, p)
         else if instance_idx dv \<noteq> gamepad_invalid then (False, p)
         else
           (let p1 = (case List.find (\<lambda>i. seat_idx (seats p ! i) = gamepad_invalid) [0..<max_devices] of
                        None \<Rightarrow> p
                      | Some i \<Rightarrow>
                          set_device d (dv\<lparr>instance_idx := int i\<rparr>)
                            (p\<lparr>seats := (seats p)[i := seat_for i (info dv) (seats p ! i)],
                               used_controllers := used_controllers p + 1\<rparr>));
                p2 = (if has_player_leds (info dv)
                      then p1\<lparr>device_calls := device_calls p1 @
                             [(d, Player_leds (word_of_int (instance_idx (devices p1 ! d) + 1)))]\<rparr> else p1)
            in (True, p2)))"

definition device_with_seat :: "int \<Rightarrow> platform \<Rightarrow> nat option" where
  "device_with_seat idx p =
     List.find (\<lambda>d. device_ready (devices p ! d) \<and> instance_idx (devices p ! d) = idx) [0..<max_devices]"

definition run_request :: "nat \<Rightarrow> request_cmd \<Rightarrow> platform \<Rightarrow> platform" where
  "run_request d cmd p =
     (let io = info (devices p ! d);
          accepted = (case cmd of
                        Lightbar_color r g b \<Rightarrow> has_lightbar io
                      | Player_leds leds \<Rightarrow> has_player_leds io
                      | Dual_rumble dl du wk st \<Rightarrow> has_rumble io
                      | Disconnect \<Rightarrow> True)
      in if accepted then p\<lparr>device_calls := device_calls p @ [(d, cmd)]\<rparr> else p)"

text \<open>The queue is emptied until a request names a seat without a ready device; the rest stays queued.\<close>

fun process_requests :: "(int \<times> request_cmd) list \<Rightarrow> platform \<Rightarrow> platform" where
  "process_requests [] p = p\<lparr>pending_queue := []\<rparr>"
| "process_requests ((idx, cmd) # rest) p =
     (case device_with_seat idx p of
        None \<Rightarrow> p\<lparr>pending_queue := rest\<rparr>
      | Some d \<Rightarrow> process_requests rest (run_request d cmd p))"

definition process_pending_requests :: "platform \<Rightarrow> platform" where
  "process_pending_requests p = process_requests (pending_queue p) p"

definition arduino_on_controller_data :: "nat \<Rightarrow> uni_controller \<Rightarrow> platform \<Rightarrow> platform" where
  "arduino_on_controller_data d ctl p0 =
     (let p = process_pending_requests p0; i = instance_idx (devices p ! d)
      in if i < 0 \<or> i \<ge> int max_devices then p
         else p\<lparr>seats := (seats p)[nat i := (seats p ! nat i)\<lparr>seat_data := ctl, data_updated := True\<rparr>]\<rparr>)"

section \<open>The device table\<close>

definition uni_hid_device_connect :: "nat \<Rightarrow> platform \<Rightarrow> platform" where
  "uni_hid_device_connect d p =
     arduino_on_device_connected d (set_device d ((devices p ! d)\<lparr>connected := True\<rparr>) p)"

definition uni_hid_device_disconnect :: "nat \<Rightarrow> platform \<Rightarrow> platform" where
  "uni_hid_device_disconnect d p =
     (let was = connected (devices p ! d);
          p1 = set_device d ((devices p ! d)\<lparr>connected := False\<rparr>) p
      in if was then arduino_on_device_disconnected d p1 else p1)"

definition uni_hid_device_delete :: "nat \<Rightarrow> platform \<Rightarrow> platform" where
  "uni_hid_device_delete d p = set_device d blank_device p"

definition uni_hid_device_create :: "nat \<Rightarrow> platform \<Rightarrow> platform" where
  "uni_hid_device_create d p = set_device d blank_device p"

definition uni_hid_device_set_ready_complete :: "nat \<Rightarrow> platform \<Rightarrow> bool \<times> platform" where
  "uni_hid_device_set_ready_complete d p =
     (if device_ready (devices p ! d) then (False, p)
      else (let (ok, p1) = arduino_on_device_ready d p
            in if \<not> ok then (False, uni_hid_device_delete d (uni_hid_device_disconnect d p1))
               else (True, set_device d ((devices p1 ! d)\<lparr>device_ready := True\<rparr>) p1)))"

definition uni_hid_device_process_controller ::
  "mappings_state \<Rightarrow> nat \<Rightarrow> uni_controller \<Rightarrow> platform \<Rightarrow> platform option" where
  "uni_hid_device_process_controller ms d ctl p =
     (if \<not> device_ready (devices p ! d) then Some p
      else do { gp \<leftarrow> (if klass ctl = UNI_CONTROLLER_CLASS_GAMEPAD
                      then uni_gamepad_remap (mappings_kind ms) (mapping ms) (gamepad ctl) else Some (gamepad ctl));
                Some (arduino_on_controller_data d (ctl\<lparr>gamepad := gp\<rparr>) p) })"

section \<open>Reading a seat\<close>

datatype seat_status = SEAT_INVALID_DEVICE | SEAT_NO_DATA | SEAT_SUCCESS

definition arduino_get_controller_data :: "int \<Rightarrow> platform \<Rightarrow> seat_status \<times> uni_controller option \<times> platform" where
  "arduino_get_controller_data idx p =
     (if idx < 0 \<or> idx \<ge> int max_devices \<or> seat_idx (seats p ! nat idx) = gamepad_invalid
      then (SEAT_INVALID_DEVICE, None, p)
      else if data_updated (seats p ! nat idx)
      then (SEAT_SUCCESS, Some (seat_data (seats p ! nat idx)),
            p\<lparr>seats := (seats p)[nat idx := (seats p ! nat idx)\<lparr>data_updated := False\<rparr>]\<rparr>)
      else (SEAT_NO_DATA, None, p))"

definition arduino_get_controller_properties :: "int \<Rightarrow> platform \<Rightarrow> controller_properties option" where
  "arduino_get_controller_properties idx p =
     (if idx < 0 \<or> idx \<ge> int max_devices \<or> seat_idx (seats p ! nat idx) = gamepad_invalid then None
      else Some (seat_properties (seats p ! nat idx)))"

text \<open>The four request functions differ in the command only; a full queue drops the request.\<close>

definition arduino_request :: "request_cmd \<Rightarrow> int \<Rightarrow> platform \<Rightarrow> bool \<times> platform" where
  "arduino_request cmd idx p =
     (if idx < 0 \<or> idx \<ge> int max_devices \<or> seat_idx (seats p ! nat idx) = gamepad_invalid then (False, p)
      else (True, if length (pending_queue p) < max_pending_requests
                  then p\<lparr>pending_queue := pending_queue p @ [(idx, cmd)]\<rparr> else p))"

definition arduino_set_player_leds :: "int \<Rightarrow> u8 \<Rightarrow> platform \<Rightarrow> bool \<times> platform" where
  "arduino_set_player_leds idx leds = arduino_request (Player_leds leds) idx"

definition arduino_set_lightbar_color :: "int \<Rightarrow> u8 \<Rightarrow> u8 \<Rightarrow> u8 \<Rightarrow> platform \<Rightarrow> bool \<times> platform" where
  "arduino_set_lightbar_color idx r g b = arduino_request (Lightbar_color r g b) idx"

definition arduino_play_dual_rumble :: "int \<Rightarrow> u16 \<Rightarrow> u16 \<Rightarrow> u8 \<Rightarrow> u8 \<Rightarrow> platform \<Rightarrow> bool \<times> platform" where
  "arduino_play_dual_rumble idx delayed duration weak strong = arduino_request (Dual_rumble delayed duration weak strong) idx"

definition arduino_disconnect_controller :: "int \<Rightarrow> platform \<Rightarrow> bool \<times> platform" where
  "arduino_disconnect_controller idx = arduino_request Disconnect idx"

section \<open>The application's side\<close>

record Controller =
  c_connected :: bool
  c_idx :: int
  c_data :: uni_controller
  c_properties :: controller_properties
  c_hasData :: bool

record bluepad =
  prevConnected :: "bool list"
  ctrls :: "Controller list"

definition bluepad_boot :: bluepad where
  "bluepad_boot =
     \<lparr>prevConnected = replicate max_devices False,
      ctrls = replicate max_devices
        \<lparr>c_connected = False, c_idx = -1, c_data = zero_controller, c_properties = no_properties, c_hasData = False\<rparr>\<rparr>"

text \<open>The callbacks the application registered, in the order they are called.\<close>

datatype callback = On_connect nat | On_disconnect nat

text \<open>One round of the first loop of \<open>update\<close>: seat \<open>i\<close> is copied if it has new data.\<close>

definition update_seat :: "nat \<Rightarrow> platform \<times> Controller list \<Rightarrow> seat_status \<times> platform \<times> Controller list" where
  "update_seat i = (\<lambda>(p, cs).
     (let (status, data, p1) = arduino_get_controller_data (int i) p; c = cs ! i
      in if status = SEAT_INVALID_DEVICE then (status, p1, cs)
         else (status, p1,
               cs[i := c\<lparr>c_data := (case data of None \<Rightarrow> c_data c | Some d \<Rightarrow> d), c_hasData := (status = SEAT_SUCCESS),
                         c_idx := int i\<rparr>])))"

fun update_seats :: "nat list \<Rightarrow> platform \<times> Controller list \<Rightarrow> seat_status list \<times> platform \<times> Controller list" where
  "update_seats [] st = ([], st)"
| "update_seats (i # is) st =
     (let (status, st1) = update_seat i st; (rest, st2) = update_seats is st1 in (status # rest, st2))"

text \<open>The second loop compares the masks; a bit mask is the list of its four bits.\<close>

fun notify :: "nat list \<Rightarrow> bool list \<Rightarrow> bool list \<Rightarrow> platform \<Rightarrow> Controller list \<Rightarrow> callback list \<times> Controller list" where
  "notify [] now prev p cs = ([], cs)"
| "notify (i # is) now prev p cs =
     (if now ! i = prev ! i then notify is now prev p cs
      else if now ! i
      then (let c = (cs ! i)\<lparr>c_connected := True,
                       c_properties := (case arduino_get_controller_properties (c_idx (cs ! i)) p of
                                          None \<Rightarrow> c_properties (cs ! i) | Some pr \<Rightarrow> pr)\<rparr>;
                (cbs, cs') = notify is now prev p (cs[i := c])
            in (On_connect i # cbs, cs'))
      else (let (cbs, cs') = notify is now prev p (cs[i := (cs ! i)\<lparr>c_connected := False\<rparr>])
            in (On_disconnect i # cbs, cs')))"

definition bp32_update :: "platform \<times> bluepad \<Rightarrow> bool \<times> callback list \<times> platform \<times> bluepad" where
  "bp32_update = (\<lambda>(p, b).
     (let (statuses, p1, cs) = update_seats [0..<max_devices] (p, ctrls b);
          now = map (\<lambda>s. s \<noteq> SEAT_INVALID_DEVICE) statuses;
          (cbs, cs1) = notify [0..<max_devices] now (prevConnected b) p1 cs
      in (SEAT_SUCCESS \<in> set statuses, cbs, p1, \<lparr>prevConnected = now, ctrls = cs1\<rparr>)))"

definition model_names :: "(nat \<times> string) list" where
  "model_names =
     [(1, ''Unknown Steam''), (2, ''Steam''), (3, ''Steam V2''), (31, ''XBox 360''), (32, ''XBox One''),
      (33, ''DualShock 3''), (34, ''DualShock 4''), (35, ''Wii''), (36, ''Apple''), (37, ''Android''),
      (38, ''Switch Pro''), (39, ''Switch JoyCon Left''), (40, ''Switch JoyCon Right''), (41, ''Switch JoyCon Pair''),
      (42, ''Switch Input Only''), (43, ''Mobile Touch''), (44, ''XInput Switch''), (45, ''DualSense''),
      (50, ''iCade''), (51, ''Smart TV Remote''), (52, ''8BitDo''), (53, ''Generic''), (54, ''Nimbus''),
      (55, ''OUYA''), (56, ''PSMove''), (57, ''Atari Joystick''), (400, ''Keyboard''), (800, ''Mouse'')]"

definition getModelName :: "Controller \<Rightarrow> string" where
  "getModelName c =
     (case List.find (\<lambda>(t, n). t = p_type (c_properties c)) model_names of Some (_, n) \<Rightarrow> n | None \<Rightarrow> ''Unknown'')"

end
