(* ===== verification/Allowlist.thy ===== *)
theory Allowlist
  imports C_Strings "HOL-Library.Monad_Syntax"
begin

text \<open>
  The Bluetooth allowlist (\<^verbatim>\<open>bt/uni_bt_allowlist.c\<close>): up to four device addresses and a switch, both
  kept in NVS through the property functions of \<^verbatim>\<open>uni_property_esp32.c\<close>, the list as text. The list is a
  set of addresses that survives a restart; the restart itself stores it again entry by entry.
  NVS writes are taken to succeed; a failed one is only logged by the code.
\<close>

section \<open>Addresses as text\<close>

type_synonym bd_addr = "u8 list"

definition zero_addr :: bd_addr where "zero_addr = replicate 6 0"

definition char_for_nibble :: "nat \<Rightarrow> char" where
  "char_for_nibble n = (if n < 16 then ''0123456789ABCDEF'' ! n else CHR ''?'')"

definition hex_byte :: "u8 \<Rightarrow> string" where
  "hex_byte b = [char_for_nibble (unat b div 16), char_for_nibble (unat b mod 16)]"

fun bd_addr_to_str :: "bd_addr \<Rightarrow> string" where
  "bd_addr_to_str [] = []"
| "bd_addr_to_str [b] = hex_byte b"
| "bd_addr_to_str (b # bs) = hex_byte b @ CHR '':'' # bd_addr_to_str bs"

definition nibble_for_char :: "char \<Rightarrow> nat option" where
  "nibble_for_char c =
     (let n = of_char c :: nat
      in if 48 \<le> n \<and> n \<le> 57 then Some (n - 48)
         else if 97 \<le> n \<and> n \<le> 102 then Some (n - 97 + 10)
         else if 65 \<le> n \<and> n \<le> 70 then Some (n - 65 + 10) else None)"

text \<open>The end of a string reads as its NUL, which is no digit.\<close>

fun scan_hex_byte :: "string \<Rightarrow> u8 option" where
  "scan_hex_byte (h # l # s) =
     do { u \<leftarrow> nibble_for_char h; w \<leftarrow> nibble_for_char l; Some (of_nat (u * 16 + w)) }"
| "scan_hex_byte s = None"

definition skip_separator :: "string \<Rightarrow> string" where
  "skip_separator s = (case s of c # r \<Rightarrow> if c = CHR '':'' \<or> c = CHR ''-'' \<or> c = CHR '' '' then r else s | [] \<Rightarrow> s)"

fun scan_addr_bytes :: "nat \<Rightarrow> string \<Rightarrow> bd_addr option" where
  "scan_addr_bytes 0 s = Some []"
| "scan_addr_bytes (Suc n) s =
     do { b \<leftarrow> scan_hex_byte s;
          bs \<leftarrow> scan_addr_bytes n (if n = 0 then drop 2 s else skip_separator (drop 2 s));
          Some (b # bs) }"

definition sscanf_bd_addr :: "string \<Rightarrow> bd_addr option" where
  "sscanf_bd_addr s = scan_addr_bytes 6 s"

section \<open>State\<close>

definition max_allowlist :: nat where "max_allowlist = 4"
definition property_string_max :: nat where "property_string_max = 127"

text \<open>\<open>list_stores\<close> records every value given to the list property, oldest first.\<close>

record allowlist =
  addr_allow_list :: "bd_addr list"
  enforced :: bool
  list_property :: "string option"
  enabled_property :: "u8 option"
  list_stores :: "string list"

definition allowlist_string :: "bd_addr list \<Rightarrow> string" where
  "allowlist_string as = concat (map (\<lambda>a. bd_addr_to_str a @ '','') (filter (\<lambda>a. a \<noteq> zero_addr) as))"

definition update_allowlist_to_property :: "allowlist \<Rightarrow> allowlist" where
  "update_allowlist_to_property al =
     (let s = allowlist_string (addr_allow_list al)
      in al\<lparr>list_property := Some s, list_stores := list_stores al @ [s]\<rparr>)"

definition is_address_in_allowlist :: "bd_addr \<Rightarrow> allowlist \<Rightarrow> bool" where
  "is_address_in_allowlist a al \<longleftrightarrow> a \<in> set (addr_allow_list al)"

definition uni_bt_allowlist_is_allowed_addr :: "bd_addr \<Rightarrow> allowlist \<Rightarrow> bool" where
  "uni_bt_allowlist_is_allowed_addr a al = (if \<not> enforced al then True else is_address_in_allowlist a al)"

definition slot_holding :: "bd_addr \<Rightarrow> allowlist \<Rightarrow> nat option" where
  "slot_holding a al = List.find (\<lambda>i. addr_allow_list al ! i = a) [0..<max_allowlist]"

definition uni_bt_allowlist_add_addr :: "bd_addr \<Rightarrow> allowlist \<Rightarrow> bool \<times> allowlist" where
  "uni_bt_allowlist_add_addr a al =
     (if is_address_in_allowlist a al then (False, al)
      else case slot_holding zero_addr al of
             None \<Rightarrow> (False, al)
           | Some i \<Rightarrow> (True, update_allowlist_to_property (al\<lparr>addr_allow_list := (addr_allow_list al)[i := a]\<rparr>)))"

definition uni_bt_allowlist_remove_addr :: "bd_addr \<Rightarrow> allowlist \<Rightarrow> bool \<times> allowlist" where
  "uni_bt_allowlist_remove_addr a al =
     (case slot_holding a al of
        None \<Rightarrow> (False, al)
      | Some i \<Rightarrow> (True, update_allowlist_to_property (al\<lparr>addr_allow_list := (addr_allow_list al)[i := zero_addr]\<rparr>)))"

definition uni_bt_allowlist_remove_all :: "allowlist \<Rightarrow> allowlist" where
  "uni_bt_allowlist_remove_all al =
     update_allowlist_to_property (al\<lparr>addr_allow_list := replicate max_allowlist zero_addr\<rparr>)"

definition uni_bt_allowlist_set_enabled :: "bool \<Rightarrow> allowlist \<Rightarrow> allowlist" where
  "uni_bt_allowlist_set_enabled on al =
     (if on \<noteq> enforced al then al\<lparr>enforced := on, enabled_property := Some (if on then 1 else 0)\<rparr> else al)"

text \<open>A stored string that does not fit the reader's buffer is an error, which gives the default, \<open>NULL\<close>.\<close>

definition list_property_get :: "allowlist \<Rightarrow> string option" where
  "list_property_get al =
     (case list_property al of None \<Rightarrow> None
      | Some s \<Rightarrow> if length s + 1 \<le> property_string_max then Some s else None)"

definition addr_stride :: nat where "addr_stride = 6 * 2 + 5 + 1"

function load_addrs :: "string \<Rightarrow> allowlist \<Rightarrow> allowlist" where
  "load_addrs s al =
     (if s = [] then al
      else case sscanf_bd_addr s of
             None \<Rightarrow> al
           | Some a \<Rightarrow> load_addrs (drop addr_stride s) (snd (uni_bt_allowlist_add_addr a al)))"
  by pat_completeness auto
termination by (relation "measure (\<lambda>(s, al). length s)") (auto simp: addr_stride_def)

declare load_addrs.simps [simp del]

definition update_allowlist_from_property :: "allowlist \<Rightarrow> allowlist" where
  "update_allowlist_from_property al =
     (case list_property_get al of None \<Rightarrow> al | Some s \<Rightarrow> load_addrs s al)"

definition uni_bt_allowlist_init :: "allowlist \<Rightarrow> allowlist" where
  "uni_bt_allowlist_init al =
     update_allowlist_from_property
       (al\<lparr>enforced := (case enabled_property al of None \<Rightarrow> False | Some v \<Rightarrow> v \<noteq> 0)\<rparr>)"

text \<open>A restart clears the variables and keeps NVS.\<close>

definition power_on :: "allowlist \<Rightarrow> allowlist" where
  "power_on al = al\<lparr>addr_allow_list := replicate max_allowlist zero_addr, enforced := False\<rparr>"

definition fresh_allowlist :: allowlist where
  "fresh_allowlist = \<lparr>addr_allow_list = replicate max_allowlist zero_addr, enforced = False,
     list_property = None, enabled_property = None, list_stores = []\<rparr>"

end
