(* ===== verification/Controller_Types.thy ===== *)
theory Controller_Types
  imports Prelude
begin

text \<open>
  What kind of controller a device is: the enumeration \<^verbatim>\<open>uni_controller_type.h\<close>, the table of known
  vendor and product numbers \<^verbatim>\<open>uni_controller_list.h\<close> with its first-match lookup, and the parser
  functions that \<open>uni_hid_device_guess_controller_type_from_pid_vid\<close> installs for each kind. A parser
  is represented by which of its functions are set, and by whether its setup function declares the
  device ready before it returns or leaves that to a later answer of the device.
\<close>

section \<open>Kinds\<close>

datatype controller_type =
    CT_Unknown | CT_UnknownSteamController | CT_SteamController | CT_SteamControllerV2 |
    CT_SteamControllerNeptune | CT_UnknownNonSteamController | CT_XBox360Controller |
    CT_XBoxOneController | CT_PS3Controller | CT_PS4Controller | CT_WiiController |
    CT_AppleController | CT_AndroidController | CT_SwitchProController | CT_SwitchJoyConLeft |
    CT_SwitchJoyConRight | CT_SwitchJoyConPair | CT_SwitchInputOnlyController | CT_MobileTouch |
    CT_XInputSwitchController | CT_PS5Controller | CT_XInputPS4Controller | CT_iCadeController |
    CT_SmartTVRemoteController | CT_8BitdoController | CT_GenericController | CT_NimbusController |
    CT_OUYAController | CT_PSMoveController | CT_AtariJoystick | CT_GenericKeyboard |
    CT_GenericMouse

fun type_code :: "controller_type \<Rightarrow> nat" where
  "type_code CT_Unknown = 0"
| "type_code CT_UnknownSteamController = 1"
| "type_code CT_SteamController = 2"
| "type_code CT_SteamControllerV2 = 3"
| "type_code CT_SteamControllerNeptune = 4"
| "type_code CT_UnknownNonSteamController = 30"
| "type_code CT_XBox360Controller = 31"
| "type_code CT_XBoxOneController = 32"
| "type_code CT_PS3Controller = 33"
| "type_code CT_PS4Controller = 34"
| "type_code CT_WiiController = 35"
| "type_code CT_AppleController = 36"
| "type_code CT_AndroidController = 37"
| "type_code CT_SwitchProController = 38"
| "type_code CT_SwitchJoyConLeft = 39"
| "type_code CT_SwitchJoyConRight = 40"
| "type_code CT_SwitchJoyConPair = 41"
| "type_code CT_SwitchInputOnlyController = 42"
| "type_code CT_MobileTouch = 43"
| "type_code CT_XInputSwitchController = 44"
| "type_code CT_PS5Controller = 45"
| "type_code CT_XInputPS4Controller = 46"
| "type_code CT_iCadeController = 50"
| "type_code CT_SmartTVRemoteController = 51"
| "type_code CT_8BitdoController = 52"
| "type_code CT_GenericController = 53"
| "type_code CT_NimbusController = 54"
| "type_code CT_OUYAController = 55"
| "type_code CT_PSMoveController = 56"
| "type_code CT_AtariJoystick = 57"
| "type_code CT_GenericKeyboard = 400"
| "type_code CT_GenericMouse = 800"

text \<open>Kinds are ordered by their numbers, which are documented as fixed.\<close>

lemma type_code_inj: "type_code t = type_code u \<Longrightarrow> t = u"
  by (cases t; cases u; simp)

instantiation controller_type :: linorder
begin

definition less_eq_controller_type :: "controller_type \<Rightarrow> controller_type \<Rightarrow> bool" where
  "t \<le> u \<longleftrightarrow> type_code t \<le> type_code u"

definition less_controller_type :: "controller_type \<Rightarrow> controller_type \<Rightarrow> bool" where
  "t < u \<longleftrightarrow> type_code t < type_code u"

instance
  by intro_classes (auto simp: less_eq_controller_type_def less_controller_type_def dest: type_code_inj)

end

section \<open>The table\<close>

definition make_controller_id :: "u16 \<Rightarrow> u16 \<Rightarrow> u32" where
  "make_controller_id vid pid = push_bit 16 (ucast vid) OR ucast pid"

definition arrControllers :: "(u32 \<times> controller_type) list" where
  "arrControllers =
    [(0x0079181a, CT_PS3Controller), (0x00791844, CT_PS3Controller), (0x044fb315, CT_PS3Controller),
     (0x044fd007, CT_PS3Controller), (0x046dcad1, CT_PS3Controller), (0x054c0268, CT_PS3Controller),
     (0x056e200f, CT_PS3Controller), (0x056e2013, CT_PS3Controller), (0x05b81004, CT_PS3Controller),
     (0x05b81006, CT_PS3Controller), (0x06a3f622, CT_PS3Controller), (0x07383180, CT_PS3Controller),
     (0x07383250, CT_PS3Controller), (0x07383481, CT_PS3Controller), (0x07388180, CT_PS3Controller),
     (0x07388838, CT_PS3Controller), (0x08100001, CT_PS3Controller), (0x08100003, CT_PS3Controller),
     (0x09250005, CT_PS3Controller), (0x09258866, CT_PS3Controller), (0x09258888, CT_PS3Controller),
     (0x0e6f0109, CT_PS3Controller), (0x0e6f011e, CT_PS3Controller), (0x0e6f0128, CT_PS3Controller),
     (0x0e6f0214, CT_PS3Controller), (0x0e6f1314, CT_PS3Controller), (0x0e6f6302, CT_PS3Controller),
     (0x0e8f0008, CT_PS3Controller), (0x0e8f3075, CT_PS3Controller), (0x0e8f310d, CT_PS3Controller),
     (0x0f0d0009, CT_PS3Controller), (0x0f0d004d, CT_PS3Controller), (0x0f0d005f, CT_PS3Controller),
     (0x0f0d006a, CT_PS3Controller), (0x0f0d006e, CT_PS3Controller), (0x0f0d0085, CT_PS3Controller),
     (0x0f0d0086, CT_PS3Controller), (0x0f0d0088, CT_PS3Controller), (0x0f301100, CT_PS3Controller),
     (0x11ff3331, CT_PS3Controller), (0x13451000, CT_PS3Controller), (0x13456005, CT_PS3Controller),
     (0x146b5500, CT_PS3Controller), (0x1a340836, CT_PS3Controller), (0x20bc5500, CT_PS3Controller),
     (0x20d6576d, CT_PS3Controller), (0x20d6ca6d, CT_PS3Controller), (0x25630523, CT_PS3Controller),
     (0x25630575, CT_PS3Controller), (0x25f083c3, CT_PS3Controller), (0x25f0c121, CT_PS3Controller),
     (0x2c222003, CT_PS3Controller), (0x2c222302, CT_PS3Controller), (0x2c222502, CT_PS3Controller),
     (0x83800003, CT_PS3Controller), (0x88880308, CT_PS3Controller), (0x0079181b, CT_PS4Controller),
     (0x044fd00e, CT_PS4Controller), (0x054c05c4, CT_PS4Controller), (0x054c05c5, CT_PS4Controller),
     (0x054c09cc, CT_PS4Controller), (0x054c0ba0, CT_PS4Controller), (0x07388250, CT_PS4Controller),
     (0x07388384, CT_PS4Controller), (0x07388480, CT_PS4Controller), (0x07388481, CT_PS4Controller),
     (0x0c120e10, CT_PS4Controller), (0x0c120e13, CT_PS4Controller), (0x0c120e15, CT_PS4Controller),
     (0x0c120e20, CT_PS4Controller), (0x0c120ef6, CT_PS4Controller), (0x0c121cf6, CT_PS4Controller),
     (0x0c121e10, CT_PS4Controller), (0x0e6f0203, CT_PS4Controller), (0x0e6f0207, CT_PS4Controller),
     (0x0e6f020a, CT_PS4Controller), (0x0f0d0055, CT_PS4Controller), (0x0f0d005e, CT_PS4Controller),
     (0x0f0d0066, CT_PS4Controller), (0x0f0d0084, CT_PS4Controller), (0x0f0d0087, CT_PS4Controller),
     (0x0f0d008a, CT_PS4Controller), (0x0f0d009c, CT_PS4Controller), (0x0f0d00a0, CT_PS4Controller),
     (0x0f0d00ed, CT_XInputPS4Controller), (0x0f0d00ee, CT_PS4Controller),
     (0x0f0d011c, CT_PS4Controller), (0x0f0d0123, CT_PS4Controller), (0x0f0d0162, CT_PS4Controller),
     (0x0f0d0164, CT_XInputPS4Controller), (0x11c04001, CT_PS4Controller),
     (0x146b0603, CT_XInputPS4Controller), (0x146b0604, CT_XInputPS4Controller),
     (0x146b0605, CT_XInputPS4Controller), (0x146b0606, CT_XInputPS4Controller),
     (0x146b0609, CT_XInputPS4Controller), (0x146b0d01, CT_PS4Controller),
     (0x146b0d02, CT_PS4Controller), (0x146b0d06, CT_PS4Controller), (0x146b0d08, CT_PS4Controller),
     (0x146b0d09, CT_PS4Controller), (0x146b0d10, CT_PS4Controller), (0x146b0d10, CT_PS4Controller),
     (0x146b0d13, CT_PS4Controller), (0x146b1103, CT_PS4Controller), (0x15320401, CT_PS4Controller),
     (0x15321000, CT_PS4Controller), (0x15321004, CT_PS4Controller), (0x15321007, CT_PS4Controller),
     (0x15321008, CT_PS4Controller), (0x15321009, CT_PS4Controller), (0x1532100a, CT_PS4Controller),
     (0x15321100, CT_PS4Controller), (0x20d6792a, CT_PS4Controller), (0x2c222000, CT_PS4Controller),
     (0x2c222300, CT_PS4Controller), (0x2c222303, CT_XInputPS4Controller),
     (0x2c222500, CT_PS4Controller), (0x2c222503, CT_XInputPS4Controller),
     (0x32850d16, CT_PS4Controller), (0x32850d17, CT_PS4Controller), (0x75450104, CT_PS4Controller),
     (0x98860024, CT_XInputPS4Controller), (0x98860025, CT_PS4Controller),
     (0x054c0ce6, CT_PS5Controller), (0x054c0df2, CT_PS5Controller), (0x054c0e5f, CT_PS5Controller),
     (0x0e6f0209, CT_PS5Controller), (0x0f0d0163, CT_PS5Controller), (0x0f0d0184, CT_PS5Controller),
     (0x1532100b, CT_PS5Controller), (0x1532100c, CT_PS5Controller), (0x15321012, CT_PS5Controller),
     (0x32850d18, CT_PS5Controller), (0x32850d19, CT_PS5Controller), (0x358a0104, CT_PS5Controller),
     (0x00790006, CT_UnknownNonSteamController), (0x007918d4, CT_XBox360Controller),
     (0x03ebff02, CT_XBox360Controller), (0x044fb326, CT_XBox360Controller),
     (0x045e028e, CT_XBox360Controller), (0x045e028f, CT_XBox360Controller),
     (0x045e0291, CT_XBox360Controller), (0x045e02a0, CT_XBox360Controller),
     (0x045e02a1, CT_XBox360Controller), (0x045e02a9, CT_XBox360Controller),
     (0x045e0719, CT_XBox360Controller), (0x046dc21d, CT_XBox360Controller),
     (0x046dc21e, CT_XBox360Controller), (0x046dc21f, CT_XBox360Controller),
     (0x046dc242, CT_XBox360Controller), (0x056e2004, CT_XBox360Controller),
     (0x07384716, CT_XBox360Controller), (0x07384718, CT_XBox360Controller),
     (0x07384726, CT_XBox360Controller), (0x07384728, CT_XBox360Controller),
     (0x07384736, CT_XBox360Controller), (0x07384738, CT_XBox360Controller),
     (0x07384740, CT_XBox360Controller), (0x0738b726, CT_XBox360Controller),
     (0x0738beef, CT_XBox360Controller), (0x0738cb02, CT_XBox360Controller),
     (0x0738cb03, CT_XBox360Controller), (0x0738f738, CT_XBox360Controller),
     (0x09557210, CT_XBox360Controller), (0x0955b400, CT_XBox360Controller),
     (0x0b051b4c, CT_XBox360Controller), (0x0e6f0105, CT_XBox360Controller),
     (0x0e6f0113, CT_XBox360Controller), (0x0e6f011f, CT_XBox360Controller),
     (0x0e6f0125, CT_XBox360Controller), (0x0e6f0127, CT_XBox360Controller),
     (0x0e6f0131, CT_XBox360Controller), (0x0e6f0133, CT_XBox360Controller),
     (0x0e6f0143, CT_XBox360Controller), (0x0e6f0147, CT_XBox360Controller),
     (0x0e6f0201, CT_XBox360Controller), (0x0e6f0213, CT_XBox360Controller),
     (0x0e6f021f, CT_XBox360Controller), (0x0e6f0301, CT_XBox360Controller),
     (0x0e6f0313, CT_XBox360Controller), (0x0e6f0314, CT_XBox360Controller),
     (0x0e6f0401, CT_XBox360Controller), (0x0e6f0413, CT_XBox360Controller),
     (0x0e6f0501, CT_XBox360Controller), (0x0e6ff900, CT_XBox360Controller),
     (0x0f0d000a, CT_XBox360Controller), (0x0f0d000c, CT_XBox360Controller),
     (0x0f0d000d, CT_XBox360Controller), (0x0f0d0016, CT_XBox360Controller),
     (0x0f0d001b, CT_XBox360Controller), (0x0f0d008c, CT_XBox360Controller),
     (0x0f0d00db, CT_XBox360Controller), (0x0f0d011e, CT_XBox360Controller),
     (0x10381430, CT_XBox360Controller), (0x10381431, CT_XBox360Controller),
     (0x1038b360, CT_XBox360Controller), (0x11c955f0, CT_XBox360Controller),
     (0x12ab0004, CT_XBox360Controller), (0x12ab0301, CT_XBox360Controller),
     (0x12ab0303, CT_XBox360Controller), (0x143002a0, CT_XBox360Controller),
     (0x14304748, CT_XBox360Controller), (0x1430f801, CT_XBox360Controller),
     (0x146b0601, CT_XBox360Controller), (0x15e43f00, CT_XBox360Controller),
     (0x15e43f0a, CT_XBox360Controller), (0x15e43f10, CT_XBox360Controller),
     (0x162ebeef, CT_XBox360Controller), (0x1689fd00, CT_XBox360Controller),
     (0x1689fd01, CT_XBox360Controller), (0x1689fe00, CT_XBox360Controller),
     (0x1949041a, CT_XBox360Controller), (0x1bad0002, CT_XBox360Controller),
     (0x1bad0003, CT_XBox360Controller), (0x1badf016, CT_XBox360Controller),
     (0x1badf018, CT_XBox360Controller), (0x1badf019, CT_XBox360Controller),
     (0x1badf021, CT_XBox360Controller), (0x1badf023, CT_XBox360Controller),
     (0x1badf025, CT_XBox360Controller), (0x1badf027, CT_XBox360Controller),
     (0x1badf028, CT_XBox360Controller), (0x1badf02e, CT_XBox360Controller),
     (0x1badf036, CT_XBox360Controller), (0x1badf038, CT_XBox360Controller),
     (0x1badf039, CT_XBox360Controller), (0x1badf03a, CT_XBox360Controller),
     (0x1badf03d, CT_XBox360Controller), (0x1badf03e, CT_XBox360Controller),
     (0x1badf03f, CT_XBox360Controller), (0x1badf042, CT_XBox360Controller),
     (0x1badf080, CT_XBox360Controller), (0x1badf501, CT_XBox360Controller),
     (0x1badf502, CT_XBox360Controller), (0x1badf503, CT_XBox360Controller),
     (0x1badf504, CT_XBox360Controller), (0x1badf505, CT_XBox360Controller),
     (0x1badf506, CT_XBox360Controller), (0x1badf900, CT_XBox360Controller),
     (0x1badf901, CT_XBox360Controller), (0x1badf902, CT_XBox360Controller),
     (0x1badf903, CT_XBox360Controller), (0x1badf904, CT_XBox360Controller),
     (0x1badf906, CT_XBox360Controller), (0x1badfa01, CT_XBox360Controller),
     (0x1badfd00, CT_XBox360Controller), (0x1badfd01, CT_XBox360Controller),
     (0x24c65000, CT_XBox360Controller), (0x24c65300, CT_XBox360Controller),
     (0x24c65303, CT_XBox360Controller), (0x24c6530a, CT_XBox360Controller),
     (0x24c6531a, CT_XBox360Controller), (0x24c65397, CT_XBox360Controller),
     (0x24c65500, CT_XBox360Controller), (0x24c65501, CT_XBox360Controller),
     (0x24c65502, CT_XBox360Controller), (0x24c65503, CT_XBox360Controller),
     (0x24c65506, CT_XBox360Controller), (0x24c6550d, CT_XBox360Controller),
     (0x24c6550e, CT_XBox360Controller), (0x24c65508, CT_XBox360Controller),
     (0x24c65510, CT_XBox360Controller), (0x24c65b00, CT_XBox360Controller),
     (0x24c65b02, CT_XBox360Controller), (0x24c65b03, CT_XBox360Controller),
     (0x24c65d04, CT_XBox360Controller), (0x24c6fafa, CT_XBox360Controller),
     (0x24c6fafb, CT_XBox360Controller), (0x24c6fafc, CT_XBox360Controller),
     (0x24c6fafd, CT_XBox360Controller), (0x24c6fafe, CT_XBox360Controller),
     (0x03f00495, CT_XBoxOneController), (0x044fd012, CT_XBoxOneController),
     (0x045e02d1, CT_XBoxOneController), (0x045e02dd, CT_XBoxOneController),
     (0x045e02e0, CT_XBoxOneController), (0x045e02e3, CT_XBoxOneController),
     (0x045e02ea, CT_XBoxOneController), (0x045e02fd, CT_XBoxOneController),
     (0x045e02ff, CT_XBoxOneController), (0x045e0b00, CT_XBoxOneController),
     (0x045e0b05, CT_XBoxOneController), (0x045e0b0a, CT_XBoxOneController),
     (0x045e0b0c, CT_XBoxOneController), (0x045e0b12, CT_XBoxOneController),
     (0x045e0b13, CT_XBoxOneController), (0x045e0b20, CT_XBoxOneController),
     (0x045e0b21, CT_XBoxOneController), (0x045e0b22, CT_XBoxOneController),
     (0x07384a01, CT_XBoxOneController), (0x0e6f0139, CT_XBoxOneController),
     (0x0e6f013b, CT_XBoxOneController), (0x0e6f013a, CT_XBoxOneController),
     (0x0e6f0145, CT_XBoxOneController), (0x0e6f0146, CT_XBoxOneController),
     (0x0e6f015b, CT_XBoxOneController), (0x0e6f015c, CT_XBoxOneController),
     (0x0e6f015d, CT_XBoxOneController), (0x0e6f015f, CT_XBoxOneController),
     (0x0e6f0160, CT_XBoxOneController), (0x0e6f0161, CT_XBoxOneController),
     (0x0e6f0162, CT_XBoxOneController), (0x0e6f0163, CT_XBoxOneController),
     (0x0e6f0164, CT_XBoxOneController), (0x0e6f0165, CT_XBoxOneController),
     (0x0e6f0166, CT_XBoxOneController), (0x0e6f0167, CT_XBoxOneController),
     (0x0e6f0205, CT_XBoxOneController), (0x0e6f0206, CT_XBoxOneController),
     (0x0e6f0246, CT_XBoxOneController), (0x0e6f0261, CT_XBoxOneController),
     (0x0e6f0262, CT_XBoxOneController), (0x0e6f02a0, CT_XBoxOneController),
     (0x0e6f02a1, CT_XBoxOneController), (0x0e6f02a2, CT_XBoxOneController),
     (0x0e6f02a3, CT_XBoxOneController), (0x0e6f02a4, CT_XBoxOneController),
     (0x0e6f02a5, CT_XBoxOneController), (0x0e6f02a6, CT_XBoxOneController),
     (0x0e6f02a7, CT_XBoxOneController), (0x0e6f02a8, CT_XBoxOneController),
     (0x0e6f02a9, CT_XBoxOneController), (0x0e6f02aa, CT_XBoxOneController),
     (0x0e6f02ab, CT_XBoxOneController), (0x0e6f02ac, CT_XBoxOneController),
     (0x0e6f02ad, CT_XBoxOneController), (0x0e6f02ae, CT_XBoxOneController),
     (0x0e6f02af, CT_XBoxOneController), (0x0e6f02b0, CT_XBoxOneController),
     (0x0e6f02b1, CT_XBoxOneController), (0x0e6f02b3, CT_XBoxOneController),
     (0x0e6f02b5, CT_XBoxOneController), (0x0e6f02b6, CT_XBoxOneController),
     (0x0e6f02bd, CT_XBoxOneController), (0x0e6f02be, CT_XBoxOneController),
     (0x0e6f02bf, CT_XBoxOneController), (0x0e6f02c0, CT_XBoxOneController),
     (0x0e6f02c1, CT_XBoxOneController), (0x0e6f02c2, CT_XBoxOneController),
     (0x0e6f02c3, CT_XBoxOneController), (0x0e6f02c4, CT_XBoxOneController),
     (0x0e6f02c5, CT_XBoxOneController), (0x0e6f02c6, CT_XBoxOneController),
     (0x0e6f02c7, CT_XBoxOneController), (0x0e6f02c8, CT_XBoxOneController),
     (0x0e6f02c9, CT_XBoxOneController), (0x0e6f02ca, CT_XBoxOneController),
     (0x0e6f02cb, CT_XBoxOneController), (0x0e6f02cd, CT_XBoxOneController),
     (0x0e6f02ce, CT_XBoxOneController), (0x0e6f02cf, CT_XBoxOneController),
     (0x0e6f02d5, CT_XBoxOneController), (0x0e6f0346, CT_XBoxOneController),
     (0x0e6f0446, CT_XBoxOneController), (0x0e6f02da, CT_XBoxOneController),
     (0x0e6f02d6, CT_XBoxOneController), (0x0e6f02d9, CT_XBoxOneController),
     (0x0f0d0063, CT_XBoxOneController), (0x0f0d0067, CT_XBoxOneController),
     (0x0f0d0078, CT_XBoxOneController), (0x0f0d00c5, CT_XBoxOneController),
     (0x0f0d0150, CT_XBoxOneController), (0x10f57009, CT_XBoxOneController),
     (0x10f57013, CT_XBoxOneController), (0x15320a00, CT_XBoxOneController),
     (0x15320a03, CT_XBoxOneController), (0x15320a14, CT_XBoxOneController),
     (0x15320a15, CT_XBoxOneController), (0x20d62001, CT_XBoxOneController),
     (0x20d62002, CT_XBoxOneController), (0x20d62003, CT_XBoxOneController),
     (0x20d62004, CT_XBoxOneController), (0x20d62005, CT_XBoxOneController),
     (0x20d62006, CT_XBoxOneController), (0x20d62009, CT_XBoxOneController),
     (0x20d6200a, CT_XBoxOneController), (0x20d6200b, CT_XBoxOneController),
     (0x20d6200c, CT_XBoxOneController), (0x20d6200d, CT_XBoxOneController),
     (0x20d6200e, CT_XBoxOneController), (0x20d6200f, CT_XBoxOneController),
     (0x20d62011, CT_XBoxOneController), (0x20d62012, CT_XBoxOneController),
     (0x20d62015, CT_XBoxOneController), (0x20d62016, CT_XBoxOneController),
     (0x20d62017, CT_XBoxOneController), (0x20d62018, CT_XBoxOneController),
     (0x20d62019, CT_XBoxOneController), (0x20d6201a, CT_XBoxOneController),
     (0x20d64001, CT_XBoxOneController), (0x20d64002, CT_XBoxOneController),
     (0x20d6890b, CT_XBoxOneController), (0x24c6541a, CT_XBoxOneController),
     (0x24c6542a, CT_XBoxOneController), (0x24c6543a, CT_XBoxOneController),
     (0x24c6551a, CT_XBoxOneController), (0x24c6561a, CT_XBoxOneController),
     (0x24c6581a, CT_XBoxOneController), (0x24c6591a, CT_XBoxOneController),
     (0x24c6592a, CT_XBoxOneController), (0x24c6791a, CT_XBoxOneController),
     (0x2dc82002, CT_XBoxOneController), (0x2dc83106, CT_XBoxOneController),
     (0x2e240652, CT_XBoxOneController), (0x2e241618, CT_XBoxOneController),
     (0x2e241688, CT_XBoxOneController), (0x146b0611, CT_XBoxOneController),
     (0x00000000, CT_XBox360Controller), (0x045e02a2, CT_XBox360Controller),
     (0x0e6f1414, CT_XBox360Controller), (0x0e6f0159, CT_XBox360Controller),
     (0x24c6faff, CT_XBox360Controller), (0x0f0d006d, CT_XBox360Controller),
     (0x0f0d00a4, CT_XBox360Controller), (0x00791832, CT_XBox360Controller),
     (0x0079187f, CT_XBox360Controller), (0x00791883, CT_XBox360Controller),
     (0x03ebff01, CT_XBox360Controller), (0x0c120ef8, CT_XBox360Controller),
     (0x046d1000, CT_XBox360Controller), (0x13456006, CT_XBox360Controller),
     (0x056e2012, CT_XBox360Controller), (0x146b0602, CT_XBox360Controller),
     (0x0f0d00ae, CT_XBox360Controller), (0x046d0401, CT_XBox360Controller),
     (0x046d0301, CT_XBox360Controller), (0x046dcaa3, CT_XBox360Controller),
     (0x046dc261, CT_XBox360Controller), (0x046d0291, CT_XBox360Controller),
     (0x007918d3, CT_XBox360Controller), (0x0f0d00b1, CT_XBox360Controller),
     (0x00010001, CT_XBox360Controller), (0x0079188e, CT_XBox360Controller),
     (0x0079187c, CT_XBox360Controller), (0x0079189c, CT_XBox360Controller),
     (0x00791874, CT_XBox360Controller), (0x2f240050, CT_XBoxOneController),
     (0x2f24002e, CT_XBoxOneController), (0x2f240091, CT_XBoxOneController),
     (0x14300719, CT_XBoxOneController), (0x0f0d00ed, CT_XBoxOneController),
     (0x0f0d00c0, CT_XBoxOneController), (0x0e6f0152, CT_XBoxOneController),
     (0x0e6f02a7, CT_XBoxOneController), (0x046d1007, CT_XBoxOneController),
     (0x0e6f02b8, CT_XBoxOneController), (0x0e6f02a8, CT_XBoxOneController),
     (0x007918a1, CT_XBoxOneController), (0x00006686, CT_XBoxOneController),
     (0x11ff0511, CT_XBoxOneController), (0x12ab0304, CT_XBoxOneController),
     (0x14300291, CT_XBoxOneController), (0x143002a9, CT_XBoxOneController),
     (0x1430070b, CT_XBoxOneController), (0x1bad028e, CT_XBoxOneController),
     (0x1bad02a0, CT_XBoxOneController), (0x1bad5500, CT_XBoxOneController),
     (0x20ab55ef, CT_XBoxOneController), (0x24c65509, CT_XBoxOneController),
     (0x25160069, CT_XBoxOneController), (0x25b10360, CT_XBoxOneController),
     (0x2c222203, CT_XBoxOneController), (0x2f240011, CT_XBoxOneController),
     (0x2f240053, CT_XBoxOneController), (0x2f2400b7, CT_XBoxOneController),
     (0x046d0000, CT_XBoxOneController), (0x046d1004, CT_XBoxOneController),
     (0x046d1008, CT_XBoxOneController), (0x046df301, CT_XBoxOneController),
     (0x073802a0, CT_XBoxOneController), (0x07387263, CT_XBoxOneController),
     (0x0738b738, CT_XBoxOneController), (0x0738cb29, CT_XBoxOneController),
     (0x0738f401, CT_XBoxOneController), (0x007918c2, CT_XBoxOneController),
     (0x007918c8, CT_XBoxOneController), (0x007918cf, CT_XBoxOneController),
     (0x0c120e17, CT_XBoxOneController), (0x0c120e1c, CT_XBoxOneController),
     (0x0c120e22, CT_XBoxOneController), (0x0c120e30, CT_XBoxOneController),
     (0xd2d2d2d2, CT_XBoxOneController), (0x0d629a1a, CT_XBoxOneController),
     (0x0d629a1b, CT_XBoxOneController), (0x0e000e00, CT_XBoxOneController),
     (0x0e6f012a, CT_XBoxOneController), (0x0e6f02a1, CT_XBoxOneController),
     (0x0e6f02a2, CT_XBoxOneController), (0x0e6f02a5, CT_XBoxOneController),
     (0x0e6f02b2, CT_XBoxOneController), (0x0e6f02bd, CT_XBoxOneController),
     (0x0e6f02bf, CT_XBoxOneController), (0x0e6f02c0, CT_XBoxOneController),
     (0x0e6f02c6, CT_XBoxOneController), (0x0f0d0097, CT_XBoxOneController),
     (0x0f0d00ba, CT_XBoxOneController), (0x0f0d00d8, CT_XBoxOneController),
     (0x0fff02a1, CT_XBoxOneController), (0x045e0867, CT_XBoxOneController),
     (0x16d00f3f, CT_XBoxOneController), (0x2f24008f, CT_XBoxOneController),
     (0x0e6ff501, CT_XBoxOneController), (0x05ac0001, CT_AppleController),
     (0x05ac0002, CT_AppleController), (0x057e2006, CT_SwitchJoyConLeft),
     (0x057e2007, CT_SwitchJoyConRight), (0x057e2008, CT_SwitchJoyConPair),
     (0x057e2009, CT_SwitchProController), (0x0f0d00c1, CT_SwitchInputOnlyController),
     (0x0f0d0092, CT_SwitchInputOnlyController), (0x0f0d00f6, CT_SwitchProController),
     (0x0f0d00dc, CT_XInputSwitchController), (0x0e6f0180, CT_SwitchInputOnlyController),
     (0x0e6f0181, CT_SwitchInputOnlyController), (0x0e6f0184, CT_SwitchInputOnlyController),
     (0x0e6f0185, CT_SwitchInputOnlyController), (0x0e6f0186, CT_SwitchProController),
     (0x0e6f0187, CT_SwitchInputOnlyController), (0x0e6f0188, CT_SwitchInputOnlyController),
     (0x0f0d00aa, CT_SwitchInputOnlyController), (0x20d6a711, CT_SwitchInputOnlyController),
     (0x20d6a712, CT_SwitchInputOnlyController), (0x20d6a713, CT_SwitchInputOnlyController),
     (0x20d6a714, CT_SwitchInputOnlyController), (0x20d6a715, CT_SwitchInputOnlyController),
     (0x20d6a716, CT_SwitchInputOnlyController), (0x20d6a718, CT_SwitchInputOnlyController),
     (0x000011fb, CT_MobileTouch), (0x28de1101, CT_SteamController), (0x28de1102, CT_SteamController),
     (0x28de1105, CT_SteamController), (0x28de1106, CT_SteamController),
     (0x28de11ff, CT_UnknownNonSteamController), (0x28de1142, CT_SteamController),
     (0x28de1201, CT_SteamControllerV2), (0x28de1202, CT_SteamControllerV2),
     (0x28de1205, CT_SteamControllerNeptune), (0x28360001, CT_OUYAController),
     (0x15e40132, CT_iCadeController), (0x0a5c8502, CT_iCadeController),
     (0x20d66271, CT_AndroidController), (0x0b054500, CT_AndroidController),
     (0x19490402, CT_AndroidController), (0x18d19400, CT_AndroidController),
     (0x19490401, CT_SmartTVRemoteController), (0x28200009, CT_8BitdoController),
     (0x2dc80651, CT_8BitdoController), (0x2dc82830, CT_8BitdoController),
     (0x2dc82840, CT_8BitdoController), (0x2dc83230, CT_8BitdoController),
     (0x2dc86006, CT_8BitdoController), (0x2dc86100, CT_8BitdoController),
     (0x2dc86101, CT_8BitdoController), (0x0a5c4502, CT_GenericController),
     (0x01111420, CT_NimbusController), (0x01111431, CT_AndroidController),
     (0x057e0330, CT_WiiController), (0x057e0306, CT_WiiController),
     (0x057e2017, CT_SwitchProController), (0x057e2019, CT_SwitchProController),
     (0x057e201e, CT_SwitchProController), (0x054c03d5, CT_PSMoveController),
     (0x054c0c5e, CT_PSMoveController), (0x32501001, CT_AtariJoystick)]"

definition uni_guess_controller_type :: "u16 \<Rightarrow> u16 \<Rightarrow> controller_type" where
  "uni_guess_controller_type vid pid =
     (case map_of arrControllers (make_controller_id vid pid) of Some t \<Rightarrow> t | None \<Rightarrow> CT_UnknownNonSteamController)"

section \<open>Parsers\<close>

datatype setup_fn = No_setup | Setup_ready | Setup_later

record report_parser =
  p_setup :: setup_fn
  p_init_report :: bool
  p_parse_usage :: bool
  p_parse_input_report :: bool
  p_parse_feature_report :: bool
  p_set_player_leds :: bool
  p_set_lightbar_color :: bool
  p_play_dual_rumble :: bool

definition no_parser :: report_parser where
  "no_parser = \<lparr>p_setup = No_setup, p_init_report = False, p_parse_usage = False, p_parse_input_report = False,
     p_parse_feature_report = False, p_set_player_leds = False, p_set_lightbar_color = False, p_play_dual_rumble = False\<rparr>"

definition usage_parser :: report_parser where
  "usage_parser = no_parser\<lparr>p_init_report := True, p_parse_usage := True\<rparr>"

definition input_parser :: report_parser where
  "input_parser = no_parser\<lparr>p_setup := Setup_ready, p_init_report := True, p_parse_input_report := True\<rparr>"

definition stadia_vid :: u16 where "stadia_vid = 0x18d1"
definition stadia_pid :: u16 where "stadia_pid = 0x9400"

definition parser_for :: "u16 \<Rightarrow> u16 \<Rightarrow> controller_type \<Rightarrow> report_parser" where
  "parser_for vid pid t =
     (case t of
        CT_iCadeController \<Rightarrow> no_parser\<lparr>p_setup := Setup_ready, p_parse_usage := True\<rparr>
      | CT_OUYAController \<Rightarrow> usage_parser\<lparr>p_set_player_leds := True\<rparr>
      | CT_XBoxOneController \<Rightarrow> usage_parser\<lparr>p_setup := Setup_ready, p_play_dual_rumble := True\<rparr>
      | CT_AndroidController \<Rightarrow>
          (let p = usage_parser\<lparr>p_set_player_leds := True\<rparr>
           in if vid = stadia_vid \<and> pid = stadia_pid then p\<lparr>p_setup := Setup_ready, p_play_dual_rumble := True\<rparr> else p)
      | CT_NimbusController \<Rightarrow> usage_parser\<lparr>p_set_player_leds := True\<rparr>
      | CT_SmartTVRemoteController \<Rightarrow> usage_parser
      | CT_PSMoveController \<Rightarrow> input_parser\<lparr>p_set_lightbar_color := True, p_play_dual_rumble := True\<rparr>
      | CT_PS3Controller \<Rightarrow> input_parser\<lparr>p_set_player_leds := True, p_play_dual_rumble := True\<rparr>
      | CT_PS4Controller \<Rightarrow>
          input_parser\<lparr>p_parse_feature_report := True, p_set_lightbar_color := True, p_play_dual_rumble := True\<rparr>
      | CT_PS5Controller \<Rightarrow>
          input_parser\<lparr>p_setup := Setup_later, p_parse_feature_report := True, p_set_player_leds := True,
            p_set_lightbar_color := True, p_play_dual_rumble := True\<rparr>
      | CT_8BitdoController \<Rightarrow> usage_parser
      | CT_GenericController \<Rightarrow> usage_parser
      | CT_WiiController \<Rightarrow>
          input_parser\<lparr>p_setup := Setup_later, p_set_player_leds := True, p_play_dual_rumble := True\<rparr>
      | CT_SwitchProController \<Rightarrow>
          input_parser\<lparr>p_setup := Setup_later, p_set_player_leds := True, p_play_dual_rumble := True\<rparr>
      | CT_SwitchJoyConRight \<Rightarrow>
          input_parser\<lparr>p_setup := Setup_later, p_set_player_leds := True, p_play_dual_rumble := True\<rparr>
      | CT_SwitchJoyConLeft \<Rightarrow>
          input_parser\<lparr>p_setup := Setup_later, p_set_player_leds := True, p_play_dual_rumble := True\<rparr>
      | CT_SteamController \<Rightarrow> input_parser\<lparr>p_setup := Setup_later\<rparr>
      | CT_AtariJoystick \<Rightarrow> input_parser
      | CT_GenericMouse \<Rightarrow> input_parser\<lparr>p_parse_usage := True\<rparr>
      | CT_GenericKeyboard \<Rightarrow> input_parser\<lparr>p_parse_usage := True\<rparr>
      | _ \<Rightarrow> usage_parser)"

end
