(* ===== verification/Ble_Link.thy ===== *)
theory Ble_Link
  imports Seats Allowlist Controller_Types
begin

text \<open>
  How a controller comes to be a device: the Bluetooth LE side of Bluepad32. The device table of
  \<^verbatim>\<open>uni_hid_device.c\<close> with addresses, handles, timers and controller types, the connection state of
  \<^verbatim>\<open>bt/uni_bt_conn.c\<close>, the event handlers of \<^verbatim>\<open>bt/uni_bt_le.c\<close> and their dispatch and the commands of
  \<^verbatim>\<open>bt/uni_bt.c\<close>. The firmware is built for a chip with Bluetooth LE only. The table's connection flag,
  readiness, seat and what the platform reads of a device are those of \<open>Seats\<close>, whose operations the
  handlers call.

  BTstack is a parameter: \<open>gap_type\<close> is its answer to \<open>gap_get_connection_type\<close> and \<open>hids_connect\<close> to
  \<open>hids_client_connect\<close>; the calls into it are recorded in order. Virtual devices are switched off by the
  application and the phone service of Bluepad32 too. Log lines are left out.
\<close>

section \<open>Advertising data\<close>

definition ad_shortened_name :: u8 where "ad_shortened_name = 0x08"
definition ad_complete_name :: u8 where "ad_complete_name = 0x09"
definition ad_class_of_device :: u8 where "ad_class_of_device = 0x0D"
definition ad_hash_c :: u8 where "ad_hash_c = 0x0E"
definition ad_randomizer_r :: u8 where "ad_randomizer_r = 0x0F"
definition ad_device_id :: u8 where "ad_device_id = 0x10"
definition ad_appearance :: u8 where "ad_appearance = 0x19"

definition name_buffer_size :: nat where "name_buffer_size = 64"

text \<open>The iterator stops at an element of length zero and at one that does not fit.\<close>

definition ad_iterator_has_more :: "u8 list \<Rightarrow> nat \<Rightarrow> bool" where
  "ad_iterator_has_more data offset \<longleftrightarrow>
     offset + 1 < length data \<and> data ! offset \<noteq> 0 \<and> offset + 1 + unat (data ! offset) \<le> length data"

text \<open>\<open>little_endian_read_16\<close> reads two bytes whatever the length of the element; \<open>None\<close> when they are not
  both inside the advertising data.\<close>

definition read_16 :: "u8 list \<Rightarrow> nat \<Rightarrow> u16 option" where
  "read_16 data i = (if i + 1 < length data then Some (ucast (data ! i) OR push_bit 8 (ucast (data ! (i + 1)))) else None)"

text \<open>The name is copied with its length unchecked into the 64 bytes of the caller; \<open>None\<close> when it does not fit.\<close>

definition ad_element :: "u8 list \<Rightarrow> nat \<Rightarrow> u16 \<times> u8 list \<Rightarrow> (u16 \<times> u8 list) option" where
  "ad_element data offset = (\<lambda>(appearance, name).
     (let size = unat (data ! offset) - 1; ty = data ! (offset + 1); start = offset + 2
      in if ty = ad_shortened_name \<or> ty = ad_complete_name then
           (if size < name_buffer_size then Some (appearance, take size (drop start data)) else None)
         else if ty = ad_appearance then map_option (\<lambda>a. (a, name)) (read_16 data start)
         else if ty = ad_class_of_device \<or> ty = ad_hash_c \<or> ty = ad_randomizer_r \<or> ty = ad_device_id
         then map_option (\<lambda>v. (appearance, name)) (read_16 data start)
         else Some (appearance, name)))"

function get_advertisement_data :: "u8 list \<Rightarrow> nat \<Rightarrow> u16 \<times> u8 list \<Rightarrow> (u16 \<times> u8 list) option" where
  "get_advertisement_data data offset st =
     (if ad_iterator_has_more data offset
      then Option.bind (ad_element data offset st)
             (get_advertisement_data data (offset + 1 + unat (data ! offset)))
      else Some st)"
  by pat_completeness auto
termination by (relation "measure (\<lambda>(data, offset, st). length data - offset)") (auto simp: ad_iterator_has_more_def)

declare get_advertisement_data.simps [simp del]

definition adv_event_get_data :: "u8 list \<Rightarrow> (u16 \<times> u8 list) option" where
  "adv_event_get_data data = get_advertisement_data data 0 (0, [])"

text \<open>The name as the C string that the buffer then holds.\<close>

definition c_name :: "u8 list \<Rightarrow> string" where
  "c_name bs = map (\<lambda>b. char_of (unat b)) (takeWhile (\<lambda>b. b \<noteq> 0) bs)"

section \<open>State\<close>

datatype conn_state = STATE_NONE | STATE_DISCOVERED
  | STATE_REMOTE_NAME_REQUEST | STATE_REMOTE_NAME_INQUIRED | STATE_REMOTE_NAME_FETCHED
  | STATE_SDP_VENDOR_REQUESTED | STATE_SDP_VENDOR_FETCHED
  | STATE_SDP_HID_DESCRIPTOR_REQUESTED | STATE_SDP_HID_DESCRIPTOR_FETCHED
  | STATE_L2CAP_CONTROL_CONNECTION_REQUESTED | STATE_L2CAP_CONTROL_CONNECTED
  | STATE_L2CAP_INTERRUPT_CONNECTION_REQUESTED | STATE_L2CAP_INTERRUPT_CONNECTED
  | STATE_PENDING_READY | STATE_READY

datatype conn_protocol = PROTOCOL_NONE | PROTOCOL_BR_EDR | PROTOCOL_BLE

definition conn_handle_invalid :: u16 where "conn_handle_invalid = 0xffff"

text \<open>
  One entry of the device table, with its connection. A timer is the time it is due or not running;
  \<open>driver_timer\<close> says that the parser has a timer of its own running in \<open>parser_data\<close>.
\<close>

record ble_slot =
  btaddr :: bd_addr
  con_handle :: u16
  control_cid :: u16
  interrupt_cid :: u16
  conn_rssi :: u8
  conn_state :: conn_state
  protocol :: conn_protocol
  incoming :: bool
  cod :: u32
  vendor_id :: u16
  product_id :: u16
  dev_name :: string
  dev_flags :: u32
  hids_cid :: u16
  ctype :: controller_type
  parser :: report_parser
  connection_timer :: "nat option"
  misc_wait_release :: u32
  misc_wait_delay :: u32
  misc_delay_timer :: "nat option"
  driver_timer :: bool

text \<open>\<open>memset\<close> to zero.\<close>

definition zero_slot :: ble_slot where
  "zero_slot = \<lparr>btaddr = zero_addr, con_handle = 0, control_cid = 0, interrupt_cid = 0, conn_rssi = 0,
     conn_state = STATE_NONE, protocol = PROTOCOL_NONE, incoming = False, cod = 0, vendor_id = 0, product_id = 0,
     dev_name = [], dev_flags = 0, hids_cid = 0, ctype = CT_Unknown, parser = no_parser, connection_timer = None,
     misc_wait_release = 0, misc_wait_delay = 0, misc_delay_timer = None, driver_timer = False\<rparr>"

text \<open>The effect of \<open>uni_hid_device_init\<close> with \<open>uni_bt_conn_init\<close>.\<close>

definition init_slot :: ble_slot where
  "init_slot = zero_slot\<lparr>hids_cid := 0xffff, con_handle := conn_handle_invalid\<rparr>"

datatype gap_connection_type = GAP_CONNECTION_INVALID | GAP_CONNECTION_ACL | GAP_CONNECTION_SCO | GAP_CONNECTION_LE

datatype gap_call = Gap_start_scan | Gap_stop_scan | Gap_connect bd_addr u8 | Gap_disconnect u16
  | Gap_delete_bonding u8 bd_addr | Hids_client_connect u16 | Hids_client_disconnect u16
  | Sm_request_pairing u16 | Sm_just_works_confirm u16 | Sm_numeric_comparison_confirm u16
  | Device_information_query u16

record stack =
  gap_type :: "u16 \<Rightarrow> gap_connection_type"
  hids_connect :: "u16 \<Rightarrow> u8 \<times> u16"

text \<open>
  \<open>run_loop_ok\<close> becomes false when a running timer is overwritten with zeros: the list of timers is then cut and
  its next entry has no handler.
\<close>

record link =
  table :: "ble_slot list"
  link_platform :: platform
  allow :: allowlist
  is_scanning :: bool
  ble_enabled :: bool
  bt_scanning_enabled :: bool
  now_ms :: nat
  gap_calls :: "gap_call list"
  run_loop_ok :: bool

definition call_gap :: "gap_call \<Rightarrow> link \<Rightarrow> link" where
  "call_gap c l = l\<lparr>gap_calls := gap_calls l @ [c]\<rparr>"

definition upd_slot :: "nat \<Rightarrow> (ble_slot \<Rightarrow> ble_slot) \<Rightarrow> link \<Rightarrow> link" where
  "upd_slot d f l = l\<lparr>table := (table l)[d := f (table l ! d)]\<rparr>"

definition on_platform :: "(platform \<Rightarrow> platform) \<Rightarrow> link \<Rightarrow> link" where
  "on_platform f l = l\<lparr>link_platform := f (link_platform l)\<rparr>"

text \<open>The state after \<open>uni_hid_device_setup\<close> and the platform's \<open>init\<close>.\<close>

definition link_boot :: "allowlist \<Rightarrow> link" where
  "link_boot al = \<lparr>table = replicate max_devices init_slot, link_platform = arduino_init, allow = al, is_scanning = False,
     ble_enabled = True, bt_scanning_enabled = False, now_ms = 0, gap_calls = [], run_loop_ok = True\<rparr>"

section \<open>Look-up\<close>

definition find_device :: "(ble_slot \<Rightarrow> bool) \<Rightarrow> link \<Rightarrow> nat option" where
  "find_device P l = List.find (\<lambda>d. P (table l ! d)) [0..<max_devices]"

definition uni_hid_device_get_instance_for_address :: "bd_addr \<Rightarrow> link \<Rightarrow> nat option" where
  "uni_hid_device_get_instance_for_address a = find_device (\<lambda>s. a = btaddr s)"

definition uni_hid_device_get_instance_for_cid :: "u16 \<Rightarrow> link \<Rightarrow> nat option" where
  "uni_hid_device_get_instance_for_cid cid l =
     (if cid = 0 then None else find_device (\<lambda>s. interrupt_cid s = cid \<or> control_cid s = cid) l)"

definition uni_hid_device_get_instance_for_hids_cid :: "u16 \<Rightarrow> link \<Rightarrow> nat option" where
  "uni_hid_device_get_instance_for_hids_cid cid l = (if cid = 0 then None else find_device (\<lambda>s. hids_cid s = cid) l)"

definition uni_hid_device_get_instance_for_connection_handle :: "u16 \<Rightarrow> link \<Rightarrow> nat option" where
  "uni_hid_device_get_instance_for_connection_handle h l =
     (if h = conn_handle_invalid then None else find_device (\<lambda>s. con_handle s = h) l)"

definition uni_hid_device_get_instance_for_idx :: "nat \<Rightarrow> nat option" where
  "uni_hid_device_get_instance_for_idx idx = (if max_devices \<le> idx then None else Some idx)"

definition uni_hid_device_get_first_device_with_state :: "conn_state \<Rightarrow> link \<Rightarrow> nat option" where
  "uni_hid_device_get_first_device_with_state st = find_device (\<lambda>s. btaddr s \<noteq> zero_addr \<and> conn_state s = st)"

section \<open>Fields of a device\<close>

definition flag_has_cod :: u32 where "flag_has_cod = 0x100"
definition flag_has_name :: u32 where "flag_has_name = 0x200"
definition flag_has_hid_descriptor :: u32 where "flag_has_hid_descriptor = 0x400"
definition flag_has_vendor_id :: u32 where "flag_has_vendor_id = 0x800"
definition flag_has_product_id :: u32 where "flag_has_product_id = 0x1000"
definition flag_has_controller_type :: u32 where "flag_has_controller_type = 0x2000"

definition hid_max_name_len :: nat where "hid_max_name_len = 240"

definition uni_hid_device_set_cod :: "u32 \<Rightarrow> ble_slot \<Rightarrow> ble_slot" where
  "uni_hid_device_set_cod c s =
     s\<lparr>cod := c, dev_flags := (if c = 0 then dev_flags s AND NOT flag_has_cod else dev_flags s OR flag_has_cod)\<rparr>"

definition uni_hid_device_set_name :: "string \<Rightarrow> ble_slot \<Rightarrow> ble_slot" where
  "uni_hid_device_set_name n s = s\<lparr>dev_name := strncpy_term hid_max_name_len n, dev_flags := dev_flags s OR flag_has_name\<rparr>"

definition uni_hid_device_set_product_id :: "u16 \<Rightarrow> ble_slot \<Rightarrow> ble_slot" where
  "uni_hid_device_set_product_id p s = s\<lparr>product_id := p, dev_flags := dev_flags s OR flag_has_product_id\<rparr>"

definition uni_hid_device_set_vendor_id :: "u16 \<Rightarrow> ble_slot \<Rightarrow> ble_slot" where
  "uni_hid_device_set_vendor_id v s =
     (if v = 0 then s else s\<lparr>vendor_id := v, dev_flags := dev_flags s OR flag_has_vendor_id\<rparr>)"

definition uni_hid_device_has_controller_type :: "ble_slot \<Rightarrow> bool" where
  "uni_hid_device_has_controller_type s \<longleftrightarrow> dev_flags s AND flag_has_controller_type \<noteq> 0"

definition cod_major_mask :: u32 where "cod_major_mask = 0x1f00"
definition cod_major_peripheral :: u32 where "cod_major_peripheral = 0x0500"
definition cod_major_audio_video :: u32 where "cod_major_audio_video = 0x0400"
definition cod_minor_mask :: u32 where "cod_minor_mask = 0xfc"
definition cod_minor_mice :: u32 where "cod_minor_mice = 0x80"
definition cod_minor_keyboard :: u32 where "cod_minor_keyboard = 0x40"
definition cod_minor_gamepad :: u32 where "cod_minor_gamepad = 0x08"
definition cod_minor_joystick :: u32 where "cod_minor_joystick = 0x04"

definition uni_hid_device_is_cod_supported :: "u32 \<Rightarrow> bool" where
  "uni_hid_device_is_cod_supported c =
     (if c AND cod_major_mask = cod_major_peripheral
      then (c AND cod_minor_mask) AND (cod_minor_mice OR cod_minor_keyboard OR cod_minor_gamepad OR cod_minor_joystick) \<noteq> 0
      else if c AND cod_major_mask = cod_major_audio_video then c = 0x400408 else False)"

definition uni_hid_device_is_mouse :: "ble_slot \<Rightarrow> bool" where
  "uni_hid_device_is_mouse s \<longleftrightarrow>
     cod s AND (cod_major_peripheral OR cod_minor_mice) = cod_major_peripheral OR cod_minor_mice"

definition uni_hid_device_is_keyboard :: "ble_slot \<Rightarrow> bool" where
  "uni_hid_device_is_keyboard s \<longleftrightarrow>
     cod s AND (cod_major_peripheral OR cod_minor_keyboard) = cod_major_peripheral OR cod_minor_keyboard"

definition uni_hid_device_is_gamepad :: "ble_slot \<Rightarrow> bool" where
  "uni_hid_device_is_gamepad s \<longleftrightarrow>
     cod s AND cod_major_peripheral \<noteq> 0 \<and> cod s AND (cod_minor_gamepad OR cod_minor_joystick) \<noteq> 0"

text \<open>A name match also writes the numbers of an Xbox controller into the device, and a stored descriptor.\<close>

definition xboxone_name_match :: "ble_slot \<Rightarrow> bool" where
  "xboxone_name_match s \<longleftrightarrow> dev_name s = ''Xbox Wireless Controller''"

definition fake_xbox :: "ble_slot \<Rightarrow> ble_slot" where
  "fake_xbox s =
     (let s1 = uni_hid_device_set_product_id 0x02e0 (uni_hid_device_set_vendor_id 0x045e s)
      in s1\<lparr>dev_flags := dev_flags s1 OR flag_has_hid_descriptor\<rparr>)"

definition uni_hid_device_guess_controller_type_from_pid_vid :: "ble_slot \<Rightarrow> ble_slot" where
  "uni_hid_device_guess_controller_type_from_pid_vid s =
     (if uni_hid_device_has_controller_type s then s
      else
        (let t = uni_guess_controller_type (vendor_id s) (product_id s);
             (t1, s1) =
               (if t = CT_Unknown \<or> t = CT_UnknownNonSteamController \<or> t = CT_UnknownSteamController
                then (if uni_hid_device_is_mouse s then (CT_GenericMouse, s)
                      else if uni_hid_device_is_keyboard s then (CT_GenericKeyboard, s)
                      else if xboxone_name_match s then (CT_XBoxOneController, fake_xbox s)
                      else (CT_AndroidController, s))
                else (t, s))
         in s1\<lparr>parser := parser_for (vendor_id s1) (product_id s1) t1, ctype := t1,
               dev_flags := dev_flags s1 OR flag_has_controller_type\<rparr>))"

text \<open>What the platform reads of a device.\<close>

definition info_of :: "ble_slot \<Rightarrow> device_info" where
  "info_of s =
     \<lparr>i_properties = \<lparr>p_btaddr = btaddr s, p_type = type_code (ctype s), p_vendor_id = vendor_id s,
        p_product_id = product_id s, p_flags = 0\<rparr>,
      has_player_leds = p_set_player_leds (parser s), has_rumble = p_play_dual_rumble (parser s),
      has_lightbar = p_set_lightbar_color (parser s)\<rparr>"

definition show_platform :: "nat \<Rightarrow> link \<Rightarrow> link" where
  "show_platform d l =
     on_platform (\<lambda>p. set_device d ((devices p ! d)\<lparr>info := info_of (table l ! d)\<rparr>) p) l"

section \<open>The device table\<close>

definition hid_device_connection_timeout_ms :: nat where "hid_device_connection_timeout_ms = 20000"
definition misc_button_delay_ms :: nat where "misc_button_delay_ms = 200"

text \<open>Zeroing a device whose other timers run breaks the list of timers.\<close>

definition wipe :: "nat \<Rightarrow> ble_slot \<Rightarrow> link \<Rightarrow> link" where
  "wipe d s l =
     (let old = table l ! d
      in upd_slot d (\<lambda>_. s) (l\<lparr>run_loop_ok := run_loop_ok l \<and> \<not> driver_timer old \<and> misc_delay_timer old = None\<rparr>))"

definition start_connection_timeout :: "nat \<Rightarrow> link \<Rightarrow> link" where
  "start_connection_timeout d l = upd_slot d (\<lambda>s. s\<lparr>connection_timer := Some (now_ms l + hid_device_connection_timeout_ms)\<rparr>) l"

definition link_create :: "bd_addr \<Rightarrow> link \<Rightarrow> nat option \<times> link" where
  "link_create a l =
     (case find_device (\<lambda>s. btaddr s = zero_addr) l of
        None \<Rightarrow> (None, l)
      | Some d \<Rightarrow> (Some d, start_connection_timeout d
                    (on_platform (uni_hid_device_create d) (wipe d (zero_slot\<lparr>btaddr := a\<rparr>) l))))"

definition resume_scanning_hint :: "link \<Rightarrow> link" where
  "resume_scanning_hint l = (if is_scanning l then call_gap Gap_start_scan l else l)"

definition hog_disconnect :: "stack \<Rightarrow> u16 \<Rightarrow> link \<Rightarrow> link" where
  "hog_disconnect S h l =
     (let l1 = (case uni_hid_device_get_instance_for_connection_handle h l of
                  None \<Rightarrow> l | Some d \<Rightarrow> call_gap (Hids_client_disconnect (hids_cid (table l ! d))) l);
          l2 = (if gap_type S h \<noteq> GAP_CONNECTION_INVALID then call_gap (Gap_disconnect h) l1 else l1)
      in resume_scanning_hint l2)"

definition link_disconnect :: "stack \<Rightarrow> nat \<Rightarrow> link \<Rightarrow> link" where
  "link_disconnect S d l =
     (let h = con_handle (table l ! d);
          l1 = (if gap_type S h = GAP_CONNECTION_LE then hog_disconnect S h l else l);
          l2 = upd_slot d (\<lambda>s. s\<lparr>connection_timer := None\<rparr>) l1
      in on_platform (uni_hid_device_disconnect d) l2)"

definition link_delete :: "nat \<Rightarrow> link \<Rightarrow> link" where
  "link_delete d l = on_platform (uni_hid_device_delete d) (wipe d init_slot l)"

definition link_drop :: "stack \<Rightarrow> nat \<Rightarrow> link \<Rightarrow> link" where
  "link_drop S d l = link_delete d (link_disconnect S d l)"

definition uni_bt_conn_set_state :: "nat \<Rightarrow> conn_state \<Rightarrow> link \<Rightarrow> link" where
  "uni_bt_conn_set_state d st l =
     on_platform (\<lambda>p. set_device d ((devices p ! d)\<lparr>device_ready := (st = STATE_READY)\<rparr>) p)
       (upd_slot d (\<lambda>s. s\<lparr>conn_state := st\<rparr>) l)"

definition link_connect :: "nat \<Rightarrow> link \<Rightarrow> link" where
  "link_connect d l = on_platform (uni_hid_device_connect d) (show_platform d l)"

definition link_set_ready_complete :: "stack \<Rightarrow> nat \<Rightarrow> link \<Rightarrow> bool \<times> link" where
  "link_set_ready_complete S d l =
     (if conn_state (table l ! d) = STATE_READY then (False, l)
      else
        (let l1 = show_platform d (upd_slot d (\<lambda>s. s\<lparr>connection_timer := None\<rparr>) l);
             (ok, p) = arduino_on_device_ready d (link_platform l1);
             l2 = l1\<lparr>link_platform := p\<rparr>
         in if \<not> ok then (False, link_drop S d l2) else (True, uni_bt_conn_set_state d STATE_READY l2)))"

definition link_set_ready :: "stack \<Rightarrow> nat \<Rightarrow> link \<Rightarrow> link" where
  "link_set_ready S d l =
     (if conn_state (table l ! d) = STATE_PENDING_READY then l
      else
        (let l1 = uni_bt_conn_set_state d STATE_PENDING_READY l
         in if p_setup (parser (table l ! d)) = Setup_later then l1 else snd (link_set_ready_complete S d l1)))"

text \<open>A name request that found nothing is repeated; only Bluetooth Classic enters these states.\<close>

definition uni_hid_device_request_inquire :: "link \<Rightarrow> link" where
  "uni_hid_device_request_inquire l =
     l\<lparr>table := map (\<lambda>s. if conn_state s = STATE_REMOTE_NAME_INQUIRED then s\<lparr>conn_state := STATE_REMOTE_NAME_REQUEST\<rparr>
                        else s) (table l)\<rparr>"

definition device_connection_timeout :: "stack \<Rightarrow> nat \<Rightarrow> link \<Rightarrow> link" where
  "device_connection_timeout S d l =
     (let l1 = upd_slot d (\<lambda>s. s\<lparr>connection_timer := None\<rparr>) l
      in if conn_state (table l1 ! d) = STATE_READY then l1 else link_drop S d l1)"

section \<open>Reports\<close>

definition misc_button_system :: u32 where "misc_button_system = 1"
definition misc_button_start :: u32 where "misc_button_start = 4"

definition misc_button_enable_callback :: "nat \<Rightarrow> link \<Rightarrow> link" where
  "misc_button_enable_callback d =
     upd_slot d (\<lambda>s. s\<lparr>misc_delay_timer := None, misc_wait_delay := misc_wait_delay s AND NOT misc_button_system\<rparr>)"

definition requires_delay :: "controller_type \<Rightarrow> bool" where
  "requires_delay t \<longleftrightarrow> t = CT_SwitchProController \<or> t = CT_SwitchJoyConLeft \<or> t = CT_SwitchJoyConRight"

text \<open>The platform ignores the event of the system button.\<close>

definition process_misc_button_system :: "nat \<Rightarrow> u32 \<Rightarrow> ble_slot \<Rightarrow> ble_slot" where
  "process_misc_button_system now buttons s =
     (if buttons AND misc_button_system = 0 then s\<lparr>misc_wait_release := misc_wait_release s AND NOT misc_button_system\<rparr>
      else if misc_wait_release s AND misc_button_system \<noteq> 0 then s
      else if requires_delay (ctype s) \<and> misc_wait_delay s AND misc_button_system \<noteq> 0 then s
      else (let s1 = s\<lparr>misc_wait_release := misc_wait_release s OR misc_button_system\<rparr>
            in if requires_delay (ctype s)
               then s1\<lparr>misc_wait_delay := misc_wait_delay s OR misc_button_system,
                       misc_delay_timer := Some (now + misc_button_delay_ms)\<rparr>
               else s1))"

definition process_misc_button_home :: "u32 \<Rightarrow> ble_slot \<Rightarrow> ble_slot" where
  "process_misc_button_home buttons s =
     (if buttons AND misc_button_start = 0 then s\<lparr>misc_wait_release := misc_wait_release s AND NOT misc_button_start\<rparr>
      else if misc_wait_release s AND misc_button_start \<noteq> 0 then s
      else s\<lparr>misc_wait_release := misc_wait_release s OR misc_button_start\<rparr>)"

definition link_process_controller :: "mappings_state \<Rightarrow> nat \<Rightarrow> uni_controller \<Rightarrow> link \<Rightarrow> link option" where
  "link_process_controller ms d ctl l =
     (if conn_state (table l ! d) \<noteq> STATE_READY then Some l
      else do {
        p \<leftarrow> uni_hid_device_process_controller ms d ctl (link_platform l);
        gp \<leftarrow> (if klass ctl = UNI_CONTROLLER_CLASS_GAMEPAD
              then uni_gamepad_remap (mappings_kind ms) (mapping ms) (gamepad ctl) else Some (gamepad ctl));
        let buttons = ucast (gp_misc_buttons gp);
        Some (upd_slot d (process_misc_button_home buttons \<circ> process_misc_button_system (now_ms l) buttons)
                (l\<lparr>link_platform := p\<rparr>)) })"

section \<open>Bluetooth LE events\<close>

definition error_success :: u8 where "error_success = 0"
definition error_pin_or_key_missing :: u8 where "error_pin_or_key_missing = 0x06"
definition error_connection_timeout :: u8 where "error_connection_timeout = 0x08"
definition error_remote_user_terminated :: u8 where "error_remote_user_terminated = 0x13"

definition appearance_keyboard :: u16 where "appearance_keyboard = 0x3c1"
definition appearance_mouse :: u16 where "appearance_mouse = 0x3c2"
definition appearance_joystick :: u16 where "appearance_joystick = 0x3c3"
definition appearance_gamepad :: u16 where "appearance_gamepad = 0x3c4"

definition cod_of_appearance :: "u16 \<Rightarrow> u32 option" where
  "cod_of_appearance a =
     (if a = appearance_mouse then Some (cod_major_peripheral OR cod_minor_mice)
      else if a = appearance_joystick then Some (cod_major_peripheral OR cod_minor_joystick)
      else if a = appearance_gamepad then Some (cod_major_peripheral OR cod_minor_gamepad)
      else if a = appearance_keyboard then Some (cod_major_peripheral OR cod_minor_keyboard)
      else None)"

text \<open>True is \<open>UNI_ERROR_SUCCESS\<close>; the platform has no say of its own.\<close>

definition uni_hid_device_on_device_discovered :: "bd_addr \<Rightarrow> u32 \<Rightarrow> u8 \<Rightarrow> link \<Rightarrow> bool" where
  "uni_hid_device_on_device_discovered a c r l \<longleftrightarrow>
     uni_bt_allowlist_is_allowed_addr a (allow l) \<and> \<not> r < 255 - 100 \<and> uni_hid_device_is_cod_supported c"

definition hog_connect :: "bd_addr \<Rightarrow> u8 \<Rightarrow> link \<Rightarrow> link" where
  "hog_connect a ty l = call_gap (Gap_connect a ty) (call_gap Gap_stop_scan l)"

definition uni_bt_le_on_gap_event_advertising_report ::
  "bd_addr \<Rightarrow> u8 \<Rightarrow> u8 list \<Rightarrow> u8 \<Rightarrow> link \<Rightarrow> link option" where
  "uni_bt_le_on_gap_event_advertising_report a ty data r l =
     (if uni_hid_device_get_instance_for_address a l \<noteq> None then Some l
      else case adv_event_get_data data of
             None \<Rightarrow> None
           | Some (appearance, name) \<Rightarrow>
               (case cod_of_appearance appearance of
                  None \<Rightarrow> Some l
                | Some c \<Rightarrow>
                    if \<not> uni_hid_device_on_device_discovered a c r l then Some l
                    else (case link_create a l of
                            (None, k) \<Rightarrow> Some k
                          | (Some d, k) \<Rightarrow>
                              Some (hog_connect a ty
                                (uni_bt_conn_set_state d STATE_DISCOVERED
                                  (upd_slot d (\<lambda>s. (uni_hid_device_set_name (c_name name) (uni_hid_device_set_cod c s))
                                                     \<lparr>protocol := PROTOCOL_BLE, conn_rssi := r\<rparr>) k))))))"

text \<open>The status of the event is not looked at.\<close>

definition on_le_connection_complete :: "bd_addr \<Rightarrow> u16 \<Rightarrow> link \<Rightarrow> link" where
  "on_le_connection_complete a h l =
     (case uni_hid_device_get_instance_for_address a l of
        None \<Rightarrow> l
      | Some d \<Rightarrow> call_gap (Sm_request_pairing h) (upd_slot d (\<lambda>s. s\<lparr>con_handle := h\<rparr>) l))"

definition uni_bt_le_on_hci_event_encryption_change :: "stack \<Rightarrow> u16 \<Rightarrow> bool \<Rightarrow> link \<Rightarrow> link" where
  "uni_bt_le_on_hci_event_encryption_change S h on l =
     (if gap_type S h \<noteq> GAP_CONNECTION_LE then l
      else case uni_hid_device_get_instance_for_connection_handle h l of
             None \<Rightarrow> l
           | Some d \<Rightarrow> if protocol (table l ! d) \<noteq> PROTOCOL_BLE then l
                       else if \<not> on then hog_disconnect S h l else l)"

definition query_device_information :: "u16 \<Rightarrow> link \<Rightarrow> link" where
  "query_device_information h l = (if h = conn_handle_invalid then l else call_gap (Device_information_query h) l)"

definition on_reencryption_complete :: "stack \<Rightarrow> u16 \<Rightarrow> u8 \<Rightarrow> u8 \<Rightarrow> bd_addr \<Rightarrow> link \<Rightarrow> link" where
  "on_reencryption_complete S h status ty a l =
     (if status = error_success then query_device_information h l
      else if status = error_connection_timeout \<or> status = error_remote_user_terminated then hog_disconnect S h l
      else if status = error_pin_or_key_missing then call_gap (Sm_request_pairing h) (call_gap (Gap_delete_bonding ty a) l)
      else l)"

definition on_pairing_complete :: "stack \<Rightarrow> bd_addr \<Rightarrow> u16 \<Rightarrow> u8 \<Rightarrow> link \<Rightarrow> link" where
  "on_pairing_complete S a h status l =
     (case uni_hid_device_get_instance_for_address a l of
        None \<Rightarrow> hog_disconnect S h l
      | Some d \<Rightarrow> if status = error_success then query_device_information h l else l)"

definition on_device_information_done :: "stack \<Rightarrow> u16 \<Rightarrow> u8 \<Rightarrow> link \<Rightarrow> link" where
  "on_device_information_done S h status l =
     (if status = error_success then
        (case uni_hid_device_get_instance_for_connection_handle h l of
           None \<Rightarrow> l
         | Some d \<Rightarrow>
             (let (st, cid) = hids_connect S h; l1 = call_gap (Hids_client_connect h) l
              in if st \<noteq> error_success then hog_disconnect S h l1 else upd_slot d (\<lambda>s. s\<lparr>hids_cid := cid\<rparr>) l1))
      else hog_disconnect S h l)"

definition on_pnp_id :: "u16 \<Rightarrow> u16 \<Rightarrow> u16 \<Rightarrow> link \<Rightarrow> link" where
  "on_pnp_id h vid pid l =
     (case uni_hid_device_get_instance_for_connection_handle h l of
        None \<Rightarrow> l
      | Some d \<Rightarrow> upd_slot d (uni_hid_device_set_product_id pid \<circ> uni_hid_device_set_vendor_id vid) l)"

definition on_hid_service_connected :: "stack \<Rightarrow> u8 \<Rightarrow> u16 \<Rightarrow> link \<Rightarrow> link" where
  "on_hid_service_connected S status cid l =
     (if status \<noteq> error_success then l
      else case uni_hid_device_get_instance_for_hids_cid cid l of
             None \<Rightarrow> l
           | Some d \<Rightarrow>
               resume_scanning_hint
                 (link_set_ready S d (link_connect d (upd_slot d uni_hid_device_guess_controller_type_from_pid_vid l))))"

definition on_hid_report :: "mappings_state \<Rightarrow> u16 \<Rightarrow> uni_controller \<Rightarrow> link \<Rightarrow> link option" where
  "on_hid_report ms cid ctl l =
     (case uni_hid_device_get_instance_for_hids_cid cid l of
        None \<Rightarrow> Some l | Some d \<Rightarrow> link_process_controller ms d ctl l)"

definition on_hci_disconnection_complete :: "stack \<Rightarrow> u16 \<Rightarrow> link \<Rightarrow> link" where
  "on_hci_disconnection_complete S h l =
     (case uni_hid_device_get_instance_for_connection_handle h l of
        None \<Rightarrow> l
      | Some d \<Rightarrow> (let ty = gap_type S (con_handle (table l ! d)); l1 = link_drop S d l
                  in if ty = GAP_CONNECTION_LE then resume_scanning_hint l1 else l1))"

definition on_rssi_measurement :: "u16 \<Rightarrow> u8 \<Rightarrow> link \<Rightarrow> link" where
  "on_rssi_measurement h r l =
     (case uni_hid_device_get_instance_for_connection_handle h l of
        None \<Rightarrow> l | Some d \<Rightarrow> upd_slot d (\<lambda>s. s\<lparr>conn_rssi := r\<rparr>) l)"

section \<open>Commands\<close>

definition uni_bt_le_scan_start :: "link \<Rightarrow> link" where
  "uni_bt_le_scan_start l = (if \<not> ble_enabled l then l else (call_gap Gap_start_scan l)\<lparr>is_scanning := True\<rparr>)"

definition uni_bt_le_scan_stop :: "link \<Rightarrow> link" where
  "uni_bt_le_scan_stop l = (if \<not> ble_enabled l then l else (call_gap Gap_stop_scan l)\<lparr>is_scanning := False\<rparr>)"

definition start_scanning :: "bool \<Rightarrow> link \<Rightarrow> link" where
  "start_scanning on l =
     (if bt_scanning_enabled l \<noteq> on
      then (let l1 = l\<lparr>bt_scanning_enabled := on\<rparr> in if on then uni_bt_le_scan_start l1 else uni_bt_le_scan_stop l1)
      else l)"

definition cmd_disconnect_device :: "stack \<Rightarrow> nat \<Rightarrow> link \<Rightarrow> link" where
  "cmd_disconnect_device S idx l =
     (case uni_hid_device_get_instance_for_idx idx of None \<Rightarrow> l | Some d \<Rightarrow> link_drop S d l)"

section \<open>Dispatch\<close>

text \<open>
  What reaches the Bluetooth task: packets of the stack, the timers, a parser that has finished its
  setup or starts or stops a timer of its own, and the commands of other tasks.
\<close>

datatype link_event = Advertising_report bd_addr u8 "u8 list" u8 | Le_connection_complete bd_addr u16
  | Encryption_change u16 bool | Just_works_request u16 | Numeric_comparison_request u16
  | Reencryption_complete u16 u8 u8 bd_addr | Pairing_complete bd_addr u16 u8
  | Device_information_done u16 u8 | Pnp_id u16 u16 u16 | Hid_service_connected u8 u16 | Hid_report u16 uni_controller
  | Disconnection_complete u16 | Rssi_measurement u16 u8
  | Connection_timeout nat | Misc_button_timeout nat | Setup_finished nat | Driver_timer nat bool
  | Cmd_scanning bool | Cmd_disconnect nat

fun handle :: "mappings_state \<Rightarrow> stack \<Rightarrow> link_event \<Rightarrow> link \<Rightarrow> link option" where
  "handle ms S (Advertising_report a ty data r) l = uni_bt_le_on_gap_event_advertising_report a ty data r l"
| "handle ms S (Le_connection_complete a h) l = Some (on_le_connection_complete a h l)"
| "handle ms S (Encryption_change h on) l = Some (uni_bt_le_on_hci_event_encryption_change S h on l)"
| "handle ms S (Just_works_request h) l = Some (call_gap (Sm_just_works_confirm h) l)"
| "handle ms S (Numeric_comparison_request h) l = Some (call_gap (Sm_numeric_comparison_confirm h) l)"
| "handle ms S (Reencryption_complete h status ty a) l = Some (on_reencryption_complete S h status ty a l)"
| "handle ms S (Pairing_complete a h status) l = Some (on_pairing_complete S a h status l)"
| "handle ms S (Device_information_done h status) l = Some (on_device_information_done S h status l)"
| "handle ms S (Pnp_id h vid pid) l = Some (on_pnp_id h vid pid l)"
| "handle ms S (Hid_service_connected status cid) l = Some (on_hid_service_connected S status cid l)"
| "handle ms S (Hid_report cid ctl) l = on_hid_report ms cid ctl l"
| "handle ms S (Disconnection_complete h) l = Some (on_hci_disconnection_complete S h l)"
| "handle ms S (Rssi_measurement h r) l = Some (on_rssi_measurement h r l)"
| "handle ms S (Connection_timeout d) l = Some (device_connection_timeout S d l)"
| "handle ms S (Misc_button_timeout d) l = Some (misc_button_enable_callback d l)"
| "handle ms S (Setup_finished d) l = Some (snd (link_set_ready_complete S d l))"
| "handle ms S (Driver_timer d on) l = Some (upd_slot d (\<lambda>s. s\<lparr>driver_timer := on\<rparr>) l)"
| "handle ms S (Cmd_scanning on) l = Some (start_scanning on l)"
| "handle ms S (Cmd_disconnect idx) l = Some (cmd_disconnect_device S idx l)"

text \<open>Whether the radio was last told to scan or not to.\<close>

fun scan_after :: "gap_call \<Rightarrow> bool \<Rightarrow> bool" where
  "scan_after Gap_start_scan on = True"
| "scan_after Gap_stop_scan on = False"
| "scan_after c on = on"

definition radio_scans :: "link \<Rightarrow> bool" where
  "radio_scans l = fold scan_after (gap_calls l) False"

end
