(* ===== verification/Seats_Laws.thy ===== *)
theory Seats_Laws
  imports Seats
begin

text \<open>
  The seats are handed out consistently in every order of connections, reports and losses, and
  \<open>Bluepad32::update\<close> reports exactly the seats that changed since its last call. Two things it
  does not do: it does not notice a device that was replaced between two calls, and it does not
  clear the data of the controller that left.
\<close>

section \<open>Events\<close>

datatype bt_event = Create nat | Learn nat device_info | Connect nat device_info | Ready nat | Lose nat | Delete nat
  | Report nat uni_controller | Request int request_cmd

text \<open>
  A device slot is created when free, connected once, made ready while it is connected, and
  deleted once it has been disconnected; reports and requests come at any time. What is known of
  a device is filled in before it connects and may change later.
\<close>

inductive bt_step :: "mappings_state \<Rightarrow> platform \<Rightarrow> bt_event \<Rightarrow> platform \<Rightarrow> bool" for ms where
  bt_create: "d < max_devices \<Longrightarrow> \<not> connected (devices p ! d) \<Longrightarrow> bt_step ms p (Create d) (uni_hid_device_create d p)"
| bt_learn: "d < max_devices \<Longrightarrow> bt_step ms p (Learn d io) (set_device d ((devices p ! d)\<lparr>info := io\<rparr>) p)"
| bt_connect: "d < max_devices \<Longrightarrow> \<not> connected (devices p ! d) \<Longrightarrow> \<not> device_ready (devices p ! d) \<Longrightarrow>
    bt_step ms p (Connect d io) (uni_hid_device_connect d (set_device d ((devices p ! d)\<lparr>info := io\<rparr>) p))"
| bt_ready: "d < max_devices \<Longrightarrow> connected (devices p ! d) \<Longrightarrow>
    bt_step ms p (Ready d) (snd (uni_hid_device_set_ready_complete d p))"
| bt_lose: "d < max_devices \<Longrightarrow> bt_step ms p (Lose d) (uni_hid_device_disconnect d p)"
| bt_delete: "d < max_devices \<Longrightarrow> \<not> connected (devices p ! d) \<Longrightarrow> bt_step ms p (Delete d) (uni_hid_device_delete d p)"
| bt_report: "d < max_devices \<Longrightarrow> uni_hid_device_process_controller ms d ctl p = Some p' \<Longrightarrow>
    bt_step ms p (Report d ctl) p'"
| bt_request: "bt_step ms p (Request idx cmd) (snd (arduino_request cmd idx p))"

inductive bt_run :: "mappings_state \<Rightarrow> platform \<Rightarrow> bool" for ms where
  run_init: "bt_run ms arduino_init"
| run_step: "bt_run ms p \<Longrightarrow> bt_step ms p e p' \<Longrightarrow> bt_run ms p'"
| run_read: "bt_run ms p \<Longrightarrow> bt_run ms (fst (snd (snd (bp32_update (p, b)))))"

section \<open>The invariant\<close>

definition taken :: "platform \<Rightarrow> nat \<Rightarrow> bool" where
  "taken p i \<longleftrightarrow> seat_idx (seats p ! i) \<noteq> gamepad_invalid"

definition sits :: "platform \<Rightarrow> nat \<Rightarrow> nat \<Rightarrow> bool" where
  "sits p d i \<longleftrightarrow> connected (devices p ! d) \<and> instance_idx (devices p ! d) = int i"

definition seats_ok :: "platform \<Rightarrow> bool" where
  "seats_ok p \<longleftrightarrow> length (devices p) = 4 \<and> length (seats p) = 4 \<and>
     (\<forall>i<4. seat_idx (seats p ! i) = -1 \<or> seat_idx (seats p ! i) = int i) \<and>
     used_controllers p = int (card {i. i < 4 \<and> taken p i}) \<and>
     (\<forall>d<4. connected (devices p ! d) \<longrightarrow> instance_idx (devices p ! d) = -1 \<or>
        (\<exists>i<4. instance_idx (devices p ! d) = int i \<and> taken p i)) \<and>
     (\<forall>i<4. taken p i \<longrightarrow> (\<exists>d<4. sits p d i)) \<and>
     (\<forall>d<4. \<forall>e<4. \<forall>i<4. sits p d i \<and> sits p e i \<longrightarrow> d = e) \<and>
     (\<forall>d<4. device_ready (devices p ! d) \<and> \<not> connected (devices p ! d) \<longrightarrow> instance_idx (devices p ! d) = -1)"

lemma seats_okD:
  assumes "seats_ok p"
  shows "length (devices p) = 4" "length (seats p) = 4"
    "i < 4 \<Longrightarrow> seat_idx (seats p ! i) = -1 \<or> seat_idx (seats p ! i) = int i"
    "used_controllers p = int (card {i. i < 4 \<and> taken p i})"
    "d < 4 \<Longrightarrow> connected (devices p ! d) \<Longrightarrow> instance_idx (devices p ! d) = -1 \<or>
        (\<exists>i<4. instance_idx (devices p ! d) = int i \<and> taken p i)"
    "i < 4 \<Longrightarrow> taken p i \<Longrightarrow> \<exists>d<4. sits p d i"
    "d < 4 \<Longrightarrow> e < 4 \<Longrightarrow> i < 4 \<Longrightarrow> sits p d i \<Longrightarrow> sits p e i \<Longrightarrow> d = e"
    "d < 4 \<Longrightarrow> device_ready (devices p ! d) \<Longrightarrow> \<not> connected (devices p ! d) \<Longrightarrow> instance_idx (devices p ! d) = -1"
  using assms unfolding seats_ok_def by blast+

lemma seats_okI:
  assumes "length (devices p) = 4" "length (seats p) = 4"
    "\<And>i. i < 4 \<Longrightarrow> seat_idx (seats p ! i) = -1 \<or> seat_idx (seats p ! i) = int i"
    "used_controllers p = int (card {i. i < 4 \<and> taken p i})"
    "\<And>d. d < 4 \<Longrightarrow> connected (devices p ! d) \<Longrightarrow> instance_idx (devices p ! d) = -1 \<or>
        (\<exists>i<4. instance_idx (devices p ! d) = int i \<and> taken p i)"
    "\<And>i. i < 4 \<Longrightarrow> taken p i \<Longrightarrow> \<exists>d<4. sits p d i"
    "\<And>d e i. d < 4 \<Longrightarrow> e < 4 \<Longrightarrow> i < 4 \<Longrightarrow> sits p d i \<Longrightarrow> sits p e i \<Longrightarrow> d = e"
    "\<And>d. d < 4 \<Longrightarrow> device_ready (devices p ! d) \<Longrightarrow> \<not> connected (devices p ! d) \<Longrightarrow> instance_idx (devices p ! d) = -1"
  shows "seats_ok p"
  using assms unfolding seats_ok_def by blast

text \<open>The invariant looks at seat numbers, owners and the two flags of a device only.\<close>

lemma seats_ok_cong:
  assumes "seats_ok p" "length (devices q) = 4" "length (seats q) = 4" "used_controllers q = used_controllers p"
    "\<And>i. i < 4 \<Longrightarrow> seat_idx (seats q ! i) = seat_idx (seats p ! i)"
    "\<And>d. d < 4 \<Longrightarrow> connected (devices q ! d) = connected (devices p ! d)"
    "\<And>d. d < 4 \<Longrightarrow> connected (devices p ! d) \<Longrightarrow> instance_idx (devices q ! d) = instance_idx (devices p ! d)"
    "\<And>d. d < 4 \<Longrightarrow> device_ready (devices q ! d) \<Longrightarrow> \<not> connected (devices p ! d) \<Longrightarrow> instance_idx (devices q ! d) = -1"
  shows "seats_ok q"
proof -
  have t: "taken q i = taken p i" if "i < 4" for i using assms(5) [OF that] by (simp add: taken_def)
  have s: "sits q d i = sits p d i" if "d < 4" for d i using assms(6,7) [OF that] by (auto simp: sits_def)
  have c: "{i. i < 4 \<and> taken q i} = {i. i < 4 \<and> taken p i}" using t by auto
  note D = seats_okD [OF assms(1)]
  show ?thesis
  proof (rule seats_okI)
    show "used_controllers q = int (card {i. i < 4 \<and> taken q i})" using D(4) by (simp add: c assms(4))
    show "\<exists>d<4. sits q d i" if "i < 4" "taken q i" for i using D(6) [of i] that t s by auto
    show "d = e" if "d < 4" "e < 4" "i < 4" "sits q d i" "sits q e i" for d e i using D(7) [OF that(1-3)] that s by auto
    show "instance_idx (devices q ! d) = -1 \<or> (\<exists>i<4. instance_idx (devices q ! d) = int i \<and> taken q i)"
      if "d < 4" "connected (devices q ! d)" for d using D(5) [of d] that assms(6,7) t by auto
    show "instance_idx (devices q ! d) = -1" if "d < 4" "device_ready (devices q ! d)" "\<not> connected (devices q ! d)" for d
      using assms(6,8) that by simp
  qed (use assms D(3) in auto)
qed

lemma run_request_same: "devices (run_request d cmd p) = devices p" "seats (run_request d cmd p) = seats p"
  "used_controllers (run_request d cmd p) = used_controllers p"
  by (simp_all add: run_request_def Let_def split: request_cmd.split)

lemma process_requests_same:
  "devices (process_requests q p) = devices p \<and> seats (process_requests q p) = seats p \<and>
   used_controllers (process_requests q p) = used_controllers p"
  by (induction q p rule: process_requests.induct) (auto simp: run_request_same split: option.split)

lemma seats_ok_same:
  "seats_ok p \<Longrightarrow> devices q = devices p \<Longrightarrow> seats q = seats p \<Longrightarrow> used_controllers q = used_controllers p \<Longrightarrow> seats_ok q"
  by (simp add: seats_ok_def taken_def sits_def)

lemma nth_list_update_eq_if: "xs[i := x] ! j = (if i = j \<and> j < length xs then x else xs ! j)"
  by (cases "i < length xs") (auto simp: nth_list_update list_update_beyond)

lemma seats_ok_seat_data:
  assumes "seats_ok p" "seat_idx s = seat_idx (seats p ! i)"
  shows "seats_ok (p\<lparr>seats := (seats p)[i := s]\<rparr>)"
  by (rule seats_ok_cong [OF assms(1)])
     (use seats_okD(1,2,8) [OF assms(1)] assms(2) in \<open>auto simp: nth_list_update_eq_if\<close>)

lemma init_seats: "seats_ok arduino_init"
proof -
  have "{i. i < 4 \<and> taken arduino_init i} = {}" by (auto simp: taken_def arduino_init_def max_devices_def empty_seat_def)
  then show ?thesis
    by (auto simp: seats_ok_def arduino_init_def max_devices_def empty_seat_def blank_device_def taken_def sits_def
        gamepad_invalid_def)
qed

section \<open>Every event keeps it\<close>

lemma blank_ok:
  assumes "seats_ok p" "d < 4" "\<not> connected (devices p ! d)"
  shows "seats_ok (set_device d blank_device p)"
  by (rule seats_ok_cong [OF assms(1)])
     (use assms(2,3) seats_okD(1,2,8) [OF assms(1)] in \<open>auto simp: set_device_def nth_list_update blank_device_def\<close>)

lemma connect_ok:
  assumes "seats_ok p" "d < 4" "\<not> connected (devices p ! d)"
  shows "seats_ok (uni_hid_device_connect d (set_device d ((devices p ! d)\<lparr>info := io\<rparr>) p))"
proof -
  note D = seats_okD [OF assms(1)]
  let ?q = "uni_hid_device_connect d (set_device d ((devices p ! d)\<lparr>info := io\<rparr>) p)"
  have q: "devices ?q ! e = (if e = d then (devices p ! d)\<lparr>info := io, connected := True, instance_idx := -1\<rparr> else devices p ! e)"
    if "e < 4" for e
    using that assms(2) D(1)
    by (simp add: uni_hid_device_connect_def arduino_on_device_connected_def set_device_def nth_list_update gamepad_invalid_def)
  have f: "seats ?q = seats p" "used_controllers ?q = used_controllers p" "length (devices ?q) = 4"
    using D(1) by (simp_all add: uni_hid_device_connect_def arduino_on_device_connected_def set_device_def)
  have s: "sits ?q e i = sits p e i" if "e < 4" for e i
    using that assms(3) by (auto simp: sits_def q)
  have t: "taken ?q = taken p" by (intro ext) (simp add: taken_def f)
  show ?thesis
  proof (rule seats_okI)
    show "\<exists>e<4. sits ?q e i" if "i < 4" "taken ?q i" for i using D(6) [of i] that s t by auto
    show "e = e'" if "e < 4" "e' < 4" "i < 4" "sits ?q e i" "sits ?q e' i" for e e' i using D(7) [OF that(1-3)] that s by auto
    show "instance_idx (devices ?q ! e) = -1 \<or> (\<exists>i<4. instance_idx (devices ?q ! e) = int i \<and> taken ?q i)"
      if "e < 4" "connected (devices ?q ! e)" for e using D(5) [of e] that by (simp add: q t split: if_splits)
    show "instance_idx (devices ?q ! e) = -1" if "e < 4" "device_ready (devices ?q ! e)" "\<not> connected (devices ?q ! e)" for e
      using D(8) [of e] that by (simp add: q split: if_splits)
  qed (use D(2,3,4) f t in auto)
qed

text \<open>A connected device goes without a seat, or gives its seat back.\<close>

lemma lose_unseated:
  assumes "seats_ok p" "d < 4" "connected (devices p ! d)" "instance_idx (devices p ! d) = -1"
  shows "seats_ok (uni_hid_device_disconnect d p) \<and> \<not> connected (devices (uni_hid_device_disconnect d p) ! d)"
proof -
  note D = seats_okD [OF assms(1)]
  let ?q = "uni_hid_device_disconnect d p"
  have q: "devices ?q ! e = (if e = d then (devices p ! d)\<lparr>connected := False\<rparr> else devices p ! e)" if "e < 4" for e
    using that assms(2-4) D(1)
    by (simp add: uni_hid_device_disconnect_def arduino_on_device_disconnected_def set_device_def nth_list_update
        gamepad_invalid_def)
  have f: "seats ?q = seats p" "used_controllers ?q = used_controllers p" "length (devices ?q) = 4"
    using D(1) assms(2-4) by (simp_all add: uni_hid_device_disconnect_def arduino_on_device_disconnected_def
        set_device_def gamepad_invalid_def)
  have s: "sits ?q e i = sits p e i" if "e < 4" for e i using that assms(3,4) by (auto simp: sits_def q)
  have t: "taken ?q = taken p" by (intro ext) (simp add: taken_def f)
  have "seats_ok ?q"
  proof (rule seats_okI)
    show "\<exists>e<4. sits ?q e i" if "i < 4" "taken ?q i" for i using D(6) [of i] that s t by auto
    show "e = e'" if "e < 4" "e' < 4" "i < 4" "sits ?q e i" "sits ?q e' i" for e e' i
      using D(7) [OF that(1-3)] that s by auto
    show "instance_idx (devices ?q ! e) = -1 \<or> (\<exists>i<4. instance_idx (devices ?q ! e) = int i \<and> taken ?q i)"
      if "e < 4" "connected (devices ?q ! e)" for e using D(5) [of e] that by (simp add: q t split: if_splits)
    show "instance_idx (devices ?q ! e) = -1" if "e < 4" "device_ready (devices ?q ! e)" "\<not> connected (devices ?q ! e)" for e
      using D(8) [of e] that assms(4) by (simp add: q split: if_splits)
  qed (use D(2,3,4) f t in auto)
  then show ?thesis using assms(2) by (simp add: q)
qed

lemma lose_seated:
  assumes "seats_ok p" "d < 4" "connected (devices p ! d)" "instance_idx (devices p ! d) \<noteq> -1"
  shows "seats_ok (uni_hid_device_disconnect d p) \<and> \<not> connected (devices (uni_hid_device_disconnect d p) ! d)"
proof -
  note D = seats_okD [OF assms(1)]
  let ?q = "uni_hid_device_disconnect d p"
  obtain i where i: "i < 4" "instance_idx (devices p ! d) = int i" "taken p i" using D(5) [OF assms(2,3)] assms(4) by auto
  have q: "devices ?q ! e = (if e = d then (devices p ! d)\<lparr>connected := False, instance_idx := -1\<rparr> else devices p ! e)"
    if "e < 4" for e
    using that i assms(2,3) D(1)
    by (simp add: uni_hid_device_disconnect_def arduino_on_device_disconnected_def set_device_def nth_list_update
        gamepad_invalid_def max_devices_def)
  have f: "seats ?q = (seats p)[i := empty_seat]" "used_controllers ?q = used_controllers p - 1" "length (devices ?q) = 4"
    using D(1) i assms(2,3) by (simp_all add: uni_hid_device_disconnect_def arduino_on_device_disconnected_def
        set_device_def gamepad_invalid_def max_devices_def)
  have t: "taken ?q j \<longleftrightarrow> taken p j \<and> j \<noteq> i" if "j < 4" for j
    using that D(2) i(1) by (auto simp: taken_def f nth_list_update empty_seat_def)
  have s: "sits ?q e j \<longleftrightarrow> sits p e j \<and> e \<noteq> d" if "e < 4" for e j using that by (auto simp: sits_def q)
  have own: "sits p d j \<Longrightarrow> j = i" for j using i(2) by (simp add: sits_def)
  have owner: "sits p d i" using assms(3) i by (simp add: sits_def)
  have "{j. j < 4 \<and> taken p j} = insert i {j. j < 4 \<and> taken ?q j}" using t i by auto
  then have "card {j. j < 4 \<and> taken p j} = card {j. j < 4 \<and> taken ?q j} + 1" using t i(1) by simp
  then have u: "used_controllers ?q = int (card {j. j < 4 \<and> taken ?q j})" using D(4) f(2) by simp
  have idx: "seat_idx (seats ?q ! j) = -1 \<or> seat_idx (seats ?q ! j) = int j" if "j < 4" for j
    using that D(2,3) by (auto simp: f nth_list_update_eq_if empty_seat_def gamepad_invalid_def)
  have inst: "instance_idx (devices ?q ! e) = -1 \<or> (\<exists>j<4. instance_idx (devices ?q ! e) = int j \<and> taken ?q j)"
    if "e < 4" "connected (devices ?q ! e)" for e
  proof -
    note e4 = that(1)
    have e: "e \<noteq> d" "devices ?q ! e = devices p ! e" using that by (auto simp: q split: if_splits)
    have "connected (devices p ! e)" using that(2) e(2) by simp
    then consider "instance_idx (devices p ! e) = -1" | j where "j < 4" "instance_idx (devices p ! e) = int j" "taken p j"
      using D(5) [OF e4] by blast
    then show ?thesis
    proof cases
      case (2 j)
      have "sits p e j" using 2 that e by (simp add: sits_def)
      then have "j \<noteq> i" using D(7) [OF e4 assms(2) i(1)] owner e(1) by auto
      with 2 e t show ?thesis by auto
    qed (use e in simp)
  qed
  have occ: "\<exists>e<4. sits ?q e j" if "j < 4" "taken ?q j" for j
    using D(6) [of j] that t [of j] s own by blast
  have "seats_ok ?q"
  proof (rule seats_okI)
    show "e = e'" if "e < 4" "e' < 4" "j < 4" "sits ?q e j" "sits ?q e' j" for e e' j
      using D(7) [OF that(1-3)] that s by auto
    show "instance_idx (devices ?q ! e) = -1" if "e < 4" "device_ready (devices ?q ! e)" "\<not> connected (devices ?q ! e)" for e
      using D(8) [of e] that by (simp add: q split: if_splits)
  qed (use u idx inst occ f D(2) in auto)
  then show ?thesis using assms(2) by (simp add: q)
qed

lemma lose_ok:
  assumes "seats_ok p" "d < 4"
  shows "seats_ok (uni_hid_device_disconnect d p) \<and> \<not> connected (devices (uni_hid_device_disconnect d p) ! d)"
proof (cases "connected (devices p ! d)")
  case False
  note D = seats_okD [OF assms(1)]
  have "seats_ok (uni_hid_device_disconnect d p)"
    by (intro seats_ok_cong [OF assms(1)])
       (use False D(1,2,8) assms(2) in \<open>auto simp: uni_hid_device_disconnect_def set_device_def nth_list_update split: if_splits\<close>)
  with False show ?thesis using D(1) assms(2) by (simp add: uni_hid_device_disconnect_def set_device_def)
next
  case True
  then show ?thesis using lose_unseated [OF assms] lose_seated [OF assms] by blast
qed

text \<open>A device that becomes ready while a seat is free takes it.\<close>

lemma ready_accepted:
  assumes "seats_ok p" "d < 4" "connected (devices p ! d)" "\<not> device_ready (devices p ! d)"
    "instance_idx (devices p ! d) = -1" "used_controllers p \<noteq> 4"
  shows "seats_ok (snd (uni_hid_device_set_ready_complete d p)) \<and>
    (\<exists>i<4. \<not> taken p i \<and> sits (snd (uni_hid_device_set_ready_complete d p)) d i)"
proof -
  note D = seats_okD [OF assms(1)]
  have "\<exists>i<4. \<not> taken p i"
  proof (rule ccontr)
    assume "\<not> (\<exists>i<4. \<not> taken p i)"
    then have "{i. i < 4 \<and> taken p i} = {0..<4}" by auto
    then show False using D(4) assms(6) by simp
  qed
  then obtain i where fi: "List.find (\<lambda>i. seat_idx (seats p ! i) = gamepad_invalid) [0..<4] = Some i"
    by (cases "List.find (\<lambda>i. seat_idx (seats p ! i) = gamepad_invalid) [0..<4]")
       (auto simp: find_None_iff taken_def)
  then have i: "i < 4" "\<not> taken p i" by (auto simp: find_Some_iff taken_def)
  define io where "io = info (devices p ! d)"
  let ?q = "snd (uni_hid_device_set_ready_complete d p)"
  have q: "devices ?q ! e = (if e = d then (devices p ! d)\<lparr>instance_idx := int i, device_ready := True\<rparr> else devices p ! e)"
    if "e < 4" for e
    using that assms(2,4-6) fi D(1)
    by (simp add: uni_hid_device_set_ready_complete_def arduino_on_device_ready_def Let_def gamepad_invalid_def
        max_devices_def set_device_def nth_list_update)
  have f: "seats ?q = (seats p)[i := seat_for i io (seats p ! i)]" "used_controllers ?q = used_controllers p + 1"
    "length (devices ?q) = 4"
    using assms(2,4-6) fi D(1)
    by (simp_all add: uni_hid_device_set_ready_complete_def arduino_on_device_ready_def Let_def gamepad_invalid_def
        max_devices_def set_device_def io_def)
  have t: "taken ?q j \<longleftrightarrow> taken p j \<or> j = i" if "j < 4" for j
    using that D(2) by (auto simp: taken_def f nth_list_update_eq_if seat_for_def gamepad_invalid_def)
  have s: "sits ?q e j \<longleftrightarrow> sits p e j \<or> e = d \<and> j = i" if "e < 4" for e j
    using that assms(3,5) by (auto simp: sits_def q)
  have free: "\<not> sits p e i" if "e < 4" for e using D(5) [OF that] i by (auto simp: sits_def)
  have none: "\<not> sits p d j" for j using assms(5) by (simp add: sits_def)
  have "{j. j < 4 \<and> taken ?q j} = insert i {j. j < 4 \<and> taken p j}" using t i by auto
  then have u: "used_controllers ?q = int (card {j. j < 4 \<and> taken ?q j})" using D(4) f(2) i(2) by simp
  have idx: "seat_idx (seats ?q ! j) = -1 \<or> seat_idx (seats ?q ! j) = int j" if "j < 4" for j
    using that D(2,3) by (auto simp: f nth_list_update_eq_if seat_for_def)
  have inst': "instance_idx (devices ?q ! e) = -1 \<or> (\<exists>j<4. instance_idx (devices ?q ! e) = int j \<and> taken ?q j)"
    if "e < 4" "connected (devices ?q ! e)" for e
    using that D(5) [of e] i t by (auto simp: q)
  have occ: "\<exists>e<4. sits ?q e j" if "j < 4" "taken ?q j" for j
    using D(6) [of j] that t [of j] s assms(2) by blast
  have one: "e = e'" if "e < 4" "e' < 4" "j < 4" "sits ?q e j" "sits ?q e' j" for e e' j
    using D(7) [OF that(1-3)] that s free none by blast
  have "seats_ok ?q"
  proof (rule seats_okI)
    show "instance_idx (devices ?q ! e) = -1" if "e < 4" "device_ready (devices ?q ! e)" "\<not> connected (devices ?q ! e)" for e
      using D(8) [of e] that assms(3) by (simp add: q split: if_splits)
    show "e = e'" if "e < 4" "e' < 4" "j < 4" "sits ?q e j" "sits ?q e' j" for e e' j by (rule one [OF that])
  qed (use u idx inst' occ f D(2) in auto)
  then show ?thesis using i s assms(2) by blast
qed

lemma ready_ok:
  assumes "seats_ok p" "d < 4" "connected (devices p ! d)"
  shows "seats_ok (snd (uni_hid_device_set_ready_complete d p))"
    "\<not> device_ready (devices p ! d) \<Longrightarrow> instance_idx (devices p ! d) = -1 \<Longrightarrow> used_controllers p < 4 \<Longrightarrow>
     \<exists>i<4. \<not> taken p i \<and> sits (snd (uni_hid_device_set_ready_complete d p)) d i"
proof -
  have key: "seats_ok (snd (uni_hid_device_set_ready_complete d p)) \<and>
    (\<not> device_ready (devices p ! d) \<longrightarrow> instance_idx (devices p ! d) = -1 \<longrightarrow> used_controllers p < 4 \<longrightarrow>
     (\<exists>i<4. \<not> taken p i \<and> sits (snd (uni_hid_device_set_ready_complete d p)) d i))"
  proof (cases "device_ready (devices p ! d)")
    case True
    then show ?thesis using assms(1) by (simp add: uni_hid_device_set_ready_complete_def)
  next
    case nr: False
    show ?thesis
    proof (cases "used_controllers p = 4 \<or> instance_idx (devices p ! d) \<noteq> -1")
      case True
      then have "arduino_on_device_ready d p = (False, p)"
        by (auto simp: arduino_on_device_ready_def Let_def max_devices_def gamepad_invalid_def)
      then have e: "snd (uni_hid_device_set_ready_complete d p) = uni_hid_device_delete d (uni_hid_device_disconnect d p)"
        using nr by (simp add: uni_hid_device_set_ready_complete_def)
      show ?thesis
        unfolding e uni_hid_device_delete_def using lose_ok [OF assms(1,2)] blank_ok assms(2) True by auto
    next
      case False
      then show ?thesis using ready_accepted [OF assms nr] by blast
    qed
  qed
  show "seats_ok (snd (uni_hid_device_set_ready_complete d p))"
    "\<not> device_ready (devices p ! d) \<Longrightarrow> instance_idx (devices p ! d) = -1 \<Longrightarrow> used_controllers p < 4 \<Longrightarrow>
     \<exists>i<4. \<not> taken p i \<and> sits (snd (uni_hid_device_set_ready_complete d p)) d i"
    using key by blast+
qed

lemma report_ok:
  assumes "seats_ok p" "uni_hid_device_process_controller ms d ctl p = Some p'"
  shows "seats_ok p'"
proof -
  let ?q = "process_pending_requests p"
  have same: "devices ?q = devices p" "seats ?q = seats p" "used_controllers ?q = used_controllers p"
    by (simp_all add: process_pending_requests_def process_requests_same)
  have q: "seats_ok ?q" by (rule seats_ok_same [OF assms(1) same])
  have "seats_ok (arduino_on_controller_data d c p)" for c
    unfolding arduino_on_controller_data_def Let_def using q by (auto intro!: seats_ok_seat_data)
  then show ?thesis
    using assms by (auto simp: uni_hid_device_process_controller_def bind_eq_Some_conv split: if_splits)
qed

lemma learn_ok:
  assumes "seats_ok p"
  shows "seats_ok (set_device d ((devices p ! d)\<lparr>info := io\<rparr>) p)"
  by (rule seats_ok_cong [OF assms])
     (use seats_okD(1,2,8) [OF assms] in \<open>auto simp: set_device_def nth_list_update_eq_if split: if_splits\<close>)

lemma bt_step_ok: "bt_step ms p e p' \<Longrightarrow> seats_ok p \<Longrightarrow> seats_ok p'"
proof (induction rule: bt_step.induct)
  case (bt_report d ctl p p')
  then show ?case using report_ok by blast
next
  case (bt_request p idx cmd)
  then show ?case by (auto simp: arduino_request_def intro: seats_ok_same)
next
  case (bt_lose d p)
  then show ?case using lose_ok [of p d] by (simp add: max_devices_def)
qed (simp_all add: max_devices_def blank_ok learn_ok connect_ok ready_ok uni_hid_device_create_def uni_hid_device_delete_def)

section \<open>Update\<close>

definition occupied :: "platform \<Rightarrow> bool list" where
  "occupied p = map (taken p) [0..<4]"

lemma get_data_same:
  assumes "arduino_get_controller_data idx p = (status, data, p')"
  shows "devices p' = devices p" "used_controllers p' = used_controllers p" "length (seats p') = length (seats p)"
    "seat_idx (seats p' ! i) = seat_idx (seats p ! i)" "seats_ok p \<Longrightarrow> seats_ok p'"
    "status = SEAT_INVALID_DEVICE \<longleftrightarrow> idx < 0 \<or> idx \<ge> int max_devices \<or> \<not> taken p (nat idx)"
  using assms
  by (auto simp: arduino_get_controller_data_def taken_def nth_list_update_eq_if split: if_splits intro!: seats_ok_seat_data)

lemma update_seats_all:
  "update_seats is (p, cs) = (statuses, p', cs') \<Longrightarrow> set is \<subseteq> {0..<4} \<Longrightarrow>
   map (\<lambda>s. s \<noteq> SEAT_INVALID_DEVICE) statuses = map (taken p) is \<and>
   taken p' = taken p \<and> (seats_ok p \<longrightarrow> seats_ok p') \<and> length cs' = length cs \<and>
   (\<forall>i. c_connected (cs' ! i) = c_connected (cs ! i)) \<and> (\<forall>i. i \<notin> set is \<longrightarrow> cs' ! i = cs ! i)"
proof (induction "is" arbitrary: p cs statuses p' cs')
  case (Cons k "is")
  obtain st data p1 where g: "arduino_get_controller_data (int k) p = (st, data, p1)" by (metis prod.exhaust)
  define cs1 where "cs1 = (if st = SEAT_INVALID_DEVICE then cs
    else cs[k := (cs ! k)\<lparr>c_data := (case data of None \<Rightarrow> c_data (cs ! k) | Some d \<Rightarrow> d), c_hasData := (st = SEAT_SUCCESS),
                         c_idx := int k\<rparr>])"
  have u: "update_seat k (p, cs) = (st, p1, cs1)" "length cs1 = length cs"
    "c_connected (cs1 ! i) = c_connected (cs ! i)" "i \<noteq> k \<Longrightarrow> cs1 ! i = cs ! i" for i
    by (auto simp: update_seat_def g nth_list_update_eq_if Let_def cs1_def)
  obtain rest p2 cs2 where r: "update_seats is (p1, cs1) = (rest, p2, cs2)" by (metis prod.exhaust)
  have e: "statuses = st # rest" "p' = p2" "cs' = cs2" using Cons.prems(1) by (simp_all add: u(1) r)
  note G = get_data_same [OF g]
  have t: "taken p1 = taken p" by (intro ext) (simp add: taken_def G(4))
  have k: "st \<noteq> SEAT_INVALID_DEVICE \<longleftrightarrow> taken p k" using G(6) Cons.prems(2) by (simp add: max_devices_def)
  have sub: "set is \<subseteq> {0..<4}" using Cons.prems(2) by simp
  show ?case using Cons.IH [OF r sub] G(5) u(2,3,4) k by (simp add: e t)
qed simp

lemma update_seats_facts:
  assumes "update_seats is (p, cs) = (statuses, p', cs')" "set is \<subseteq> {0..<4}"
  shows "map (\<lambda>s. s \<noteq> SEAT_INVALID_DEVICE) statuses = map (taken p) is"
    "taken p' = taken p" "seats_ok p \<Longrightarrow> seats_ok p'" "length cs' = length cs"
    "c_connected (cs' ! i) = c_connected (cs ! i)"
  using update_seats_all [OF assms] by blast+

lemma notify_all:
  "notify is now prev p cs = (cbs, cs') \<Longrightarrow> distinct is \<Longrightarrow>
   cbs = concat (map (\<lambda>i. if now ! i = prev ! i then [] else if now ! i then [On_connect i] else [On_disconnect i]) is) \<and>
   length cs' = length cs \<and>
   (\<forall>i<length cs. c_connected (cs' ! i) = (if i \<in> set is \<and> now ! i \<noteq> prev ! i then now ! i else c_connected (cs ! i))) \<and>
   (\<forall>i. c_data (cs' ! i) = c_data (cs ! i)) \<and> (\<forall>i. c_idx (cs' ! i) = c_idx (cs ! i))"
proof (induction "is" arbitrary: cs cbs cs')
  case (Cons k "is")
  have d: "distinct is" "k \<notin> set is" using Cons.prems by auto
  define cs1 where "cs1 = (if now ! k = prev ! k then cs else if now ! k
      then cs[k := (cs ! k)\<lparr>c_connected := True, c_properties := (case arduino_get_controller_properties (c_idx (cs ! k)) p of
                                          None \<Rightarrow> c_properties (cs ! k) | Some pr \<Rightarrow> pr)\<rparr>]
      else cs[k := (cs ! k)\<lparr>c_connected := False\<rparr>])"
  obtain cbs1 cs2 where r: "notify is now prev p cs1 = (cbs1, cs2)" by fastforce
  have e: "cs' = cs2" "cbs = (if now ! k = prev ! k then [] else if now ! k then [On_connect k] else [On_disconnect k]) @ cbs1"
    using Cons.prems(1) r by (auto simp: cs1_def Let_def split: if_splits prod.splits)
  have f: "length cs1 = length cs" "c_data (cs1 ! i) = c_data (cs ! i)" "c_idx (cs1 ! i) = c_idx (cs ! i)"
    "i < length cs \<Longrightarrow> c_connected (cs1 ! i) = (if i = k \<and> now ! k \<noteq> prev ! k then now ! k else c_connected (cs ! i))" for i
    by (auto simp: cs1_def nth_list_update_eq_if)
  show ?case using Cons.IH [OF r d(1)] f d(2) by (simp add: e)
qed simp

lemma notify_facts:
  assumes "notify is now prev p cs = (cbs, cs')" "distinct is"
  shows "cbs = concat (map (\<lambda>i. if now ! i = prev ! i then [] else if now ! i then [On_connect i] else [On_disconnect i]) is)"
    "length cs' = length cs"
    "i < length cs \<Longrightarrow> c_connected (cs' ! i) = (if i \<in> set is \<and> now ! i \<noteq> prev ! i then now ! i else c_connected (cs ! i))"
    "c_data (cs' ! i) = c_data (cs ! i)"
    "c_idx (cs' ! i) = c_idx (cs ! i)"
  using notify_all [OF assms] by blast+

text \<open>Without a new report the last one stays, whoever sat there when it came in.\<close>

lemma update_seats_keeps_data:
  "update_seats is (p, cs) = (statuses, p', cs') \<Longrightarrow> set is \<subseteq> {0..<4} \<Longrightarrow> \<not> data_updated (seats p ! i) \<Longrightarrow>
   c_data (cs' ! i) = c_data (cs ! i)"
proof (induction "is" arbitrary: p cs statuses p' cs')
  case (Cons k "is")
  obtain st data p1 where g: "arduino_get_controller_data (int k) p = (st, data, p1)" by (metis prod.exhaust)
  obtain cs1 where u: "update_seat k (p, cs) = (st, p1, cs1)" "c_data (cs1 ! i) = c_data (cs ! i)"
    using g Cons.prems(3)
    by (fastforce simp: update_seat_def arduino_get_controller_data_def nth_list_update_eq_if Let_def split: if_splits)
  have d: "\<not> data_updated (seats p1 ! i)"
    using g Cons.prems(3) by (auto simp: arduino_get_controller_data_def nth_list_update_eq_if split: if_splits)
  obtain rest p2 cs2 where r: "update_seats is (p1, cs1) = (rest, p2, cs2)" by (metis prod.exhaust)
  have e: "cs' = cs2" using Cons.prems(1) by (simp add: u(1) r)
  show ?case using Cons.IH [OF r _ d] Cons.prems(2) u(2) by (simp add: e)
qed simp

text \<open>What the application knows agrees with the mask of the last update.\<close>

definition bluepad_ok :: "bluepad \<Rightarrow> bool" where
  "bluepad_ok b \<longleftrightarrow> length (ctrls b) = 4 \<and> length (prevConnected b) = 4 \<and>
     (\<forall>i<4. c_connected (ctrls b ! i) = prevConnected b ! i)"

definition changes :: "bool list \<Rightarrow> bool list \<Rightarrow> callback list" where
  "changes prev now =
     concat (map (\<lambda>i. if now ! i = prev ! i then [] else if now ! i then [On_connect i] else [On_disconnect i]) [0..<4])"

lemma update_facts:
  assumes "bp32_update (p, b) = (fresh, cbs, p', b')" "bluepad_ok b"
  shows "cbs = changes (prevConnected b) (occupied p)" "prevConnected b' = occupied p" "bluepad_ok b'"
    "seats_ok p \<Longrightarrow> seats_ok p'" "taken p' = taken p"
    "\<not> data_updated (seats p ! i) \<Longrightarrow> c_data (ctrls b' ! i) = c_data (ctrls b ! i)"
proof -
  obtain statuses p1 cs where u: "update_seats [0..<4] (p, ctrls b) = (statuses, p1, cs)" by (metis prod.exhaust)
  note U = update_seats_facts [OF u, simplified]
  have now: "map (\<lambda>s. s \<noteq> SEAT_INVALID_DEVICE) statuses = occupied p" using U(1) by (simp add: occupied_def)
  obtain cbs1 cs1 where n: "notify [0..<4] (occupied p) (prevConnected b) p1 cs = (cbs1, cs1)" by fastforce
  note N = notify_facts [OF n, simplified]
  have e: "cbs = cbs1" "p' = p1" "b' = \<lparr>prevConnected = occupied p, ctrls = cs1\<rparr>"
    using assms(1) by (simp_all add: bp32_update_def max_devices_def u now n Let_def)
  show "cbs = changes (prevConnected b) (occupied p)" using N(1) by (simp add: e changes_def)
  show "prevConnected b' = occupied p" by (simp add: e)
  show "taken p' = taken p" using U(2) by (simp add: e)
  show "seats_ok p \<Longrightarrow> seats_ok p'" using U(3) by (simp add: e)
  show "c_data (ctrls b' ! i) = c_data (ctrls b ! i)" if "\<not> data_updated (seats p ! i)"
    using N(4) [of i] update_seats_keeps_data [OF u _ that] by (simp add: e)
  have "length cs1 = 4" "length (occupied p) = 4" using N(2) U(4) assms(2) by (simp_all add: bluepad_ok_def occupied_def)
  moreover have "c_connected (cs1 ! i) = occupied p ! i" if "i < 4" for i
    using N(3) [of i] that U(4) U(5) [of i] assms(2) by (auto simp: bluepad_ok_def)
  ultimately show "bluepad_ok b'" by (simp add: bluepad_ok_def e)
qed

lemma bt_run_ok: "bt_run ms p \<Longrightarrow> seats_ok p"
proof (induction rule: bt_run.induct)
  case run_init
  show ?case by (rule init_seats)
next
  case (run_step p e p')
  then show ?case using bt_step_ok by blast
next
  case (run_read p b)
  have "seats_ok p'" if "update_seats is (p, cs) = (st, p', cs')" "set is \<subseteq> {0..<4}" for "is" cs st p' cs'
    using update_seats_facts(3) [OF that] run_read by blast
  then show ?case
    by (auto simp: bp32_update_def max_devices_def Let_def split: prod.splits)
qed

text \<open>C29: The seats stay consistent in every interleaving of device creation, connection, readiness,
  reports, requests, loss and deletion with the application's polls: the counter is the number
  of taken seats, every taken seat belongs to exactly one connected device and knows its own
  number, and a connected device that becomes ready gets a seat whenever fewer than four are taken.\<close>

theorem seats_consistent:
  assumes "bt_run ms p"
  shows "used_controllers p = int (card {i. i < 4 \<and> taken p i}) \<and>
    (\<forall>i<4. taken p i \<longrightarrow> seat_idx (seats p ! i) = int i \<and> (\<exists>!d. d < 4 \<and> sits p d i)) \<and>
    (\<forall>d<4. connected (devices p ! d) \<and> \<not> device_ready (devices p ! d) \<and> instance_idx (devices p ! d) = -1 \<and>
       used_controllers p < 4 \<longrightarrow>
       (\<exists>i<4. \<not> taken p i \<and> sits (snd (uni_hid_device_set_ready_complete d p)) d i))"
proof -
  have ok: "seats_ok p" by (rule bt_run_ok [OF assms])
  note D = seats_okD [OF ok]
  have "seat_idx (seats p ! i) = int i \<and> (\<exists>!d. d < 4 \<and> sits p d i)" if "i < 4" "taken p i" for i
    using D(3) [OF that(1)] D(6) [OF that] D(7) [OF _ _ that(1)] that(2) by (auto simp: taken_def gamepad_invalid_def)
  moreover have "\<exists>i<4. \<not> taken p i \<and> sits (snd (uni_hid_device_set_ready_complete d p)) d i"
    if "d < 4" "connected (devices p ! d)" "\<not> device_ready (devices p ! d)" "instance_idx (devices p ! d) = -1"
      "used_controllers p < 4" for d
    using ready_ok(2) [OF ok that(1,2,3,4,5)] .
  ultimately show ?thesis using D(4) by blast
qed

definition xbox :: device_info where
  "xbox = \<lparr>i_properties = no_properties\<lparr>p_type := 32\<rparr>, has_player_leds = False, has_rumble = True, has_lightbar = False\<rparr>"

definition xbox_maps :: mappings_state where
  "xbox_maps = \<lparr>mapping = gamepad_default_mappings, mappings_kind = MAPPINGS_XBOX\<rparr>"

theorem seats_consistent_witness:
  "used_controllers (uni_hid_device_connect 2 (set_device 2 ((devices arduino_init ! 2)\<lparr>info := xbox\<rparr>) arduino_init)) = 0"
proof -
  let ?p = "uni_hid_device_connect 2 (set_device 2 ((devices arduino_init ! 2)\<lparr>info := xbox\<rparr>) arduino_init)"
  have "bt_step xbox_maps arduino_init (Connect 2 xbox) ?p"
    by (rule bt_connect) (simp_all add: arduino_init_def max_devices_def blank_device_def)
  then have r: "bt_run xbox_maps ?p" by (rule run_step [OF run_init])
  have n: "taken ?p i \<longleftrightarrow> False" if "i < 4" for i
    using that by (simp add: taken_def uni_hid_device_connect_def arduino_on_device_connected_def set_device_def
        arduino_init_def max_devices_def empty_seat_def)
  have "used_controllers ?p = int (card {i. i < 4 \<and> taken ?p i})" using seats_consistent [OF r] by blast
  also have "{i. i < 4 \<and> taken ?p i} = {}" using n by auto
  finally show ?thesis by simp
qed

text \<open>The application is told exactly what changed: the callbacks of an update are, in the order of the
  seats, one for every seat whose occupation differs from that at the last update, and afterwards
  a \<open>Controller\<close> object counts as connected exactly if its seat is taken.\<close>

theorem update_reports_changes:
  assumes "bluepad_ok b" "bp32_update (p, b) = (fresh, cbs, p', b')"
  shows "cbs = changes (prevConnected b) (occupied p) \<and> bluepad_ok b' \<and>
    (\<forall>i<4. c_connected (ctrls b' ! i) = taken p i)"
proof -
  note F = update_facts [OF assms(2,1)]
  have "c_connected (ctrls b' ! i) = taken p i" if "i < 4" for i
    using F(2,3) that by (simp add: bluepad_ok_def occupied_def)
  then show ?thesis using F(1,3) by blast
qed

theorem update_reports_changes_witness:
  "fst (snd (bp32_update (snd (uni_hid_device_set_ready_complete 1
     (uni_hid_device_connect 1 (set_device 1 ((devices arduino_init ! 1)\<lparr>info := xbox\<rparr>) arduino_init))), bluepad_boot)))
   = [On_connect 0]"
proof -
  let ?p = "snd (uni_hid_device_set_ready_complete 1
     (uni_hid_device_connect 1 (set_device 1 ((devices arduino_init ! 1)\<lparr>info := xbox\<rparr>) arduino_init)))"
  obtain fresh cbs p' b' where u: "bp32_update (?p, bluepad_boot) = (fresh, cbs, p', b')" by (metis prod.exhaust)
  have b: "bluepad_ok bluepad_boot" by (simp add: bluepad_ok_def bluepad_boot_def max_devices_def)
  have "occupied ?p = [True, False, False, False]" by code_simp
  then have "changes (prevConnected bluepad_boot) (occupied ?p) = [On_connect 0]"
    by (simp add: changes_def bluepad_boot_def max_devices_def upt_rec)
  with update_reports_changes [OF b u] show ?thesis by (simp only: u fst_conv snd_conv)
qed

text \<open>A device replaced by another between two updates goes unnoticed: the seat is taken at both, no callback
  is made, and the application keeps the last report of the device that left until the new one
  reports.\<close>

theorem hot_swap_unnoticed:
  assumes "bluepad_ok b" "occupied p = prevConnected b" "bp32_update (p, b) = (fresh, cbs, p', b')"
  shows "cbs = [] \<and> (\<forall>i. \<not> data_updated (seats p ! i) \<longrightarrow> c_data (ctrls b' ! i) = c_data (ctrls b ! i))"
  using update_facts(1,6) [OF assms(3,1)] assms(2) by (simp add: changes_def)

definition swapped :: "platform \<times> platform" where
  "swapped =
     (let p1 = snd (uni_hid_device_set_ready_complete 0
                 (uni_hid_device_connect 0 (set_device 0 ((devices arduino_init ! 0)\<lparr>info := xbox\<rparr>) arduino_init)));
          p2 = uni_hid_device_delete 0 (uni_hid_device_disconnect 0 p1);
          p3 = snd (uni_hid_device_set_ready_complete 2
                 (uni_hid_device_connect 2 (set_device 2 ((devices p2 ! 2)\<lparr>info := xbox\<rparr>) p2)))
      in (p1, p3))"

theorem hot_swap_unnoticed_witness:
  "fst (snd (bp32_update (snd swapped, snd (snd (snd (bp32_update (fst swapped, bluepad_boot))))))) = []"
proof -
  let ?b = "snd (snd (snd (bp32_update (fst swapped, bluepad_boot))))"
  obtain f0 c0 q0 b0 where u0: "bp32_update (fst swapped, bluepad_boot) = (f0, c0, q0, b0)" by (metis prod.exhaust)
  have "bluepad_ok bluepad_boot" by (simp add: bluepad_ok_def bluepad_boot_def max_devices_def)
  note F = update_facts(2,3) [OF u0 this]
  have o: "occupied (fst swapped) = occupied (snd swapped)" by code_simp
  obtain fresh cbs p' b' where u: "bp32_update (snd swapped, ?b) = (fresh, cbs, p', b')" by (metis prod.exhaust)
  have "bluepad_ok ?b" "occupied (snd swapped) = prevConnected ?b" using F o by (simp_all add: u0)
  from hot_swap_unnoticed [OF this u] u show ?thesis by simp
qed

end
