(* ===== verification/Ble_Link_Laws.thy ===== *)
theory Ble_Link_Laws
  imports Ble_Link Seats_Laws
begin

text \<open>
  The device table under every order of Bluetooth events, timers and commands: its entries stay in step with
  the platform's devices, no address is held twice, and a device that does not become ready within twenty
  seconds is given up. What the link layer needs of the platform is the locale \<open>seat_service\<close>.
\<close>

named_theorems link_simps \<open>projections of the link state through its operations\<close>

section \<open>The invariant\<close>

text \<open>An entry of the table and the platform's device of the same number, at a time.\<close>

definition entry_ok :: "nat \<Rightarrow> ble_slot \<Rightarrow> hid_device \<Rightarrow> bool" where
  "entry_ok now s dv \<longleftrightarrow>
     (btaddr s = zero_addr \<longrightarrow> s = init_slot) \<and>
     (btaddr s \<noteq> zero_addr \<longrightarrow> conn_state s \<in> {STATE_DISCOVERED, STATE_PENDING_READY, STATE_READY}) \<and>
     (connected dv \<longleftrightarrow> conn_state s \<in> {STATE_PENDING_READY, STATE_READY}) \<and>
     (device_ready dv \<longleftrightarrow> conn_state s = STATE_READY) \<and>
     (conn_state s = STATE_PENDING_READY \<longrightarrow> instance_idx dv = gamepad_invalid) \<and>
     (case connection_timer s of
        None \<Rightarrow> conn_state s \<in> {STATE_NONE, STATE_READY}
      | Some t \<Rightarrow> conn_state s \<in> {STATE_DISCOVERED, STATE_PENDING_READY} \<and> t \<le> now + hid_device_connection_timeout_ms)"

definition unique_addrs :: "ble_slot list \<Rightarrow> bool" where
  "unique_addrs ss \<longleftrightarrow> (\<forall>d<4. \<forall>e<4. d \<noteq> e \<and> btaddr (ss ! d) = btaddr (ss ! e) \<longrightarrow> btaddr (ss ! d) = zero_addr)"

text \<open>The invariant, and the part of it that does not speak of entry \<open>d\<close>.\<close>

definition link_except :: "nat \<Rightarrow> link \<Rightarrow> bool" where
  "link_except d l \<longleftrightarrow> length (table l) = 4 \<and> length (devices (link_platform l)) = 4 \<and> unique_addrs (table l) \<and>
     (\<forall>e<4. e \<noteq> d \<longrightarrow> entry_ok (now_ms l) (table l ! e) (devices (link_platform l) ! e))"

definition link_ok :: "link \<Rightarrow> bool" where
  "link_ok l \<longleftrightarrow> length (table l) = 4 \<and> length (devices (link_platform l)) = 4 \<and> unique_addrs (table l) \<and>
     (\<forall>d<4. entry_ok (now_ms l) (table l ! d) (devices (link_platform l) ! d))"

lemma link_ok_except: "link_ok l \<Longrightarrow> link_except d l"
  by (simp add: link_ok_def link_except_def)

lemma link_okI:
  "link_except d l \<Longrightarrow> entry_ok (now_ms l) (table l ! d) (devices (link_platform l) ! d) \<Longrightarrow> link_ok l"
  unfolding link_ok_def link_except_def by metis

lemma link_ok_entry: "link_ok l \<Longrightarrow> d < 4 \<Longrightarrow> entry_ok (now_ms l) (table l ! d) (devices (link_platform l) ! d)"
  by (simp add: link_ok_def)

lemma boot_ok: "link_ok (link_boot al)"
  by (auto simp: link_ok_def link_boot_def max_devices_def arduino_init_def unique_addrs_def entry_ok_def init_slot_def
      zero_slot_def blank_device_def)

section \<open>Frames\<close>

lemma set_device_other [link_simps]: "e \<noteq> d \<Longrightarrow> devices (set_device d x p) ! e = devices p ! e"
  by (simp add: set_device_def)

lemma set_device_length [link_simps]: "length (devices (set_device d x p)) = length (devices p)"
  by (simp add: set_device_def)

lemma set_device_self [link_simps]: "d < length (devices p) \<Longrightarrow> devices (set_device d x p) ! d = x"
  by (simp add: set_device_def)

lemma connect_frame [link_simps]:
  "e \<noteq> d \<Longrightarrow> devices (uni_hid_device_connect d p) ! e = devices p ! e"
  "length (devices (uni_hid_device_connect d p)) = length (devices p)"
  by (simp_all add: uni_hid_device_connect_def arduino_on_device_connected_def link_simps)

lemma disconnect_frame [link_simps]:
  "e \<noteq> d \<Longrightarrow> devices (uni_hid_device_disconnect d p) ! e = devices p ! e"
  "length (devices (uni_hid_device_disconnect d p)) = length (devices p)"
  by (simp_all add: uni_hid_device_disconnect_def arduino_on_device_disconnected_def Let_def set_device_def)

lemma disconnected_self [link_simps]: "d < length (devices p) \<Longrightarrow> \<not> connected (devices (uni_hid_device_disconnect d p) ! d)"
  by (simp add: uni_hid_device_disconnect_def arduino_on_device_disconnected_def Let_def set_device_def)

lemma ready_frame:
  assumes "arduino_on_device_ready d p = (ok, p')"
  shows "e \<noteq> d \<Longrightarrow> devices p' ! e = devices p ! e" "length (devices p') = length (devices p)"
    "connected (devices p' ! d) = connected (devices p ! d)"
  using assms
  by (auto simp: arduino_on_device_ready_def Let_def set_device_def nth_list_update_eq_if
      split: if_splits option.splits)

lemma table_simps [link_simps]:
  "table (call_gap c l) = table l" "table (on_platform g l) = table l" "table (show_platform d l) = table l"
  "table (upd_slot d f l) = (table l)[d := f (table l ! d)]" "table (wipe d s l) = (table l)[d := s]"
  by (simp_all add: call_gap_def on_platform_def show_platform_def upd_slot_def wipe_def Let_def)

lemma platform_simps [link_simps]:
  "link_platform (call_gap c l) = link_platform l" "link_platform (upd_slot d f l) = link_platform l"
  "link_platform (on_platform g l) = g (link_platform l)" "link_platform (wipe d s l) = link_platform l"
  by (simp_all add: call_gap_def on_platform_def upd_slot_def wipe_def Let_def)

lemma now_simps [link_simps]:
  "now_ms (call_gap c l) = now_ms l" "now_ms (upd_slot d f l) = now_ms l" "now_ms (on_platform g l) = now_ms l"
  "now_ms (wipe d s l) = now_ms l" "now_ms (show_platform d l) = now_ms l"
  by (simp_all add: call_gap_def on_platform_def upd_slot_def wipe_def show_platform_def Let_def)

lemma hint_same [link_simps]:
  "table (resume_scanning_hint l) = table l" "link_platform (resume_scanning_hint l) = link_platform l"
  "now_ms (resume_scanning_hint l) = now_ms l"
  by (simp_all add: resume_scanning_hint_def link_simps)

lemma hog_disconnect_same [link_simps]:
  "table (hog_disconnect S h l) = table l" "link_platform (hog_disconnect S h l) = link_platform l"
  "now_ms (hog_disconnect S h l) = now_ms l"
  by (simp_all add: hog_disconnect_def Let_def link_simps split: option.splits)

lemma link_ok_cong:
  "link_ok l \<Longrightarrow> table k = table l \<Longrightarrow> link_platform k = link_platform l \<Longrightarrow> now_ms k = now_ms l \<Longrightarrow> link_ok k"
  by (simp add: link_ok_def)

lemma except_cong:
  "link_except d l \<Longrightarrow> table k = table l \<Longrightarrow> link_platform k = link_platform l \<Longrightarrow> now_ms k = now_ms l \<Longrightarrow> link_except d k"
  by (simp add: link_except_def)


lemma except_upd:
  assumes "link_except d l" "d < 4" "btaddr (f (table l ! d)) = btaddr (table l ! d)"
  shows "link_except d (upd_slot d f l)"
proof -
  have "btaddr ((table l)[d := f (table l ! d)] ! e) = btaddr (table l ! e)" for e
    using assms(3) by (auto simp: nth_list_update_eq_if)
  then show ?thesis using assms(1) by (simp add: link_except_def link_simps unique_addrs_def)
qed

lemma except_platform:
  assumes "link_except d l" "\<And>e. e \<noteq> d \<Longrightarrow> devices (g (link_platform l)) ! e = devices (link_platform l) ! e"
    "length (devices (g (link_platform l))) = length (devices (link_platform l))"
  shows "link_except d (on_platform g l)"
  using assms by (simp add: link_except_def link_simps)

lemma except_wipe:
  assumes "link_except d l" "d < 4" "btaddr s = zero_addr \<or> (\<forall>e<4. btaddr (table l ! e) \<noteq> btaddr s)"
  shows "link_except d (wipe d s l)"
proof -
  have "unique_addrs ((table l)[d := s])"
    using assms unfolding unique_addrs_def link_except_def by (auto simp: nth_list_update_eq_if)
  then show ?thesis using assms(1) by (simp add: link_except_def link_simps)
qed

lemma except_show: "link_except d l \<Longrightarrow> link_except d (show_platform d l)"
  unfolding show_platform_def by (rule except_platform) (simp_all add: link_simps)

lemma except_lengths: "link_except d l \<Longrightarrow> length (table l) = 4 \<and> length (devices (link_platform l)) = 4"
  by (simp add: link_except_def)

lemma find_device_Some: "find_device P l = Some d \<Longrightarrow> d < 4 \<and> P (table l ! d)"
  by (auto simp: find_device_def find_Some_iff max_devices_def)

lemma find_device_None: "find_device P l = None \<Longrightarrow> d < 4 \<Longrightarrow> \<not> P (table l ! d)"
  by (auto simp: find_device_def find_None_iff max_devices_def)

lemma set_state_simps [link_simps]:
  "table (uni_bt_conn_set_state d st l) = (table l)[d := (table l ! d)\<lparr>conn_state := st\<rparr>]"
  "link_platform (uni_bt_conn_set_state d st l) =
     set_device d ((devices (link_platform l) ! d)\<lparr>device_ready := (st = STATE_READY)\<rparr>) (link_platform l)"
  "now_ms (uni_bt_conn_set_state d st l) = now_ms l"
  by (simp_all add: uni_bt_conn_set_state_def link_simps)

lemma same_ready: "device_ready (devices p ! d) = b \<Longrightarrow> set_device d ((devices p ! d)\<lparr>device_ready := b\<rparr>) p = p"
proof -
  assume "device_ready (devices p ! d) = b"
  then have "(devices p ! d)\<lparr>device_ready := b\<rparr> = devices p ! d" by (cases "devices p ! d") simp
  then show ?thesis by (simp add: set_device_def)
qed

lemma except_state: "link_except d l \<Longrightarrow> d < 4 \<Longrightarrow> link_except d (uni_bt_conn_set_state d st l)"
  unfolding uni_bt_conn_set_state_def by (intro except_platform except_upd) (simp_all add: link_simps)

lemma show_simps [link_simps]:
  "link_platform (show_platform d l) =
     set_device d ((devices (link_platform l) ! d)\<lparr>info := info_of (table l ! d)\<rparr>) (link_platform l)"
  by (simp add: show_platform_def link_simps)

lemma declined_same: "arduino_on_device_ready d p = (False, q) \<Longrightarrow> q = p"
  by (auto simp: arduino_on_device_ready_def Let_def split: if_splits)

text \<open>An entry in use may change in every field that the invariant does not read.\<close>

lemma used_update_ok:
  assumes "link_ok l" "d < 4" "btaddr (table l ! d) \<noteq> zero_addr" "btaddr (f (table l ! d)) = btaddr (table l ! d)"
    "conn_state (f (table l ! d)) = conn_state (table l ! d)"
    "connection_timer (f (table l ! d)) = connection_timer (table l ! d)"
  shows "link_ok (upd_slot d f l)"
proof (rule link_okI)
  show "link_except d (upd_slot d f l)" by (rule except_upd) (use assms link_ok_except in auto)
  have "length (table l) = 4" using assms(1) by (simp add: link_ok_def)
  then show "entry_ok (now_ms (upd_slot d f l)) (table (upd_slot d f l) ! d) (devices (link_platform (upd_slot d f l)) ! d)"
    using link_ok_entry [OF assms(1,2)] assms by (auto simp: link_simps entry_ok_def split: option.splits)
qed

lemma entry_used:
  assumes "link_ok l" "d < 4" "con_handle (table l ! d) \<noteq> conn_handle_invalid \<or> conn_state (table l ! d) \<noteq> STATE_NONE \<or>
    misc_delay_timer (table l ! d) \<noteq> None"
  shows "btaddr (table l ! d) \<noteq> zero_addr"
  using link_ok_entry [OF assms(1,2)] assms(3) by (auto simp: entry_ok_def init_slot_def zero_slot_def)

lemma handle_used:
  assumes "link_ok l" "uni_hid_device_get_instance_for_connection_handle h l = Some d"
  shows "d < 4" "btaddr (table l ! d) \<noteq> zero_addr" "con_handle (table l ! d) = h"
proof -
  have "h \<noteq> conn_handle_invalid" "d < 4 \<and> con_handle (table l ! d) = h"
    using assms(2) by (auto simp: uni_hid_device_get_instance_for_connection_handle_def split: if_splits dest: find_device_Some)
  then show "d < 4" "btaddr (table l ! d) \<noteq> zero_addr" "con_handle (table l ! d) = h"
    using entry_used [OF assms(1)] by auto
qed

lemma report_devices:
  "uni_hid_device_process_controller ms d ctl p = Some q \<Longrightarrow> devices q = devices p"
  by (auto simp: uni_hid_device_process_controller_def arduino_on_controller_data_def process_pending_requests_def
      process_requests_same Let_def bind_eq_Some_conv split: if_splits)

lemma same_devices_ok:
  "link_ok l \<Longrightarrow> devices q = devices (link_platform l) \<Longrightarrow> link_ok (l\<lparr>link_platform := q\<rparr>)"
  by (simp add: link_ok_def)

lemma misc_same:
  "btaddr (process_misc_button_home b (process_misc_button_system n b s)) = btaddr s"
  "conn_state (process_misc_button_home b (process_misc_button_system n b s)) = conn_state s"
  "connection_timer (process_misc_button_home b (process_misc_button_system n b s)) = connection_timer s"
  by (simp_all add: process_misc_button_home_def process_misc_button_system_def Let_def)

lemma hog_disconnect_ok: "link_ok l \<Longrightarrow> link_ok (hog_disconnect S h l)"
  by (erule link_ok_cong) (simp_all add: link_simps)

lemma call_gap_ok: "link_ok l \<Longrightarrow> link_ok (call_gap c l)"
  by (erule link_ok_cong) (simp_all add: link_simps)

lemma hint_ok: "link_ok l \<Longrightarrow> link_ok (resume_scanning_hint l)"
  by (erule link_ok_cong) (simp_all add: link_simps)

text \<open>What the stack and the timers only do: an event that cannot happen is not handled. A completed
  connection carries the address of a device; the code does not look at the status of the event, so this
  excludes a failed attempt reported with a zero address, which would find a free entry of the table.
  The HID service client reports one connection for each query it was asked for, on a device that is not
  connected yet. Timers fire when they are due.\<close>

fun event_ok :: "link \<Rightarrow> link_event \<Rightarrow> bool" where
  "event_ok l (Le_connection_complete a h) \<longleftrightarrow> a \<noteq> zero_addr"
| "event_ok l (Hid_service_connected status cid) \<longleftrightarrow> cid \<noteq> 0xffff \<and>
     (case uni_hid_device_get_instance_for_hids_cid cid l of
        None \<Rightarrow> True | Some d \<Rightarrow> \<not> connected (devices (link_platform l) ! d))"
| "event_ok l (Connection_timeout d) \<longleftrightarrow> d < 4 \<and>
     (case connection_timer (table l ! d) of None \<Rightarrow> False | Some t \<Rightarrow> t \<le> now_ms l)"
| "event_ok l (Misc_button_timeout d) \<longleftrightarrow> d < 4 \<and>
     (case misc_delay_timer (table l ! d) of None \<Rightarrow> False | Some t \<Rightarrow> t \<le> now_ms l)"
| "event_ok l (Setup_finished d) \<longleftrightarrow> d < 4 \<and> conn_state (table l ! d) = STATE_PENDING_READY"
| "event_ok l (Driver_timer d on) \<longleftrightarrow> d < 4 \<and> conn_state (table l ! d) = STATE_READY"
| "event_ok l e \<longleftrightarrow> True"

section \<open>What the link layer needs of the platform\<close>

text \<open>
  A property \<open>ok\<close> of the platform that its operations keep when they are called the way the table calls them: a
  device is created and deleted while it is not connected, learnt about at any time, connected once, made
  ready while connected, and lost at any time.
\<close>

locale seat_service =
  fixes ok :: "platform \<Rightarrow> bool" and ms :: mappings_state
  assumes create: "d < 4 \<Longrightarrow> \<not> connected (devices p ! d) \<Longrightarrow> ok p \<Longrightarrow> ok (uni_hid_device_create d p)"
    and learn: "d < 4 \<Longrightarrow> ok p \<Longrightarrow> ok (set_device d ((devices p ! d)\<lparr>info := io\<rparr>) p)"
    and connect: "d < 4 \<Longrightarrow> \<not> connected (devices p ! d) \<Longrightarrow> \<not> device_ready (devices p ! d) \<Longrightarrow> ok p \<Longrightarrow>
      ok (uni_hid_device_connect d (set_device d ((devices p ! d)\<lparr>info := io\<rparr>) p))"
    and ready: "d < 4 \<Longrightarrow> connected (devices p ! d) \<Longrightarrow> ok p \<Longrightarrow> ok (snd (uni_hid_device_set_ready_complete d p))"
    and lose: "d < 4 \<Longrightarrow> ok p \<Longrightarrow> ok (uni_hid_device_disconnect d p)"
    and delete: "d < 4 \<Longrightarrow> \<not> connected (devices p ! d) \<Longrightarrow> ok p \<Longrightarrow> ok (uni_hid_device_delete d p)"
    and report: "d < 4 \<Longrightarrow> uni_hid_device_process_controller ms d ctl p = Some p' \<Longrightarrow> ok p \<Longrightarrow> ok p'"
begin

lemma drop_ok:
  assumes "link_except d l" "d < 4" "ok (link_platform l)"
  shows "link_ok (link_drop S d l) \<and> ok (link_platform (link_drop S d l))"
proof -
  define k where "k = link_disconnect S d l"
  have k: "table k = (table l)[d := (table l ! d)\<lparr>connection_timer := None\<rparr>]"
    "link_platform k = uni_hid_device_disconnect d (link_platform l)" "now_ms k = now_ms l"
    by (simp_all add: k_def link_disconnect_def Let_def link_simps)
  have len: "length (table l) = 4" "length (devices (link_platform l)) = 4" using except_lengths [OF assms(1)] by auto
  have "link_except d (upd_slot d (\<lambda>s. s\<lparr>connection_timer := None\<rparr>) l)" by (rule except_upd [OF assms(1,2)]) simp
  then have "link_except d (on_platform (uni_hid_device_disconnect d) (upd_slot d (\<lambda>s. s\<lparr>connection_timer := None\<rparr>) l))"
    by (rule except_platform) (simp_all add: link_simps)
  then have e: "link_except d k" by (rule except_cong) (simp_all add: k link_simps)
  have "link_except d (wipe d init_slot k)" by (rule except_wipe [OF e assms(2)]) (simp add: init_slot_def zero_slot_def)
  then have "link_except d (link_drop S d l)"
    unfolding link_drop_def link_delete_def k_def [symmetric]
    by (rule except_platform) (simp_all add: uni_hid_device_delete_def link_simps)
  moreover have "entry_ok (now_ms (link_drop S d l)) (table (link_drop S d l) ! d) (devices (link_platform (link_drop S d l)) ! d)"
    using assms(2) len
    by (simp add: link_drop_def link_delete_def k_def [symmetric] k link_simps uni_hid_device_delete_def
        entry_ok_def init_slot_def zero_slot_def blank_device_def)
  moreover have "ok (link_platform (link_drop S d l))"
    unfolding link_drop_def link_delete_def k_def [symmetric] link_simps
    using delete [OF assms(2) _ lose [OF assms(2,3)]] disconnected_self [of d "link_platform l"] assms(2) len by (simp add: k)
  ultimately show ?thesis using link_okI by blast
qed

lemma create_ok:
  assumes "link_ok l" "ok (link_platform l)" "link_create a l = (Some d, k)" "a \<noteq> zero_addr"
    "\<forall>e<4. btaddr (table l ! e) \<noteq> a"
  shows "d < 4 \<and> link_except d k \<and> ok (link_platform k) \<and> devices (link_platform k) ! d = blank_device \<and> now_ms k = now_ms l \<and>
    table k ! d = zero_slot\<lparr>btaddr := a, connection_timer := Some (now_ms l + hid_device_connection_timeout_ms)\<rparr>"
proof -
  from assms(3) have f: "find_device (\<lambda>s. btaddr s = zero_addr) l = Some d"
    and k: "k = start_connection_timeout d (on_platform (uni_hid_device_create d) (wipe d (zero_slot\<lparr>btaddr := a\<rparr>) l))"
    by (auto simp: link_create_def split: option.splits)
  have d: "d < 4" "btaddr (table l ! d) = zero_addr" using find_device_Some [OF f] by auto
  have len: "length (table l) = 4" "length (devices (link_platform l)) = 4" using assms(1) by (auto simp: link_ok_def)
  have "link_except d (wipe d (zero_slot\<lparr>btaddr := a\<rparr>) l)"
    by (rule except_wipe [OF link_ok_except [OF assms(1)] d(1)]) (use assms(5) in simp)
  then have "link_except d (on_platform (uni_hid_device_create d) (wipe d (zero_slot\<lparr>btaddr := a\<rparr>) l))"
    by (rule except_platform) (simp_all add: uni_hid_device_create_def link_simps)
  then have e: "link_except d k" unfolding k start_connection_timeout_def by (rule except_upd [OF _ d(1)]) simp
  have "entry_ok (now_ms l) (table l ! d) (devices (link_platform l) ! d)" by (rule link_ok_entry [OF assms(1) d(1)])
  then have "\<not> connected (devices (link_platform l) ! d)" using d(2) by (auto simp: entry_ok_def init_slot_def zero_slot_def)
  then have "ok (link_platform k)" using create [OF d(1) _ assms(2)] by (simp add: k start_connection_timeout_def link_simps)
  then show ?thesis using d(1) e len
    by (simp add: k start_connection_timeout_def link_simps uni_hid_device_create_def zero_slot_def)
qed


lemma ready_complete_ok:
  assumes "link_except d l" "d < 4" "ok (link_platform l)" "btaddr (table l ! d) \<noteq> zero_addr"
    "conn_state (table l ! d) \<noteq> STATE_READY" "connected (devices (link_platform l) ! d)"
    "\<not> device_ready (devices (link_platform l) ! d)"
  shows "link_ok (snd (link_set_ready_complete S d l)) \<and> ok (link_platform (snd (link_set_ready_complete S d l)))"
proof -
  define k where "k = show_platform d (upd_slot d (\<lambda>s. s\<lparr>connection_timer := None\<rparr>) l)"
  have len: "length (table l) = 4" "length (devices (link_platform l)) = 4" using except_lengths [OF assms(1)] by auto
  have ek: "link_except d k" unfolding k_def by (intro except_show except_upd assms(1,2)) simp
  have pk: "link_platform k = set_device d ((devices (link_platform l) ! d)\<lparr>info := info_of ((table l ! d)\<lparr>connection_timer := None\<rparr>)\<rparr>) (link_platform l)"
    using assms(2) len by (simp add: k_def link_simps)
  have okk: "ok (link_platform k)" unfolding pk by (rule learn [OF assms(2,3)])
  have dk: "connected (devices (link_platform k) ! d)" "\<not> device_ready (devices (link_platform k) ! d)"
    using assms(2,6,7) len by (simp_all add: pk link_simps)
  obtain b p where r: "arduino_on_device_ready d (link_platform k) = (b, p)" by fastforce
  note F = ready_frame [OF r]
  have ep: "link_except d (k\<lparr>link_platform := p\<rparr>)"
    using except_platform [OF ek, of "\<lambda>_. p"] F by (simp add: on_platform_def)
  have e: "link_set_ready_complete S d l =
    (if \<not> b then (False, link_drop S d (k\<lparr>link_platform := p\<rparr>)) else (True, uni_bt_conn_set_state d STATE_READY (k\<lparr>link_platform := p\<rparr>)))"
    using assms(5) r by (simp add: link_set_ready_complete_def Let_def k_def)
  show ?thesis
  proof (cases b)
    case False
    then have "p = link_platform k" using declined_same r by simp
    then show ?thesis using drop_ok [OF ep assms(2), of S] okk False by (simp add: e)
  next
    case True
    let ?l = "uni_bt_conn_set_state d STATE_READY (k\<lparr>link_platform := p\<rparr>)"
    have "link_platform ?l = snd (uni_hid_device_set_ready_complete d (link_platform k))"
      using dk(2) r True by (simp add: uni_hid_device_set_ready_complete_def link_simps)
    then have "ok (link_platform ?l)" using ready [OF assms(2) dk(1) okk] by simp
    moreover have "link_except d ?l" by (rule except_state [OF ep assms(2)])
    moreover have "entry_ok (now_ms ?l) (table ?l ! d) (devices (link_platform ?l) ! d)"
      using assms(2,4) len dk(1) F by (simp add: link_simps k_def entry_ok_def)
    ultimately show ?thesis using True link_okI by (simp add: e)
  qed
qed

lemma service_connected_ok:
  assumes "link_ok l" "ok (link_platform l)" "cid \<noteq> 0xffff"
    "\<And>d. uni_hid_device_get_instance_for_hids_cid cid l = Some d \<Longrightarrow> \<not> connected (devices (link_platform l) ! d)"
  shows "link_ok (on_hid_service_connected S status cid l) \<and> ok (link_platform (on_hid_service_connected S status cid l))"
proof (cases "status = error_success \<and> uni_hid_device_get_instance_for_hids_cid cid l \<noteq> None")
  case False
  then show ?thesis using assms(1,2) by (auto simp: on_hid_service_connected_def)
next
  case True
  then obtain d where d: "uni_hid_device_get_instance_for_hids_cid cid l = Some d" by blast
  have d4: "d < 4" "hids_cid (table l ! d) = cid"
    using d by (auto simp: uni_hid_device_get_instance_for_hids_cid_def split: if_splits dest: find_device_Some)
  have len: "length (table l) = 4" "length (devices (link_platform l)) = 4" using assms(1) by (auto simp: link_ok_def)
  have E: "entry_ok (now_ms l) (table l ! d) (devices (link_platform l) ! d)" by (rule link_ok_entry [OF assms(1) d4(1)])
  have used: "btaddr (table l ! d) \<noteq> zero_addr" using E d4(2) assms(3) by (auto simp: entry_ok_def init_slot_def)
  have off: "\<not> connected (devices (link_platform l) ! d)" by (rule assms(4) [OF d])
  then have st: "conn_state (table l ! d) = STATE_DISCOVERED" "\<not> device_ready (devices (link_platform l) ! d)"
    using E used by (auto simp: entry_ok_def)
  define g where "g = upd_slot d uni_hid_device_guess_controller_type_from_pid_vid l"
  define s where "s = uni_hid_device_guess_controller_type_from_pid_vid (table l ! d)"
  have s: "btaddr s = btaddr (table l ! d)" "conn_state s = conn_state (table l ! d)" "connection_timer s = connection_timer (table l ! d)"
    by (auto simp: s_def uni_hid_device_guess_controller_type_from_pid_vid_def fake_xbox_def uni_hid_device_set_product_id_def
        uni_hid_device_set_vendor_id_def Let_def)
  have g: "table g ! d = s" "length (table g) = 4" "link_platform g = link_platform l" "now_ms g = now_ms l" "link_except d g"
    using d4(1) len s(1) except_upd [OF link_ok_except [OF assms(1)] d4(1)] by (simp_all add: g_def s_def link_simps)
  define c where "c = link_connect d g"
  have ec: "link_except d c" unfolding c_def link_connect_def
    by (rule except_platform [OF except_show [OF g(5)]]) (simp_all add: link_simps)
  have okc: "ok (link_platform c)" unfolding c_def link_connect_def link_simps
    using connect [OF d4(1) _ _ assms(2)] off st(2) by (simp add: g)
  have tc: "table c = table g" "now_ms c = now_ms l" by (simp_all add: c_def link_connect_def link_simps g)
  have dc: "connected (devices (link_platform c) ! d)" "device_ready (devices (link_platform c) ! d) = False"
    "instance_idx (devices (link_platform c) ! d) = gamepad_invalid"
    using d4(1) len st(2)
    by (simp_all add: c_def link_connect_def link_simps g uni_hid_device_connect_def arduino_on_device_connected_def)
  define r where "r = uni_bt_conn_set_state d STATE_PENDING_READY c"
  have er: "link_except d r" unfolding r_def by (rule except_state [OF ec d4(1)])
  have "set_device d ((devices (link_platform c) ! d)\<lparr>device_ready := False\<rparr>) (link_platform c) = link_platform c"
    by (rule same_ready [OF dc(2)])
  then have pr: "link_platform r = link_platform c" by (simp add: r_def link_simps)
  have nr: "now_ms r = now_ms l" by (simp add: r_def link_simps tc)
  have tr: "table r ! d = s\<lparr>conn_state := STATE_PENDING_READY\<rparr>" using d4(1) g by (simp add: r_def link_simps tc)
  have "link_ok (link_set_ready S d c) \<and> ok (link_platform (link_set_ready S d c))"
  proof (cases "p_setup (parser s) = Setup_later")
    case True
    have "entry_ok (now_ms r) (table r ! d) (devices (link_platform r) ! d)"
      using E used st dc s by (auto simp: tr pr nr entry_ok_def split: option.splits)
    then have "link_ok r" by (rule link_okI [OF er])
    then show ?thesis using True okc st s by (simp add: link_set_ready_def tc g r_def [symmetric] pr)
  next
    case False
    have "link_ok (snd (link_set_ready_complete S d r)) \<and> ok (link_platform (snd (link_set_ready_complete S d r)))"
      by (rule ready_complete_ok [OF er d4(1)]) (use okc dc used s in \<open>simp_all add: pr tr\<close>)
    then show ?thesis using False st s by (simp add: link_set_ready_def tc g r_def [symmetric])
  qed
  then have "link_ok (resume_scanning_hint (link_set_ready S d c)) \<and> ok (link_platform (resume_scanning_hint (link_set_ready S d c)))"
    using link_ok_cong [OF _ hint_same] by (simp add: link_simps)
  then show ?thesis using True d by (simp add: on_hid_service_connected_def c_def g_def)
qed


lemma advertising_ok:
  assumes "link_ok l" "ok (link_platform l)" "uni_bt_le_on_gap_event_advertising_report a ty data r l = Some k"
  shows "link_ok k \<and> ok (link_platform k)"
proof (cases "k = l")
  case True
  then show ?thesis using assms by simp
next
  case False
  then obtain appearance name c where new: "uni_hid_device_get_instance_for_address a l = None"
    and "adv_event_get_data data = Some (appearance, name)" "cod_of_appearance appearance = Some c"
    "uni_hid_device_on_device_discovered a c r l"
    using assms(3) by (auto simp: uni_bt_le_on_gap_event_advertising_report_def split: if_splits option.splits prod.splits)
  then obtain d m where m: "link_create a l = (Some d, m)"
    and k: "k = hog_connect a ty (uni_bt_conn_set_state d STATE_DISCOVERED
              (upd_slot d (\<lambda>s. (uni_hid_device_set_name (c_name name) (uni_hid_device_set_cod c s))\<lparr>protocol := PROTOCOL_BLE, conn_rssi := r\<rparr>) m))"
    using assms(3) False
    by (auto simp: uni_bt_le_on_gap_event_advertising_report_def link_create_def split: option.splits if_splits prod.splits)
  have other: "\<forall>e<4. btaddr (table l ! e) \<noteq> a"
    using find_device_None [OF new [unfolded uni_hid_device_get_instance_for_address_def]] by blast
  have "a \<noteq> zero_addr"
  proof
    assume "a = zero_addr"
    then have "find_device (\<lambda>s. btaddr s = zero_addr) l = None" using other by (auto simp: find_device_def find_None_iff max_devices_def)
    then show False using m by (simp add: link_create_def)
  qed
  note C = create_ok [OF assms(1,2) m this other]
  define f where "f = (\<lambda>s. (uni_hid_device_set_name (c_name name) (uni_hid_device_set_cod c s))\<lparr>protocol := PROTOCOL_BLE, conn_rssi := r\<rparr>)"
  have f: "btaddr (f s) = btaddr s" "connection_timer (f s) = connection_timer s" for s
    by (simp_all add: f_def uni_hid_device_set_name_def uni_hid_device_set_cod_def)
  define n where "n = uni_bt_conn_set_state d STATE_DISCOVERED (upd_slot d f m)"
  have d: "d < 4" "length (table m) = 4" "length (devices (link_platform m)) = 4" using C except_lengths by auto
  have "link_except d n" unfolding n_def by (intro except_state except_upd) (use C f in auto)
  moreover have "entry_ok (now_ms n) (table n ! d) (devices (link_platform n) ! d)"
    using C d f \<open>a \<noteq> zero_addr\<close> by (simp add: n_def link_simps entry_ok_def blank_device_def zero_slot_def)
  ultimately have "link_ok n" by (rule link_okI)
  moreover have "device_ready (devices (link_platform m) ! d) = False" using C by (simp add: blank_device_def)
  then have "link_platform n = link_platform m" by (simp add: n_def link_simps same_ready)
  ultimately show ?thesis using C by (simp add: k f_def [symmetric] n_def [symmetric] hog_connect_def call_gap_ok link_simps)
qed

lemma report_keeps:
  assumes "link_ok l" "ok (link_platform l)" "on_hid_report ms cid ctl l = Some k"
  shows "link_ok k \<and> ok (link_platform k)"
proof (cases "k = l")
  case True
  then show ?thesis using assms by simp
next
  case False
  then obtain d where d: "uni_hid_device_get_instance_for_hids_cid cid l = Some d"
    and k: "link_process_controller ms d ctl l = Some k" using assms(3) by (auto simp: on_hid_report_def split: option.splits)
  have d4: "d < 4" using d
    by (auto simp: uni_hid_device_get_instance_for_hids_cid_def split: if_splits dest: find_device_Some)
  from k False obtain p b where st: "conn_state (table l ! d) = STATE_READY"
    and p: "uni_hid_device_process_controller ms d ctl (link_platform l) = Some p"
    and e: "k = upd_slot d (process_misc_button_home b \<circ> process_misc_button_system (now_ms l) b) (l\<lparr>link_platform := p\<rparr>)"
    by (auto simp: link_process_controller_def Let_def bind_eq_Some_conv split: if_splits)
  have "link_ok (l\<lparr>link_platform := p\<rparr>)" by (rule same_devices_ok [OF assms(1) report_devices [OF p]])
  then have "link_ok k" unfolding e
    by (rule used_update_ok) (use d4 st entry_used [OF assms(1) d4] in \<open>simp_all add: misc_same\<close>)
  moreover have "ok (link_platform k)" using report [OF d4 p assms(2)] by (simp add: e link_simps)
  ultimately show ?thesis by simp
qed

lemma timeout_ok:
  assumes "link_ok l" "ok (link_platform l)" "d < 4" "connection_timer (table l ! d) \<noteq> None"
  shows "link_ok (device_connection_timeout S d l) \<and> ok (link_platform (device_connection_timeout S d l))"
proof -
  let ?k = "upd_slot d (\<lambda>s. s\<lparr>connection_timer := None\<rparr>) l"
  have "length (table l) = 4" using assms(1) by (simp add: link_ok_def)
  moreover have "conn_state (table l ! d) \<noteq> STATE_READY"
    using link_ok_entry [OF assms(1,3)] assms(4) by (auto simp: entry_ok_def)
  moreover have "link_except d ?k" by (rule except_upd [OF link_ok_except [OF assms(1)] assms(3)]) simp
  ultimately show ?thesis using drop_ok [of d ?k S] assms(2,3) by (simp add: device_connection_timeout_def link_simps)
qed

lemma link_drop_keeps: "link_ok l \<Longrightarrow> ok (link_platform l) \<Longrightarrow> d < 4 \<Longrightarrow> link_ok (link_drop S d l) \<and> ok (link_platform (link_drop S d l))"
  using drop_ok link_ok_except by blast

lemma disconnection_ok:
  assumes "link_ok l" "ok (link_platform l)"
  shows "link_ok (on_hci_disconnection_complete S h l) \<and> ok (link_platform (on_hci_disconnection_complete S h l))"
proof (cases "uni_hid_device_get_instance_for_connection_handle h l")
  case (Some d)
  then show ?thesis using link_drop_keeps [OF assms handle_used(1) [OF assms(1) Some], of S] hint_ok
    by (simp add: on_hci_disconnection_complete_def Let_def link_simps)
qed (use assms in \<open>simp add: on_hci_disconnection_complete_def\<close>)

lemma setup_finished_ok:
  assumes "link_ok l" "ok (link_platform l)" "d < 4" "conn_state (table l ! d) = STATE_PENDING_READY"
  shows "link_ok (snd (link_set_ready_complete S d l)) \<and> ok (link_platform (snd (link_set_ready_complete S d l)))"
  by (rule ready_complete_ok [OF link_ok_except [OF assms(1)] assms(3,2)])
     (use link_ok_entry [OF assms(1,3)] entry_used [OF assms(1,3)] assms(4) in \<open>auto simp: entry_ok_def\<close>)

text \<open>The events that neither create nor drop a device.\<close>

lemma quiet_ok:
  assumes "link_ok l" "ok (link_platform l)"
  shows "a \<noteq> zero_addr \<Longrightarrow> link_ok (on_le_connection_complete a h l) \<and> ok (link_platform (on_le_connection_complete a h l))"
    "link_ok (uni_bt_le_on_hci_event_encryption_change S h on l) \<and>
     ok (link_platform (uni_bt_le_on_hci_event_encryption_change S h on l))"
    "link_ok (on_reencryption_complete S h status ty b l) \<and> ok (link_platform (on_reencryption_complete S h status ty b l))"
    "link_ok (on_pairing_complete S b h status l) \<and> ok (link_platform (on_pairing_complete S b h status l))"
    "link_ok (on_device_information_done S h status l) \<and> ok (link_platform (on_device_information_done S h status l))"
    "link_ok (on_pnp_id h vid pid l) \<and> ok (link_platform (on_pnp_id h vid pid l))"
    "link_ok (on_rssi_measurement h r l) \<and> ok (link_platform (on_rssi_measurement h r l))"
    "link_ok (start_scanning on l) \<and> ok (link_platform (start_scanning on l))"
proof -
  show "link_ok (on_le_connection_complete a h l) \<and> ok (link_platform (on_le_connection_complete a h l))" if "a \<noteq> zero_addr"
  proof (cases "uni_hid_device_get_instance_for_address a l")
    case (Some d)
    then have "d < 4" "btaddr (table l ! d) = a"
      by (auto simp: uni_hid_device_get_instance_for_address_def dest: find_device_Some)
    then have "link_ok (upd_slot d (\<lambda>s. s\<lparr>con_handle := h\<rparr>) l)"
      using that by (intro used_update_ok [OF assms(1)]) auto
    then show ?thesis using Some assms(2) by (simp add: on_le_connection_complete_def call_gap_ok link_simps)
  qed (use assms in \<open>simp add: on_le_connection_complete_def\<close>)
  show "link_ok (uni_bt_le_on_hci_event_encryption_change S h on l) \<and>
     ok (link_platform (uni_bt_le_on_hci_event_encryption_change S h on l))"
    using assms hog_disconnect_ok [OF assms(1)]
    by (auto simp: uni_bt_le_on_hci_event_encryption_change_def link_simps split: option.splits)
  show "link_ok (on_reencryption_complete S h status ty b l) \<and> ok (link_platform (on_reencryption_complete S h status ty b l))"
    using assms hog_disconnect_ok [OF assms(1)]
    by (auto simp: on_reencryption_complete_def query_device_information_def call_gap_ok link_simps)
  show "link_ok (on_pairing_complete S b h status l) \<and> ok (link_platform (on_pairing_complete S b h status l))"
    using assms hog_disconnect_ok [OF assms(1)]
    by (auto simp: on_pairing_complete_def query_device_information_def call_gap_ok link_simps split: option.splits)
  show "link_ok (on_device_information_done S h status l) \<and> ok (link_platform (on_device_information_done S h status l))"
  proof (cases "uni_hid_device_get_instance_for_connection_handle h l")
    case (Some d)
    note U = handle_used(1,2) [OF assms(1) Some]
    have "link_ok (upd_slot d (\<lambda>s. s\<lparr>hids_cid := cid\<rparr>) (call_gap (Hids_client_connect h) l))" for cid
      by (intro used_update_ok call_gap_ok assms(1)) (use U in \<open>simp_all add: link_simps\<close>)
    then show ?thesis using Some assms hog_disconnect_ok [OF assms(1)] hog_disconnect_ok [OF call_gap_ok [OF assms(1)]]
      by (simp add: on_device_information_done_def Let_def link_simps split: prod.split)
  qed (use assms hog_disconnect_ok [OF assms(1)] in \<open>simp add: on_device_information_done_def link_simps\<close>)
  show "link_ok (on_pnp_id h vid pid l) \<and> ok (link_platform (on_pnp_id h vid pid l))"
  proof (cases "uni_hid_device_get_instance_for_connection_handle h l")
    case (Some d)
    have "link_ok (upd_slot d (uni_hid_device_set_product_id pid \<circ> uni_hid_device_set_vendor_id vid) l)"
      by (intro used_update_ok assms(1) handle_used(1,2) [OF assms(1) Some])
         (simp_all add: uni_hid_device_set_product_id_def uni_hid_device_set_vendor_id_def)
    then show ?thesis using Some assms(2) by (simp add: on_pnp_id_def link_simps)
  qed (use assms in \<open>simp add: on_pnp_id_def\<close>)
  show "link_ok (on_rssi_measurement h r l) \<and> ok (link_platform (on_rssi_measurement h r l))"
  proof (cases "uni_hid_device_get_instance_for_connection_handle h l")
    case (Some d)
    have "link_ok (upd_slot d (\<lambda>s. s\<lparr>conn_rssi := r\<rparr>) l)"
      by (intro used_update_ok assms(1) handle_used(1,2) [OF assms(1) Some]) simp_all
    then show ?thesis using Some assms(2) by (simp add: on_rssi_measurement_def link_simps)
  qed (use assms in \<open>simp add: on_rssi_measurement_def\<close>)
  show "link_ok (start_scanning on l) \<and> ok (link_platform (start_scanning on l))"
    using assms by (auto simp: start_scanning_def uni_bt_le_scan_start_def uni_bt_le_scan_stop_def Let_def link_ok_def call_gap_def)
qed

lemma handle_ok:
  assumes "link_ok l" "ok (link_platform l)" "event_ok l e" "handle ms S e l = Some k"
  shows "link_ok k \<and> ok (link_platform k)"
proof (cases e)
  case (Hid_service_connected status cid)
  then show ?thesis using assms service_connected_ok [OF assms(1,2), of cid S status] by (auto split: option.splits)
next
  case (Connection_timeout d)
  then show ?thesis using assms timeout_ok [OF assms(1,2), of d S] by (auto split: option.splits)
next
  case (Misc_button_timeout d)
  then have "d < 4" "btaddr (table l ! d) \<noteq> zero_addr" using assms(3) entry_used [OF assms(1)] by (auto split: option.splits)
  then have "link_ok (misc_button_enable_callback d l)"
    unfolding misc_button_enable_callback_def by (intro used_update_ok [OF assms(1)]) simp_all
  then show ?thesis using Misc_button_timeout assms by (auto simp: misc_button_enable_callback_def link_simps)
next
  case (Driver_timer d on)
  then have "d < 4" "btaddr (table l ! d) \<noteq> zero_addr" using assms(3) entry_used [OF assms(1)] by auto
  then have "link_ok (upd_slot d (\<lambda>s. s\<lparr>driver_timer := on\<rparr>) l)" by (intro used_update_ok [OF assms(1)]) simp_all
  then show ?thesis using Driver_timer assms by (auto simp: link_simps)
next
  case (Cmd_disconnect idx)
  then show ?thesis using assms link_drop_keeps [OF assms(1,2), of idx S]
    by (auto simp: cmd_disconnect_device_def uni_hid_device_get_instance_for_idx_def max_devices_def split: if_splits)
next
  case (Advertising_report a ty data r)
  then show ?thesis using assms(4) advertising_ok [OF assms(1,2)] by simp
next
  case (Hid_report cid ctl)
  then show ?thesis using assms(4) report_keeps [OF assms(1,2)] by simp
next
  case (Disconnection_complete h)
  then show ?thesis using assms(4) disconnection_ok [OF assms(1,2), of S h] by auto
next
  case (Setup_finished d)
  then show ?thesis using assms(3,4) setup_finished_ok [OF assms(1,2), of d S] by auto
next
  case (Le_connection_complete a h)
  then show ?thesis using assms(3,4) quiet_ok(1) [OF assms(1,2), of a h] by auto
next
  case (Encryption_change h on)
  then show ?thesis using assms(4) quiet_ok(2) [OF assms(1,2), of S h on] by auto
next
  case (Reencryption_complete h status ty a)
  then show ?thesis using assms(4) quiet_ok(3) [OF assms(1,2), of S h status ty a] by auto
next
  case (Pairing_complete a h status)
  then show ?thesis using assms(4) quiet_ok(4) [OF assms(1,2), of S a h status] by auto
next
  case (Device_information_done h status)
  then show ?thesis using assms(4) quiet_ok(5) [OF assms(1,2), of S h status] by auto
next
  case (Pnp_id h vid pid)
  then show ?thesis using assms(4) quiet_ok(6) [OF assms(1,2), of h vid pid] by auto
next
  case (Rssi_measurement h r)
  then show ?thesis using assms(4) quiet_ok(7) [OF assms(1,2), of h r] by auto
next
  case (Cmd_scanning on)
  then show ?thesis using assms(4) quiet_ok(8) [OF assms(1,2), of on] by auto
next
  case (Just_works_request h)
  then show ?thesis using assms(2,4) call_gap_ok [OF assms(1)] by (auto simp: link_simps)
next
  case (Numeric_comparison_request h)
  then show ?thesis using assms(2,4) call_gap_ok [OF assms(1)] by (auto simp: link_simps)
qed

end

section \<open>The platform of this firmware\<close>

interpretation bt: seat_service "bt_run ms" ms for ms
proof unfold_locales
  fix d p io ctl p'
  note four = max_devices_def
  show "bt_run ms (uni_hid_device_create d p)" if "d < 4" "\<not> connected (devices p ! d)" "bt_run ms p"
    by (rule run_step [OF that(3) bt_create]) (use that in \<open>simp_all add: four\<close>)
  show "bt_run ms (set_device d ((devices p ! d)\<lparr>info := io\<rparr>) p)" if "d < 4" "bt_run ms p"
    by (rule run_step [OF that(2) bt_learn]) (use that in \<open>simp add: four\<close>)
  show "bt_run ms (uni_hid_device_connect d (set_device d ((devices p ! d)\<lparr>info := io\<rparr>) p))"
    if "d < 4" "\<not> connected (devices p ! d)" "\<not> device_ready (devices p ! d)" "bt_run ms p"
    by (rule run_step [OF that(4) bt_connect]) (use that in \<open>simp_all add: four\<close>)
  show "bt_run ms (snd (uni_hid_device_set_ready_complete d p))" if "d < 4" "connected (devices p ! d)" "bt_run ms p"
    by (rule run_step [OF that(3) bt_ready]) (use that in \<open>simp_all add: four\<close>)
  show "bt_run ms (uni_hid_device_disconnect d p)" if "d < 4" "bt_run ms p"
    by (rule run_step [OF that(2) bt_lose]) (use that in \<open>simp add: four\<close>)
  show "bt_run ms (uni_hid_device_delete d p)" if "d < 4" "\<not> connected (devices p ! d)" "bt_run ms p"
    by (rule run_step [OF that(3) bt_delete]) (use that in \<open>simp_all add: four\<close>)
  show "bt_run ms p'" if "d < 4" "uni_hid_device_process_controller ms d ctl p = Some p'" "bt_run ms p"
    by (rule run_step [OF that(3) bt_report [OF _ that(2)]]) (use that in \<open>simp add: four\<close>)
qed

text \<open>
  Everything that can happen to the link: its events, the passing of time, the requests and polls of the
  application and changes of the allowlist from the console.
\<close>

inductive link_run :: "mappings_state \<Rightarrow> link \<Rightarrow> bool" for ms where
  link_start: "link_run ms (link_boot al)"
| link_event: "link_run ms l \<Longrightarrow> event_ok l e \<Longrightarrow> handle ms S e l = Some k \<Longrightarrow> link_run ms k"
| link_tick: "link_run ms l \<Longrightarrow> link_run ms (l\<lparr>now_ms := now_ms l + n\<rparr>)"
| link_request: "link_run ms l \<Longrightarrow> link_run ms (on_platform (\<lambda>p. snd (arduino_request cmd idx p)) l)"
| link_poll: "link_run ms l \<Longrightarrow> link_run ms (on_platform (\<lambda>p. fst (snd (snd (bp32_update (p, b))))) l)"
| link_allow: "link_run ms l \<Longrightarrow> link_run ms (l\<lparr>allow := al\<rparr>)"

lemma request_devices: "devices (snd (arduino_request cmd idx p)) = devices p"
  by (simp add: arduino_request_def)

lemma update_seats_devices: "update_seats is (p, cs) = (st, q, cs') \<Longrightarrow> devices q = devices p"
proof (induction "is" arbitrary: p cs st q cs')
  case (Cons i "is")
  obtain s0 p0 cs0 where u: "update_seat i (p, cs) = (s0, p0, cs0)" by (metis prod.exhaust)
  obtain s1 p1 cs1 where r: "update_seats is (p0, cs0) = (s1, p1, cs1)" by (metis prod.exhaust)
  have "devices p0 = devices p"
    using u get_data_same(1) by (auto simp: update_seat_def Let_def split: prod.splits if_splits)
  then show ?case using Cons.prems Cons.IH [OF r] u r by simp
qed simp

lemma poll_devices: "devices (fst (snd (snd (bp32_update (p, b))))) = devices p"
  using update_seats_devices by (auto simp: bp32_update_def Let_def split: prod.splits)

lemma link_run_ok: "link_run ms l \<Longrightarrow> link_ok l \<and> bt_run ms (link_platform l)"
proof (induction rule: link_run.induct)
  case (link_start al)
  show ?case using boot_ok [of al] run_init [of ms] by (simp add: link_boot_def)
next
  case (link_event l e S k)
  then show ?case using bt.handle_ok by blast
next
  case (link_tick l n)
  then show ?case by (auto simp: link_ok_def entry_ok_def split: option.splits)
next
  case (link_request l cmd idx)
  then show ?case using run_step [OF _ bt_request] by (simp add: on_platform_def link_ok_def request_devices)
next
  case (link_poll l b)
  then show ?case using run_read by (simp add: on_platform_def link_ok_def poll_devices)
qed (simp add: link_ok_def)

lemmas link_run_entry = link_ok_entry [OF link_run_ok [THEN conjunct1]]

lemma link_run_seats: "link_run ms l \<Longrightarrow> seats_ok (link_platform l)"
  using link_run_ok bt_run_ok by blast

section \<open>Properties\<close>

text \<open>C30: The Bluetooth side refines the device steps of the seat model: after any events, timers, requests and polls
  the platform is one that those steps reach, a device counts as connected from the moment its setup
  begins and as ready when it is over, and a taken seat belongs to exactly one device, which is ready.\<close>

theorem link_refines_seats:
  assumes "link_run ms l"
  shows "bt_run ms (link_platform l) \<and>
    (\<forall>d<4. (connected (devices (link_platform l) ! d) \<longleftrightarrow> conn_state (table l ! d) \<in> {STATE_PENDING_READY, STATE_READY}) \<and>
       (device_ready (devices (link_platform l) ! d) \<longleftrightarrow> conn_state (table l ! d) = STATE_READY)) \<and>
    (\<forall>i<4. taken (link_platform l) i \<longrightarrow>
       (\<exists>!d. d < 4 \<and> conn_state (table l ! d) = STATE_READY \<and> instance_idx (devices (link_platform l) ! d) = int i))"
proof -
  note E = link_run_entry [OF assms, unfolded entry_ok_def]
  note D = seats_okD [OF link_run_seats [OF assms]]
  have "\<exists>!d. d < 4 \<and> conn_state (table l ! d) = STATE_READY \<and> instance_idx (devices (link_platform l) ! d) = int i"
    if i: "i < 4" "taken (link_platform l) i" for i
  proof -
    have r: "conn_state (table l ! d) = STATE_READY" if "d < 4" "sits (link_platform l) d i" for d
      using E [OF that(1)] that(2) by (auto simp: sits_def gamepad_invalid_def)
    have s: "sits (link_platform l) d i"
      if "d < 4" "conn_state (table l ! d) = STATE_READY" "instance_idx (devices (link_platform l) ! d) = int i" for d
      using E [OF that(1)] that by (auto simp: sits_def)
    obtain d where "d < 4" "sits (link_platform l) d i" using D(6) [OF i] by blast
    then show ?thesis using r s D(7) [OF _ _ i(1)] by (intro ex1I [of _ d]) (auto simp: sits_def)
  qed
  then show ?thesis using link_run_ok [OF assms] E by blast
qed

lemma drop_frees:
  assumes "length (table k) = 4" "length (devices (link_platform k)) = 4" "d < 4"
  shows "table (link_drop S d k) ! d = init_slot" "devices (link_platform (link_drop S d k)) ! d = blank_device"
  using assms by (simp_all add: link_drop_def link_delete_def link_disconnect_def Let_def link_simps uni_hid_device_delete_def)

text \<open>C31: Every entry of the device table in use either belongs to a ready controller or has a deadline at most
  twenty seconds away, at which it is freed together with the platform's device; and no two entries
  hold the same address.\<close>

theorem connection_deadline:
  assumes "link_run ms l" "d < 4" "btaddr (table l ! d) \<noteq> zero_addr" "conn_state (table l ! d) \<noteq> STATE_READY"
  shows "(\<exists>t. connection_timer (table l ! d) = Some t \<and> t \<le> now_ms l + 20000) \<and>
    table (device_connection_timeout S d l) ! d = init_slot \<and>
    devices (link_platform (device_connection_timeout S d l)) ! d = blank_device \<and>
    (\<forall>e<4. e \<noteq> d \<longrightarrow> btaddr (table l ! e) \<noteq> btaddr (table l ! d))"
proof -
  have ok: "link_ok l" using link_run_ok [OF assms(1)] by simp
  have len: "length (table l) = 4" "length (devices (link_platform l)) = 4" "unique_addrs (table l)" using ok by (auto simp: link_ok_def)
  have "\<exists>t. connection_timer (table l ! d) = Some t \<and> t \<le> now_ms l + 20000"
    using link_run_entry [OF assms(1,2)] assms(3,4)
    by (auto simp: entry_ok_def hid_device_connection_timeout_ms_def split: option.splits)
  moreover have "\<forall>e<4. e \<noteq> d \<longrightarrow> btaddr (table l ! e) \<noteq> btaddr (table l ! d)"
    using len(3) assms(2,3) by (auto simp: unique_addrs_def)
  ultimately show ?thesis using len assms(2,4) drop_frees [of "upd_slot d (\<lambda>s. s\<lparr>connection_timer := None\<rparr>) l" d S]
    by (simp add: device_connection_timeout_def link_simps)
qed

lemma used_below_four:
  assumes "seats_ok p" "d < 4" "instance_idx (devices p ! d) = -1"
  shows "used_controllers p < 4"
proof -
  note D = seats_okD [OF assms(1)]
  let ?T = "{i. i < 4 \<and> taken p i}"
  define owner where "owner = (\<lambda>i. SOME e. e < 4 \<and> sits p e i)"
  have o: "owner i < 4 \<and> sits p (owner i) i" if "i \<in> ?T" for i
  proof -
    have "\<exists>e. e < 4 \<and> sits p e i" using D(6) [of i] that by blast
    then show ?thesis unfolding owner_def by (rule someI_ex)
  qed
  have at_owner: "instance_idx (devices p ! owner i) = int i" if "i \<in> ?T" for i using o [OF that] by (simp add: sits_def)
  have "owner i \<in> {..<4} - {d}" if "i \<in> ?T" for i
    using o [OF that] at_owner [OF that] assms(3) by auto
  then have sub: "owner ` ?T \<subseteq> {..<4} - {d}" by blast
  have "inj_on owner ?T"
  proof (rule inj_onI)
    fix i j assume a: "i \<in> ?T" "j \<in> ?T" "owner i = owner j"
    have "int i = int j" using at_owner [OF a(1)] at_owner [OF a(2)] by (simp only: a(3))
    then show "i = j" by simp
  qed
  then have "card ?T \<le> card ({..<4 :: nat} - {d})" by (rule card_inj_on_le [OF _ sub]) simp
  then have "card ?T \<le> 3" using assms(2) by simp
  then show ?thesis by (simp only: D(4))
qed

text \<open>The platform never declines a device whose setup is over.\<close>

lemma ready_complete_accepts:
  assumes "link_run ms l" "d < 4" "conn_state (table l ! d) = STATE_PENDING_READY"
  obtains k p i where
    "link_set_ready_complete S d l = (True, k)"
    "k = uni_bt_conn_set_state d STATE_READY
           ((show_platform d (upd_slot d (\<lambda>s. s\<lparr>connection_timer := None\<rparr>) l))\<lparr>link_platform := p\<rparr>)"
    "i < 4" "\<not> taken (link_platform l) i" "sits (link_platform k) d i"
proof -
  define m where "m = show_platform d (upd_slot d (\<lambda>s. s\<lparr>connection_timer := None\<rparr>) l)"
  have ok: "link_ok l" "bt_run ms (link_platform l)" using link_run_ok [OF assms(1)] by auto
  have len: "length (table l) = 4" "length (devices (link_platform l)) = 4" using ok(1) by (auto simp: link_ok_def)
  have E: "connected (devices (link_platform l) ! d)" "\<not> device_ready (devices (link_platform l) ! d)"
    "instance_idx (devices (link_platform l) ! d) = -1"
    using link_run_entry [OF assms(1,2)] assms(3) by (auto simp: entry_ok_def gamepad_invalid_def)
  have pm: "link_platform m = set_device d ((devices (link_platform l) ! d)\<lparr>info := info_of ((table l ! d)\<lparr>connection_timer := None\<rparr>)\<rparr>) (link_platform l)"
    using assms(2) len by (simp add: m_def link_simps)
  have sm: "seats_ok (link_platform m)" unfolding pm by (rule learn_ok [OF bt_run_ok [OF ok(2)]])
  have Em: "connected (devices (link_platform m) ! d)" "\<not> device_ready (devices (link_platform m) ! d)"
    "instance_idx (devices (link_platform m) ! d) = -1"
    using E assms(2) len by (simp_all add: pm link_simps)
  have u: "used_controllers (link_platform m) < 4" by (rule used_below_four [OF sm assms(2) Em(3)])
  obtain b p where r: "arduino_on_device_ready d (link_platform m) = (b, p)" by fastforce
  have b: b using r u Em(3) by (auto simp: arduino_on_device_ready_def Let_def max_devices_def gamepad_invalid_def)
  define k where "k = uni_bt_conn_set_state d STATE_READY (m\<lparr>link_platform := p\<rparr>)"
  have e: "link_set_ready_complete S d l = (True, k)"
    using assms(3) r b by (simp add: link_set_ready_complete_def Let_def m_def [symmetric] k_def)
  obtain i where i: "i < 4" "\<not> taken (link_platform m) i" "sits (snd (uni_hid_device_set_ready_complete d (link_platform m))) d i"
    using ready_ok(2) [OF sm assms(2) Em u] by blast
  have "snd (uni_hid_device_set_ready_complete d (link_platform m)) = link_platform k"
    using r b Em(2) by (simp add: uni_hid_device_set_ready_complete_def k_def link_simps)
  moreover have "taken (link_platform m) i = taken (link_platform l) i" by (simp add: pm taken_def set_device_def)
  ultimately show ?thesis using that [OF e k_def [unfolded m_def] i(1)] i by simp
qed

text \<open>C32: The platform never turns a controller away: a device whose setup finishes becomes ready and gets a seat that
  was free, however many controllers came and went before.\<close>

theorem setup_gets_seat:
  assumes "link_run ms l" "d < 4" "conn_state (table l ! d) = STATE_PENDING_READY"
    "link_set_ready_complete S d l = (accepted, k)"
  shows "accepted \<and> conn_state (table k ! d) = STATE_READY \<and> connection_timer (table k ! d) = None \<and>
    (\<exists>i<4. \<not> taken (link_platform l) i \<and> sits (link_platform k) d i)"
proof -
  obtain k' p i where K: "link_set_ready_complete S d l = (True, k')"
    "k' = uni_bt_conn_set_state d STATE_READY
            ((show_platform d (upd_slot d (\<lambda>s. s\<lparr>connection_timer := None\<rparr>) l))\<lparr>link_platform := p\<rparr>)"
    "i < 4" "\<not> taken (link_platform l) i" "sits (link_platform k') d i"
    by (rule ready_complete_accepts [OF assms(1-3), of S])
  have "length (table l) = 4" using link_run_ok [OF assms(1)] by (simp add: link_ok_def)
  then show ?thesis using K assms(2,4) by (auto simp: link_simps)
qed

end
