(* ===== verification/Allowlist_Laws.thy ===== *)
theory Allowlist_Laws
  imports Allowlist
begin

text \<open>
  The allowlist is a set of at most four addresses with the operations one expects, and a restart
  gives back the same set and switch.
\<close>

section \<open>Text round trip\<close>

lemma nibble_round_trip: "n < 16 \<Longrightarrow> nibble_for_char (char_for_nibble n) = Some n"
proof -
  have "\<forall>n\<in>set [0..<16]. nibble_for_char (char_for_nibble n) = Some n" by code_simp
  then show "n < 16 \<Longrightarrow> ?thesis" by simp
qed

lemma hex_byte_length [simp]: "length (hex_byte b) = 2"
  by (simp add: hex_byte_def)

lemma scan_hex_byte_text [simp]: "scan_hex_byte (hex_byte b @ s) = Some b"
proof -
  have "unat b div 16 < 16" using unsigned_less [of b, where ?'a = nat] by simp
  then have "nibble_for_char (char_for_nibble (unat b div 16)) = Some (unat b div 16)" by (rule nibble_round_trip)
  moreover have "nibble_for_char (char_for_nibble (unat b mod 16)) = Some (unat b mod 16)"
    by (rule nibble_round_trip) simp
  moreover have "(of_nat (unat b div 16 * 16 + unat b mod 16) :: u8) = b" by (simp only: div_mult_mod_eq) simp
  then have "(of_nat (unat b div 16) * 16 + of_nat (unat b mod 16) :: u8) = b"
    by (simp only: of_nat_add of_nat_mult of_nat_numeral)
  ultimately show ?thesis by (simp add: hex_byte_def)
qed

lemma drop_hex_byte [simp]: "drop 2 (hex_byte b @ s) = s"
  by (simp add: hex_byte_def)

lemma skip_colon [simp]: "skip_separator (CHR '':'' # s) = s"
  by (simp add: skip_separator_def)

lemma scan_addr_text: "as \<noteq> [] \<Longrightarrow> scan_addr_bytes (length as) (bd_addr_to_str as @ s) = Some as"
proof (induction as rule: bd_addr_to_str.induct)
  case (3 b c bs)
  then show ?case by (simp del: bd_addr_to_str.simps add: bd_addr_to_str.simps(3) flip: length_Cons)
qed simp_all

lemma sscanf_text: "length a = 6 \<Longrightarrow> sscanf_bd_addr (bd_addr_to_str a @ s) = Some a"
  using scan_addr_text [of a s] by (cases a) (simp_all add: sscanf_bd_addr_def)

lemma bd_addr_to_str_length: "as \<noteq> [] \<Longrightarrow> length (bd_addr_to_str as) + 1 = 3 * length as"
  by (induction as rule: bd_addr_to_str.induct) auto

section \<open>The invariant\<close>

text \<open>The addresses in use.\<close>

definition allowed_set :: "allowlist \<Rightarrow> bd_addr set" where
  "allowed_set al = set (addr_allow_list al) - {zero_addr}"

definition allowlist_ok :: "allowlist \<Rightarrow> bool" where
  "allowlist_ok al \<longleftrightarrow> length (addr_allow_list al) = 4 \<and> (\<forall>a\<in>set (addr_allow_list al). length a = 6) \<and>
     distinct (filter (\<lambda>a. a \<noteq> zero_addr) (addr_allow_list al))"

lemma zero_length [simp]: "length zero_addr = 6"
  by (simp add: zero_addr_def)

lemma find_slot:
  "slot_holding a al = Some i \<Longrightarrow> i < 4 \<and> addr_allow_list al ! i = a"
  "slot_holding a al = None \<Longrightarrow> length (addr_allow_list al) = 4 \<Longrightarrow> a \<notin> set (addr_allow_list al)"
  unfolding slot_holding_def max_allowlist_def
  by (auto simp: find_Some_iff find_None_iff in_set_conv_nth)

lemma filter_update:
  assumes "i < length xs"
  shows "filter P (xs[i := x]) = filter P (take i xs) @ (if P x then [x] else []) @ filter P (drop (Suc i) xs)"
  using assms by (simp add: upd_conv_take_nth_drop)

lemma filter_split:
  assumes "i < length xs"
  shows "filter P xs = filter P (take i xs) @ (if P (xs ! i) then [xs ! i] else []) @ filter P (drop (Suc i) xs)"
  using filter_update [OF assms, of P "xs ! i"] by simp

lemma add_ok:
  assumes "allowlist_ok al" "length a = 6" "a \<noteq> zero_addr" "a \<notin> set (addr_allow_list al)" "slot_holding zero_addr al = Some i"
  shows "allowlist_ok (al\<lparr>addr_allow_list := (addr_allow_list al)[i := a]\<rparr>)"
    "allowed_set (al\<lparr>addr_allow_list := (addr_allow_list al)[i := a]\<rparr>) = insert a (allowed_set al)"
proof -
  let ?xs = "addr_allow_list al"
  have i: "i < length ?xs" "?xs ! i = zero_addr" using find_slot(1) [OF assms(5)] assms(1) by (auto simp: allowlist_ok_def)
  have d: "distinct (filter (\<lambda>a. a \<noteq> zero_addr) (take i ?xs) @ filter (\<lambda>a. a \<noteq> zero_addr) (drop (Suc i) ?xs))"
    using assms(1) filter_split [OF i(1), of "\<lambda>a. a \<noteq> zero_addr"] i(2) by (simp add: allowlist_ok_def)
  have n: "a \<notin> set (take i ?xs)" "a \<notin> set (drop (Suc i) ?xs)"
    using assms(4) set_take_subset [of i ?xs] set_drop_subset [of "Suc i" ?xs] by auto
  show "allowlist_ok (al\<lparr>addr_allow_list := ?xs[i := a]\<rparr>)"
    using assms(1,2) d n filter_update [OF i(1), of "\<lambda>a. a \<noteq> zero_addr" a]
    by (auto simp: allowlist_ok_def dest: subsetD [OF set_update_subset_insert])
  have "set ?xs = set (take i ?xs) \<union> {zero_addr} \<union> set (drop (Suc i) ?xs)"
    using i by (metis Un_insert_right id_take_nth_drop list.simps(15) set_append sup_bot_right Un_assoc Un_commute insert_is_Un)
  moreover have "set (?xs[i := a]) = set (take i ?xs) \<union> {a} \<union> set (drop (Suc i) ?xs)"
    using i(1) by (simp add: upd_conv_take_nth_drop)
  ultimately show "allowed_set (al\<lparr>addr_allow_list := ?xs[i := a]\<rparr>) = insert a (allowed_set al)"
    using assms(3) by (auto simp: allowed_set_def)
qed


lemma allowed_card: "allowlist_ok al \<Longrightarrow> card (allowed_set al) = length (filter (\<lambda>a. a \<noteq> zero_addr) (addr_allow_list al))"
proof -
  assume "allowlist_ok al"
  then have "card (set (filter (\<lambda>a. a \<noteq> zero_addr) (addr_allow_list al))) = length (filter (\<lambda>a. a \<noteq> zero_addr) (addr_allow_list al))"
    by (intro distinct_card) (simp add: allowlist_ok_def)
  moreover have "set (filter (\<lambda>a. a \<noteq> zero_addr) (addr_allow_list al)) = allowed_set al" by (auto simp: allowed_set_def)
  ultimately show ?thesis by (simp only:)
qed

lemma free_slot_iff: "allowlist_ok al \<Longrightarrow> zero_addr \<in> set (addr_allow_list al) \<longleftrightarrow> card (allowed_set al) < 4"
proof -
  assume ok: "allowlist_ok al"
  let ?P = "\<lambda>a. a \<noteq> zero_addr" and ?xs = "addr_allow_list al"
  have "length (filter ?P ?xs) + length (filter (\<lambda>a. \<not> ?P a) ?xs) = 4"
    using ok sum_length_filter_compl [of ?P ?xs] by (simp add: allowlist_ok_def)
  moreover have "zero_addr \<in> set ?xs \<longleftrightarrow> filter (\<lambda>a. \<not> ?P a) ?xs \<noteq> []" by (auto simp: filter_empty_conv)
  ultimately show ?thesis using allowed_card [OF ok] by (cases "filter (\<lambda>a. \<not> ?P a) ?xs") auto
qed

lemma to_property_same [simp]:
  "addr_allow_list (update_allowlist_to_property al) = addr_allow_list al"
  "enforced (update_allowlist_to_property al) = enforced al"
  "enabled_property (update_allowlist_to_property al) = enabled_property al"
  "list_property (update_allowlist_to_property al) = Some (allowlist_string (addr_allow_list al))"
  "allowed_set (update_allowlist_to_property al) = allowed_set al"
  "allowlist_ok (update_allowlist_to_property al) = allowlist_ok al"
  by (simp_all add: update_allowlist_to_property_def Let_def allowed_set_def allowlist_ok_def)

lemma add_spec:
  assumes "allowlist_ok al" "length a = 6" "a \<noteq> zero_addr" "uni_bt_allowlist_add_addr a al = (ok, al')"
  shows "allowlist_ok al'" "ok \<longleftrightarrow> a \<notin> allowed_set al \<and> card (allowed_set al) < 4"
    "allowed_set al' = (if ok then insert a (allowed_set al) else allowed_set al)" "enforced al' = enforced al"
proof -
  have m: "a \<in> set (addr_allow_list al) \<longleftrightarrow> a \<in> allowed_set al" using assms(3) by (auto simp: allowed_set_def)
  have len: "length (addr_allow_list al) = 4" using assms(1) by (simp add: allowlist_ok_def)
  consider "a \<in> set (addr_allow_list al)" | "a \<notin> set (addr_allow_list al)" "slot_holding zero_addr al = None"
    | i where "a \<notin> set (addr_allow_list al)" "slot_holding zero_addr al = Some i" by fastforce
  then have "allowlist_ok al' \<and> (ok \<longleftrightarrow> a \<notin> allowed_set al \<and> card (allowed_set al) < 4) \<and>
    allowed_set al' = (if ok then insert a (allowed_set al) else allowed_set al) \<and> enforced al' = enforced al"
  proof cases
    case 1
    then show ?thesis using assms(1,4) m by (auto simp: uni_bt_allowlist_add_addr_def is_address_in_allowlist_def)
  next
    case 2
    then have "\<not> card (allowed_set al) < 4" using find_slot(2) [OF 2(2) len] free_slot_iff [OF assms(1)] by simp
    then show ?thesis using 2 assms(1,4) by (auto simp: uni_bt_allowlist_add_addr_def is_address_in_allowlist_def)
  next
    case 3
    then have "zero_addr \<in> set (addr_allow_list al)" using find_slot(1) [OF 3(2)] len by (metis nth_mem)
    then have free: "card (allowed_set al) < 4" using free_slot_iff [OF assms(1)] by simp
    have e: "ok" "al' = update_allowlist_to_property (al\<lparr>addr_allow_list := (addr_allow_list al)[i := a]\<rparr>)"
      using 3 assms(4) by (simp_all add: uni_bt_allowlist_add_addr_def is_address_in_allowlist_def)
    show ?thesis using 3(1) m free add_ok [OF assms(1-3) 3] by (simp add: e)
  qed
  then show "allowlist_ok al'" "ok \<longleftrightarrow> a \<notin> allowed_set al \<and> card (allowed_set al) < 4"
    "allowed_set al' = (if ok then insert a (allowed_set al) else allowed_set al)" "enforced al' = enforced al" by auto
qed

lemma remove_slot_ok:
  assumes "allowlist_ok al" "a \<noteq> zero_addr" "slot_holding a al = Some i"
  shows "allowlist_ok (al\<lparr>addr_allow_list := (addr_allow_list al)[i := zero_addr]\<rparr>)"
    "allowed_set (al\<lparr>addr_allow_list := (addr_allow_list al)[i := zero_addr]\<rparr>) = allowed_set al - {a}"
proof -
  let ?xs = "addr_allow_list al" and ?P = "\<lambda>a. a \<noteq> zero_addr"
  have i: "i < length ?xs" "?xs ! i = a" using find_slot(1) [OF assms(3)] assms(1) by (auto simp: allowlist_ok_def)
  have f: "filter ?P ?xs = filter ?P (take i ?xs) @ a # filter ?P (drop (Suc i) ?xs)"
    using filter_split [OF i(1), of ?P] i(2) assms(2) by simp
  then have d: "distinct (filter ?P (take i ?xs) @ a # filter ?P (drop (Suc i) ?xs))"
    using assms(1) by (simp add: allowlist_ok_def)
  have u: "filter ?P (?xs[i := zero_addr]) = filter ?P (take i ?xs) @ filter ?P (drop (Suc i) ?xs)"
    using filter_update [OF i(1), of ?P zero_addr] by simp
  show "allowlist_ok (al\<lparr>addr_allow_list := ?xs[i := zero_addr]\<rparr>)"
    using assms(1) d u by (auto simp: allowlist_ok_def dest: subsetD [OF set_update_subset_insert])
  have "set (?xs[i := zero_addr]) - {zero_addr} = set (filter ?P (?xs[i := zero_addr]))" by auto
  also have "\<dots> = set (filter ?P ?xs) - {a}" using u f d by auto
  also have "\<dots> = allowed_set al - {a}" by (auto simp: allowed_set_def)
  finally show "allowed_set (al\<lparr>addr_allow_list := ?xs[i := zero_addr]\<rparr>) = allowed_set al - {a}"
    by (simp add: allowed_set_def)
qed

lemma remove_spec:
  assumes "allowlist_ok al" "a \<noteq> zero_addr" "uni_bt_allowlist_remove_addr a al = (ok, al')"
  shows "allowlist_ok al'" "ok \<longleftrightarrow> a \<in> allowed_set al" "allowed_set al' = allowed_set al - {a}" "enforced al' = enforced al"
proof -
  have len: "length (addr_allow_list al) = 4" using assms(1) by (simp add: allowlist_ok_def)
  have "allowlist_ok al' \<and> (ok \<longleftrightarrow> a \<in> allowed_set al) \<and> allowed_set al' = allowed_set al - {a} \<and> enforced al' = enforced al"
  proof (cases "slot_holding a al")
    case None
    then show ?thesis using assms(1,3) find_slot(2) [OF None len] by (auto simp: uni_bt_allowlist_remove_addr_def allowed_set_def)
  next
    case (Some i)
    then have "addr_allow_list al ! i = a" "i < length (addr_allow_list al)" using find_slot(1) [OF Some] len by auto
    then have "a \<in> allowed_set al" using assms(2) by (auto simp: allowed_set_def)
    moreover have "ok" "al' = update_allowlist_to_property (al\<lparr>addr_allow_list := (addr_allow_list al)[i := zero_addr]\<rparr>)"
      using Some assms(3) by (simp_all add: uni_bt_allowlist_remove_addr_def)
    ultimately show ?thesis using remove_slot_ok [OF assms(1,2) Some] by simp
  qed
  then show "allowlist_ok al'" "ok \<longleftrightarrow> a \<in> allowed_set al" "allowed_set al' = allowed_set al - {a}" "enforced al' = enforced al"
    by auto
qed


section \<open>Restart\<close>

lemma load_Nil [simp]: "load_addrs [] al = al"
  by (simp add: load_addrs.simps)

abbreviation entry :: "bd_addr \<Rightarrow> string" where
  "entry a \<equiv> bd_addr_to_str a @ '',''"

lemma load_entry:
  assumes "length a = 6"
  shows "load_addrs (entry a @ s) al = load_addrs s (snd (uni_bt_allowlist_add_addr a al))"
proof -
  have "length (bd_addr_to_str a) = 17" using bd_addr_to_str_length [of a] assms by (cases a) simp_all
  then have d: "drop addr_stride (entry a @ s) = s" by (simp add: addr_stride_def)
  have scan: "sscanf_bd_addr (entry a @ s) = Some a" using sscanf_text [OF assms] by simp
  have ne: "(entry a @ s = []) = False" by simp
  show ?thesis by (simp only: load_addrs.simps [of "entry a @ s"] ne if_False scan option.case d)
qed

lemma allowlist_string_text: "allowlist_string xs = concat (map entry (filter (\<lambda>a. a \<noteq> zero_addr) xs))"
  by (simp add: allowlist_string_def)

lemma allowlist_string_zeros [simp]: "allowlist_string (xs @ replicate n zero_addr) = allowlist_string xs"
  by (simp add: allowlist_string_def)

lemma add_next:
  assumes "addr_allow_list al = zs @ replicate (Suc k) zero_addr" "length zs + Suc k = 4" "zero_addr \<notin> set zs"
    "a \<notin> set zs" "a \<noteq> zero_addr"
  shows "snd (uni_bt_allowlist_add_addr a al) =
    update_allowlist_to_property (al\<lparr>addr_allow_list := (zs @ [a]) @ replicate k zero_addr\<rparr>)"
proof -
  have "slot_holding zero_addr al = Some (length zs)"
    unfolding slot_holding_def max_allowlist_def find_Some_iff
    using assms(1,2,3) by (intro exI [of _ "length zs"]) (auto simp: nth_append in_set_conv_nth)
  moreover have "a \<notin> set (addr_allow_list al)" using assms by simp
  moreover have "(addr_allow_list al)[length zs := a] = (zs @ [a]) @ replicate k zero_addr"
    by (simp add: assms(1) list_update_append)
  ultimately show ?thesis by (simp add: uni_bt_allowlist_add_addr_def is_address_in_allowlist_def)
qed

lemma load_text:
  assumes "addr_allow_list al = zs @ replicate k zero_addr" "length zs + k = 4" "length ys \<le> k"
    "distinct (zs @ ys)" "zero_addr \<notin> set (zs @ ys)" "\<forall>a\<in>set ys. length a = 6"
  shows "load_addrs (concat (map entry ys)) al =
    al\<lparr>addr_allow_list := (zs @ ys) @ replicate (k - length ys) zero_addr,
       list_property := (if ys = [] then list_property al else Some (allowlist_string (zs @ ys))),
       list_stores := list_stores al @ map (\<lambda>n. allowlist_string (zs @ take (Suc n) ys)) [0..<length ys]\<rparr>"
  using assms
proof (induction ys arbitrary: al zs k)
  case Nil
  then show ?case by simp
next
  case (Cons a ys)
  then obtain j where j: "k = Suc j" by (cases k) auto
  let ?al = "update_allowlist_to_property (al\<lparr>addr_allow_list := (zs @ [a]) @ replicate j zero_addr\<rparr>)"
  have "load_addrs (concat (map entry (a # ys))) al = load_addrs (concat (map entry ys)) (snd (uni_bt_allowlist_add_addr a al))"
    using load_entry [of a "concat (map entry ys)" al] Cons.prems by simp
  also have "snd (uni_bt_allowlist_add_addr a al) = ?al"
    by (rule add_next) (use Cons.prems j in auto)
  also have "load_addrs (concat (map entry ys)) ?al =
    ?al\<lparr>addr_allow_list := ((zs @ [a]) @ ys) @ replicate (j - length ys) zero_addr,
       list_property := (if ys = [] then list_property ?al else Some (allowlist_string ((zs @ [a]) @ ys))),
       list_stores := list_stores ?al @ map (\<lambda>n. allowlist_string ((zs @ [a]) @ take (Suc n) ys)) [0..<length ys]\<rparr>"
    by (rule Cons.IH) (use Cons.prems j in auto)
  also have "list_stores ?al = list_stores al @ [allowlist_string (zs @ [a])]"
    using allowlist_string_zeros [of "zs @ [a]" j] by (simp add: update_allowlist_to_property_def Let_def)
  also have "map (\<lambda>n. allowlist_string ((zs @ [a]) @ take (Suc n) ys)) [0..<length ys] =
    map (\<lambda>n. allowlist_string (zs @ take (Suc n) (a # ys))) [1..<Suc (length ys)]"
    by (simp only: One_nat_def map_Suc_upt [symmetric] map_map) (simp add: comp_def)
  finally show ?case
    using allowlist_string_zeros [of "zs @ [a]" j]
    by (simp add: update_allowlist_to_property_def Let_def j upt_conv_Cons del: upt_Suc)
qed

text \<open>What is stored is what is held.\<close>

definition allowlist_synced :: "allowlist \<Rightarrow> bool" where
  "allowlist_synced al \<longleftrightarrow>
     (list_property al = Some (allowlist_string (addr_allow_list al)) \<or> list_property al = None \<and> allowed_set al = {}) \<and>
     (enabled_property al = Some (if enforced al then 1 else 0) \<or> enabled_property al = None \<and> \<not> enforced al)"

lemma allowlist_text_short:
  assumes "allowlist_ok al"
  shows "length (allowlist_string (addr_allow_list al)) \<le> 72"
proof -
  let ?ys = "filter (\<lambda>a. a \<noteq> zero_addr) (addr_allow_list al)"
  have six: "length a = 6" if "a \<in> set ?ys" for a using that assms by (auto simp: allowlist_ok_def)
  have "length (entry a) = 18" if "a \<in> set ?ys" for a
    using bd_addr_to_str_length [of a] six [OF that] by (cases a) simp_all
  then have "map (length \<circ> entry) ?ys = map (\<lambda>a. 18) ?ys" by simp
  then have "length (concat (map entry ?ys)) = 18 * length ?ys"
    by (simp only: length_concat map_map sum_list_triv map_replicate_const sum_list_replicate) simp
  moreover have "length ?ys \<le> 4" using assms length_filter_le [of _ "addr_allow_list al"] by (simp add: allowlist_ok_def)
  ultimately show ?thesis by (simp only: allowlist_string_text)
qed

lemma restart_text:
  assumes "allowlist_ok al" "list_property al = Some (allowlist_string (addr_allow_list al))"
  defines "ys \<equiv> filter (\<lambda>a. a \<noteq> zero_addr) (addr_allow_list al)"
  shows "addr_allow_list (uni_bt_allowlist_init (power_on al)) = ys @ replicate (4 - length ys) zero_addr"
    "list_stores (uni_bt_allowlist_init (power_on al)) = list_stores al @ map (\<lambda>n. allowlist_string (take (Suc n) ys)) [0..<length ys]"
    "list_property (uni_bt_allowlist_init (power_on al)) = list_property al"
    "enforced (uni_bt_allowlist_init (power_on al)) = (case enabled_property al of None \<Rightarrow> False | Some v \<Rightarrow> v \<noteq> 0)"
    "enabled_property (uni_bt_allowlist_init (power_on al)) = enabled_property al"
proof -
  let ?on = "case enabled_property al of None \<Rightarrow> False | Some v \<Rightarrow> v \<noteq> 0"
  let ?al = "power_on al\<lparr>enforced := ?on\<rparr>"
  have get: "list_property_get ?al = Some (concat (map entry ys))"
    using allowlist_text_short [OF assms(1)] assms(2)
    by (simp add: list_property_get_def power_on_def property_string_max_def allowlist_string_text ys_def)
  have "load_addrs (concat (map entry ys)) ?al =
    ?al\<lparr>addr_allow_list := ([] @ ys) @ replicate (4 - length ys) zero_addr,
       list_property := (if ys = [] then list_property ?al else Some (allowlist_string ([] @ ys))),
       list_stores := list_stores ?al @ map (\<lambda>n. allowlist_string ([] @ take (Suc n) ys)) [0..<length ys]\<rparr>"
    by (rule load_text)
       (use assms(1) length_filter_le [of _ "addr_allow_list al"]
        in \<open>auto simp: ys_def power_on_def max_allowlist_def allowlist_ok_def\<close>)
  moreover have "allowlist_string ys = allowlist_string (addr_allow_list al)" by (simp add: ys_def allowlist_string_def)
  ultimately have "uni_bt_allowlist_init (power_on al) =
    ?al\<lparr>addr_allow_list := ys @ replicate (4 - length ys) zero_addr, list_property := list_property al,
       list_stores := list_stores al @ map (\<lambda>n. allowlist_string (take (Suc n) ys)) [0..<length ys]\<rparr>"
    using get assms(2) by (simp add: uni_bt_allowlist_init_def update_allowlist_from_property_def power_on_def)
  then show "addr_allow_list (uni_bt_allowlist_init (power_on al)) = ys @ replicate (4 - length ys) zero_addr"
    "list_stores (uni_bt_allowlist_init (power_on al)) = list_stores al @ map (\<lambda>n. allowlist_string (take (Suc n) ys)) [0..<length ys]"
    "list_property (uni_bt_allowlist_init (power_on al)) = list_property al"
    "enforced (uni_bt_allowlist_init (power_on al)) = ?on"
    "enabled_property (uni_bt_allowlist_init (power_on al)) = enabled_property al"
    by (simp_all add: power_on_def)
qed


text \<open>Every use of the list from the first boot on.\<close>

inductive allow_run :: "allowlist \<Rightarrow> bool" where
  allow_fresh: "allow_run fresh_allowlist"
| allow_add: "allow_run al \<Longrightarrow> length a = 6 \<Longrightarrow> a \<noteq> zero_addr \<Longrightarrow> allow_run (snd (uni_bt_allowlist_add_addr a al))"
| allow_remove: "allow_run al \<Longrightarrow> a \<noteq> zero_addr \<Longrightarrow> allow_run (snd (uni_bt_allowlist_remove_addr a al))"
| allow_clear: "allow_run al \<Longrightarrow> allow_run (uni_bt_allowlist_remove_all al)"
| allow_enable: "allow_run al \<Longrightarrow> allow_run (uni_bt_allowlist_set_enabled on al)"
| allow_restart: "allow_run al \<Longrightarrow> allow_run (uni_bt_allowlist_init (power_on al))"

lemma synced_to_property:
  "allowlist_synced al \<Longrightarrow> enabled_property al' = enabled_property al \<Longrightarrow> enforced al' = enforced al \<Longrightarrow>
   allowlist_synced (update_allowlist_to_property al')"
  by (simp add: allowlist_synced_def)

lemma blank_list_ok: "addr_allow_list al = replicate 4 zero_addr \<Longrightarrow> allowlist_ok al \<and> allowed_set al = {}"
  by (simp add: allowlist_ok_def allowed_set_def)

lemma restart_ok:
  assumes "allowlist_ok al" "allowlist_synced al"
  shows "allowlist_ok (uni_bt_allowlist_init (power_on al))" "allowlist_synced (uni_bt_allowlist_init (power_on al))"
    "allowed_set (uni_bt_allowlist_init (power_on al)) = allowed_set al"
    "enforced (uni_bt_allowlist_init (power_on al)) = enforced al"
proof -
  let ?al = "uni_bt_allowlist_init (power_on al)" and ?ys = "filter (\<lambda>a. a \<noteq> zero_addr) (addr_allow_list al)"
  have e: "(case enabled_property al of None \<Rightarrow> False | Some v \<Rightarrow> v \<noteq> 0) = enforced al"
    using assms(2) by (auto simp: allowlist_synced_def split: if_splits)
  have "allowlist_ok ?al \<and> allowlist_synced ?al \<and> allowed_set ?al = allowed_set al \<and> enforced ?al = enforced al"
  proof (cases "list_property al")
    case None
    then have "?al = power_on al\<lparr>enforced := enforced al\<rparr>" using e
      by (simp add: uni_bt_allowlist_init_def update_allowlist_from_property_def list_property_get_def power_on_def)
    moreover have "allowed_set al = {}" using assms(2) None by (simp add: allowlist_synced_def)
    ultimately show ?thesis using assms(2) None blank_list_ok [of ?al]
      by (simp add: power_on_def max_allowlist_def allowlist_synced_def)
  next
    case (Some t)
    then have p: "list_property al = Some (allowlist_string (addr_allow_list al))"
      using assms(2) by (simp add: allowlist_synced_def)
    note R = restart_text [OF assms(1) p]
    have l: "length ?ys \<le> 4" using assms(1) length_filter_le [of _ "addr_allow_list al"] by (simp add: allowlist_ok_def)
    have f: "allowlist_string (?ys @ replicate (4 - length ?ys) zero_addr) = allowlist_string (addr_allow_list al)"
      by (simp add: allowlist_string_def)
    have "allowlist_ok ?al" using assms(1) l R(1) by (auto simp: allowlist_ok_def)
    moreover have "allowed_set ?al = allowed_set al" using R(1) by (auto simp: allowed_set_def)
    moreover have "enforced ?al = enforced al" by (simp add: R(4) e)
    moreover have "allowlist_synced ?al"
      unfolding allowlist_synced_def R(1) f R(3,5) \<open>enforced ?al = enforced al\<close>
      using p assms(2) by (simp add: allowlist_synced_def)
    ultimately show ?thesis by blast
  qed
  then show "allowlist_ok ?al" "allowlist_synced ?al" "allowed_set ?al = allowed_set al" "enforced ?al = enforced al"
    by blast+
qed

lemma allow_run_ok: "allow_run al \<Longrightarrow> allowlist_ok al \<and> allowlist_synced al"
proof (induction rule: allow_run.induct)
  case allow_fresh
  show ?case using blank_list_ok [of fresh_allowlist]
    by (simp add: fresh_allowlist_def max_allowlist_def allowlist_synced_def)
next
  case (allow_add al a)
  then show ?case using add_spec(1) [of al a] synced_to_property [of al]
    by (auto simp: uni_bt_allowlist_add_addr_def split: option.splits)
next
  case (allow_remove al a)
  then show ?case using remove_spec(1) [of al a] synced_to_property [of al]
    by (auto simp: uni_bt_allowlist_remove_addr_def split: option.splits)
next
  case (allow_clear al)
  then show ?case using blank_list_ok [of "al\<lparr>addr_allow_list := replicate 4 zero_addr\<rparr>"]
    by (auto simp: uni_bt_allowlist_remove_all_def max_allowlist_def intro: synced_to_property)
next
  case (allow_enable al on)
  then show ?case by (auto simp: uni_bt_allowlist_set_enabled_def allowlist_ok_def allowlist_synced_def allowed_set_def)
qed (use restart_ok in blast)

lemmas restart_of_run = restart_ok [OF allow_run_ok [THEN conjunct1] allow_run_ok [THEN conjunct2]]

text \<open>C37: The list and its switch survive a restart: whatever was added, removed, cleared, switched and
  restarted before, the same addresses are held and the same addresses are allowed after the next boot.\<close>

theorem allowlist_survives_restart:
  assumes "allow_run al" "a \<noteq> zero_addr"
  shows "allowed_set (uni_bt_allowlist_init (power_on al)) = allowed_set al \<and>
    uni_bt_allowlist_is_allowed_addr a (uni_bt_allowlist_init (power_on al)) = uni_bt_allowlist_is_allowed_addr a al"
proof -
  have "a \<in> set (addr_allow_list x) \<longleftrightarrow> a \<in> allowed_set x" for x using assms(2) by (simp add: allowed_set_def)
  then show ?thesis using restart_of_run(3,4) [OF assms(1) assms(1)]
    by (simp add: uni_bt_allowlist_is_allowed_addr_def is_address_in_allowlist_def)
qed

definition xbox_addr :: bd_addr where "xbox_addr = [0x44, 0x16, 0x22, 0xAB, 0xCD, 0xEF]"
definition spare_addr :: bd_addr where "spare_addr = [0x98, 0x7A, 0x14, 1, 2, 3]"

definition two_allowed :: allowlist where
  "two_allowed = uni_bt_allowlist_set_enabled True
     (snd (uni_bt_allowlist_add_addr spare_addr (snd (uni_bt_allowlist_add_addr xbox_addr fresh_allowlist))))"

lemma two_allowed_run: "allow_run two_allowed"
  unfolding two_allowed_def by (intro allow_enable allow_add allow_fresh) code_simp+

theorem allowlist_survives_restart_witness:
  "uni_bt_allowlist_is_allowed_addr spare_addr (uni_bt_allowlist_init (power_on two_allowed))"
proof -
  have "spare_addr \<noteq> zero_addr" by code_simp
  from allowlist_survives_restart [OF two_allowed_run this] show ?thesis by code_simp
qed

text \<open>The restart stores the list again after every address it reads back, each time with the addresses
  read so far: a reset in between leaves a list that ends there, and the next boot holds no more.\<close>

theorem allowlist_restart_window:
  assumes "allow_run al" "list_property al \<noteq> None"
  defines "ys \<equiv> filter (\<lambda>a. a \<noteq> zero_addr) (addr_allow_list al)"
  shows "list_stores (uni_bt_allowlist_init (power_on al)) =
      list_stores al @ map (\<lambda>n. allowlist_string (take (Suc n) ys)) [0..<length ys] \<and>
    (\<forall>n<length ys. allowed_set (uni_bt_allowlist_init (power_on
        (al\<lparr>list_property := Some (allowlist_string (take (Suc n) ys))\<rparr>))) = set (take (Suc n) ys))"
proof -
  have ok: "allowlist_ok al" and p: "list_property al = Some (allowlist_string (addr_allow_list al))"
    using allow_run_ok [OF assms(1)] assms(2) by (auto simp: allowlist_synced_def)
  have ys: "zero_addr \<notin> set ys" "distinct ys" "length ys \<le> 4" "\<forall>a\<in>set ys. length a = 6"
    using ok length_filter_le [of _ "addr_allow_list al"] by (auto simp: ys_def allowlist_ok_def)
  have "allowed_set (uni_bt_allowlist_init (power_on (al\<lparr>list_property := Some (allowlist_string (take (Suc n) ys))\<rparr>)))
    = set (take (Suc n) ys)" for n
  proof -
    let ?zs = "take (Suc n) ys" and ?as = "take (Suc n) ys @ replicate (4 - length (take (Suc n) ys)) zero_addr"
    let ?al = "al\<lparr>list_property := Some (allowlist_string ?zs)\<rparr>"
    let ?bl = "?al\<lparr>addr_allow_list := ?as\<rparr>"
    have z: "zero_addr \<notin> set ?zs" "\<forall>a\<in>set ?zs. length a = 6" using ys set_take_subset [of "Suc n" ys] by auto
    have f: "filter (\<lambda>a. a \<noteq> zero_addr) ?zs = ?zs" using z(1) by (simp add: filter_id_conv) (metis)
    have "allowlist_ok ?bl" using ys z f by (auto simp: allowlist_ok_def)
    moreover have "list_property ?bl = Some (allowlist_string (addr_allow_list ?bl))" by simp
    ultimately have "addr_allow_list (uni_bt_allowlist_init (power_on ?bl)) = ?zs @ replicate (4 - length ?zs) zero_addr"
      using restart_text(1) [of ?bl] f by simp
    moreover have "power_on ?bl = power_on ?al" by (simp add: power_on_def)
    ultimately show ?thesis using z(1) by (auto simp: allowed_set_def)
  qed
  then show ?thesis using restart_text(2) [OF ok p] by (simp add: ys_def)
qed

theorem allowlist_restart_window_witness:
  "allowed_set (uni_bt_allowlist_init (power_on
     (two_allowed\<lparr>list_property := Some (allowlist_string [xbox_addr])\<rparr>))) = {xbox_addr} \<and>
   list_property two_allowed = Some (allowlist_string [xbox_addr, spare_addr])"
proof -
  have "list_property two_allowed \<noteq> None" by code_simp
  note W = allowlist_restart_window [OF two_allowed_run this]
  have f: "filter (\<lambda>a. a \<noteq> zero_addr) (addr_allow_list two_allowed) = [xbox_addr, spare_addr]" by code_simp
  have "list_property two_allowed = Some (allowlist_string [xbox_addr, spare_addr])" by code_simp
  with W [THEN conjunct2, rule_format, of 0] show ?thesis by (simp add: f)
qed

end
