(* ===== verification/Ble_Adv.thy ===== *)
theory Ble_Adv
  imports Ble_Link_Laws Allowlist_Laws
begin

text \<open>
  How an advertisement becomes a connection attempt: what the parser of the advertising data yields, when
  it reads past its end, and which advertisements are answered.
\<close>

section \<open>Advertising data\<close>

text \<open>An advertisement as its elements, each a type and its data.\<close>

definition encode_element :: "u8 \<times> u8 list \<Rightarrow> u8 list" where
  "encode_element e = of_nat (length (snd e) + 1) # fst e # snd e"

definition encode_ad :: "(u8 \<times> u8 list) list \<Rightarrow> u8 list" where
  "encode_ad es = concat (map encode_element es)"

definition reads_two_bytes :: "u8 \<Rightarrow> bool" where
  "reads_two_bytes ty \<longleftrightarrow> ty \<in> {ad_appearance, ad_class_of_device, ad_hash_c, ad_randomizer_r, ad_device_id}"

definition is_name :: "u8 \<Rightarrow> bool" where
  "is_name ty \<longleftrightarrow> ty = ad_shortened_name \<or> ty = ad_complete_name"

text \<open>The effect of an element on the appearance and the name found so far.\<close>

definition element_effect :: "u8 \<times> u8 list \<Rightarrow> u16 \<times> u8 list \<Rightarrow> u16 \<times> u8 list" where
  "element_effect e st =
     (if is_name (fst e) then (fst st, snd e)
      else if fst e = ad_appearance then (ucast (snd e ! 0) OR push_bit 8 (ucast (snd e ! 1)), snd st)
      else st)"

definition element_wf :: "u8 \<times> u8 list \<Rightarrow> bool" where
  "element_wf e \<longleftrightarrow> (reads_two_bytes (fst e) \<longrightarrow> 2 \<le> length (snd e)) \<and> length (snd e) < name_buffer_size"

lemmas ad_types = ad_shortened_name_def ad_complete_name_def ad_class_of_device_def ad_hash_c_def ad_randomizer_r_def
  ad_device_id_def ad_appearance_def

lemma element_length: "element_wf e \<Longrightarrow> unat (of_nat (length (snd e) + 1) :: u8) = length (snd e) + 1"
  using unat_of_nat [of "length (snd e) + 1", where ?'a = 8] by (simp add: element_wf_def name_buffer_size_def)

lemma read_not_name: "reads_two_bytes ty \<Longrightarrow> \<not> is_name ty"
  by (auto simp: reads_two_bytes_def is_name_def ad_types)

lemma ad_element_name:
  "is_name (data ! (i + 1)) \<Longrightarrow> ad_element data i (a, nm) =
     (if unat (data ! i) - 1 < name_buffer_size then Some (a, take (unat (data ! i) - 1) (drop (i + 2) data)) else None)"
  by (simp only: ad_element_def Let_def prod.case is_name_def if_True)

lemma ad_element_read:
  assumes "reads_two_bytes (data ! (i + 1))"
  shows "ad_element data i (a, nm) =
    map_option (\<lambda>v. if data ! (i + 1) = ad_appearance then (v, nm) else (a, nm)) (read_16 data (i + 2))"
proof -
  have "\<not> (data ! (i + 1) = ad_shortened_name \<or> data ! (i + 1) = ad_complete_name)"
    using read_not_name [OF assms] by (simp add: is_name_def)
  moreover have "data ! (i + 1) = ad_class_of_device \<or> data ! (i + 1) = ad_hash_c \<or> data ! (i + 1) = ad_randomizer_r \<or>
      data ! (i + 1) = ad_device_id" if "data ! (i + 1) \<noteq> ad_appearance"
    using assms that by (simp add: reads_two_bytes_def)
  ultimately show ?thesis by (cases "data ! (i + 1) = ad_appearance") (simp_all add: ad_element_def Let_def)
qed

lemma ad_element_other:
  "\<not> is_name (data ! (i + 1)) \<Longrightarrow> \<not> reads_two_bytes (data ! (i + 1)) \<Longrightarrow> ad_element data i (a, nm) = Some (a, nm)"
  by (simp add: ad_element_def Let_def is_name_def reads_two_bytes_def)

lemma element_here:
  assumes "element_wf e" "data = pre @ encode_element e @ post"
  shows "ad_iterator_has_more data (length pre)" "unat (data ! length pre) = length (snd e) + 1"
    "ad_element data (length pre) st = Some (element_effect e st)"
proof -
  have n: "data ! length pre = of_nat (length (snd e) + 1)" "data ! (length pre + 1) = fst e"
    by (simp_all add: assms(2) encode_element_def nth_append)
  have n2: "data ! Suc (length pre) = fst e" using n(2) by simp
  show u: "unat (data ! length pre) = length (snd e) + 1" using element_length [OF assms(1)] by (simp only: n)
  have "length data = length pre + 2 + length (snd e) + length post" by (simp add: assms(2) encode_element_def)
  moreover have "data ! length pre \<noteq> 0" using u by (metis Suc_eq_plus1 nat.distinct(1) unsigned_0)
  ultimately show "ad_iterator_has_more data (length pre)" using u by (simp add: ad_iterator_has_more_def)
  have d: "drop (Suc (Suc (length pre))) data = snd e @ post" by (simp add: assms(2) encode_element_def)
  have r: "read_16 data (length pre + 2) = Some (ucast (snd e ! 0) OR push_bit 8 (ucast (snd e ! 1)))"
    if "2 \<le> length (snd e)"
  proof -
    have "data ! (length pre + 2) = snd e ! 0" "data ! (length pre + 2 + 1) = snd e ! 1"
      using that by (auto simp: assms(2) encode_element_def nth_append)
    then show ?thesis using that by (simp add: read_16_def assms(2) encode_element_def)
  qed
  obtain a nm where st: "st = (a, nm)" by fastforce
  show "ad_element data (length pre) st = Some (element_effect e st)"
  proof (cases "reads_two_bytes (fst e)")
    case True
    then have "2 \<le> length (snd e)" using assms(1) by (simp add: element_wf_def)
    from r [OF this] show ?thesis
      using ad_element_read [of data "length pre" a nm] True read_not_name [OF True] by (simp add: st n2 element_effect_def)
  next
    case False
    then have na: "fst e \<noteq> ad_appearance" by (auto simp: reads_two_bytes_def)
    show ?thesis
    proof (cases "is_name (fst e)")
      case True
      then show ?thesis using ad_element_name [of data "length pre" a nm] assms(1)
        by (simp add: st n2 u d element_effect_def element_wf_def del: drop_append)
    next
      case no: False
      then show ?thesis using ad_element_other [of data "length pre" a nm] False na by (simp add: st n2 element_effect_def)
    qed
  qed
qed

lemma parse_encoded:
  assumes "\<forall>e\<in>set es. element_wf e"
  shows "get_advertisement_data (pre @ encode_ad es @ post) (length pre) st =
    get_advertisement_data (pre @ encode_ad es @ post) (length pre + length (encode_ad es)) (fold element_effect es st)"
  using assms
proof (induction es arbitrary: pre st)
  case Nil
  then show ?case by (simp add: encode_ad_def)
next
  case (Cons e es)
  let ?data = "pre @ encode_ad (e # es) @ post"
  have w: "element_wf e" using Cons.prems by simp
  have data: "?data = pre @ encode_element e @ (encode_ad es @ post)" "?data = (pre @ encode_element e) @ encode_ad es @ post"
    by (simp_all add: encode_ad_def)
  note H = element_here [OF w data(1)]
  have l: "length pre + 1 + (length (snd e) + 1) = length (pre @ encode_element e)" by (simp add: encode_element_def)
  have "get_advertisement_data ?data (length pre) st =
    get_advertisement_data ?data (length (pre @ encode_element e)) (element_effect e st)"
    by (subst get_advertisement_data.simps) (simp only: H if_True Option.bind.simps l)
  also have "\<dots> = get_advertisement_data ?data (length (pre @ encode_element e) + length (encode_ad es))
      (fold element_effect es (element_effect e st))"
    unfolding data(2) by (rule Cons.IH) (use Cons.prems in simp)
  finally show ?case by (simp add: encode_ad_def add.assoc)
qed

text \<open>C34: The parser of advertising data is exact on well-formed data, and memory safe: of an advertisement made of
  elements whose two-byte fields are complete, it yields the appearance and the name of the last such
  elements, with no access outside the data or the name buffer.\<close>

theorem adv_parse_exact:
  assumes "\<forall>e\<in>set es. element_wf e"
  shows "adv_event_get_data (encode_ad es) = Some (fold element_effect es (0, []))"
proof -
  have "\<not> ad_iterator_has_more (encode_ad es) (length (encode_ad es))" by (simp add: ad_iterator_has_more_def)
  then have "get_advertisement_data (encode_ad es) (length (encode_ad es)) st = Some st" for st
    by (simp add: get_advertisement_data.simps)
  then show ?thesis using parse_encoded [OF assms, of "[]" "[]" "(0, [])"] by (simp add: adv_event_get_data_def)
qed

definition xbox_ad :: "(u8 \<times> u8 list) list" where
  "xbox_ad = [(0x01, [0x06]), (ad_appearance, [0xC4, 0x03]), (ad_complete_name, [0x58, 0x62, 0x6F, 0x78])]"

theorem adv_parse_exact_witness:
  "adv_event_get_data [2, 0x01, 0x06, 3, 0x19, 0xC4, 0x03, 5, 0x09, 0x58, 0x62, 0x6F, 0x78] =
     Some (0x3C4, [0x58, 0x62, 0x6F, 0x78])"
proof -
  have "\<forall>e\<in>set xbox_ad. element_wf e" by code_simp
  moreover have "encode_ad xbox_ad = [2, 0x01, 0x06, 3, 0x19, 0xC4, 0x03, 5, 0x09, 0x58, 0x62, 0x6F, 0x78]"
    "fold element_effect xbox_ad (0, []) = (0x3C4, [0x58, 0x62, 0x6F, 0x78])"
    by code_simp+
  ultimately show ?thesis using adv_parse_exact [of xbox_ad] by simp
qed

text \<open>An advertisement whose last element is such a field with a single byte passes the iterator, and the parser
  reads one byte past the data.\<close>

theorem adv_overread:
  assumes "\<forall>e\<in>set es. element_wf e" "reads_two_bytes ty"
  shows "adv_event_get_data (encode_ad es @ [2, ty, b]) = None"
proof -
  let ?data = "encode_ad es @ [2, ty, b]" and ?o = "length (encode_ad es)"
  have more: "ad_iterator_has_more ?data ?o" by (simp add: ad_iterator_has_more_def nth_append)
  have ty: "?data ! (?o + 1) = ty" by (simp add: nth_append)
  have "read_16 ?data (?o + 2) = None" by (simp add: read_16_def)
  then have "ad_element ?data ?o st = None" for st
    using assms(2) ty ad_element_read [of ?data ?o] by (cases st) (simp del: nth_append)
  then have "get_advertisement_data ?data ?o st = None" for st
    using more by (subst get_advertisement_data.simps) simp
  then show ?thesis using parse_encoded [OF assms(1), of "[]" "[2, ty, b]" "(0, [])"] by (simp add: adv_event_get_data_def)
qed

theorem adv_overread_witness: "adv_event_get_data [2, 0x01, 0x06, 2, 0x19, 0xC4] = None"
proof -
  have "\<forall>e\<in>set [(0x01 :: u8, [0x06 :: u8])]. element_wf e" "reads_two_bytes 0x19" by code_simp+
  moreover have "encode_ad [(0x01, [0x06])] @ [2, 0x19, 0xC4] = [2, 0x01, 0x06, 2, 0x19, 0xC4]" by code_simp
  ultimately show ?thesis using adv_overread [of "[(0x01, [0x06])]" "0x19" "0xC4"] by simp
qed


section \<open>Admission\<close>

lemma appearance_supported: "cod_of_appearance ap = Some c \<Longrightarrow> uni_hid_device_is_cod_supported c"
proof -
  have "uni_hid_device_is_cod_supported (cod_major_peripheral OR m)"
    if "m \<in> {cod_minor_mice, cod_minor_joystick, cod_minor_gamepad, cod_minor_keyboard}" for m
  proof -
    have "\<forall>m\<in>set [cod_minor_mice, cod_minor_joystick, cod_minor_gamepad, cod_minor_keyboard].
        uni_hid_device_is_cod_supported (cod_major_peripheral OR m)" by code_simp
    then show ?thesis using that by auto
  qed
  then show "cod_of_appearance ap = Some c \<Longrightarrow> ?thesis" by (auto simp: cod_of_appearance_def split: if_splits)
qed

lemma free_entry: "link_ok l \<Longrightarrow> d < 4 \<Longrightarrow> btaddr (table l ! d) = zero_addr \<Longrightarrow> table l ! d = init_slot"
  using link_ok_entry by (auto simp: entry_ok_def)

text \<open>An entry that has just been created for an advertisement.\<close>

definition awaiting :: "bd_addr \<Rightarrow> u32 \<Rightarrow> nat \<Rightarrow> ble_slot \<Rightarrow> bool" where
  "awaiting a c due s \<longleftrightarrow> btaddr s = a \<and> conn_state s = STATE_DISCOVERED \<and> cod s = c \<and> con_handle s = 0 \<and>
     hids_cid s = 0 \<and> connection_timer s = Some due \<and> protocol s = PROTOCOL_BLE \<and> \<not> driver_timer s \<and> misc_delay_timer s = None"

definition admits :: "bd_addr \<Rightarrow> u16 \<Rightarrow> u8 \<Rightarrow> link \<Rightarrow> bool" where
  "admits a ap r l \<longleftrightarrow> a \<noteq> zero_addr \<and> (\<forall>d<4. btaddr (table l ! d) \<noteq> a) \<and> (\<exists>d<4. btaddr (table l ! d) = zero_addr) \<and>
     cod_of_appearance ap \<noteq> None \<and> uni_bt_allowlist_is_allowed_addr a (allow l) \<and> 155 \<le> r"

lemma report_admitted:
  assumes "link_ok l" "admits a ap r l" "adv_event_get_data data = Some (ap, nm)"
  obtains k d c where "uni_bt_le_on_gap_event_advertising_report a ty data r l = Some k" "d < 4" "cod_of_appearance ap = Some c"
    "table l ! d = init_slot" "find_device (\<lambda>s. btaddr s = zero_addr) l = Some d"
    "awaiting a c (now_ms l + hid_device_connection_timeout_ms) (table k ! d)" "\<forall>e. e \<noteq> d \<longrightarrow> table k ! e = table l ! e"
    "gap_calls k = gap_calls l @ [Gap_stop_scan, Gap_connect a ty]" "now_ms k = now_ms l" "is_scanning k = is_scanning l"
    "bt_scanning_enabled k = bt_scanning_enabled l" "length (table k) = 4"
proof -
  have len: "length (table l) = 4" using assms(1) by (simp add: link_ok_def)
  obtain c where c: "cod_of_appearance ap = Some c" using assms(2) by (auto simp: admits_def)
  have new: "uni_hid_device_get_instance_for_address a l = None"
    using assms(2) unfolding uni_hid_device_get_instance_for_address_def find_device_def find_None_iff
    by (auto simp: admits_def max_devices_def)
  have disc: "uni_hid_device_on_device_discovered a c r l"
    using assms(2) appearance_supported [OF c] by (simp add: admits_def uni_hid_device_on_device_discovered_def not_less)
  obtain d where d: "find_device (\<lambda>s. btaddr s = zero_addr) l = Some d"
    using assms(2) find_device_None [of "\<lambda>s. btaddr s = zero_addr" l] unfolding admits_def by (metis not_None_eq)
  have d4: "d < 4" "btaddr (table l ! d) = zero_addr" using find_device_Some [OF d] by auto
  define f where "f = (\<lambda>s. (uni_hid_device_set_name (c_name nm) (uni_hid_device_set_cod c s))\<lparr>protocol := PROTOCOL_BLE, conn_rssi := r\<rparr>)"
  define m where "m = start_connection_timeout d (on_platform (uni_hid_device_create d) (wipe d (zero_slot\<lparr>btaddr := a\<rparr>) l))"
  define k where "k = hog_connect a ty (uni_bt_conn_set_state d STATE_DISCOVERED (upd_slot d f m))"
  have mk: "link_create a l = (Some d, m)" by (simp add: link_create_def d m_def)
  have r: "uni_bt_le_on_gap_event_advertising_report a ty data r l = Some k"
    using new disc by (simp add: uni_bt_le_on_gap_event_advertising_report_def assms(3) c mk k_def f_def)
  have tm: "table m = (table l)[d := zero_slot\<lparr>btaddr := a, connection_timer := Some (now_ms l + hid_device_connection_timeout_ms)\<rparr>]"
    using d4(1) len by (simp add: m_def start_connection_timeout_def link_simps)
  then have tk: "table k = (table l)[d := (f (zero_slot\<lparr>btaddr := a, connection_timer := Some (now_ms l + hid_device_connection_timeout_ms)\<rparr>))
      \<lparr>conn_state := STATE_DISCOVERED\<rparr>]"
    using d4(1) len by (simp add: k_def hog_connect_def link_simps)
  have same: "gap_calls m = gap_calls l" "now_ms m = now_ms l" "is_scanning m = is_scanning l" "bt_scanning_enabled m = bt_scanning_enabled l"
    by (simp_all add: m_def start_connection_timeout_def on_platform_def wipe_def upd_slot_def Let_def)
  have "gap_calls k = gap_calls l @ [Gap_stop_scan, Gap_connect a ty]" "now_ms k = now_ms l" "is_scanning k = is_scanning l"
    "bt_scanning_enabled k = bt_scanning_enabled l"
    by (simp_all add: k_def hog_connect_def call_gap_def uni_bt_conn_set_state_def on_platform_def upd_slot_def same)
  moreover have "awaiting a c (now_ms l + hid_device_connection_timeout_ms) (table k ! d)"
    using d4(1) len
    by (simp add: tk awaiting_def f_def zero_slot_def uni_hid_device_set_name_def uni_hid_device_set_cod_def)
  moreover have "\<forall>e. e \<noteq> d \<longrightarrow> table k ! e = table l ! e" "length (table k) = 4" using len by (simp_all add: tk)
  ultimately show ?thesis using that r d4 c d free_entry [OF assms(1) d4] by blast
qed

lemma report_refused:
  assumes "\<not> admits a ap r l" "adv_event_get_data data = Some (ap, nm)"
  shows "uni_bt_le_on_gap_event_advertising_report a ty data r l = Some l"
proof (rule ccontr)
  assume n: "uni_bt_le_on_gap_event_advertising_report a ty data r l \<noteq> Some l"
  then have new: "uni_hid_device_get_instance_for_address a l = None" and "cod_of_appearance ap \<noteq> None"
    and ok: "\<And>c. cod_of_appearance ap = Some c \<Longrightarrow> uni_hid_device_on_device_discovered a c r l"
    by (auto simp: uni_bt_le_on_gap_event_advertising_report_def assms(2) split: if_splits option.splits)
  then obtain c where c: "cod_of_appearance ap = Some c" by blast
  have "find_device (\<lambda>s. btaddr s = zero_addr) l \<noteq> None"
  proof
    assume "find_device (\<lambda>s. btaddr s = zero_addr) l = None"
    then have "link_create a l = (None, l)" by (simp add: link_create_def)
    then show False using n new ok [OF c] by (simp add: uni_bt_le_on_gap_event_advertising_report_def assms(2) c)
  qed
  then obtain d where d: "d < 4" "btaddr (table l ! d) = zero_addr" using find_device_Some by blast
  have other: "\<forall>e<4. btaddr (table l ! e) \<noteq> a"
    using find_device_None [OF new [unfolded uni_hid_device_get_instance_for_address_def]] by blast
  then have "a \<noteq> zero_addr" using d by auto
  then have "admits a ap r l"
    using d other c ok [OF c] by (auto simp: admits_def uni_hid_device_on_device_discovered_def not_less)
  then show False using assms(1) by simp
qed

text \<open>C33: An advertisement is answered exactly if it names a controller: its address is not zero and not in the table,
  the table has a free entry, its appearance is a mouse, keyboard, joystick or gamepad, the allowlist
  lets it in and the signal is at least 155. Then one free entry is taken, with a deadline twenty seconds
  away, the scan is stopped and the connection requested; otherwise nothing at all happens.\<close>

theorem advertisement_admits:
  assumes "link_run ms l" "adv_event_get_data data = Some (ap, nm)"
  shows "\<exists>k. handle ms S (Advertising_report a ty data r) l = Some k \<and>
    (if admits a ap r l
     then gap_calls k = gap_calls l @ [Gap_stop_scan, Gap_connect a ty] \<and>
          (\<exists>d<4. \<exists>c. cod_of_appearance ap = Some c \<and> table l ! d = init_slot \<and>
             awaiting a c (now_ms l + 20000) (table k ! d) \<and> (\<forall>e. e \<noteq> d \<longrightarrow> table k ! e = table l ! e))
     else k = l)"
proof (cases "admits a ap r l")
  case False
  then show ?thesis using report_refused [OF False assms(2)] by simp
next
  case True
  have "link_ok l" using link_run_ok [OF assms(1)] by simp
  then obtain k d c where "uni_bt_le_on_gap_event_advertising_report a ty data r l = Some k" "d < 4" "cod_of_appearance ap = Some c"
    "table l ! d = init_slot" "awaiting a c (now_ms l + hid_device_connection_timeout_ms) (table k ! d)"
    "\<forall>e. e \<noteq> d \<longrightarrow> table k ! e = table l ! e" "gap_calls k = gap_calls l @ [Gap_stop_scan, Gap_connect a ty]"
    by (rule report_admitted [OF _ True assms(2)]) blast
  then show ?thesis using True by (auto simp: hid_device_connection_timeout_ms_def)
qed

definition xbox_data :: "u8 list" where
  "xbox_data = [2, 0x01, 0x06, 3, 0x19, 0xC4, 0x03, 5, 0x09, 0x58, 0x62, 0x6F, 0x78]"

lemma xbox_data_parsed: "adv_event_get_data xbox_data = Some (0x3C4, [0x58, 0x62, 0x6F, 0x78])"
proof -
  have "\<forall>e\<in>set xbox_ad. element_wf e" by code_simp
  moreover have "encode_ad xbox_ad = xbox_data" by code_simp
  moreover have "fold element_effect xbox_ad (0, []) = (0x3C4, [0x58, 0x62, 0x6F, 0x78])" by code_simp
  moreover have "get_advertisement_data xbox_data (length xbox_data) st = Some st" for st
    by (simp add: get_advertisement_data.simps ad_iterator_has_more_def)
  ultimately show ?thesis using parse_encoded [of xbox_ad "[]" "[]" "(0, [])"] by (simp add: adv_event_get_data_def)
qed

lemma boot_admits: "admits xbox_addr 0x3C4 200 (link_boot fresh_allowlist)"
proof -
  have "xbox_addr \<noteq> zero_addr" by code_simp
  moreover have "uni_bt_allowlist_is_allowed_addr xbox_addr fresh_allowlist"
    by (simp add: uni_bt_allowlist_is_allowed_addr_def fresh_allowlist_def)
  moreover have "cod_of_appearance 0x3C4 \<noteq> None" by (simp add: cod_of_appearance_def appearance_gamepad_def)
  moreover have "(155 :: u8) \<le> 200" by simp
  moreover have "table (link_boot fresh_allowlist) ! d = init_slot" if "d < 4" for d
    using that by (simp add: link_boot_def max_devices_def)
  ultimately show ?thesis by (auto simp: admits_def link_boot_def init_slot_def zero_slot_def max_devices_def intro: exI [of _ 0])
qed

theorem advertisement_admits_witness:
  "\<exists>k. handle xbox_maps \<lparr>gap_type = \<lambda>_. GAP_CONNECTION_INVALID, hids_connect = \<lambda>_. (0, 1)\<rparr>
     (Advertising_report xbox_addr 0 xbox_data 200) (link_boot fresh_allowlist) = Some k \<and>
     gap_calls k = [Gap_stop_scan, Gap_connect xbox_addr 0]"
  using advertisement_admits [OF link_start xbox_data_parsed, of xbox_maps
      "\<lparr>gap_type = \<lambda>_. GAP_CONNECTION_INVALID, hids_connect = \<lambda>_. (0, 1)\<rparr>" xbox_addr 0 200 fresh_allowlist] boot_admits
  by (auto simp: link_boot_def)

end
