(* ===== verification/Circular_Buffer.thy ===== *)
theory Circular_Buffer
  imports Prelude
begin

text \<open>
  The outgoing reports of a controller: \<^verbatim>\<open>uni_circular_buffer.c\<close> and the report functions of
  \<^verbatim>\<open>uni_hid_device.c\<close>. What a queue promises is the locale \<open>bounded_fifo\<close>; the ring buffer is its
  instance. A pointer to a packet is its index. The L2CAP channel is a parameter: sending yields
  whether the stack took the report.
\<close>

section \<open>The ring buffer\<close>

definition circular_buffer_size :: nat where "circular_buffer_size = 32"
definition circular_buffer_data_size :: nat where "circular_buffer_data_size = 128"

datatype cb_error = CB_OK | CB_FULL | CB_EMPTY | CB_TOO_BIG

record cb_packet =
  pk_cid :: u16
  pk_data :: "u8 list"
  pk_len :: nat

record circular_buffer =
  packets :: "cb_packet list"
  head_idx :: nat
  tail_idx :: nat

definition cb_is_empty :: "circular_buffer \<Rightarrow> bool" where
  "cb_is_empty b \<longleftrightarrow> head_idx b = tail_idx b"

definition cb_is_full :: "circular_buffer \<Rightarrow> bool" where
  "cb_is_full b \<longleftrightarrow> tail_idx b + 1 = head_idx b \<or> head_idx b = 0 \<and> tail_idx b = circular_buffer_size - 1"

definition cb_put :: "circular_buffer \<Rightarrow> u16 \<Rightarrow> u8 list \<Rightarrow> cb_error \<times> circular_buffer" where
  "cb_put b cid data =
     (if cb_is_full b then (CB_FULL, b)
      else if length data \<ge> circular_buffer_data_size then (CB_TOO_BIG, b)
      else
        (let slot = packets b ! tail_idx b;
             b1 = b\<lparr>packets := (packets b)[tail_idx b :=
                      \<lparr>pk_cid = cid, pk_data = memcpy_at (pk_data slot) 0 data, pk_len = length data\<rparr>]\<rparr>;
             t = tail_idx b + 1
         in (CB_OK, b1\<lparr>tail_idx := (if t = circular_buffer_size then 0 else t)\<rparr>)))"

definition cb_get :: "circular_buffer \<Rightarrow> cb_error \<times> (u16 \<times> nat \<times> nat) option \<times> circular_buffer" where
  "cb_get b =
     (if cb_is_empty b then (CB_EMPTY, None, b)
      else
        (let slot = packets b ! head_idx b; h = head_idx b + 1
         in (CB_OK, Some (pk_cid slot, head_idx b, pk_len slot),
             b\<lparr>head_idx := (if h = circular_buffer_size then 0 else h)\<rparr>)))"

definition cb_reset :: "circular_buffer \<Rightarrow> circular_buffer" where
  "cb_reset b = b\<lparr>head_idx := 0, tail_idx := 0\<rparr>"

text \<open>The bytes behind the pointer that \<open>cb_get\<close> hands out.\<close>

definition cb_bytes :: "circular_buffer \<Rightarrow> nat \<Rightarrow> nat \<Rightarrow> u8 list" where
  "cb_bytes b i len = take len (pk_data (packets b ! i))"

section \<open>What a bounded queue promises\<close>

datatype 'a queue_op = Put 'a | Get

text \<open>A run yields the accepted elements and the delivered ones.\<close>

fun queue_run :: "('q \<Rightarrow> 'a \<Rightarrow> bool \<times> 'q) \<Rightarrow> ('q \<Rightarrow> ('a \<times> 'q) option) \<Rightarrow> 'a queue_op list \<Rightarrow> 'q \<Rightarrow> 'a list \<times> 'a list \<times> 'q" where
  "queue_run put get [] q = ([], [], q)"
| "queue_run put get (Put x # ops) q =
     (let (took, q1) = put q x; (ins, outs, q2) = queue_run put get ops q1 in (if took then x # ins else ins, outs, q2))"
| "queue_run put get (Get # ops) q =
     (case get q of
        None \<Rightarrow> queue_run put get ops q
      | Some (x, q1) \<Rightarrow> (let (ins, outs, q2) = queue_run put get ops q1 in (ins, x # outs, q2)))"

locale bounded_fifo =
  fixes put :: "'q \<Rightarrow> 'a \<Rightarrow> bool \<times> 'q"
    and get :: "'q \<Rightarrow> ('a \<times> 'q) option"
    and content :: "'q \<Rightarrow> 'a list"
    and ok :: "'q \<Rightarrow> bool"
    and fits :: "'a \<Rightarrow> bool"
    and capacity :: nat
  assumes put_takes: "ok q \<Longrightarrow> length (content q) < capacity \<Longrightarrow> fits x \<Longrightarrow>
      fst (put q x) \<and> ok (snd (put q x)) \<and> content (snd (put q x)) = content q @ [x]"
    and put_refuses: "ok q \<Longrightarrow> \<not> (length (content q) < capacity \<and> fits x) \<Longrightarrow> put q x = (False, q)"
    and get_none: "ok q \<Longrightarrow> content q = [] \<Longrightarrow> get q = None"
    and get_some: "ok q \<Longrightarrow> content q = x # xs \<Longrightarrow> \<exists>q'. get q = Some (x, q') \<and> ok q' \<and> content q' = xs"
    and bounded: "ok q \<Longrightarrow> length (content q) \<le> capacity"
begin

lemma put_ok: "ok q \<Longrightarrow> ok (snd (put q x))"
  using put_takes [of q x] put_refuses [of q x] by (cases "length (content q) < capacity \<and> fits x") auto

text \<open>First in, first out: what comes out and what is left is what was there and what went in.\<close>

lemma run_fifo:
  "ok q \<Longrightarrow> queue_run put get ops q = (ins, outs, q') \<Longrightarrow> ok q' \<and> outs @ content q' = content q @ ins"
proof (induction ops arbitrary: q ins outs q')
  case Nil
  then show ?case by simp
next
  case (Cons op ops)
  show ?case
  proof (cases op)
    case (Put x)
    obtain took q1 where p: "put q x = (took, q1)" by fastforce
    obtain ins1 outs1 q2 where r: "queue_run put get ops q1 = (ins1, outs1, q2)" by (metis prod.exhaust)
    have e: "q' = q2" "outs = outs1" "ins = (if took then x # ins1 else ins1)" using Cons.prems(2) by (auto simp: Put p r)
    show ?thesis
    proof (cases "length (content q) < capacity \<and> fits x")
      case True
      then have "took" "ok q1" "content q1 = content q @ [x]" using put_takes [OF Cons.prems(1), of x] p by auto
      then show ?thesis using Cons.IH [OF _ r] e by simp
    next
      case False
      then have "\<not> took" "q1 = q" using put_refuses [OF Cons.prems(1) False] p by auto
      then show ?thesis using Cons.IH [OF _ r] Cons.prems(1) e by simp
    qed
  next
    case Get
    show ?thesis
    proof (cases "content q = []")
      case True
      then show ?thesis using get_none [OF Cons.prems(1)] Cons.IH [OF Cons.prems(1)] Cons.prems(2) Get by simp
    next
      case False
      then obtain x xs where "content q = x # xs" by (cases "content q") auto
      then obtain q1 where g: "get q = Some (x, q1)" "ok q1" "content q1 = xs" using get_some [OF Cons.prems(1)] by blast
      obtain ins1 outs1 q2 where r: "queue_run put get ops q1 = (ins1, outs1, q2)" by (metis prod.exhaust)
      then show ?thesis using Cons.IH [OF g(2) r] Cons.prems(2) g \<open>content q = x # xs\<close> by (auto simp: Get)
    qed
  qed
qed

lemma run_bounded: "ok q \<Longrightarrow> queue_run put get ops q = (ins, outs, q') \<Longrightarrow> length (content q') \<le> capacity"
  using run_fifo bounded by blast

lemma drain:
  "ok q \<Longrightarrow> content q = xs \<Longrightarrow> queue_run put get (replicate (length xs) Get) q = (ins, outs, q') \<Longrightarrow> outs = xs"
proof (induction xs arbitrary: q ins outs q')
  case (Cons x xs)
  obtain q1 where g: "get q = Some (x, q1)" "ok q1" "content q1 = xs" using get_some [OF Cons.prems(1,2)] by blast
  obtain i o1 q2 where r: "queue_run put get (replicate (length xs) Get) q1 = (i, o1, q2)" by (metis prod.exhaust)
  from Cons.IH [OF g(2,3) r] Cons.prems(3) g(1) r show ?case by simp
qed simp

text \<open>An element put into a queue with room comes out right after those that were there before.\<close>

lemma served_in_turn:
  assumes "ok q" "length (content q) < capacity" "fits x"
    "queue_run put get (replicate (Suc (length (content q))) Get) (snd (put q x)) = (ins, outs, q')"
  shows "outs = content q @ [x]"
proof -
  have c: "ok (snd (put q x))" "content (snd (put q x)) = content q @ [x]" using put_takes [OF assms(1-3)] by auto
  show ?thesis by (rule drain [OF c]) (use assms(4) in simp)
qed

end

section \<open>The ring buffer is such a queue\<close>

definition cb_count :: "circular_buffer \<Rightarrow> nat" where
  "cb_count b = (if head_idx b \<le> tail_idx b then tail_idx b - head_idx b else tail_idx b + 32 - head_idx b)"

definition cb_at :: "circular_buffer \<Rightarrow> nat \<Rightarrow> nat" where
  "cb_at b k = (head_idx b + k) mod 32"

definition cb_entry :: "circular_buffer \<Rightarrow> nat \<Rightarrow> u16 \<times> u8 list" where
  "cb_entry b i = (pk_cid (packets b ! i), cb_bytes b i (pk_len (packets b ! i)))"

definition cb_content :: "circular_buffer \<Rightarrow> (u16 \<times> u8 list) list" where
  "cb_content b = map (\<lambda>k. cb_entry b (cb_at b k)) [0..<cb_count b]"

definition cb_ok :: "circular_buffer \<Rightarrow> bool" where
  "cb_ok b \<longleftrightarrow> length (packets b) = 32 \<and> head_idx b < 32 \<and> tail_idx b < 32 \<and> (\<forall>i<32. length (pk_data (packets b ! i)) = 128)"

definition fifo_put :: "circular_buffer \<Rightarrow> u16 \<times> u8 list \<Rightarrow> bool \<times> circular_buffer" where
  "fifo_put b x = (let (e, b') = cb_put b (fst x) (snd x) in (e = CB_OK, b'))"

definition fifo_get :: "circular_buffer \<Rightarrow> ((u16 \<times> u8 list) \<times> circular_buffer) option" where
  "fifo_get b = (case cb_get b of (_, Some (cid, i, len), b') \<Rightarrow> Some ((cid, cb_bytes b' i len), b') | (_, None, _) \<Rightarrow> None)"

definition fits_packet :: "u16 \<times> u8 list \<Rightarrow> bool" where
  "fits_packet x \<longleftrightarrow> length (snd x) < 128"

named_theorems ring_simps \<open>the arithmetic of ring positions\<close>

lemma cb_sizes [ring_simps]: "circular_buffer_size = 32" "circular_buffer_data_size = 128"
  by (simp_all add: circular_buffer_size_def circular_buffer_data_size_def)

lemma full_iff: "cb_ok b \<Longrightarrow> cb_is_full b \<longleftrightarrow> cb_count b = 31"
  by (auto simp: cb_is_full_def cb_count_def cb_ok_def ring_simps)

lemma empty_iff: "cb_ok b \<Longrightarrow> cb_is_empty b \<longleftrightarrow> cb_count b = 0"
  by (auto simp: cb_is_empty_def cb_count_def cb_ok_def)

lemma count_le: "cb_ok b \<Longrightarrow> cb_count b \<le> 31"
  by (auto simp: cb_count_def cb_ok_def)

lemma at_tail: "cb_ok b \<Longrightarrow> cb_at b (cb_count b) = tail_idx b"
  by (auto simp: cb_at_def cb_count_def cb_ok_def)

lemma at_used:
  assumes "cb_ok b" "k < cb_count b"
  shows "cb_at b k \<noteq> tail_idx b" "cb_at b k < 32"
proof -
  have lt: "head_idx b < 32" "tail_idx b < 32" using assms(1) by (simp_all add: cb_ok_def)
  have k: "head_idx b + k < tail_idx b \<or> tail_idx b < head_idx b \<and> head_idx b + k < tail_idx b + 32"
    using assms(2) unfolding cb_count_def by (cases "head_idx b \<le> tail_idx b") simp_all
  have "cb_at b k = (if head_idx b + k < 32 then head_idx b + k else head_idx b + k - 32)"
  proof (cases "head_idx b + k < 32")
    case False
    then have "head_idx b + k - 32 < 32" "32 \<le> head_idx b + k" using lt k by linarith+
    then show ?thesis unfolding cb_at_def le_mod_geq [OF \<open>32 \<le> head_idx b + k\<close>] by simp
  qed (simp add: cb_at_def)
  then show "cb_at b k \<noteq> tail_idx b" using lt k by (cases "head_idx b + k < 32") (simp_all, linarith+)
  show "cb_at b k < 32" by (simp add: cb_at_def)
qed

text \<open>What a put stores, when it is not refused.\<close>

definition stored :: "circular_buffer \<Rightarrow> u16 \<Rightarrow> u8 list \<Rightarrow> circular_buffer" where
  "stored b cid data = snd (cb_put b cid data)"

lemma put_stores:
  assumes "cb_ok b" "cb_count b < 31" "length data < 128"
  shows "fst (cb_put b cid data) = CB_OK" "cb_ok (stored b cid data)" "cb_count (stored b cid data) = Suc (cb_count b)"
    "head_idx (stored b cid data) = head_idx b" "cb_entry (stored b cid data) (tail_idx b) = (cid, data)"
    "\<And>i. i \<noteq> tail_idx b \<Longrightarrow> packets (stored b cid data) ! i = packets b ! i"
proof -
  have nf: "\<not> cb_is_full b" using full_iff [OF assms(1)] assms(2) by simp
  have len: "length (packets b) = 32" "tail_idx b < 32" "length (pk_data (packets b ! tail_idx b)) = 128"
    using assms(1) by (simp_all add: cb_ok_def)
  have p: "cb_put b cid data = (CB_OK, b\<lparr>packets := (packets b)[tail_idx b :=
      \<lparr>pk_cid = cid, pk_data = memcpy_at (pk_data (packets b ! tail_idx b)) 0 data, pk_len = length data\<rparr>],
      tail_idx := (if tail_idx b + 1 = 32 then 0 else tail_idx b + 1)\<rparr>)"
    using nf assms(3) by (simp add: cb_put_def ring_simps Let_def)
  show "fst (cb_put b cid data) = CB_OK" "head_idx (stored b cid data) = head_idx b"
    "\<And>i. i \<noteq> tail_idx b \<Longrightarrow> packets (stored b cid data) ! i = packets b ! i"
    by (simp_all add: stored_def p)
  show "cb_ok (stored b cid data)" using assms(1) len by (auto simp: stored_def p cb_ok_def nth_list_update)
  show "cb_count (stored b cid data) = Suc (cb_count b)"
    using assms(1,2) by (auto simp: stored_def p cb_ok_def cb_count_def split: if_splits)
  show "cb_entry (stored b cid data) (tail_idx b) = (cid, data)"
    using len assms(3) by (simp add: stored_def p cb_entry_def cb_bytes_def memcpy_at_def)
qed

lemma put_content:
  assumes "cb_ok b" "cb_count b < 31" "length data < 128"
  shows "cb_content (stored b cid data) = cb_content b @ [(cid, data)]"
proof -
  note P = put_stores [OF assms, where cid = cid]
  have at: "cb_at (stored b cid data) = cb_at b" by (rule ext) (simp add: cb_at_def P(4))
  have "cb_entry (stored b cid data) (cb_at b k) = cb_entry b (cb_at b k)" if "k < cb_count b" for k
    using P(6) [OF at_used(1) [OF assms(1) that]] by (simp add: cb_entry_def cb_bytes_def)
  then show ?thesis using P(5) at_tail [OF assms(1)] by (simp add: cb_content_def P(3) at)
qed

lemma get_head:
  assumes "cb_ok b" "0 < cb_count b"
  shows "\<exists>b'. cb_get b = (CB_OK, Some (pk_cid (packets b ! head_idx b), head_idx b, pk_len (packets b ! head_idx b)), b') \<and>
    cb_ok b' \<and> packets b' = packets b \<and> tail_idx b' = tail_idx b \<and>
    cb_content b = (pk_cid (packets b ! head_idx b), cb_bytes b (head_idx b) (pk_len (packets b ! head_idx b))) # cb_content b'"
proof -
  define c where "c = b\<lparr>head_idx := (if head_idx b + 1 = 32 then 0 else head_idx b + 1)\<rparr>"
  have c: "head_idx c = (if head_idx b + 1 = 32 then 0 else head_idx b + 1)" "packets c = packets b" "tail_idx c = tail_idx b"
    by (simp_all add: c_def)
  have g: "cb_get b = (CB_OK, Some (pk_cid (packets b ! head_idx b), head_idx b, pk_len (packets b ! head_idx b)), c)"
    using empty_iff [OF assms(1)] assms(2) by (simp add: c_def cb_get_def ring_simps Let_def)
  have ok: "cb_ok c" using assms(1) by (simp add: cb_ok_def c)
  have n: "cb_count b = Suc (cb_count c)" using assms by (auto simp: cb_count_def cb_ok_def c split: if_splits)
  have at0: "cb_at b 0 = head_idx b" using assms(1) by (simp add: cb_at_def cb_ok_def)
  have at: "cb_at c k = cb_at b (Suc k)" for k using assms(1) by (auto simp: cb_at_def cb_ok_def c)
  have e: "cb_entry c = cb_entry b" by (rule ext) (simp add: cb_entry_def cb_bytes_def c)
  have "cb_content b = cb_entry b (cb_at b 0) # map (\<lambda>k. cb_entry b (cb_at b (Suc k))) [0..<cb_count c]"
    unfolding cb_content_def n upt_conv_Cons [OF zero_less_Suc] map_Suc_upt [symmetric] by simp
  also have "\<dots> = cb_entry b (head_idx b) # cb_content c" by (simp add: cb_content_def at e at0)
  finally show ?thesis using g ok c by (simp add: cb_entry_def)
qed

interpretation ring: bounded_fifo fifo_put fifo_get cb_content cb_ok fits_packet 31
proof unfold_locales
  fix b x xs assume ok: "cb_ok b"
  have len: "length (cb_content b) = cb_count b" by (simp add: cb_content_def)
  have st: "fifo_put b x = (fst (cb_put b (fst x) (snd x)) = CB_OK, stored b (fst x) (snd x))"
    by (simp add: fifo_put_def stored_def split_def Let_def)
  show "fst (fifo_put b x) \<and> cb_ok (snd (fifo_put b x)) \<and> cb_content (snd (fifo_put b x)) = cb_content b @ [x]"
    if "length (cb_content b) < 31" "fits_packet x"
    using put_stores(1,2) [OF ok, of "snd x" "fst x"] put_content [OF ok, of "snd x" "fst x"] that
    by (simp add: st len fits_packet_def)
  show "fifo_put b x = (False, b)" if "\<not> (length (cb_content b) < 31 \<and> fits_packet x)"
    using that full_iff [OF ok] count_le [OF ok]
    by (auto simp: fifo_put_def cb_put_def len fits_packet_def ring_simps)
  show "fifo_get b = None" if "cb_content b = []"
    using that len empty_iff [OF ok] by (simp add: fifo_get_def cb_get_def)
  show "\<exists>b'. fifo_get b = Some (x, b') \<and> cb_ok b' \<and> cb_content b' = xs" if "cb_content b = x # xs"
    using get_head [OF ok] that len by (auto simp: fifo_get_def cb_bytes_def)
  show "length (cb_content b) \<le> 31" using count_le [OF ok] by (simp add: len)
qed

section \<open>Sending reports\<close>

text \<open>A channel takes a report for an L2CAP channel id, or refuses it for now.\<close>

type_synonym 'l l2cap = "u16 \<Rightarrow> u8 list \<Rightarrow> 'l \<Rightarrow> bool \<times> 'l"

record 'l outgoing =
  out_queue :: circular_buffer
  out_link :: 'l
  out_requests :: "u16 list"
  interrupt_cid :: u16
  control_cid :: u16

definition uni_hid_device_send_report :: "'l l2cap \<Rightarrow> u16 \<Rightarrow> u8 list \<Rightarrow> 'l outgoing \<Rightarrow> 'l outgoing" where
  "uni_hid_device_send_report L cid report q =
     (if cid = 0 then q
      else if report = [] then q
      else
        (let (sent, l) = L cid report (out_link q);
             q1 = q\<lparr>out_link := l\<rparr>;
             q2 = (if \<not> sent then q1\<lparr>out_queue := snd (cb_put (out_queue q1) cid report)\<rparr> else q1)
         in q2\<lparr>out_requests := out_requests q2 @ [cid]\<rparr>))"

definition uni_hid_device_send_intr_report :: "'l l2cap \<Rightarrow> u8 list \<Rightarrow> 'l outgoing \<Rightarrow> 'l outgoing" where
  "uni_hid_device_send_intr_report L report q = uni_hid_device_send_report L (interrupt_cid q) report q"

definition uni_hid_device_send_ctrl_report :: "'l l2cap \<Rightarrow> u8 list \<Rightarrow> 'l outgoing \<Rightarrow> 'l outgoing" where
  "uni_hid_device_send_ctrl_report L report q = uni_hid_device_send_report L (control_cid q) report q"

definition uni_hid_device_send_queued_reports :: "'l l2cap \<Rightarrow> 'l outgoing \<Rightarrow> 'l outgoing" where
  "uni_hid_device_send_queued_reports L q =
     (if cb_is_empty (out_queue q) then q
      else (case cb_get (out_queue q) of
              (_, Some (cid, i, len), b) \<Rightarrow> uni_hid_device_send_report L cid (cb_bytes b i len) (q\<lparr>out_queue := b\<rparr>)
            | (_, None, b) \<Rightarrow> q\<lparr>out_queue := b\<rparr>))"

section \<open>Properties\<close>

lemma length_content: "length (cb_content b) = cb_count b"
  by (simp add: cb_content_def)

lemma put_result:
  assumes "cb_ok b"
  shows "cb_content (snd (cb_put b cid data)) =
      (if length (cb_content b) < 31 \<and> length data < 128 then cb_content b @ [(cid, data)] else cb_content b)"
    and "cb_ok (snd (cb_put b cid data))"
proof -
  have "snd (fifo_put b (cid, data)) = snd (cb_put b cid data)" by (simp add: fifo_put_def split_def Let_def)
  then show "cb_ok (snd (cb_put b cid data))" using ring.put_ok [OF assms, of "(cid, data)"] by simp
  show "cb_content (snd (cb_put b cid data)) =
      (if length (cb_content b) < 31 \<and> length data < 128 then cb_content b @ [(cid, data)] else cb_content b)"
    using put_content [OF assms, of data cid] full_iff [OF assms] count_le [OF assms]
    by (auto simp: stored_def length_content cb_put_def ring_simps)
qed

definition cb_fresh :: circular_buffer where
  "cb_fresh = \<lparr>packets = replicate 32 \<lparr>pk_cid = 0, pk_data = replicate 128 0, pk_len = 0\<rparr>, head_idx = 0, tail_idx = 0\<rparr>"

lemma fresh_ok: "cb_ok cb_fresh" "cb_content cb_fresh = []"
  by (simp_all add: cb_ok_def cb_fresh_def cb_content_def cb_count_def)

text \<open>C38: The ring buffer implements a queue of at most 31 packets: every operation, its error code included,
  is determined by the abstract list of packets, which a put extends at the end and a get shortens
  at the front; a packet of 128 bytes is refused although it would fit.\<close>

theorem ring_refines_queue:
  assumes "cb_ok b"
  shows "fst (cb_put b cid data) =
      (if length (cb_content b) = 31 then CB_FULL else if length data \<ge> 128 then CB_TOO_BIG else CB_OK) \<and>
    cb_content (snd (cb_put b cid data)) =
      (if length (cb_content b) = 31 \<or> length data \<ge> 128 then cb_content b else cb_content b @ [(cid, data)]) \<and>
    (case cb_content b of
       [] \<Rightarrow> cb_get b = (CB_EMPTY, None, b)
     | x # xs \<Rightarrow> \<exists>i len b'. cb_get b = (CB_OK, Some (fst x, i, len), b') \<and> cb_bytes b' i len = snd x \<and> cb_content b' = xs \<and> cb_ok b') \<and>
    (cb_is_empty b \<longleftrightarrow> cb_content b = []) \<and> (cb_is_full b \<longleftrightarrow> length (cb_content b) = 31) \<and>
    cb_content (cb_reset b) = [] \<and> cb_ok (snd (cb_put b cid data)) \<and> cb_ok (cb_reset b)"
proof (intro conjI)
  have le: "length (cb_content b) \<le> 31" by (rule ring.bounded [OF assms])
  show "fst (cb_put b cid data) =
      (if length (cb_content b) = 31 then CB_FULL else if length data \<ge> 128 then CB_TOO_BIG else CB_OK)"
    using full_iff [OF assms] by (simp add: cb_put_def length_content ring_simps Let_def)
  show "cb_content (snd (cb_put b cid data)) =
      (if length (cb_content b) = 31 \<or> length data \<ge> 128 then cb_content b else cb_content b @ [(cid, data)])"
    using put_result(1) [OF assms, of cid data] le by auto
  show "cb_ok (snd (cb_put b cid data))" by (rule put_result(2) [OF assms])
  show e: "cb_is_empty b \<longleftrightarrow> cb_content b = []" using empty_iff [OF assms] length_content [of b] by auto
  show "cb_is_full b \<longleftrightarrow> length (cb_content b) = 31" using full_iff [OF assms] by (simp add: length_content)
  show "cb_content (cb_reset b) = []" "cb_ok (cb_reset b)"
    using assms by (simp_all add: cb_reset_def cb_content_def cb_count_def cb_ok_def)
  show "case cb_content b of
       [] \<Rightarrow> cb_get b = (CB_EMPTY, None, b)
     | x # xs \<Rightarrow> \<exists>i len b'. cb_get b = (CB_OK, Some (fst x, i, len), b') \<and> cb_bytes b' i len = snd x \<and> cb_content b' = xs \<and> cb_ok b'"
  proof (cases "cb_content b")
    case Nil
    then show ?thesis using e by (simp add: cb_get_def)
  next
    case (Cons x xs)
    then have "0 < cb_count b" using length_content [of b] by simp
    from get_head [OF assms this] show ?thesis using Cons by (auto simp: cb_bytes_def)
  qed
qed

theorem ring_refines_queue_witness:
  "cb_content (snd (cb_put cb_fresh 65 [1, 2, 3])) = [(65, [1, 2, 3])] \<and> fst (cb_put cb_fresh 65 (replicate 128 0)) = CB_TOO_BIG"
  using ring_refines_queue [OF fresh_ok(1), of 65 "[1, 2, 3]"] ring_refines_queue [OF fresh_ok(1), of 65 "replicate 128 0"]
  by (simp add: fresh_ok(2))

text \<open>Packets leave the queue in the order in which they were accepted, over any sequence of puts and gets,
  and never more than 31 are held.\<close>

theorem queued_reports_in_order:
  assumes "cb_ok b" "queue_run fifo_put fifo_get ops b = (accepted, delivered, b')"
  shows "delivered @ cb_content b' = cb_content b @ accepted \<and> length (cb_content b') \<le> 31"
  using ring.run_fifo [OF assms] ring.run_bounded [OF assms] by simp

theorem queued_reports_in_order_witness:
  "\<exists>b'. queue_run fifo_put fifo_get [Put (65, [1]), Put (66, [2]), Get] cb_fresh = ([(65, [1]), (66, [2])], [(65, [1])], b')"
proof -
  obtain ins outs b' where r: "queue_run fifo_put fifo_get [Put (65, [1]), Put (66, [2]), Get] cb_fresh = (ins, outs, b')"
    by (metis prod.exhaust)
  have "ins = [(65, [1]), (66, [2])]" "length outs = 1"
    using r [symmetric] by (simp_all add: fifo_put_def fifo_get_def cb_put_def cb_get_def cb_is_full_def cb_is_empty_def cb_fresh_def ring_simps
        Let_def)
  with queued_reports_in_order [OF fresh_ok(1) r] fresh_ok(2) have "outs @ cb_content b' = [(65, [1]), (66, [2])]" "length outs = 1"
    by simp_all
  then have "outs = [(65, [1])]" by (cases outs) auto
  with r \<open>ins = _\<close> show ?thesis by blast
qed

text \<open>The slot whose address \<open>cb_get\<close> hands out is not the one the next put writes, so a queued report can be
  queued again from its own slot.\<close>

lemma pointer_stays_good:
  assumes "cb_ok b" "cb_get b = (CB_OK, Some (c, i, len), b')"
  shows "i \<noteq> tail_idx b'" "cb_bytes (snd (cb_put b' cid data)) i len = cb_bytes b' i len"
proof -
  have ne: "0 < cb_count b" using assms empty_iff [OF assms(1)] by (auto simp: cb_get_def split: if_splits)
  from get_head [OF assms(1) this] assms(2) have "i = head_idx b" "tail_idx b' = tail_idx b" by auto
  then show i: "i \<noteq> tail_idx b'" using ne by (auto simp: cb_count_def split: if_splits)
  then show "cb_bytes (snd (cb_put b' cid data)) i len = cb_bytes b' i len"
    by (auto simp: cb_put_def cb_bytes_def Let_def)
qed

text \<open>The order of output reports is not kept: a new report that the link takes overtakes those still
  queued, and a queued report that the link refuses once more goes to the end of the queue; a report
  that is refused while 31 are queued, or that has 128 bytes, is lost.\<close>

theorem reports_lose_order:
  assumes "cb_ok (out_queue q)" "cb_content (out_queue q) = (c, r) # rest" "c \<noteq> 0" "r \<noteq> []" "length r < 128"
    and "cid \<noteq> 0" "report \<noteq> []"
  shows "(fst (L cid report (out_link q)) \<longrightarrow>
      cb_content (out_queue (uni_hid_device_send_report L cid report q)) = (c, r) # rest) \<and>
    (\<not> fst (L c r (out_link q)) \<longrightarrow>
      cb_content (out_queue (uni_hid_device_send_queued_reports L q)) = rest @ [(c, r)]) \<and>
    (\<not> fst (L cid report (out_link q)) \<and> (length rest = 30 \<or> length report \<ge> 128) \<longrightarrow>
      cb_content (out_queue (uni_hid_device_send_report L cid report q)) = (c, r) # rest)"
proof (intro conjI impI)
  show "cb_content (out_queue (uni_hid_device_send_report L cid report q)) = (c, r) # rest" if "fst (L cid report (out_link q))"
    using that assms(2,6,7) by (simp add: uni_hid_device_send_report_def split_def Let_def)
  show "cb_content (out_queue (uni_hid_device_send_report L cid report q)) = (c, r) # rest"
    if "\<not> fst (L cid report (out_link q)) \<and> (length rest = 30 \<or> length report \<ge> 128)"
    using that assms(2,6,7) put_result(1) [OF assms(1), of cid report]
    by (auto simp: uni_hid_device_send_report_def split_def Let_def)
  have n: "0 < cb_count (out_queue q)" using length_content [of "out_queue q"] assms(2) by simp
  from get_head [OF assms(1) n] assms(2) obtain i len b where g: "cb_get (out_queue q) = (CB_OK, Some (c, i, len), b)" "cb_bytes b i len = r"
    "cb_content b = rest" "cb_ok b" by (auto simp: cb_bytes_def)
  have "length rest < 31" using ring.bounded [OF assms(1)] assms(2) by simp
  then have "cb_content (snd (cb_put b c r)) = rest @ [(c, r)]" using put_result(1) [OF g(4), of c r] g(3) assms(5) by simp
  then show "cb_content (out_queue (uni_hid_device_send_queued_reports L q)) = rest @ [(c, r)]" if "\<not> fst (L c r (out_link q))"
    using that g(1,2) assms(3,4) empty_iff [OF assms(1)] n
    by (simp add: uni_hid_device_send_queued_reports_def uni_hid_device_send_report_def split_def Let_def)
qed

definition two_waiting :: "unit outgoing" where
  "two_waiting = \<lparr>out_queue = snd (cb_put (snd (cb_put cb_fresh 65 [1])) 65 [2]), out_link = (), out_requests = [], interrupt_cid = 65,
     control_cid = 64\<rparr>"

theorem reports_lose_order_witness:
  "cb_content (out_queue (uni_hid_device_send_queued_reports (\<lambda>_ _ l. (False, l)) two_waiting)) = [(65, [2]), (65, [1])]"
proof -
  have ok: "cb_ok (snd (cb_put cb_fresh 65 [1]))" "cb_ok (out_queue two_waiting)"
    using put_result(2) fresh_ok(1) by (simp_all add: two_waiting_def)
  have "cb_content (snd (cb_put cb_fresh 65 [1])) = [(65, [1])]" using put_result(1) [OF fresh_ok(1)] fresh_ok(2) by simp
  then have "cb_content (out_queue two_waiting) = (65, [1]) # [(65, [2])]" using put_result(1) [OF ok(1)] by (simp add: two_waiting_def)
  from reports_lose_order [OF ok(2) this, of 1 "[0]" "\<lambda>_ _ l. (False, l)"] show ?thesis by simp
qed

end
