(* ===== verification/Xbox.thy ===== *)
theory Xbox
  imports Gamepad Circular_Buffer
begin

text \<open>
  The report parser of the Xbox controller: \<^verbatim>\<open>parser/uni_hid_parser.c\<close> and
  \<^verbatim>\<open>parser/uni_hid_parser_xboxone.c\<close>. BTstack's HID parser, which splits a report into
  fields along the descriptor, is not modelled: a report is the list of fields it yields. The
  rumble part is a state machine with two timers; sending a report over Bluetooth LE is a parameter
  that yields a status, over Bluetooth Classic it is the queue of \<open>Circular_Buffer\<close>. Log lines
  are left out.
\<close>

section \<open>Values\<close>

record hid_globals =
  logical_minimum :: int
  logical_maximum :: int
  report_size :: nat

definition axis_normalize_range :: int where "axis_normalize_range = 1024"

text \<open>The range of a field, with the correction of an unsigned maximum read as signed. \<open>None\<close> is signed
  overflow or a division by zero.\<close>

definition field_range :: "hid_globals \<Rightarrow> int option" where
  "field_range g =
     do { top \<leftarrow> (if logical_maximum g = -1
                 then (if report_size g < 31 then Some (2 ^ report_size g - 1) else None)
                 else Some (logical_maximum g));
          span \<leftarrow> i32 (top - logical_minimum g);
          i32 (span + 1) }"

definition uni_hid_parser_process_axis :: "hid_globals \<Rightarrow> u32 \<Rightarrow> int option" where
  "uni_hid_parser_process_axis g value =
     do { range \<leftarrow> field_range g;
          let centered = sint (value - of_int (c_div range 2) - of_int (logical_minimum g));
          scaled \<leftarrow> i32 (centered * axis_normalize_range);
          i32_div scaled range }"

definition uni_hid_parser_process_pedal :: "hid_globals \<Rightarrow> u32 \<Rightarrow> int option" where
  "uni_hid_parser_process_pedal g value =
     do { range \<leftarrow> field_range g;
          if range = 0 then None
          else Some (sint (value * of_int axis_normalize_range div of_int range)) }"

definition uni_hid_parser_process_hat :: "hid_globals \<Rightarrow> u32 \<Rightarrow> u8" where
  "uni_hid_parser_process_hat g value =
     (let v = sint value
      in if v < logical_minimum g \<or> v > logical_maximum g then 0xff else of_int (v - logical_minimum g))"

definition dpad_up :: u8 where "dpad_up = 1"
definition dpad_down :: u8 where "dpad_down = 2"
definition dpad_right :: u8 where "dpad_right = 4"
definition dpad_left :: u8 where "dpad_left = 8"

definition uni_hid_parser_process_dpad :: "u16 \<Rightarrow> u32 \<Rightarrow> u8 \<Rightarrow> u8" where
  "uni_hid_parser_process_dpad usage value dp =
     (let change = (\<lambda>m. if value \<noteq> 0 then dp OR m else dp AND NOT m)
      in if usage = 0x90 then change dpad_up
         else if usage = 0x91 then change dpad_down
         else if usage = 0x92 then change dpad_right
         else if usage = 0x93 then change dpad_left
         else dp)"

definition uni_hid_parser_hat_to_dpad :: "u8 \<Rightarrow> u8" where
  "uni_hid_parser_hat_to_dpad hat =
     (if hat = 0 then dpad_up
      else if hat = 1 then dpad_up OR dpad_right
      else if hat = 2 then dpad_right
      else if hat = 3 then dpad_right OR dpad_down
      else if hat = 4 then dpad_down
      else if hat = 5 then dpad_down OR dpad_left
      else if hat = 6 then dpad_left
      else if hat = 7 then dpad_left OR dpad_up
      else 0)"

section \<open>Usages\<close>

datatype xboxone_firmware = XBOXONE_FIRMWARE_V3_1 | XBOXONE_FIRMWARE_V4_8 | XBOXONE_FIRMWARE_V5

type_synonym xbox_input = "xboxone_firmware \<times> uni_controller"

definition trigger_button_threshold :: int where "trigger_button_threshold = 32"

definition on_gamepad :: "(uni_gamepad \<Rightarrow> uni_gamepad) \<Rightarrow> xbox_input \<Rightarrow> xbox_input" where
  "on_gamepad f s = (fst s, (snd s)\<lparr>gamepad := f (gamepad (snd s))\<rparr>)"

definition press :: "nat \<Rightarrow> u32 \<Rightarrow> xbox_input \<Rightarrow> xbox_input" where
  "press n value s =
     (if value \<noteq> 0 then on_gamepad (\<lambda>g. g\<lparr>gp_buttons := gp_buttons g OR push_bit n 1\<rparr>) s else s)"

definition press_misc :: "nat \<Rightarrow> u32 \<Rightarrow> xbox_input \<Rightarrow> xbox_input" where
  "press_misc n value s =
     (if value \<noteq> 0 then on_gamepad (\<lambda>g. g\<lparr>gp_misc_buttons := gp_misc_buttons g OR push_bit n 1\<rparr>) s else s)"

definition axis_to :: "(int \<Rightarrow> uni_gamepad \<Rightarrow> uni_gamepad) \<Rightarrow> int option \<Rightarrow> xbox_input \<Rightarrow> xbox_input option" where
  "axis_to f v s = map_option (\<lambda>x. on_gamepad (f x) s) v"

text \<open>What both firmware variants do on the desktop page, apart from the axes.\<close>

definition parse_desktop :: "hid_globals \<Rightarrow> u16 \<Rightarrow> u32 \<Rightarrow> xbox_input \<Rightarrow> xbox_input" where
  "parse_desktop g usage value s =
     (if usage = 0x39
      then on_gamepad (\<lambda>gp. gp\<lparr>gp_dpad := uni_hid_parser_hat_to_dpad (uni_hid_parser_process_hat g value)\<rparr>) s
      else if usage = 0x85 then press_misc 0 value s
      else if usage \<in> {0x90, 0x91, 0x92, 0x93}
      then on_gamepad (\<lambda>gp. gp\<lparr>gp_dpad := uni_hid_parser_process_dpad usage value (gp_dpad gp)\<rparr>) s
      else s)"

definition parse_battery :: "u16 \<Rightarrow> u32 \<Rightarrow> xbox_input \<Rightarrow> xbox_input" where
  "parse_battery usage value s = (if usage = 0x20 then (fst s, (snd s)\<lparr>ctl_battery := ucast value\<rparr>) else s)"

text \<open>The button usages of the two variants: the bit in \<open>buttons\<close> or in \<open>misc_buttons\<close> each sets.\<close>

datatype button_bit = Main nat | Misc nat

definition press_bit :: "button_bit \<Rightarrow> u32 \<Rightarrow> xbox_input \<Rightarrow> xbox_input" where
  "press_bit b value s = (case b of Main n \<Rightarrow> press n value s | Misc n \<Rightarrow> press_misc n value s)"

definition buttons_v3_1 :: "(u16 \<times> button_bit) list" where
  "buttons_v3_1 = [(0x01, Main 0), (0x02, Main 1), (0x03, Main 2), (0x04, Main 3), (0x05, Main 4), (0x06, Main 5),
     (0x07, Misc 1), (0x08, Misc 2), (0x09, Main 8), (0x0a, Main 9)]"

definition buttons_v4_v5 :: "(u16 \<times> button_bit) list" where
  "buttons_v4_v5 = [(0x01, Main 0), (0x02, Main 1), (0x04, Main 2), (0x05, Main 3), (0x07, Main 4), (0x08, Main 5),
     (0x0b, Misc 1), (0x0c, Misc 2), (0x0d, Misc 0), (0x0e, Main 8), (0x0f, Main 9)]"

definition parse_buttons :: "(u16 \<times> button_bit) list \<Rightarrow> u16 \<Rightarrow> u32 \<Rightarrow> xbox_input \<Rightarrow> xbox_input" where
  "parse_buttons table usage value s =
     (case map_of table usage of None \<Rightarrow> s | Some b \<Rightarrow> press_bit b value s)"

definition parse_usage_firmware_v3_1 :: "hid_globals \<Rightarrow> u16 \<Rightarrow> u16 \<Rightarrow> u32 \<Rightarrow> xbox_input \<Rightarrow> xbox_input option" where
  "parse_usage_firmware_v3_1 g usage_page usage value s =
     (let axis = uni_hid_parser_process_axis g value; pedal = uni_hid_parser_process_pedal g value
      in if usage_page = 0x01 then
           (if usage = 0x30 then axis_to (\<lambda>x gp. gp\<lparr>gp_axis_x := x\<rparr>) axis s
            else if usage = 0x31 then axis_to (\<lambda>x gp. gp\<lparr>gp_axis_y := x\<rparr>) axis s
            else if usage = 0x32 then axis_to (\<lambda>x gp. gp\<lparr>gp_brake := x\<rparr>) pedal s
            else if usage = 0x33 then axis_to (\<lambda>x gp. gp\<lparr>gp_axis_rx := x\<rparr>) axis s
            else if usage = 0x34 then axis_to (\<lambda>x gp. gp\<lparr>gp_axis_ry := x\<rparr>) axis s
            else if usage = 0x35 then axis_to (\<lambda>x gp. gp\<lparr>gp_throttle := x\<rparr>) pedal s
            else Some (parse_desktop g usage value s))
         else if usage_page = 0x06 then Some (parse_battery usage value s)
         else if usage_page = 0x09 then
           Some (if usage = 0x0f then (XBOXONE_FIRMWARE_V4_8, snd s) else parse_buttons buttons_v3_1 usage value s)
         else Some s)"

definition parse_usage_firmware_v4_v5 :: "hid_globals \<Rightarrow> u16 \<Rightarrow> u16 \<Rightarrow> u32 \<Rightarrow> xbox_input \<Rightarrow> xbox_input option" where
  "parse_usage_firmware_v4_v5 g usage_page usage value s =
     (let axis = uni_hid_parser_process_axis g value; pedal = uni_hid_parser_process_pedal g value
      in if usage_page = 0x01 then
           (if usage = 0x30 then axis_to (\<lambda>x gp. gp\<lparr>gp_axis_x := x\<rparr>) axis s
            else if usage = 0x31 then axis_to (\<lambda>x gp. gp\<lparr>gp_axis_y := x\<rparr>) axis s
            else if usage = 0x32 then axis_to (\<lambda>x gp. gp\<lparr>gp_axis_rx := x\<rparr>) axis s
            else if usage = 0x35 then axis_to (\<lambda>x gp. gp\<lparr>gp_axis_ry := x\<rparr>) axis s
            else Some (parse_desktop g usage value s))
         else if usage_page = 0x02 then
           (if usage = 0xc4 then
              do { v \<leftarrow> pedal;
                   let s1 = on_gamepad (\<lambda>gp. gp\<lparr>gp_throttle := v\<rparr>) s;
                   Some (press 7 (if v \<ge> trigger_button_threshold then 1 else 0) s1) }
            else if usage = 0xc5 then
              do { v \<leftarrow> pedal;
                   let s1 = on_gamepad (\<lambda>gp. gp\<lparr>gp_brake := v\<rparr>) s;
                   Some (press 6 (if v \<ge> trigger_button_threshold then 1 else 0) s1) }
            else Some s)
         else if usage_page = 0x06 then Some (parse_battery usage value s)
         else if usage_page = 0x09 then Some (parse_buttons buttons_v4_v5 usage value s)
         else if usage_page = 0x0c then
           Some (if usage = 0xb2 then press_misc 3 value (XBOXONE_FIRMWARE_V5, snd s)
                 else if usage = 0x224 then press_misc 1 value s
                 else s)
         else Some s)"

definition uni_hid_parser_xboxone_parse_usage :: "hid_globals \<Rightarrow> u16 \<Rightarrow> u16 \<Rightarrow> u32 \<Rightarrow> xbox_input \<Rightarrow> xbox_input option" where
  "uni_hid_parser_xboxone_parse_usage g usage_page usage value s =
     (if fst s = XBOXONE_FIRMWARE_V3_1 then parse_usage_firmware_v3_1 g usage_page usage value s
      else parse_usage_firmware_v4_v5 g usage_page usage value s)"

definition uni_hid_parser_xboxone_init_report :: "xbox_input \<Rightarrow> xbox_input" where
  "uni_hid_parser_xboxone_init_report s = (fst s, zero_controller\<lparr>klass := UNI_CONTROLLER_CLASS_GAMEPAD\<rparr>)"

text \<open>A report is the list of its fields.\<close>

type_synonym hid_field = "hid_globals \<times> u16 \<times> u16 \<times> u32"

fun parse_fields :: "hid_field list \<Rightarrow> xbox_input \<Rightarrow> xbox_input option" where
  "parse_fields [] s = Some s"
| "parse_fields ((g, usage_page, usage, value) # fs) s =
     do { s1 \<leftarrow> uni_hid_parser_xboxone_parse_usage g usage_page usage value s; parse_fields fs s1 }"

definition uni_hid_parse_input_report :: "hid_field list \<Rightarrow> xbox_input \<Rightarrow> xbox_input option" where
  "uni_hid_parse_input_report fs s = parse_fields fs (uni_hid_parser_xboxone_init_report s)"

section \<open>Set-up\<close>

definition hid_max_descriptor_len :: nat where "hid_max_descriptor_len = 512"

text \<open>The descriptor buffer of a device and its length; \<open>None\<close> is a write past the buffer.\<close>

definition uni_hid_device_set_hid_descriptor :: "u8 list \<Rightarrow> u8 list \<times> nat \<Rightarrow> (u8 list \<times> nat) option" where
  "uni_hid_device_set_hid_descriptor descriptor = (\<lambda>(buf, n).
     (if length descriptor \<le> length buf
      then Some (memcpy_at buf 0 descriptor, min hid_max_descriptor_len (length descriptor)) else None))"

definition uni_hid_parser_xboxone_setup :: "bool \<Rightarrow> nat \<Rightarrow> xboxone_firmware" where
  "uni_hid_parser_xboxone_setup le descriptor_len =
     (if le then XBOXONE_FIRMWARE_V5
      else if descriptor_len > 330 then XBOXONE_FIRMWARE_V4_8
      else XBOXONE_FIRMWARE_V3_1)"

section \<open>Rumble\<close>

datatype rumble_state = RUMBLE_DISABLED | RUMBLE_DELAYED | RUMBLE_IN_PROGRESS

datatype ble_status = BLE_SUCCESS | BLE_COMMAND_DISALLOWED | BLE_ERROR

text \<open>The transport: a write over Bluetooth LE, and an interrupt report over Bluetooth Classic.\<close>

record 'o transport =
  hids_write :: "u8 list \<Rightarrow> 'o \<Rightarrow> ble_status \<times> 'o"
  send_intr :: "u8 list \<Rightarrow> 'o \<Rightarrow> 'o"

text \<open>A timer is armed with its delay or not, and its context points to the device or is null.\<close>

record btimer =
  context_set :: bool
  armed :: "nat option"

record 'o xbox =
  version :: xboxone_firmware
  rumble_timer_duration :: btimer
  rumble_timer_delayed_start :: btimer
  rumble_state :: rumble_state
  rumble_duration_ms :: u16
  rumble_trigger_left :: u8
  rumble_trigger_right :: u8
  rumble_weak_magnitude :: u8
  rumble_strong_magnitude :: u8
  outbox :: 'o

definition ble_retry_ms :: nat where "ble_retry_ms = 50"

definition arm :: "nat \<Rightarrow> btimer \<Rightarrow> btimer" where
  "arm delay t = t\<lparr>armed := Some delay\<rparr>"

definition ff_report :: "u8 \<Rightarrow> u8 \<Rightarrow> u8 \<Rightarrow> u8 \<Rightarrow> u8 \<Rightarrow> u8 \<Rightarrow> u8 \<Rightarrow> u8 list" where
  "ff_report actuators left right strong weak duration loop_count =
     [0xA2, 0x03, actuators, left, right, strong, weak, duration, 0, loop_count]"

definition send_ff :: "'o transport \<Rightarrow> u8 list \<Rightarrow> 'o xbox \<Rightarrow> ble_status \<times> 'o xbox" where
  "send_ff T ff x =
     (if version x = XBOXONE_FIRMWARE_V5
      then (let (status, o') = hids_write T (drop 2 ff) (outbox x) in (status, x\<lparr>outbox := o'\<rparr>))
      else (BLE_SUCCESS, x\<lparr>outbox := send_intr T ff (outbox x)\<rparr>))"

definition retry_rumble_on :: "'o xbox \<Rightarrow> 'o xbox" where
  "retry_rumble_on x =
     x\<lparr>rumble_timer_delayed_start := arm ble_retry_ms ((rumble_timer_delayed_start x)\<lparr>context_set := True\<rparr>),
       rumble_state := RUMBLE_DELAYED\<rparr>"

definition retry_rumble_off :: "'o xbox \<Rightarrow> 'o xbox" where
  "retry_rumble_off x =
     x\<lparr>rumble_timer_delayed_start := (rumble_timer_delayed_start x)\<lparr>context_set := True\<rparr>,
       rumble_timer_duration := arm ble_retry_ms (rumble_timer_duration x),
       rumble_state := RUMBLE_IN_PROGRESS\<rparr>"

text \<open>\<open>None\<close> is the failed assertion.\<close>

definition xboxone_stop_rumble_now :: "'o transport \<Rightarrow> 'o xbox \<Rightarrow> 'o xbox option" where
  "xboxone_stop_rumble_now T x =
     (if rumble_state x = RUMBLE_DISABLED then None
      else (let (status, x1) = send_ff T (ff_report 0x0F 0 0 0 0 0 0) (x\<lparr>rumble_state := RUMBLE_DISABLED\<rparr>)
            in Some (if status = BLE_COMMAND_DISALLOWED then retry_rumble_off x1 else x1)))"

definition percent_of :: "u8 \<Rightarrow> u8" where
  "percent_of m = of_nat ((unat m * 100) div 255)"

definition xboxone_play_quad_rumble_now ::
  "'o transport \<Rightarrow> u16 \<Rightarrow> u8 \<Rightarrow> u8 \<Rightarrow> u8 \<Rightarrow> u8 \<Rightarrow> 'o xbox \<Rightarrow> 'o xbox option" where
  "xboxone_play_quad_rumble_now T duration_ms left right weak strong x =
     (if duration_ms = 0 then (if rumble_state x \<noteq> RUMBLE_DISABLED then xboxone_stop_rumble_now T x else Some x)
      else
        (let actuators = (if left \<noteq> 0 then 8 else 0) OR (if right \<noteq> 0 then 4 else 0) OR
                    (if weak \<noteq> 0 then 1 else 0) OR (if strong \<noteq> 0 then 2 else 0);
             ff = ff_report actuators (percent_of left) (percent_of right) (percent_of strong) (percent_of weak) 0xff 25;
             (status, x1) = send_ff T ff x
         in Some (if status = BLE_COMMAND_DISALLOWED then retry_rumble_on x1
                  else if status = BLE_ERROR then x1
                  else x1\<lparr>rumble_timer_duration := arm (unat duration_ms) ((rumble_timer_duration x1)\<lparr>context_set := True\<rparr>),
                          rumble_state := RUMBLE_IN_PROGRESS\<rparr>)))"

definition xboxone_play_quad_rumble ::
  "'o transport \<Rightarrow> u16 \<Rightarrow> u16 \<Rightarrow> u8 \<Rightarrow> u8 \<Rightarrow> u8 \<Rightarrow> u8 \<Rightarrow> 'o xbox \<Rightarrow> 'o xbox option" where
  "xboxone_play_quad_rumble T start_delay_ms duration_ms left right weak strong x =
     (let x1 = (case rumble_state x of
                  RUMBLE_DELAYED \<Rightarrow> x\<lparr>rumble_timer_delayed_start := (rumble_timer_delayed_start x)\<lparr>armed := None\<rparr>\<rparr>
                | RUMBLE_IN_PROGRESS \<Rightarrow> x\<lparr>rumble_timer_duration := (rumble_timer_duration x)\<lparr>armed := None\<rparr>\<rparr>
                | RUMBLE_DISABLED \<Rightarrow> x)
      in if start_delay_ms = 0 then xboxone_play_quad_rumble_now T duration_ms left right weak strong x1
         else Some (x1\<lparr>rumble_timer_delayed_start :=
                         arm (unat start_delay_ms) ((rumble_timer_delayed_start x1)\<lparr>context_set := True\<rparr>),
                       rumble_state := RUMBLE_DELAYED, rumble_duration_ms := duration_ms,
                       rumble_trigger_left := left, rumble_trigger_right := right,
                       rumble_strong_magnitude := strong, rumble_weak_magnitude := weak\<rparr>))"

definition uni_hid_parser_xboxone_play_dual_rumble :: "'o transport \<Rightarrow> u16 \<Rightarrow> u16 \<Rightarrow> u8 \<Rightarrow> u8 \<Rightarrow> 'o xbox \<Rightarrow> 'o xbox option" where
  "uni_hid_parser_xboxone_play_dual_rumble T start_delay_ms duration_ms weak strong =
     xboxone_play_quad_rumble T start_delay_ms duration_ms 0 0 weak strong"

text \<open>The two timers fire: each is disarmed and its handler runs on its context; \<open>None\<close> if that is null.\<close>

definition on_xboxone_set_rumble_on :: "'o transport \<Rightarrow> 'o xbox \<Rightarrow> 'o xbox option" where
  "on_xboxone_set_rumble_on T x =
     (let x1 = x\<lparr>rumble_timer_delayed_start := (rumble_timer_delayed_start x)\<lparr>armed := None\<rparr>\<rparr>
      in if \<not> context_set (rumble_timer_delayed_start x1) then None
         else xboxone_play_quad_rumble_now T (rumble_duration_ms x1) (rumble_trigger_left x1) (rumble_trigger_right x1)
                (rumble_weak_magnitude x1) (rumble_strong_magnitude x1) x1)"

definition on_xboxone_set_rumble_off :: "'o transport \<Rightarrow> 'o xbox \<Rightarrow> 'o xbox option" where
  "on_xboxone_set_rumble_off T x =
     (let x1 = x\<lparr>rumble_timer_duration := (rumble_timer_duration x)\<lparr>armed := None\<rparr>\<rparr>
      in if \<not> context_set (rumble_timer_duration x1) then None else xboxone_stop_rumble_now T x1)"

text \<open>The driver data of a new device is zero; \<open>setup\<close> then sets the version.\<close>

definition xbox_fresh :: "xboxone_firmware \<Rightarrow> 'o \<Rightarrow> 'o xbox" where
  "xbox_fresh v out =
     \<lparr>version = v, rumble_timer_duration = \<lparr>context_set = False, armed = None\<rparr>,
      rumble_timer_delayed_start = \<lparr>context_set = False, armed = None\<rparr>, rumble_state = RUMBLE_DISABLED,
      rumble_duration_ms = 0, rumble_trigger_left = 0, rumble_trigger_right = 0, rumble_weak_magnitude = 0,
      rumble_strong_magnitude = 0, outbox = out\<rparr>"

end
