(* ===== verification/Xbox_Laws.thy ===== *)
theory Xbox_Laws
  imports Xbox
begin

text \<open>
  Properties of the Xbox parser: the axis values the drive pipeline relies on, the buttons, and the
  rumble timers.
\<close>

section \<open>Axes\<close>

text \<open>A field whose value keeps the logical bounds of its descriptor.\<close>

definition regular :: "hid_globals \<Rightarrow> u32 \<Rightarrow> bool" where
  "regular g value \<longleftrightarrow>
     (\<exists>n. field_range g = Some n \<and> 0 < n \<and> n \<le> 2 ^ 21 \<and> - (2 ^ 31) \<le> logical_minimum g \<and>
          logical_minimum g \<le> sint value \<and> sint value < logical_minimum g + n)"

lemma c_div_scaled:
  assumes "0 < n" "- (n div 2) \<le> c" "c < n - n div 2"
  shows "- 512 \<le> c_div (c * 1024) n \<and> c_div (c * 1024) n \<le> 511"
proof (cases "0 \<le> c")
  case True
  have "c * 1024 < 512 * n" using assms(1,3) by linarith
  moreover have "n * (c * 1024 div n) \<le> c * 1024"
    using pos_mod_sign [of n "c * 1024"] mult_div_mod_eq [of n "c * 1024"] assms(1) by linarith
  moreover have "512 * n \<le> n * (c * 1024 div n)" if "512 \<le> c * 1024 div n"
    using mult_left_mono [OF that, of n] assms(1) by (simp add: mult.commute)
  ultimately have "c * 1024 div n < 512" by (meson leD le_less_trans linorder_not_less order_trans)
  moreover have "0 \<le> c * 1024 div n" using True assms(1) by (simp add: pos_imp_zdiv_nonneg_iff)
  ultimately show ?thesis using True assms(1) by (simp add: c_div_pos)
next
  case False
  have "- c * 1024 \<le> 512 * n" using assms(1,2) by linarith
  then have "- c * 1024 div n \<le> 512 * n div n" using assms(1) by (intro zdiv_mono1)
  then have "- c * 1024 div n \<le> 512" using assms(1) by simp
  moreover have "0 \<le> - c * 1024 div n" using False assms(1) by (simp add: pos_imp_zdiv_nonneg_iff)
  ultimately show ?thesis using False assms(1) c_div_neg [of "c * 1024" n] by simp
qed

lemma process_axis:
  assumes "field_range g = Some n" "0 < n" "n \<le> 2 ^ 21" "logical_minimum g \<le> sint value" "sint value < logical_minimum g + n"
  shows "uni_hid_parser_process_axis g value = Some (c_div ((sint value - logical_minimum g - n div 2) * 1024) n)"
    "- 512 \<le> c_div ((sint value - logical_minimum g - n div 2) * 1024) n"
    "c_div ((sint value - logical_minimum g - n div 2) * 1024) n \<le> 511"
proof -
  let ?c = "sint value - logical_minimum g - n div 2"
  have half: "c_div n 2 = n div 2" using assms(2) by (simp add: c_div_pos)
  have c: "- (n div 2) \<le> ?c" "?c < n - n div 2" using assms(4,5) by linarith+
  have "n div 2 \<le> 2 ^ 20" using zdiv_mono1 [OF assms(3), of 2] by simp
  with c have r: "- (2 ^ 20) \<le> ?c" "?c < 2 ^ 21" using assms(2,3) by linarith+
  have "value - of_int (n div 2) - of_int (logical_minimum g) = (of_int ?c :: u32)"
    by (simp add: of_int_diff)
  then have s: "sint (value - of_int (n div 2) - of_int (logical_minimum g)) = ?c"
    using r by (simp add: sint_sbintrunc' signed_take_bit_int_eq_self del: of_int_diff)
  note b = c_div_scaled [OF assms(2) c]
  then show "- 512 \<le> c_div (?c * 1024) n" "c_div (?c * 1024) n \<le> 511" by auto
  show "uni_hid_parser_process_axis g value = Some (c_div (?c * 1024) n)"
    using assms(1,2) b r
    by (simp add: uni_hid_parser_process_axis_def Let_def half s axis_normalize_range_def i32_div_def i32_def del: of_int_diff)
qed

lemma regular_axis:
  assumes "regular g value"
  shows "\<exists>x. uni_hid_parser_process_axis g value = Some x \<and> -512 \<le> x \<and> x \<le> 511"
  using assms process_axis unfolding regular_def by blast

lemma regular_pedal: "regular g value \<Longrightarrow> \<exists>x. uni_hid_parser_process_pedal g value = Some x"
  by (auto simp: regular_def uni_hid_parser_process_pedal_def)

definition analog :: "u16 \<Rightarrow> u16 \<Rightarrow> bool" where
  "analog usage_page usage \<longleftrightarrow>
     usage_page = 0x01 \<and> usage \<in> {0x30, 0x31, 0x32, 0x33, 0x34, 0x35} \<or> usage_page = 0x02 \<and> usage \<in> {0xc4, 0xc5}"

definition axes_ok :: "uni_controller \<Rightarrow> bool" where
  "axes_ok c \<longleftrightarrow> (\<forall>x\<in>{gp_axis_x (gamepad c), gp_axis_y (gamepad c), gp_axis_rx (gamepad c), gp_axis_ry (gamepad c)}. -512 \<le> x \<and> x \<le> 511)"

named_theorems usage_simps \<open>unfolding one usage of the parser\<close>

lemma axes_untouched [usage_simps]:
  "axes_ok (snd (press n v s)) = axes_ok (snd s)" "axes_ok (snd (press_misc n v s)) = axes_ok (snd s)"
  "axes_ok (snd (parse_desktop g u v s)) = axes_ok (snd s)" "axes_ok (snd (parse_battery u v s)) = axes_ok (snd s)"
  "axes_ok (snd (parse_buttons tb u v s)) = axes_ok (snd s)" "axes_ok (snd (fw, snd s)) = axes_ok (snd s)"
  by (auto simp: axes_ok_def press_def press_misc_def on_gamepad_def parse_desktop_def parse_battery_def parse_buttons_def
      press_bit_def split: option.split button_bit.split)

lemma axis_set [usage_simps]:
  "axes_ok (snd s) \<Longrightarrow> -512 \<le> x \<Longrightarrow> x \<le> 511 \<Longrightarrow> axes_ok (snd (on_gamepad (\<lambda>gp. gp\<lparr>gp_axis_x := x\<rparr>) s))"
  "axes_ok (snd s) \<Longrightarrow> -512 \<le> x \<Longrightarrow> x \<le> 511 \<Longrightarrow> axes_ok (snd (on_gamepad (\<lambda>gp. gp\<lparr>gp_axis_y := x\<rparr>) s))"
  "axes_ok (snd s) \<Longrightarrow> -512 \<le> x \<Longrightarrow> x \<le> 511 \<Longrightarrow> axes_ok (snd (on_gamepad (\<lambda>gp. gp\<lparr>gp_axis_rx := x\<rparr>) s))"
  "axes_ok (snd s) \<Longrightarrow> -512 \<le> x \<Longrightarrow> x \<le> 511 \<Longrightarrow> axes_ok (snd (on_gamepad (\<lambda>gp. gp\<lparr>gp_axis_ry := x\<rparr>) s))"
  "axes_ok (snd s) \<Longrightarrow> axes_ok (snd (on_gamepad (\<lambda>gp. gp\<lparr>gp_brake := y\<rparr>) s))"
  "axes_ok (snd s) \<Longrightarrow> axes_ok (snd (on_gamepad (\<lambda>gp. gp\<lparr>gp_throttle := y\<rparr>) s))"
  by (auto simp: axes_ok_def on_gamepad_def)

lemma usage_v3_1_ok:
  assumes "axes_ok (snd s)" "analog page usage \<longrightarrow> regular g v"
  shows "succeeds (parse_usage_firmware_v3_1 g page usage v s) (\<lambda>t. axes_ok (snd t))"
proof (cases "page = 0x01 \<and> usage \<in> {0x30, 0x31, 0x32, 0x33, 0x34, 0x35}")
  case True
  then have r: "regular g v" using assms(2) by (auto simp: analog_def)
  from regular_axis [OF r] regular_pedal [OF r] True assms(1) show ?thesis
    by (auto simp: parse_usage_firmware_v3_1_def axis_to_def usage_simps)
next
  case False
  then show ?thesis using assms(1) axes_untouched by (auto simp: parse_usage_firmware_v3_1_def Let_def)
qed

lemma usage_v4_v5_ok:
  assumes "axes_ok (snd s)" "analog page usage \<longrightarrow> regular g v"
  shows "succeeds (parse_usage_firmware_v4_v5 g page usage v s) (\<lambda>t. axes_ok (snd t))"
proof (cases "analog page usage")
  case True
  then have r: "regular g v" using assms(2) by simp
  obtain x y where a: "uni_hid_parser_process_axis g v = Some x" "-512 \<le> x" "x \<le> 511" "uni_hid_parser_process_pedal g v = Some y"
    using regular_axis [OF r] regular_pedal [OF r] by blast
  show ?thesis using True assms(1) a by (auto simp: analog_def parse_usage_firmware_v4_v5_def axis_to_def usage_simps Let_def)
next
  case False
  then show ?thesis
    using assms(1) axes_untouched(1-5) axes_untouched(2) [of _ _ "(XBOXONE_FIRMWARE_V5, snd s)"]
    by (auto simp: parse_usage_firmware_v4_v5_def Let_def analog_def)
qed

lemma usage_ok:
  "axes_ok (snd s) \<Longrightarrow> (analog page usage \<longrightarrow> regular g v) \<Longrightarrow>
   succeeds (uni_hid_parser_xboxone_parse_usage g page usage v s) (\<lambda>t. axes_ok (snd t))"
  using usage_v3_1_ok usage_v4_v5_ok by (simp add: uni_hid_parser_xboxone_parse_usage_def)

lemma fields_axes:
  "axes_ok (snd s) \<Longrightarrow> (\<And>g page usage v. (g, page, usage, v) \<in> set fs \<Longrightarrow> analog page usage \<Longrightarrow> regular g v) \<Longrightarrow>
   succeeds (parse_fields fs s) (\<lambda>t. axes_ok (snd t))"
proof (induction fs s rule: parse_fields.induct)
  case (2 g page usage v fs s)
  obtain t where t: "uni_hid_parser_xboxone_parse_usage g page usage v s = Some t" "axes_ok (snd t)"
    by (rule succeedsE [OF usage_ok [OF "2.prems"(1), of page usage g v]]) (use "2.prems"(2) [of g page usage v] in auto)
  have "succeeds (parse_fields fs t) (\<lambda>t. axes_ok (snd t))"
    by (rule "2.IH" [OF t "2.prems"(2) [OF list.set_intros(2)]])
  then show ?case by (simp add: t(1))
qed simp

text \<open>Whatever its firmware and the order of its fields, a report whose analog values keep the bounds of their
  descriptor is decoded without arithmetic overflow, and all four axes come out between -512 and 511,
  the range on which the stick curve is exact.\<close>

theorem report_axes_in_range:
  assumes "\<And>g page usage v. (g, page, usage, v) \<in> set fs \<Longrightarrow> analog page usage \<Longrightarrow> regular g v"
  shows "\<exists>fw c. uni_hid_parse_input_report fs s = Some (fw, c) \<and>
    (\<forall>i. mkh_config_input_class i = MKH_INPUT_CLASS_AXIS \<longrightarrow>
       -512 \<le> readTokenRaw (accessors c) i \<and> readTokenRaw (accessors c) i \<le> 511)"
proof -
  have "axes_ok (snd (uni_hid_parser_xboxone_init_report s))"
    by (simp add: axes_ok_def uni_hid_parser_xboxone_init_report_def zero_controller_def zero_gamepad_def)
  from fields_axes [OF this, of fs] assms obtain t where t: "uni_hid_parse_input_report fs s = Some t" "axes_ok (snd t)"
    unfolding uni_hid_parse_input_report_def by (blast elim: succeedsE)
  have "-512 \<le> readTokenRaw (accessors (snd t)) i \<and> readTokenRaw (accessors (snd t)) i \<le> 511"
    if "mkh_config_input_class i = MKH_INPUT_CLASS_AXIS" for i
    using that t(2) by (cases i) (auto simp: axes_ok_def accessors_def)
  with t(1) show ?thesis by (cases t) auto
qed

definition wide :: hid_globals where
  "wide = \<lparr>logical_minimum = 0, logical_maximum = 65535, report_size = 16\<rparr>"

lemma wide_regular: "regular wide 65535"
  unfolding regular_def by (rule exI [of _ 65536]) (simp add: wide_def field_range_def i32_def)

theorem report_axes_in_range_witness:
  "\<exists>fw c. uni_hid_parse_input_report [(wide, 1, 0x31, 65535)] (XBOXONE_FIRMWARE_V5, zero_controller) = Some (fw, c) \<and>
     readTokenRaw (accessors c) MKH_INPUT_LSNS \<le> 511"
proof -
  have "\<exists>fw c. uni_hid_parse_input_report [(wide, 1, 0x31, 65535)] (XBOXONE_FIRMWARE_V5, zero_controller) = Some (fw, c) \<and>
    (\<forall>i. mkh_config_input_class i = MKH_INPUT_CLASS_AXIS \<longrightarrow>
       -512 \<le> readTokenRaw (accessors c) i \<and> readTokenRaw (accessors c) i \<le> 511)"
    by (rule report_axes_in_range) (use wide_regular in auto)
  then show ?thesis by (metis (mono_tags) mkh_config_input_class.simps(1))
qed

section \<open>Buttons\<close>

definition main_bits :: "xbox_input \<Rightarrow> u16" where
  "main_bits s = gp_buttons (gamepad (snd s))"

lemma main_bits_press: "n < 16 \<Longrightarrow> bit (main_bits (press n v s)) i \<longleftrightarrow> bit (main_bits s) i \<or> v \<noteq> 0 \<and> i = n"
  by (auto simp: main_bits_def press_def on_gamepad_def bit_or_iff bit_exp_iff dest: bit_imp_le_length)

lemma main_bits_untouched [usage_simps]:
  "main_bits (press_misc n v s) = main_bits s" "main_bits (parse_desktop g u v s) = main_bits s"
  "main_bits (parse_battery u v s) = main_bits s" "main_bits (fw, snd s) = main_bits s"
  "main_bits (on_gamepad (\<lambda>gp. gp\<lparr>gp_axis_x := x\<rparr>) s) = main_bits s" "main_bits (on_gamepad (\<lambda>gp. gp\<lparr>gp_axis_y := x\<rparr>) s) = main_bits s"
  "main_bits (on_gamepad (\<lambda>gp. gp\<lparr>gp_axis_rx := x\<rparr>) s) = main_bits s" "main_bits (on_gamepad (\<lambda>gp. gp\<lparr>gp_axis_ry := x\<rparr>) s) = main_bits s"
  "main_bits (on_gamepad (\<lambda>gp. gp\<lparr>gp_brake := x\<rparr>) s) = main_bits s" "main_bits (on_gamepad (\<lambda>gp. gp\<lparr>gp_throttle := x\<rparr>) s) = main_bits s"
  by (simp_all add: main_bits_def press_misc_def on_gamepad_def parse_desktop_def parse_battery_def)

lemma firmware_untouched [usage_simps]:
  "fst (press n v s) = fst s" "fst (press_misc n v s) = fst s" "fst (on_gamepad f s) = fst s"
  "fst (parse_desktop g u v s) = fst s" "fst (parse_battery u v s) = fst s" "fst (parse_buttons tb u v s) = fst s"
  by (auto simp: press_def press_misc_def on_gamepad_def parse_desktop_def parse_battery_def parse_buttons_def press_bit_def
      split: option.split button_bit.split)

definition hits :: "nat \<Rightarrow> u16 \<Rightarrow> u16 \<Rightarrow> u32 \<Rightarrow> bool" where
  "hits i page usage v \<longleftrightarrow> page = 0x09 \<and> v \<noteq> 0 \<and> map_of buttons_v4_v5 usage = Some (Main i)"

lemma main_bits_buttons:
  "bit (main_bits (parse_buttons buttons_v4_v5 usage v s)) i \<longleftrightarrow> bit (main_bits s) i \<or> hits i 0x09 usage v"
proof (cases "map_of buttons_v4_v5 usage")
  case (Some b)
  then have "b \<in> {Main 0, Main 1, Main 2, Main 3, Main 4, Main 5, Main 8, Main 9, Misc 0, Misc 1, Misc 2}"
    by (auto simp: buttons_v4_v5_def split: if_splits)
  then show ?thesis
    using Some by (cases b) (auto simp: parse_buttons_def press_bit_def hits_def main_bits_press usage_simps)
qed (simp add: parse_buttons_def hits_def)

lemma usage_buttons:
  assumes "fst s \<noteq> XBOXONE_FIRMWARE_V3_1" "uni_hid_parser_xboxone_parse_usage g page usage v s = Some t" "i \<notin> {6, 7}"
  shows "fst t \<noteq> XBOXONE_FIRMWARE_V3_1 \<and> (bit (main_bits t) i \<longleftrightarrow> bit (main_bits s) i \<or> hits i page usage v)"
proof -
  have h: "\<not> hits i page usage v" if "page \<noteq> 0x09" using that by (simp add: hits_def)
  have p: "parse_usage_firmware_v4_v5 g page usage v s = Some t"
    using assms(1,2) by (simp add: uni_hid_parser_xboxone_parse_usage_def)
  consider "page = 0x09" | "page = 0x02" | "page \<noteq> 0x09" "page \<noteq> 0x02" by blast
  then show ?thesis
  proof cases
    case 1
    then have "t = parse_buttons buttons_v4_v5 usage v s" using p by (simp add: parse_usage_firmware_v4_v5_def)
    then show ?thesis using 1 assms(1) main_bits_buttons by (simp add: usage_simps)
  next
    case 2
    then show ?thesis
      using p assms(1,3) h
      by (auto simp: parse_usage_firmware_v4_v5_def bind_eq_Some_conv Let_def main_bits_press usage_simps split: if_splits)
  next
    case 3
    then show ?thesis
      using p assms(1) h main_bits_untouched(1,4)
      by (auto simp: parse_usage_firmware_v4_v5_def axis_to_def Let_def usage_simps split: if_splits)
  qed
qed

lemma fields_buttons:
  "parse_fields fs s = Some t \<Longrightarrow> fst s \<noteq> XBOXONE_FIRMWARE_V3_1 \<Longrightarrow> i \<notin> {6, 7} \<Longrightarrow>
   bit (main_bits t) i \<longleftrightarrow> bit (main_bits s) i \<or> (\<exists>g page usage v. (g, page, usage, v) \<in> set fs \<and> hits i page usage v)"
proof (induction fs s rule: parse_fields.induct)
  case (2 g page usage v fs s)
  obtain s1 where s1: "uni_hid_parser_xboxone_parse_usage g page usage v s = Some s1" "parse_fields fs s1 = Some t"
    using "2.prems"(1) by (auto simp: bind_eq_Some_conv)
  note u = usage_buttons [OF "2.prems"(2) s1(1) "2.prems"(3)]
  from "2.IH" [OF s1(1,2)] u "2.prems"(3) show ?case by auto
qed simp

lemma klass_untouched [usage_simps]:
  "klass (snd (press n v s)) = klass (snd s)" "klass (snd (press_misc n v s)) = klass (snd s)" "klass (snd (on_gamepad f s)) = klass (snd s)"
  "klass (snd (parse_desktop g u v s)) = klass (snd s)" "klass (snd (parse_battery u v s)) = klass (snd s)"
  "klass (snd (parse_buttons tb u v s)) = klass (snd s)"
  by (auto simp: press_def press_misc_def on_gamepad_def parse_desktop_def parse_battery_def parse_buttons_def press_bit_def
      split: option.split button_bit.split)

lemma usage_klass: "uni_hid_parser_xboxone_parse_usage g page usage v s = Some t \<Longrightarrow> klass (snd t) = klass (snd s)"
  by (auto simp: uni_hid_parser_xboxone_parse_usage_def parse_usage_firmware_v3_1_def parse_usage_firmware_v4_v5_def Let_def
      axis_to_def bind_eq_Some_conv usage_simps split: if_splits)

lemma fields_klass: "parse_fields fs s = Some t \<Longrightarrow> klass (snd t) = klass (snd s)"
proof (induction fs s rule: parse_fields.induct)
  case (2 g page usage v fs s)
  obtain s1 where s1: "uni_hid_parser_xboxone_parse_usage g page usage v s = Some s1" "parse_fields fs s1 = Some t"
    using "2.prems" by (auto simp: bind_eq_Some_conv)
  from "2.IH" [OF s1] usage_klass [OF s1(1)] show ?case by simp
qed simp

text \<open>C39: The button decoder of the current firmware variants is exact: after a report each of the eight
  digital buttons the mapping can use reads as pressed if and only if the report has a field of that
  button's usage with a non-zero value; nothing of the previous report survives.\<close>

theorem xbox_buttons_exact:
  assumes "uni_hid_parse_input_report fs (fw, c0) = Some (fw', c)" "fw \<noteq> XBOXONE_FIRMWARE_V3_1"
  shows "let down = (\<lambda>u. \<exists>g v. (g, 0x09, u, v) \<in> set fs \<and> v \<noteq> 0); ctl = accessors c
    in (btn_a ctl \<longleftrightarrow> down 0x01) \<and> (btn_b ctl \<longleftrightarrow> down 0x02) \<and> (btn_x ctl \<longleftrightarrow> down 0x04) \<and> (btn_y ctl \<longleftrightarrow> down 0x05) \<and>
       (l1 ctl \<longleftrightarrow> down 0x07) \<and> (r1 ctl \<longleftrightarrow> down 0x08) \<and> (thumbL ctl \<longleftrightarrow> down 0x0e) \<and> (thumbR ctl \<longleftrightarrow> down 0x0f)"
proof -
  let ?s0 = "uni_hid_parser_xboxone_init_report (fw, c0)"
  have z: "main_bits ?s0 = 0" "fst ?s0 \<noteq> XBOXONE_FIRMWARE_V3_1"
    using assms(2) by (simp_all add: main_bits_def uni_hid_parser_xboxone_init_report_def zero_controller_def zero_gamepad_def)
  have p: "parse_fields fs ?s0 = Some (fw', c)" using assms(1) by (simp add: uni_hid_parse_input_report_def)
  have bits: "bit (gp_buttons (gamepad c)) i \<longleftrightarrow> (\<exists>g usage v. (g, 0x09, usage, v) \<in> set fs \<and> hits i 0x09 usage v)" if "i \<notin> {6, 7}" for i
    using fields_buttons [OF p z(2) that] z(1) by (auto simp: main_bits_def hits_def)
  have only: "hits 0 0x09 u v \<longleftrightarrow> u = 0x01 \<and> v \<noteq> 0" "hits (Suc 0) 0x09 u v \<longleftrightarrow> u = 0x02 \<and> v \<noteq> 0" "hits 2 0x09 u v \<longleftrightarrow> u = 0x04 \<and> v \<noteq> 0"
    "hits 3 0x09 u v \<longleftrightarrow> u = 0x05 \<and> v \<noteq> 0" "hits 4 0x09 u v \<longleftrightarrow> u = 0x07 \<and> v \<noteq> 0" "hits 5 0x09 u v \<longleftrightarrow> u = 0x08 \<and> v \<noteq> 0"
    "hits 8 0x09 u v \<longleftrightarrow> u = 0x0e \<and> v \<noteq> 0" "hits 9 0x09 u v \<longleftrightarrow> u = 0x0f \<and> v \<noteq> 0" for u v
    by (auto simp: hits_def buttons_v4_v5_def)
  have k: "klass c = UNI_CONTROLLER_CLASS_GAMEPAD" using fields_klass [OF p] by (simp add: uni_hid_parser_xboxone_init_report_def)
  show ?thesis
    using bits [of 0] bits [of 1] bits [of 2] bits [of 3] bits [of 4] bits [of 5] bits [of 8] bits [of 9]
    by (simp add: Let_def accessors_def ctl_buttons_def k only)
qed

theorem xbox_buttons_exact_witness:
  "\<exists>fw c. uni_hid_parse_input_report [(wide, 9, 4, 1), (wide, 9, 1, 0)] (XBOXONE_FIRMWARE_V5, zero_controller) = Some (fw, c) \<and>
     btn_x (accessors c) \<and> \<not> btn_a (accessors c)"
proof -
  have "\<exists>fw c. uni_hid_parse_input_report [(wide, 9, 4, 1), (wide, 9, 1, 0)] (XBOXONE_FIRMWARE_V5, zero_controller) = Some (fw, c)"
    by (simp add: uni_hid_parse_input_report_def uni_hid_parser_xboxone_init_report_def uni_hid_parser_xboxone_parse_usage_def
        parse_usage_firmware_v4_v5_def Let_def parse_buttons_def buttons_v4_v5_def press_bit_def press_def on_gamepad_def)
  then obtain fw c where p: "uni_hid_parse_input_report [(wide, 9, 4, 1), (wide, 9, 1, 0)] (XBOXONE_FIRMWARE_V5, zero_controller) = Some (fw, c)"
    by blast
  from xbox_buttons_exact [OF p] have "btn_x (accessors c)" "\<not> btn_a (accessors c)" by (auto simp: Let_def)
  with p show ?thesis by blast
qed

section \<open>Descriptor\<close>

text \<open>Storing a HID descriptor overruns the 512-byte buffer exactly if the descriptor is longer, although the
  length noted afterwards is capped: the cap comes after the copy. A descriptor that fits is stored whole.\<close>

theorem descriptor_copy_overruns:
  assumes "length buf = hid_max_descriptor_len"
  shows "(uni_hid_device_set_hid_descriptor descriptor (buf, n) = None \<longleftrightarrow> hid_max_descriptor_len < length descriptor) \<and>
    (\<forall>buf' n'. uni_hid_device_set_hid_descriptor descriptor (buf, n) = Some (buf', n') \<longrightarrow>
       take n' buf' = descriptor \<and> length buf' = hid_max_descriptor_len)"
  using assms by (auto simp: uni_hid_device_set_hid_descriptor_def memcpy_at_def min_def)

theorem descriptor_copy_overruns_witness:
  "uni_hid_device_set_hid_descriptor (replicate 513 0) (replicate 512 0, 0) = None"
  using descriptor_copy_overruns [of "replicate 512 0" "replicate 513 0" 0] by (simp add: hid_max_descriptor_len_def)

section \<open>Rumble timers\<close>

text \<open>What can happen to the rumble state: a request, or a timer that is armed fires.\<close>

inductive rumble_run :: "'o transport \<Rightarrow> 'o xbox \<Rightarrow> bool" for T where
  rumble_start: "rumble_run T (xbox_fresh v out)"
| rumble_request: "rumble_run T x \<Longrightarrow> xboxone_play_quad_rumble T delay dur left right weak strong x = Some y \<Longrightarrow> rumble_run T y"
| rumble_delay_over: "rumble_run T x \<Longrightarrow> armed (rumble_timer_delayed_start x) \<noteq> None \<Longrightarrow> on_xboxone_set_rumble_on T x = Some y \<Longrightarrow> rumble_run T y"
| rumble_time_over: "rumble_run T x \<Longrightarrow> armed (rumble_timer_duration x) \<noteq> None \<Longrightarrow> on_xboxone_set_rumble_off T x = Some y \<Longrightarrow> rumble_run T y"
| rumble_link: "rumble_run T x \<Longrightarrow> rumble_run T (x\<lparr>outbox := out\<rparr>)"

definition rumble_ok :: "'o xbox \<Rightarrow> bool" where
  "rumble_ok x \<longleftrightarrow>
     (armed (rumble_timer_delayed_start x) \<noteq> None \<longrightarrow> rumble_state x = RUMBLE_DELAYED \<and> context_set (rumble_timer_delayed_start x)) \<and>
     (armed (rumble_timer_duration x) \<noteq> None \<longrightarrow> rumble_state x = RUMBLE_IN_PROGRESS) \<and>
     (version x \<noteq> XBOXONE_FIRMWARE_V5 \<longrightarrow> armed (rumble_timer_duration x) \<noteq> None \<longrightarrow> context_set (rumble_timer_duration x))"

definition unarmed :: "'o xbox \<Rightarrow> bool" where
  "unarmed x \<longleftrightarrow> armed (rumble_timer_delayed_start x) = None \<and> armed (rumble_timer_duration x) = None"

lemma send_ff_cases:
  obtains st out where "send_ff T ff x = (st, x\<lparr>outbox := out\<rparr>)" "version x \<noteq> XBOXONE_FIRMWARE_V5 \<Longrightarrow> st = BLE_SUCCESS"
proof (cases "version x = XBOXONE_FIRMWARE_V5")
  case True
  obtain st out where "hids_write T (drop 2 ff) (outbox x) = (st, out)" by fastforce
  then show ?thesis using True that [of st out] by (simp add: send_ff_def)
next
  case False
  then show ?thesis using that [of BLE_SUCCESS "send_intr T ff (outbox x)"] by (simp add: send_ff_def)
qed

lemma stop_ok:
  assumes "unarmed x" "rumble_state x \<noteq> RUMBLE_DISABLED"
  shows "succeeds (xboxone_stop_rumble_now T x) rumble_ok"
proof -
  obtain st out where s: "send_ff T (ff_report 0x0F 0 0 0 0 0 0) (x\<lparr>rumble_state := RUMBLE_DISABLED\<rparr>) =
      (st, x\<lparr>rumble_state := RUMBLE_DISABLED, outbox := out\<rparr>)" "version x \<noteq> XBOXONE_FIRMWARE_V5 \<Longrightarrow> st = BLE_SUCCESS"
    by (rule send_ff_cases [of T "ff_report 0x0F 0 0 0 0 0 0" "x\<lparr>rumble_state := RUMBLE_DISABLED\<rparr>"]) auto
  show ?thesis
    using assms s(2) by (auto simp: xboxone_stop_rumble_now_def s(1) retry_rumble_off_def arm_def rumble_ok_def unarmed_def)
qed

lemma play_now_ok:
  assumes "unarmed x"
  shows "succeeds (xboxone_play_quad_rumble_now T dur left right weak strong x) rumble_ok"
proof (cases "dur = 0")
  case True
  then show ?thesis using assms stop_ok [OF assms] by (auto simp: xboxone_play_quad_rumble_now_def rumble_ok_def unarmed_def)
next
  case False
  define ff where "ff = ff_report ((if left \<noteq> 0 then 8 else 0) OR (if right \<noteq> 0 then 4 else 0) OR
                    (if weak \<noteq> 0 then 1 else 0) OR (if strong \<noteq> 0 then 2 else 0)) (percent_of left) (percent_of right)
                    (percent_of strong) (percent_of weak) 0xff 25"
  obtain st out where s: "send_ff T ff x = (st, x\<lparr>outbox := out\<rparr>)" "version x \<noteq> XBOXONE_FIRMWARE_V5 \<Longrightarrow> st = BLE_SUCCESS"
    by (rule send_ff_cases [of T ff x]) blast
  have p: "xboxone_play_quad_rumble_now T dur left right weak strong x =
     Some (if st = BLE_COMMAND_DISALLOWED then retry_rumble_on (x\<lparr>outbox := out\<rparr>) else if st = BLE_ERROR then x\<lparr>outbox := out\<rparr>
           else x\<lparr>outbox := out, rumble_timer_duration := arm (unat dur) ((rumble_timer_duration x)\<lparr>context_set := True\<rparr>),
                  rumble_state := RUMBLE_IN_PROGRESS\<rparr>)"
    using False s(1) unfolding ff_def by (simp add: xboxone_play_quad_rumble_now_def Let_def)
  show ?thesis using assms by (auto simp: p retry_rumble_on_def arm_def rumble_ok_def unarmed_def)
qed

lemma disarmed: "rumble_ok x \<Longrightarrow> unarmed (case rumble_state x of
                  RUMBLE_DELAYED \<Rightarrow> x\<lparr>rumble_timer_delayed_start := (rumble_timer_delayed_start x)\<lparr>armed := None\<rparr>\<rparr>
                | RUMBLE_IN_PROGRESS \<Rightarrow> x\<lparr>rumble_timer_duration := (rumble_timer_duration x)\<lparr>armed := None\<rparr>\<rparr>
                | RUMBLE_DISABLED \<Rightarrow> x)"
  by (cases "rumble_state x") (auto simp: rumble_ok_def unarmed_def)

lemma request_ok:
  assumes "rumble_ok x"
  shows "succeeds (xboxone_play_quad_rumble T delay dur left right weak strong x) rumble_ok"
proof (cases "delay = 0")
  case True
  then show ?thesis using play_now_ok [OF disarmed [OF assms]] by (simp add: xboxone_play_quad_rumble_def Let_def)
next
  case False
  then show ?thesis
    using disarmed [OF assms] by (auto simp: xboxone_play_quad_rumble_def Let_def arm_def rumble_ok_def unarmed_def)
qed

lemma delay_over_ok:
  assumes "rumble_ok x" "armed (rumble_timer_delayed_start x) \<noteq> None"
  shows "succeeds (on_xboxone_set_rumble_on T x) rumble_ok"
proof -
  let ?x = "x\<lparr>rumble_timer_delayed_start := (rumble_timer_delayed_start x)\<lparr>armed := None\<rparr>\<rparr>"
  have "unarmed ?x" using assms by (auto simp: rumble_ok_def unarmed_def)
  from play_now_ok [OF this] show ?thesis using assms by (simp add: on_xboxone_set_rumble_on_def Let_def rumble_ok_def)
qed

lemma time_over_ok:
  assumes "rumble_ok x" "armed (rumble_timer_duration x) \<noteq> None" "context_set (rumble_timer_duration x)"
  shows "succeeds (on_xboxone_set_rumble_off T x) rumble_ok"
proof -
  let ?x = "x\<lparr>rumble_timer_duration := (rumble_timer_duration x)\<lparr>armed := None\<rparr>\<rparr>"
  have "unarmed ?x" "rumble_state ?x \<noteq> RUMBLE_DISABLED" using assms by (auto simp: rumble_ok_def unarmed_def)
  from stop_ok [OF this] show ?thesis using assms(3) by (simp add: on_xboxone_set_rumble_off_def Let_def)
qed

lemma rumble_run_ok: "rumble_run T x \<Longrightarrow> rumble_ok x"
proof (induction rule: rumble_run.induct)
  case (rumble_request x delay dur left right weak strong y)
  then show ?case using request_ok [of x] by (blast dest: succeedsD)
next
  case (rumble_delay_over x y)
  then show ?case using delay_over_ok [of x] by (blast dest: succeedsD)
next
  case (rumble_time_over x y)
  then have "context_set (rumble_timer_duration x)" by (auto simp: on_xboxone_set_rumble_off_def Let_def split: if_splits)
  with rumble_time_over show ?case using time_over_ok [of x] by (blast dest: succeedsD)
qed (auto simp: rumble_ok_def xbox_fresh_def)

text \<open>C40: The rumble machine keeps its timers in order whatever the link answers: at most one of the two timers is
  armed and it is the one of the state, so none is ever added twice; the assertion that a running
  rumble is stopped never fails; and over Bluetooth Classic no event ever fails at all.\<close>

theorem rumble_timers_consistent:
  assumes "rumble_run T x"
  shows "(armed (rumble_timer_delayed_start x) = None \<or> armed (rumble_timer_duration x) = None) \<and>
    (armed (rumble_timer_delayed_start x) \<noteq> None \<longrightarrow> rumble_state x = RUMBLE_DELAYED \<and> on_xboxone_set_rumble_on T x \<noteq> None) \<and>
    (armed (rumble_timer_duration x) \<noteq> None \<longrightarrow> rumble_state x = RUMBLE_IN_PROGRESS \<and>
       (context_set (rumble_timer_duration x) \<or> version x \<noteq> XBOXONE_FIRMWARE_V5 \<longrightarrow> on_xboxone_set_rumble_off T x \<noteq> None)) \<and>
    uni_hid_parser_xboxone_play_dual_rumble T delay dur weak strong x \<noteq> None"
proof -
  have ok: "rumble_ok x" by (rule rumble_run_ok [OF assms])
  have "on_xboxone_set_rumble_on T x \<noteq> None" if "armed (rumble_timer_delayed_start x) \<noteq> None"
    using delay_over_ok [OF ok that, of T] by (auto elim: succeedsE)
  moreover have "on_xboxone_set_rumble_off T x \<noteq> None"
    if "armed (rumble_timer_duration x) \<noteq> None" "context_set (rumble_timer_duration x) \<or> version x \<noteq> XBOXONE_FIRMWARE_V5"
    using time_over_ok [OF ok that(1), of T] that ok by (auto simp: rumble_ok_def elim: succeedsE)
  moreover have "uni_hid_parser_xboxone_play_dual_rumble T delay dur weak strong x \<noteq> None"
    using request_ok [OF ok, of T delay dur 0 0 weak strong]
    by (auto simp: uni_hid_parser_xboxone_play_dual_rumble_def elim: succeedsE)
  ultimately show ?thesis using ok by (auto simp: rumble_ok_def)
qed

text \<open>A link that always answers the same.\<close>

definition always :: "ble_status \<Rightarrow> u8 list list transport" where
  "always st = \<lparr>hids_write = (\<lambda>r out. (st, out @ [r])), send_intr = (\<lambda>r out. out @ [r])\<rparr>"

theorem rumble_timers_consistent_witness:
  "\<exists>x. uni_hid_parser_xboxone_play_dual_rumble (always BLE_COMMAND_DISALLOWED) 0 250 0x80 0x40 (xbox_fresh XBOXONE_FIRMWARE_V5 []) = Some x"
proof -
  have "rumble_run (always BLE_COMMAND_DISALLOWED) (xbox_fresh XBOXONE_FIRMWARE_V5 [])" by (rule rumble_start)
  from rumble_timers_consistent [OF this, of 0 250 "0x80" "0x40"] show ?thesis by blast
qed

text \<open>A rumble without delay that the Bluetooth LE link refuses is not retried but cancelled, and a second
  refusal crashes: the retry uses the stored parameters, which only a delayed request stores, so on
  a controller that has never rumbled it sends the stop report; and if that is refused too, the timer
  that retries the stop runs on a context that was never set. The application's own request has no
  delay.\<close>

theorem refused_rumble_crashes:
  assumes "version x = XBOXONE_FIRMWARE_V5" "rumble_state x = RUMBLE_DISABLED" "\<not> context_set (rumble_timer_duration x)"
    and "rumble_duration_ms x = 0" "dur \<noteq> 0" "\<And>r out. fst (hids_write T r out) = BLE_COMMAND_DISALLOWED"
  shows "\<exists>y z. uni_hid_parser_xboxone_play_dual_rumble T 0 dur weak strong x = Some y \<and>
    armed (rumble_timer_delayed_start y) = Some 50 \<and> on_xboxone_set_rumble_on T y = Some z \<and>
    outbox z = snd (hids_write T (drop 2 (ff_report 0x0F 0 0 0 0 0 0)) (outbox y)) \<and>
    armed (rumble_timer_duration z) = Some 50 \<and> on_xboxone_set_rumble_off T z = None"
proof -
  have st: "send_ff T ff u = (BLE_COMMAND_DISALLOWED, u\<lparr>outbox := snd (hids_write T (drop 2 ff) (outbox u))\<rparr>)"
    if "version u = XBOXONE_FIRMWARE_V5" for ff u
    using that assms(6) [of "drop 2 ff" "outbox u"] by (cases "hids_write T (drop 2 ff) (outbox u)") (simp add: send_ff_def)
  obtain out where y: "uni_hid_parser_xboxone_play_dual_rumble T 0 dur weak strong x = Some (retry_rumble_on (x\<lparr>outbox := out\<rparr>))"
    using assms(2,5) st [OF assms(1)]
    by (simp add: uni_hid_parser_xboxone_play_dual_rumble_def xboxone_play_quad_rumble_def xboxone_play_quad_rumble_now_def Let_def)
  let ?y = "retry_rumble_on (x\<lparr>outbox := out\<rparr>)"
  let ?y1 = "?y\<lparr>rumble_timer_delayed_start := (rumble_timer_delayed_start ?y)\<lparr>armed := None\<rparr>, rumble_state := RUMBLE_DISABLED\<rparr>"
  let ?z = "retry_rumble_off (?y1\<lparr>outbox := snd (hids_write T (drop 2 (ff_report 0x0F 0 0 0 0 0 0)) (outbox ?y1))\<rparr>)"
  have "version ?y1 = XBOXONE_FIRMWARE_V5" using assms(1) by (simp add: retry_rumble_on_def)
  from st [OF this, of "ff_report 0x0F 0 0 0 0 0 0"] have z: "on_xboxone_set_rumble_on T ?y = Some ?z"
    using assms(4) by (simp add: on_xboxone_set_rumble_on_def xboxone_play_quad_rumble_now_def xboxone_stop_rumble_now_def
        retry_rumble_on_def arm_def Let_def)
  have "on_xboxone_set_rumble_off T ?z = None"
    using assms(3) by (simp add: on_xboxone_set_rumble_off_def retry_rumble_off_def retry_rumble_on_def arm_def Let_def)
  moreover have "armed (rumble_timer_delayed_start ?y) = Some 50" "armed (rumble_timer_duration ?z) = Some 50"
    "outbox ?z = snd (hids_write T (drop 2 (ff_report 0x0F 0 0 0 0 0 0)) (outbox ?y))"
    by (simp_all add: retry_rumble_on_def retry_rumble_off_def arm_def ble_retry_ms_def)
  ultimately show ?thesis using y z by blast
qed

theorem refused_rumble_crashes_witness:
  "\<exists>y z. uni_hid_parser_xboxone_play_dual_rumble (always BLE_COMMAND_DISALLOWED) 0 250 0x80 0x40 (xbox_fresh XBOXONE_FIRMWARE_V5 []) = Some y \<and>
    on_xboxone_set_rumble_on (always BLE_COMMAND_DISALLOWED) y = Some z \<and> on_xboxone_set_rumble_off (always BLE_COMMAND_DISALLOWED) z = None"
proof -
  let ?x = "xbox_fresh XBOXONE_FIRMWARE_V5 []" and ?T = "always BLE_COMMAND_DISALLOWED"
  have "version ?x = XBOXONE_FIRMWARE_V5" "rumble_state ?x = RUMBLE_DISABLED" "\<not> context_set (rumble_timer_duration ?x)"
    "rumble_duration_ms ?x = 0" "(250 :: u16) \<noteq> 0"
    by (simp_all add: xbox_fresh_def)
  moreover have "fst (hids_write ?T r out) = BLE_COMMAND_DISALLOWED" for r out by (simp add: always_def)
  ultimately show ?thesis using refused_rumble_crashes [where x = ?x and T = ?T and dur = 250 and weak = "0x80" and strong = "0x40"] by blast
qed

end
