(* ===== verification/Ble_Scenarios.thy ===== *)
theory Ble_Scenarios
  imports Ble_Adv Xbox_Laws
begin

text \<open>
  Three courses of events that the code does not handle. A controller that is heard once and then stays
  silent stops the search for controllers for good. The same with another controller already driving,
  connected with the handle zero, throws that one out. And a controller lost while it rumbles leaves a
  zeroed timer in the run loop.
\<close>

section \<open>Sequences of events\<close>

fun link_events :: "mappings_state \<Rightarrow> (stack \<times> link_event) list \<Rightarrow> link \<Rightarrow> link option" where
  "link_events ms [] l = Some l"
| "link_events ms ((S, e) # es) l = (if event_ok l e then Option.bind (handle ms S e l) (link_events ms es) else None)"

definition no_devices :: "link \<Rightarrow> bool" where
  "no_devices l \<longleftrightarrow> table l = replicate 4 init_slot"

text \<open>
  What can still arrive without a controller being heard or paired, when scanning is not switched off and on
  again. Only pairing and its failures, and a failed query of a device, would start the scan.
\<close>

fun keeps_silent :: "link_event \<Rightarrow> bool" where
  "keeps_silent (Advertising_report a ty data r) \<longleftrightarrow> False"
| "keeps_silent (Reencryption_complete h status ty a) \<longleftrightarrow> False"
| "keeps_silent (Pairing_complete a h status) \<longleftrightarrow> False"
| "keeps_silent (Device_information_done h status) \<longleftrightarrow> status = error_success"
| "keeps_silent (Cmd_scanning on) \<longleftrightarrow> on"
| "keeps_silent e \<longleftrightarrow> True"

lemma blank_find: "no_devices l \<Longrightarrow> \<not> P init_slot \<Longrightarrow> find_device P l = None"
  by (auto simp: no_devices_def find_device_def find_None_iff max_devices_def)

lemma blank_lookups:
  assumes "no_devices l"
  shows "uni_hid_device_get_instance_for_connection_handle h l = None"
    "a \<noteq> zero_addr \<Longrightarrow> uni_hid_device_get_instance_for_address a l = None"
    "cid \<noteq> 0xffff \<Longrightarrow> uni_hid_device_get_instance_for_hids_cid cid l = None"
  using blank_find [OF assms]
  by (auto simp: uni_hid_device_get_instance_for_connection_handle_def uni_hid_device_get_instance_for_address_def
      uni_hid_device_get_instance_for_hids_cid_def init_slot_def zero_slot_def)

lemma radio_scans_call [link_simps]: "radio_scans (call_gap c l) = scan_after c (radio_scans l)"
  by (simp add: radio_scans_def call_gap_def)

lemma radio_scans_same [link_simps]:
  "radio_scans (upd_slot d f l) = radio_scans l" "radio_scans (on_platform g l) = radio_scans l"
  "radio_scans (wipe d s l) = radio_scans l" "radio_scans (l\<lparr>now_ms := n\<rparr>) = radio_scans l"
  by (simp_all add: radio_scans_def upd_slot_def on_platform_def wipe_def Let_def)

lemma flags_same [link_simps]:
  "is_scanning (upd_slot d f l) = is_scanning l" "is_scanning (on_platform g l) = is_scanning l"
  "is_scanning (wipe d s l) = is_scanning l" "is_scanning (call_gap c l) = is_scanning l"
  "bt_scanning_enabled (upd_slot d f l) = bt_scanning_enabled l"
  "bt_scanning_enabled (on_platform g l) = bt_scanning_enabled l"
  "bt_scanning_enabled (wipe d s l) = bt_scanning_enabled l"
  "bt_scanning_enabled (call_gap c l) = bt_scanning_enabled l"
  by (simp_all add: upd_slot_def on_platform_def wipe_def call_gap_def Let_def)

text \<open>A device whose handle BTstack does not know is dropped without a word to the radio.\<close>

lemma drop_unknown:
  assumes "gap_type S (con_handle (table l ! d)) \<noteq> GAP_CONNECTION_LE"
  shows "radio_scans (link_drop S d l) = radio_scans l" "is_scanning (link_drop S d l) = is_scanning l"
    "bt_scanning_enabled (link_drop S d l) = bt_scanning_enabled l"
    "table (link_drop S d l) = (table l)[d := init_slot]"
  using assms by (simp_all add: link_drop_def link_delete_def link_disconnect_def Let_def link_simps)

definition deaf :: "link \<Rightarrow> bool" where
  "deaf l \<longleftrightarrow> no_devices l \<and> \<not> radio_scans l \<and> is_scanning l \<and> bt_scanning_enabled l"

lemma blank_update: "(replicate n x)[d := x] = replicate n x"
  by (cases "d < n") (metis list_update_id nth_replicate, simp add: list_update_beyond)

lemma deaf_step:
  assumes "deaf l" "keeps_silent e" "event_ok l e" "handle ms S e l = Some k"
    "gap_type S conn_handle_invalid = GAP_CONNECTION_INVALID"
  shows "deaf k"
proof -
  have blank: "no_devices l" using assms(1) by (simp add: deaf_def)
  have slot: "table l ! d = init_slot" if "d < 4" for d using blank that by (simp add: no_devices_def)
  note L = blank_lookups [OF blank]
  show ?thesis
  proof (cases e)
    case (Cmd_disconnect idx)
    show ?thesis
    proof (cases "idx < 4")
      case True
      then have "gap_type S (con_handle (table l ! idx)) \<noteq> GAP_CONNECTION_LE"
        using assms(5) by (simp add: slot init_slot_def)
      from drop_unknown [OF this] show ?thesis using Cmd_disconnect assms(1,4) True
        by (auto simp: deaf_def no_devices_def blank_update cmd_disconnect_device_def uni_hid_device_get_instance_for_idx_def
            max_devices_def)
    next
      case False
      then show ?thesis using Cmd_disconnect assms(1,4)
        by (auto simp: cmd_disconnect_device_def uni_hid_device_get_instance_for_idx_def max_devices_def)
    qed
  next
    case (Hid_service_connected status cid)
    then show ?thesis using assms(1,3,4) L(3) by (auto simp: on_hid_service_connected_def)
  next
    case (Hid_report cid ctl)
    show ?thesis
    proof (cases "uni_hid_device_get_instance_for_hids_cid cid l")
      case (Some d)
      then have "d < 4"
        by (auto simp: uni_hid_device_get_instance_for_hids_cid_def split: if_splits dest: find_device_Some)
      then have "conn_state (table l ! d) \<noteq> STATE_READY" by (simp add: slot init_slot_def zero_slot_def)
      then show ?thesis using Hid_report Some assms(1,4) by (simp add: on_hid_report_def link_process_controller_def)
    qed (use Hid_report assms(1,4) in \<open>simp add: on_hid_report_def\<close>)
  next
    case (Le_connection_complete a h)
    then show ?thesis using assms(1,3,4) L(2) by (auto simp: on_le_connection_complete_def)
  next
    case (Just_works_request h)
    then show ?thesis using assms(1,4) by (auto simp: deaf_def no_devices_def link_simps)
  next
    case (Numeric_comparison_request h)
    then show ?thesis using assms(1,4) by (auto simp: deaf_def no_devices_def link_simps)
  next
    case (Cmd_scanning on)
    then show ?thesis using assms(1,2,4) by (auto simp: deaf_def start_scanning_def)
  next
    case (Connection_timeout d)
    then show ?thesis using assms(3) by (auto simp: slot init_slot_def zero_slot_def)
  next
    case (Misc_button_timeout d)
    then show ?thesis using assms(3) by (auto simp: slot init_slot_def zero_slot_def)
  next
    case (Setup_finished d)
    then show ?thesis using assms(3) by (auto simp: slot init_slot_def zero_slot_def)
  next
    case (Driver_timer d on)
    then show ?thesis using assms(3) by (auto simp: slot init_slot_def zero_slot_def)
  qed (use assms(1,2,4) L(1) in \<open>auto simp: uni_bt_le_on_hci_event_encryption_change_def on_device_information_done_def
        on_pnp_id_def on_hci_disconnection_complete_def on_rssi_measurement_def split: if_splits\<close>)
qed

lemma deaf_stays:
  "deaf l \<Longrightarrow> \<forall>(S, e)\<in>set es. keeps_silent e \<and> gap_type S conn_handle_invalid = GAP_CONNECTION_INVALID \<Longrightarrow>
   link_events ms es l = Some m \<Longrightarrow> deaf m"
proof (induction ms es l rule: link_events.induct)
  case (2 ms S e es l)
  then obtain k where k: "event_ok l e" "handle ms S e l = Some k" "link_events ms es k = Some m"
    by (auto simp: bind_eq_Some_conv split: if_splits)
  have "deaf k" by (rule deaf_step [OF 2(2) _ k(1,2)]) (use "2.prems"(2) in auto)
  then show ?case using "2.IH" [OF k(1,2)] "2.prems"(2) k(3) by simp
qed simp

text \<open>C35: One controller that is heard and then stays silent can end the search for controllers. Suppose the
  table is empty and an admissible advertisement arrives: the connection attempt stops the scan.
  Suppose its deadline passes while BTstack knows no LE connection of handle zero, the handle the
  entry was created with: the entry is freed, but the code neither cancels the attempt nor resumes the
  scan. From then on, as long as BTstack knows no LE connection of the invalid handle (which no
  connection ever has), through any events other than an advertisement, a pairing, a re-encryption, a
  failed query of device information and the command that switches scanning off, the radio does not scan,
  the table stays empty, and the firmware believes that it is scanning.\<close>

theorem scanning_lost:
  assumes "no_devices l" "link_ok l" "is_scanning l" "bt_scanning_enabled l"
    and "admits a ap r l" "adv_event_get_data data = Some (ap, nm)"
    and "handle ms S0 (Advertising_report a ty data r) l = Some k"
    and "gap_type S 0 = GAP_CONNECTION_INVALID"
    and "\<forall>(S', e)\<in>set es. keeps_silent e \<and> gap_type S' conn_handle_invalid = GAP_CONNECTION_INVALID"
    and "link_events ms ((S, Connection_timeout 0) # es) (k\<lparr>now_ms := now_ms k + 20000\<rparr>) = Some m"
  shows "no_devices m \<and> \<not> radio_scans m \<and> is_scanning m \<and> bt_scanning_enabled m"
proof -
  obtain d c where K: "d < 4" "table l ! d = init_slot" "find_device (\<lambda>s. btaddr s = zero_addr) l = Some d"
    "awaiting a c (now_ms l + hid_device_connection_timeout_ms) (table k ! d)" "\<forall>e. e \<noteq> d \<longrightarrow> table k ! e = table l ! e"
    "gap_calls k = gap_calls l @ [Gap_stop_scan, Gap_connect a ty]" "is_scanning k = is_scanning l"
    "bt_scanning_enabled k = bt_scanning_enabled l" "length (table k) = 4"
    by (rule report_admitted [OF assms(2,5,6), of ty]) (use assms(7) in auto)
  have "find_device (\<lambda>s. btaddr s = zero_addr) l = Some 0"
    using assms(1) by (simp add: find_device_def max_devices_def no_devices_def init_slot_def zero_slot_def upt_rec)
  then have d: "d = 0" using K(3) by simp
  have "radio_scans k = False" by (simp add: radio_scans_def K(6))
  let ?k = "k\<lparr>now_ms := now_ms k + 20000\<rparr>"
  define n where "n = upd_slot 0 (\<lambda>s. s\<lparr>connection_timer := None\<rparr>) ?k"
  have st: "conn_state (table n ! 0) \<noteq> STATE_READY" "con_handle (table n ! 0) = 0"
    using K(4,9) by (simp_all add: n_def link_simps awaiting_def d)
  have "table n = (table k)[0 := (table k ! 0)\<lparr>connection_timer := None\<rparr>]" by (simp add: n_def link_simps)
  moreover have "(table k)[0 := init_slot] = table l"
  proof (rule nth_equalityI)
    show "length ((table k)[0 := init_slot]) = length (table l)" using K(9) assms(2) by (simp add: link_ok_def)
    fix i assume "i < length ((table k)[0 := init_slot])"
    then show "(table k)[0 := init_slot] ! i = table l ! i" using K(2,5) d by (cases "i = 0") simp_all
  qed
  ultimately have t: "(table n)[0 := init_slot] = replicate 4 init_slot" using assms(1) by (simp add: no_devices_def)
  have "gap_type S (con_handle (table n ! 0)) \<noteq> GAP_CONNECTION_LE" using st(2) assms(8) by simp
  note D = drop_unknown [OF this]
  have e: "device_connection_timeout S 0 ?k = link_drop S 0 n" using st(1) by (simp add: device_connection_timeout_def n_def [symmetric])
  have "radio_scans n = radio_scans k" "is_scanning n = is_scanning k" "bt_scanning_enabled n = bt_scanning_enabled k"
    by (simp_all add: n_def link_simps)
  then have "\<not> radio_scans n" "is_scanning n" "bt_scanning_enabled n"
    using K(7,8) assms(3,4) \<open>radio_scans k = False\<close> by simp_all
  then have "deaf (device_connection_timeout S 0 ?k)" unfolding e deaf_def no_devices_def D t by blast
  moreover have "link_events ms es (device_connection_timeout S 0 ?k) = Some m"
    using assms(10) by (simp split: if_splits)
  ultimately have "deaf m" by (rule deaf_stays [OF _ assms(9)])
  then show ?thesis by (simp add: deaf_def)
qed


text \<open>The stack of a radio without any connection, and of one with the connections of the given handles.\<close>

definition radio :: "u16 list \<Rightarrow> stack" where
  "radio hs = \<lparr>gap_type = (\<lambda>h. if h \<in> set hs then GAP_CONNECTION_LE else GAP_CONNECTION_INVALID), hids_connect = (\<lambda>h. (0, h + 1))\<rparr>"

definition searching :: link where
  "searching = start_scanning True (link_boot fresh_allowlist)"

lemma searching_run: "link_run xbox_maps searching"
  using link_event [OF link_start [of xbox_maps fresh_allowlist], of "Cmd_scanning True" "radio []" searching]
  by (simp add: searching_def)

lemma searching_facts:
  "table searching = replicate 4 init_slot" "allow searching = fresh_allowlist" "is_scanning searching"
  "bt_scanning_enabled searching" "now_ms searching = 0"
  by (simp_all add: searching_def start_scanning_def uni_bt_le_scan_start_def link_boot_def call_gap_def max_devices_def Let_def)

lemma searching_admits: "admits xbox_addr 0x3C4 200 searching"
  using boot_admits by (simp add: admits_def searching_facts link_boot_def max_devices_def)

theorem scanning_lost_witness:
  "\<exists>k m. handle xbox_maps (radio []) (Advertising_report xbox_addr 0 xbox_data 200) searching = Some k \<and>
     link_events xbox_maps [(radio [], Connection_timeout 0), (radio [0], Le_connection_complete xbox_addr 0),
       (radio [0], Disconnection_complete 0), (radio [], Cmd_scanning True)] (k\<lparr>now_ms := now_ms k + 20000\<rparr>) = Some m \<and>
     \<not> radio_scans m \<and> is_scanning m"
proof -
  have ok: "link_ok searching" using link_run_ok [OF searching_run] by simp
  obtain k d c where K: "uni_bt_le_on_gap_event_advertising_report xbox_addr 0 xbox_data 200 searching = Some k"
    "find_device (\<lambda>s. btaddr s = zero_addr) searching = Some d" "now_ms k = now_ms searching"
    "awaiting xbox_addr c (now_ms searching + hid_device_connection_timeout_ms) (table k ! d)"
    by (rule report_admitted [OF ok searching_admits xbox_data_parsed, of 0]) blast
  have "find_device (\<lambda>s. btaddr s = zero_addr) searching = Some 0"
    by (simp add: find_device_def max_devices_def searching_facts init_slot_def zero_slot_def upt_rec)
  then have "connection_timer (table k ! 0) = Some 20000" using K(2,4)
    by (simp add: awaiting_def searching_facts hid_device_connection_timeout_ms_def)
  let ?es = "[(radio [0], Le_connection_complete xbox_addr 0), (radio [0], Disconnection_complete 0), (radio [], Cmd_scanning True)]"
  have "xbox_addr \<noteq> zero_addr" by code_simp
  have "event_ok (k\<lparr>now_ms := now_ms k + 20000\<rparr>) (Connection_timeout 0)"
    using \<open>connection_timer (table k ! 0) = Some 20000\<close> K(3) by simp
  then obtain m where m: "link_events xbox_maps ((radio [], Connection_timeout 0) # ?es) (k\<lparr>now_ms := now_ms k + 20000\<rparr>) = Some m"
    using \<open>xbox_addr \<noteq> zero_addr\<close> by (simp only: link_events.simps handle.simps event_ok.simps Option.bind.simps if_True simp_thms)
  have silent: "\<forall>(S', e)\<in>set ?es. keeps_silent e \<and> gap_type S' conn_handle_invalid = GAP_CONNECTION_INVALID"
    by (simp add: radio_def conn_handle_invalid_def)
  have none: "no_devices searching" "is_scanning searching" "bt_scanning_enabled searching" "gap_type (radio []) 0 = GAP_CONNECTION_INVALID"
    by (simp_all add: no_devices_def searching_facts radio_def)
  have h: "handle xbox_maps (radio []) (Advertising_report xbox_addr 0 xbox_data 200) searching = Some k" by (simp only: handle.simps K(1))
  show ?thesis using scanning_lost [OF none(1) ok none(2,3) searching_admits xbox_data_parsed h none(4) silent m] h m by blast
qed

section \<open>The wrong connection\<close>

lemma hog_disconnects:
  "gap_type S h \<noteq> GAP_CONNECTION_INVALID \<Longrightarrow> Gap_disconnect h \<in> set (drop (length (gap_calls l)) (gap_calls (hog_disconnect S h l)))"
  by (auto simp: hog_disconnect_def resume_scanning_hint_def call_gap_def Let_def split: option.split)

lemma drop_calls [link_simps]:
  "gap_calls (upd_slot d f l) = gap_calls l" "gap_calls (on_platform g l) = gap_calls l" "gap_calls (wipe d s l) = gap_calls l"
  by (simp_all add: upd_slot_def on_platform_def wipe_def Let_def)

lemma find_device_unique:
  assumes "e < 4" "P (table l ! e)" "\<And>f. f < 4 \<Longrightarrow> P (table l ! f) \<Longrightarrow> f = e"
  shows "find_device P l = Some e"
proof (cases "find_device P l")
  case None
  then show ?thesis using find_device_None [OF None assms(1)] assms(2) by blast
next
  case (Some d)
  then have "d = e" using find_device_Some [OF Some] assms(3) by blast
  then show ?thesis using Some by simp
qed

text \<open>C36: A second controller that fails to connect throws out the first. While a controller drives with the
  connection handle zero, another one is heard and its connection does not come about: its entry was
  created with the handle zero instead of the invalid one, so at its deadline the code disconnects the
  handle zero, and when that disconnection completes it is the driving controller that is deleted and
  loses its seat.\<close>

theorem second_controller_kicks_first:
  assumes "link_run ms l" "e < 4" "conn_state (table l ! e) = STATE_READY" "con_handle (table l ! e) = 0"
    and "\<And>f. f < 4 \<Longrightarrow> con_handle (table l ! f) = 0 \<Longrightarrow> f = e"
    and "admits a ap r l" "adv_event_get_data data = Some (ap, nm)"
    and "handle ms S (Advertising_report a ty data r) l = Some k" "gap_type S 0 = GAP_CONNECTION_LE"
  shows "\<exists>d<4. \<exists>m n. conn_state (table k ! d) = STATE_DISCOVERED \<and>
    link_events ms [(S, Connection_timeout d)] (k\<lparr>now_ms := now_ms k + 20000\<rparr>) = Some m \<and>
    Gap_disconnect 0 \<in> set (drop (length (gap_calls k)) (gap_calls m)) \<and> conn_state (table m ! e) = STATE_READY \<and>
    link_events ms [(S, Disconnection_complete 0)] m = Some n \<and>
    table n ! e = init_slot \<and> devices (link_platform n) ! e = blank_device"
proof -
  have ok: "link_ok l" using link_run_ok [OF assms(1)] by simp
  obtain d c where K: "d < 4" "table l ! d = init_slot" "awaiting a c (now_ms l + hid_device_connection_timeout_ms) (table k ! d)"
    "\<forall>f. f \<noteq> d \<longrightarrow> table k ! f = table l ! f" "length (table k) = 4" "now_ms k = now_ms l"
    by (rule report_admitted [OF ok assms(6,7), of ty]) (use assms(8) in auto)
  have ne: "e \<noteq> d" using K(2) assms(3) by (auto simp: init_slot_def zero_slot_def)
  let ?k = "k\<lparr>now_ms := now_ms k + 20000\<rparr>"
  have "link_run ms k" by (rule link_event [OF assms(1) _ assms(8)]) simp
  then have rk: "link_run ms ?k" by (rule link_tick)
  define n0 where "n0 = upd_slot d (\<lambda>s. s\<lparr>connection_timer := None\<rparr>) ?k"
  define m where "m = device_connection_timeout S d ?k"
  have st: "conn_state (table n0 ! d) \<noteq> STATE_READY" "con_handle (table n0 ! d) = 0"
    using K(1,3,5) by (simp_all add: n0_def link_simps awaiting_def)
  have em: "m = link_drop S d n0" using st(1) by (simp add: m_def device_connection_timeout_def n0_def [symmetric])
  have due: "event_ok ?k (Connection_timeout d)" using K(1,3,6) by (simp add: awaiting_def hid_device_connection_timeout_ms_def)
  then have run: "link_events ms [(S, Connection_timeout d)] ?k = Some m" by (simp add: m_def)
  have "link_run ms m" by (rule link_event [OF rk due, of S]) (simp add: m_def)
  then have okm: "link_ok m" using link_run_ok by blast
  have "gap_calls m = gap_calls (hog_disconnect S 0 n0)"
    using st(2) assms(9) by (simp add: em link_drop_def link_delete_def link_disconnect_def Let_def link_simps)
  moreover have "gap_calls n0 = gap_calls k" by (simp add: n0_def link_simps)
  ultimately have g: "Gap_disconnect 0 \<in> set (drop (length (gap_calls k)) (gap_calls m))"
    using hog_disconnects [of S 0 n0] assms(9) by simp
  have tm: "table m = (table k)[d := init_slot]"
    by (simp add: em link_drop_def link_delete_def link_disconnect_def Let_def link_simps n0_def)
  have te: "table m ! e = table l ! e" using ne K(4) by (simp add: tm)
  have "find_device (\<lambda>s. con_handle s = 0) m = Some e"
  proof (rule find_device_unique [OF assms(2)])
    fix f assume f: "f < 4" "con_handle (table m ! f) = 0"
    then have "f \<noteq> d" using K(1,5) by (auto simp: tm init_slot_def conn_handle_invalid_def)
    then show "f = e" using f K(4) assms(5) by (simp add: tm)
  qed (simp add: te assms(4))
  then have "uni_hid_device_get_instance_for_connection_handle 0 m = Some e"
    by (simp add: uni_hid_device_get_instance_for_connection_handle_def conn_handle_invalid_def)
  then obtain n where n: "n = on_hci_disconnection_complete S 0 m" "table n ! e = table (link_drop S e m) ! e"
    "devices (link_platform n) ! e = devices (link_platform (link_drop S e m)) ! e"
    by (simp add: on_hci_disconnection_complete_def Let_def link_simps)
  have "length (table m) = 4" "length (devices (link_platform m)) = 4" using okm by (auto simp: link_ok_def)
  note F = drop_frees [OF this assms(2), of S]
  have "link_events ms [(S, Disconnection_complete 0)] m = Some n" by (simp add: n(1))
  then show ?thesis using K(1,3) run g te assms(3) n(2,3) F by (intro exI [of _ d] exI [of _ m] exI [of _ n]) (auto simp: awaiting_def)
qed

section \<open>Zeroed timers\<close>

lemma run_loop_same [link_simps]:
  "run_loop_ok (upd_slot d f l) = run_loop_ok l" "run_loop_ok (on_platform g l) = run_loop_ok l"
  "run_loop_ok (call_gap c l) = run_loop_ok l"
  by (simp_all add: upd_slot_def on_platform_def call_gap_def)

lemma run_loop_hint [link_simps]: "run_loop_ok (resume_scanning_hint l) = run_loop_ok l"
  by (simp add: resume_scanning_hint_def link_simps)

lemma run_loop_wipe:
  "run_loop_ok (wipe d s l) \<longleftrightarrow> run_loop_ok l \<and> \<not> driver_timer (table l ! d) \<and> misc_delay_timer (table l ! d) = None"
  by (simp add: wipe_def upd_slot_def Let_def)

text \<open>A controller whose connection ends while a timer of its parser runs, for instance while it rumbles, leaves a
  zeroed entry in the run loop's list of timers.\<close>

theorem loss_with_running_timer:
  assumes "link_run ms l" "uni_hid_device_get_instance_for_connection_handle h l = Some d" "driver_timer (table l ! d)"
  shows "\<exists>k. handle ms S (Disconnection_complete h) l = Some k \<and> \<not> run_loop_ok k"
proof -
  have d: "d < 4" using assms(2)
    by (auto simp: uni_hid_device_get_instance_for_connection_handle_def split: if_splits dest: find_device_Some)
  have len: "length (table l) = 4" using link_run_ok [OF assms(1)] by (simp add: link_ok_def)
  have "driver_timer (table (link_disconnect S d l) ! d)"
    using assms(3) d len by (simp add: link_disconnect_def Let_def link_simps)
  then have "\<not> run_loop_ok (link_drop S d l)" by (simp add: link_drop_def link_delete_def link_simps run_loop_wipe)
  then show ?thesis using assms(2) by (simp add: on_hci_disconnection_complete_def Let_def link_simps)
qed

section \<open>A controller that connects\<close>

text \<open>A Steam controller, whose setup takes several reports, found, paired and identified.\<close>

definition steam_arrives :: "(stack \<times> link_event) list" where
  "steam_arrives =
     [(radio [], Advertising_report spare_addr 0 xbox_data 200), (radio [0], Le_connection_complete spare_addr 0),
      (radio [0], Encryption_change 0 True), (radio [0], Pairing_complete spare_addr 0 0),
      (radio [0], Pnp_id 0 0x28de 0x1106), (radio [0], Device_information_done 0 0), (radio [0], Hid_service_connected 0 1)]"

lemma link_events_append: "link_events ms (es @ fs) l = Option.bind (link_events ms es l) (link_events ms fs)"
  by (induction ms es l rule: link_events.induct) (auto split: bind_split)

lemma link_events_run: "link_run ms l \<Longrightarrow> link_events ms es l = Some k \<Longrightarrow> link_run ms k"
proof (induction ms es l rule: link_events.induct)
  case (2 ms S e es l)
  then obtain m where m: "event_ok l e" "handle ms S e l = Some m" "link_events ms es m = Some k"
    by (auto simp: bind_eq_Some_conv split: if_splits)
  show ?case by (rule "2.IH" [OF m(1,2) link_event [OF 2(2) m(1,2)] m(3)])
qed simp

definition alone :: "ble_slot \<Rightarrow> link \<Rightarrow> bool" where
  "alone s l \<longleftrightarrow> table l = s # replicate 3 init_slot \<and> allow l = fresh_allowlist"

lemma allow_same [link_simps]:
  "allow (upd_slot d f l) = allow l" "allow (on_platform g l) = allow l" "allow (call_gap c l) = allow l"
  "allow (wipe d s l) = allow l"
  by (simp_all add: upd_slot_def on_platform_def call_gap_def wipe_def Let_def)

lemma alone_step:
  "alone s l \<Longrightarrow> alone (f s) (upd_slot 0 f l)" "alone s l \<Longrightarrow> alone s (on_platform g l)" "alone s l \<Longrightarrow> alone s (call_gap c l)"
  by (simp_all add: alone_def link_simps upd_slot_def)

lemma alone_first: "alone s l \<Longrightarrow> table l ! 0 = s"
  by (simp add: alone_def)

lemma alone_find: "alone s l \<Longrightarrow> P s \<Longrightarrow> find_device P l = Some 0"
  by (simp add: find_device_def alone_def max_devices_def upt_rec)

lemma alone_hint: "alone s l \<Longrightarrow> alone s (resume_scanning_hint l)"
  by (simp add: resume_scanning_hint_def alone_step)

lemma alone_state: "alone s l \<Longrightarrow> alone (s\<lparr>conn_state := st\<rparr>) (uni_bt_conn_set_state 0 st l)"
  unfolding uni_bt_conn_set_state_def by (intro alone_step)

lemma steam_type:
  assumes "vendor_id s = 0x28de" "product_id s = 0x1106" "dev_flags s AND flag_has_controller_type = 0"
  shows "p_setup (parser (uni_hid_device_guess_controller_type_from_pid_vid s)) = Setup_later"
    "con_handle (uni_hid_device_guess_controller_type_from_pid_vid s) = con_handle s"
    "btaddr (uni_hid_device_guess_controller_type_from_pid_vid s) = btaddr s"
    "conn_state (uni_hid_device_guess_controller_type_from_pid_vid s) = conn_state s"
proof -
  have "uni_guess_controller_type 0x28de 0x1106 = CT_SteamController" by code_simp
  then show "p_setup (parser (uni_hid_device_guess_controller_type_from_pid_vid s)) = Setup_later"
    "con_handle (uni_hid_device_guess_controller_type_from_pid_vid s) = con_handle s"
    "btaddr (uni_hid_device_guess_controller_type_from_pid_vid s) = btaddr s"
    "conn_state (uni_hid_device_guess_controller_type_from_pid_vid s) = conn_state s"
    using assms by (simp_all add: uni_hid_device_guess_controller_type_from_pid_vid_def uni_hid_device_has_controller_type_def
        parser_for_def input_parser_def)
qed

lemma steam_heard:
  assumes "table l = replicate 4 init_slot" "allow l = fresh_allowlist"
  obtains k s where "uni_bt_le_on_gap_event_advertising_report spare_addr 0 xbox_data 200 l = Some k" "alone s k"
    "btaddr s = spare_addr" "conn_state s = STATE_DISCOVERED" "con_handle s = 0"
    "dev_flags s AND flag_has_controller_type = 0" "protocol s = PROTOCOL_BLE" "connection_timer s = Some (now_ms l + 20000)"
proof -
  have nz: "spare_addr \<noteq> zero_addr" by code_simp
  have none: "uni_hid_device_get_instance_for_address spare_addr l = None"
    using nz by (simp add: uni_hid_device_get_instance_for_address_def find_device_def assms max_devices_def init_slot_def
        zero_slot_def upt_rec)
  have free: "find_device (\<lambda>s. btaddr s = zero_addr) l = Some 0"
    by (simp add: find_device_def assms max_devices_def init_slot_def zero_slot_def upt_rec)
  let ?c = "cod_major_peripheral OR cod_minor_gamepad"
  have c: "cod_of_appearance 0x3C4 = Some ?c"
    by (simp add: cod_of_appearance_def appearance_gamepad_def appearance_mouse_def appearance_joystick_def)
  have ok: "uni_hid_device_on_device_discovered spare_addr ?c 200 l"
    using appearance_supported [OF c]
    by (simp add: uni_hid_device_on_device_discovered_def assms uni_bt_allowlist_is_allowed_addr_def fresh_allowlist_def)
  let ?f = "\<lambda>s. (uni_hid_device_set_name (c_name [0x58, 0x62, 0x6F, 0x78]) (uni_hid_device_set_cod ?c s))
              \<lparr>protocol := PROTOCOL_BLE, conn_rssi := 200\<rparr>"
  let ?z = "zero_slot\<lparr>btaddr := spare_addr\<rparr>"
  let ?s = "(?f (?z\<lparr>connection_timer := Some (now_ms l + 20000)\<rparr>))\<lparr>conn_state := STATE_DISCOVERED\<rparr>"
  let ?w = "on_platform (uni_hid_device_create 0) (wipe 0 ?z l)"
  have "alone ?z ?w" by (simp add: alone_def assms link_simps wipe_def Let_def upd_slot_def numeral_eq_Suc)
  have nw: "now_ms ?w = now_ms l" by (simp add: link_simps)
  have a: "alone (?z\<lparr>connection_timer := Some (now_ms l + 20000)\<rparr>) (start_connection_timeout 0 ?w)"
    unfolding start_connection_timeout_def nw hid_device_connection_timeout_ms_def by (rule alone_step(1) [OF \<open>alone ?z ?w\<close>])
  let ?k = "hog_connect spare_addr 0 (uni_bt_conn_set_state 0 STATE_DISCOVERED (upd_slot 0 ?f (start_connection_timeout 0 ?w)))"
  have "uni_bt_le_on_gap_event_advertising_report spare_addr 0 xbox_data 200 l = Some ?k"
    using none free ok c by (simp add: uni_bt_le_on_gap_event_advertising_report_def xbox_data_parsed link_create_def)
  moreover have "alone ?s ?k"
    unfolding hog_connect_def by (intro alone_step(3) alone_state alone_step(1) a)
  moreover have "dev_flags ?s AND flag_has_controller_type = 0"
    by (simp add: uni_hid_device_set_name_def uni_hid_device_set_cod_def zero_slot_def flag_has_controller_type_def
        flag_has_name_def flag_has_cod_def cod_major_peripheral_def cod_minor_gamepad_def)
  ultimately show ?thesis
    using that by (simp add: uni_hid_device_set_name_def uni_hid_device_set_cod_def zero_slot_def)
qed

lemma alone_handle:
  assumes "alone s l" "con_handle s = 0"
  shows "uni_hid_device_get_instance_for_connection_handle 0 l = Some 0"
  unfolding uni_hid_device_get_instance_for_connection_handle_def
  using alone_find [OF assms(1), of "\<lambda>s. con_handle s = 0"] assms(2) by (simp add: conn_handle_invalid_def)

lemma alone_address:
  assumes "alone s l" "btaddr s = a"
  shows "uni_hid_device_get_instance_for_address a l = Some 0"
  unfolding uni_hid_device_get_instance_for_address_def by (rule alone_find [OF assms(1)]) (simp add: assms(2))

text \<open>The state of the table's entry once the controller is paired and has told its numbers.\<close>

definition identified :: "ble_slot \<Rightarrow> bool" where
  "identified s \<longleftrightarrow> vendor_id s = 0x28de \<and> product_id s = 0x1106 \<and> dev_flags s AND flag_has_controller_type = 0 \<and>
     con_handle s = 0 \<and> btaddr s = spare_addr \<and> conn_state s = STATE_DISCOVERED \<and> hids_cid s = 1"

lemma steam_paired:
  obtains l s where "link_events xbox_maps (take 4 steam_arrives) searching = Some l" "alone s l" "btaddr s = spare_addr"
    "conn_state s = STATE_DISCOVERED" "con_handle s = 0" "dev_flags s AND flag_has_controller_type = 0" "link_run xbox_maps l"
proof -
  obtain l1 s1 where S: "uni_bt_le_on_gap_event_advertising_report spare_addr 0 xbox_data 200 searching = Some l1" "alone s1 l1"
    "btaddr s1 = spare_addr" "conn_state s1 = STATE_DISCOVERED" "dev_flags s1 AND flag_has_controller_type = 0"
    "protocol s1 = PROTOCOL_BLE"
    by (rule steam_heard [OF searching_facts(1,2)])
  have nz: "spare_addr \<noteq> zero_addr" by code_simp
  define s2 where "s2 = s1\<lparr>con_handle := 0\<rparr>"
  define l2 where "l2 = on_le_connection_complete spare_addr 0 l1"
  have a2: "alone s2 l2" unfolding l2_def s2_def on_le_connection_complete_def alone_address [OF S(2,3)]
    by simp (rule alone_step(3) [OF alone_step(1) [OF S(2)]])
  define l3 where "l3 = uni_bt_le_on_hci_event_encryption_change (radio [0]) 0 True l2"
  have a3: "alone s2 l3" using a2 alone_handle [OF a2]
    by (simp add: l3_def uni_bt_le_on_hci_event_encryption_change_def s2_def)
  define l4 where "l4 = on_pairing_complete (radio [0]) spare_addr 0 0 l3"
  have f: "btaddr s2 = spare_addr" "con_handle s2 = 0" by (simp_all add: s2_def S(3))
  have a4: "alone s2 l4" using a3 alone_address [OF a3 f(1)]
    by (simp add: l4_def on_pairing_complete_def query_device_information_def error_success_def conn_handle_invalid_def alone_step)
  have run: "link_events xbox_maps (take 4 steam_arrives) searching = Some l4"
    by (simp add: steam_arrives_def S(1) nz l2_def [symmetric] l3_def [symmetric] l4_def [symmetric])
  show ?thesis
    by (rule that [OF run a4 f(1) _ f(2)]) (simp_all add: s2_def S link_events_run [OF searching_run run])
qed

lemma steam_identified:
  obtains l s where "link_events xbox_maps (take 6 steam_arrives) searching = Some l" "alone s l" "identified s" "link_run xbox_maps l"
proof -
  obtain l4 s4 where S: "link_events xbox_maps (take 4 steam_arrives) searching = Some l4" "alone s4 l4" "btaddr s4 = spare_addr"
    "conn_state s4 = STATE_DISCOVERED" "con_handle s4 = 0" "dev_flags s4 AND flag_has_controller_type = 0" "link_run xbox_maps l4"
    by (rule steam_paired)
  define s5 where "s5 = uni_hid_device_set_product_id 0x1106 (uni_hid_device_set_vendor_id 0x28de s4)"
  define l5 where "l5 = on_pnp_id 0 0x28de 0x1106 l4"
  have a5: "alone s5 l5"
    using alone_step(1) [OF S(2), of "uni_hid_device_set_product_id 0x1106 \<circ> uni_hid_device_set_vendor_id 0x28de"]
      alone_handle [OF S(2,5)]
    by (simp add: l5_def on_pnp_id_def s5_def)
  have f5: "vendor_id s5 = 0x28de" "product_id s5 = 0x1106" "con_handle s5 = 0" "btaddr s5 = spare_addr" "conn_state s5 = STATE_DISCOVERED"
    by (simp_all add: s5_def uni_hid_device_set_product_id_def uni_hid_device_set_vendor_id_def S(3-5))
  have g5: "dev_flags s5 AND flag_has_controller_type = 0"
    using S(6) by (simp add: s5_def uni_hid_device_set_product_id_def uni_hid_device_set_vendor_id_def
        flag_has_product_id_def flag_has_vendor_id_def flag_has_controller_type_def bit.conj_disj_distrib2)
  define s6 where "s6 = s5\<lparr>hids_cid := 1\<rparr>"
  define l6 where "l6 = on_device_information_done (radio [0]) 0 0 l5"
  have a6: "alone s6 l6"
    using alone_step(1) [OF alone_step(3) [OF a5], of "\<lambda>s. s\<lparr>hids_cid := 1\<rparr>" "Hids_client_connect 0"] alone_handle [OF a5 f5(3)]
    by (simp add: l6_def on_device_information_done_def error_success_def radio_def s6_def Let_def)
  have "take 6 steam_arrives = take 4 steam_arrives @ [(radio [0], Pnp_id 0 0x28de 0x1106), (radio [0], Device_information_done 0 0)]"
    by (simp add: steam_arrives_def)
  then have run: "link_events xbox_maps (take 6 steam_arrives) searching = Some l6"
    by (simp add: link_events_append S(1) l5_def [symmetric] l6_def [symmetric])
  show ?thesis
    by (rule that [OF run a6 _ link_events_run [OF searching_run run]]) (simp add: identified_def s6_def f5 g5)
qed

lemma steam_arrived:
  obtains k s where "link_events xbox_maps steam_arrives searching = Some k" "alone s k" "btaddr s = spare_addr"
    "conn_state s = STATE_PENDING_READY" "con_handle s = 0" "link_run xbox_maps k"
proof -
  obtain l6 s6 where S: "link_events xbox_maps (take 6 steam_arrives) searching = Some l6" "alone s6 l6" "identified s6"
    "link_run xbox_maps l6"
    by (rule steam_identified)
  have f: "vendor_id s6 = 0x28de" "product_id s6 = 0x1106" "dev_flags s6 AND flag_has_controller_type = 0" "con_handle s6 = 0"
    "btaddr s6 = spare_addr" "conn_state s6 = STATE_DISCOVERED" "hids_cid s6 = 1"
    using S(3) by (simp_all add: identified_def)
  define s7 where "s7 = uni_hid_device_guess_controller_type_from_pid_vid s6"
  note T = steam_type [OF f(1-3), folded s7_def]
  define k where "k = on_hid_service_connected (radio [0]) 0 1 l6"
  have hid: "uni_hid_device_get_instance_for_hids_cid 1 l6 = Some 0"
    unfolding uni_hid_device_get_instance_for_hids_cid_def using alone_find [OF S(2), of "\<lambda>s. hids_cid s = 1"] by (simp add: f)
  define c where "c = link_connect 0 (upd_slot 0 uni_hid_device_guess_controller_type_from_pid_vid l6)"
  have a: "alone s7 c" unfolding c_def link_connect_def show_platform_def s7_def
    by (intro alone_step(2)) (rule alone_step(1) [OF S(2)])
  have "k = resume_scanning_hint (uni_bt_conn_set_state 0 STATE_PENDING_READY c)"
    using T(1,4) f(6)
    by (simp add: k_def on_hid_service_connected_def error_success_def hid c_def [symmetric] link_set_ready_def alone_first [OF a])
  then have ak: "alone (s7\<lparr>conn_state := STATE_PENDING_READY\<rparr>) k" using alone_hint [OF alone_state [OF a]] by simp
  have "conn_state (table l6 ! 0) = STATE_DISCOVERED" by (simp add: alone_first [OF S(2)] f)
  then have "\<not> connected (devices (link_platform l6) ! 0)"
    using link_run_entry [OF S(4), of 0] by (simp add: entry_ok_def)
  moreover have "steam_arrives = take 6 steam_arrives @ [(radio [0], Hid_service_connected 0 1)]" by (simp add: steam_arrives_def)
  ultimately have run: "link_events xbox_maps steam_arrives searching = Some k"
    using link_events_append [of xbox_maps "take 6 steam_arrives" "[(radio [0], Hid_service_connected 0 1)]" searching] S(1) hid
    by (simp add: k_def [symmetric])
  show ?thesis
    by (rule that [OF run ak]) (use T(2,3) f in \<open>simp_all add: link_events_run [OF searching_run run]\<close>)
qed

lemma steam_ready:
  obtains n s where "link_events xbox_maps (steam_arrives @ [(radio [0], Setup_finished 0)]) searching = Some n" "alone s n"
    "btaddr s = spare_addr" "conn_state s = STATE_READY" "con_handle s = 0" "link_run xbox_maps n"
proof -
  obtain k s where K: "link_events xbox_maps steam_arrives searching = Some k" "alone s k" "btaddr s = spare_addr"
    "conn_state s = STATE_PENDING_READY" "con_handle s = 0" "link_run xbox_maps k"
    by (rule steam_arrived)
  have p: "conn_state (table k ! 0) = STATE_PENDING_READY" by (simp add: alone_first [OF K(2)] K(4))
  obtain n p' where N: "link_set_ready_complete (radio [0]) 0 k = (True, n)"
    "n = uni_bt_conn_set_state 0 STATE_READY
           ((show_platform 0 (upd_slot 0 (\<lambda>s. s\<lparr>connection_timer := None\<rparr>) k))\<lparr>link_platform := p'\<rparr>)"
    by (rule ready_complete_accepts [OF K(6) _ p, of "radio [0]"]) simp
  have same: "alone t (m\<lparr>link_platform := q\<rparr>) = alone t m" for t m q by (simp add: alone_def)
  have "alone (s\<lparr>connection_timer := None\<rparr>) (show_platform 0 (upd_slot 0 (\<lambda>s. s\<lparr>connection_timer := None\<rparr>) k))"
    unfolding show_platform_def by (intro alone_step(2)) (rule alone_step(1) [OF K(2)])
  then have a: "alone (s\<lparr>connection_timer := None, conn_state := STATE_READY\<rparr>) n"
    unfolding N(2) by (intro alone_state) (simp only: same)
  have run: "link_events xbox_maps (steam_arrives @ [(radio [0], Setup_finished 0)]) searching = Some n"
    by (simp add: link_events_append K(1) p N(1))
  show ?thesis by (rule that [OF run a]) (simp_all add: K link_events_run [OF searching_run run])
qed

theorem link_refines_seats_witness:
  "\<exists>n. link_events xbox_maps (steam_arrives @ [(radio [0], Setup_finished 0)]) searching = Some n \<and>
     bt_run xbox_maps (link_platform n) \<and> connected (devices (link_platform n) ! 0) \<and> device_ready (devices (link_platform n) ! 0)"
proof -
  obtain n s where N: "link_events xbox_maps (steam_arrives @ [(radio [0], Setup_finished 0)]) searching = Some n" "alone s n"
    "conn_state s = STATE_READY" "link_run xbox_maps n"
    by (rule steam_ready)
  then have "conn_state (table n ! 0) = STATE_READY" by (simp add: alone_first)
  moreover have "(0 :: nat) < 4" by simp
  ultimately show ?thesis using link_refines_seats [OF N(4)] N(1) by blast
qed

theorem connection_deadline_witness:
  "\<exists>k. link_events xbox_maps steam_arrives searching = Some k \<and>
     (\<exists>t. connection_timer (table k ! 0) = Some t \<and> t \<le> now_ms k + 20000) \<and>
     table (device_connection_timeout (radio [0]) 0 k) ! 0 = init_slot"
proof -
  obtain k s where K: "link_events xbox_maps steam_arrives searching = Some k" "alone s k" "btaddr s = spare_addr"
    "conn_state s = STATE_PENDING_READY" "link_run xbox_maps k"
    by (rule steam_arrived)
  have "spare_addr \<noteq> zero_addr" by code_simp
  then have f: "btaddr (table k ! 0) \<noteq> zero_addr" "conn_state (table k ! 0) \<noteq> STATE_READY" by (simp_all add: alone_first [OF K(2)] K(3,4))
  have z: "(0 :: nat) < 4" by simp
  show ?thesis using connection_deadline [OF K(5) z f, of "radio [0]"] K(1) by blast
qed

theorem setup_gets_seat_witness:
  "\<exists>k n. link_events xbox_maps steam_arrives searching = Some k \<and> link_set_ready_complete (radio [0]) 0 k = (True, n) \<and>
     conn_state (table n ! 0) = STATE_READY \<and> (\<exists>i<4. sits (link_platform n) 0 i)"
proof -
  obtain k s where K: "link_events xbox_maps steam_arrives searching = Some k" "alone s k"
    "conn_state s = STATE_PENDING_READY" "link_run xbox_maps k"
    by (rule steam_arrived)
  obtain ok n where n: "link_set_ready_complete (radio [0]) 0 k = (ok, n)" by fastforce
  have "conn_state (table k ! 0) = STATE_PENDING_READY" by (simp add: alone_first [OF K(2)] K(3))
  from setup_gets_seat [OF K(4) _ this n] show ?thesis using K(1) n by auto
qed

theorem second_controller_kicks_first_witness:
  "\<exists>l k d m n. link_events xbox_maps (steam_arrives @ [(radio [0], Setup_finished 0)]) searching = Some l \<and>
     conn_state (table l ! 0) = STATE_READY \<and>
     handle xbox_maps (radio [0]) (Advertising_report xbox_addr 0 xbox_data 200) l = Some k \<and>
     link_events xbox_maps [(radio [0], Connection_timeout d)] (k\<lparr>now_ms := now_ms k + 20000\<rparr>) = Some m \<and>
     link_events xbox_maps [(radio [0], Disconnection_complete 0)] m = Some n \<and> table n ! 0 = init_slot"
proof -
  obtain l s where L: "link_events xbox_maps (steam_arrives @ [(radio [0], Setup_finished 0)]) searching = Some l" "alone s l"
    "btaddr s = spare_addr" "conn_state s = STATE_READY" "con_handle s = 0" "link_run xbox_maps l"
    by (rule steam_ready)
  have t: "table l = s # replicate 3 init_slot" "allow l = fresh_allowlist" using L(2) by (simp_all add: alone_def)
  have r: "conn_state (table l ! 0) = STATE_READY" "con_handle (table l ! 0) = 0" by (simp_all add: t L)
  have other: "table l ! f = init_slot" if "f < 4" "f \<noteq> 0" for f using that by (cases f) (simp_all add: t)
  have u: "f = 0" if "f < 4" "con_handle (table l ! f) = 0" for f
    using that other [OF that(1)] by (cases "f = 0") (auto simp: init_slot_def conn_handle_invalid_def)
  have "spare_addr \<noteq> xbox_addr" "xbox_addr \<noteq> zero_addr" by code_simp+
  moreover have "btaddr (table l ! f) = (if f = 0 then spare_addr else zero_addr)" if "f < 4" for f
    using other [OF that] by (simp add: t L(3) init_slot_def zero_slot_def)
  moreover have "cod_of_appearance 0x3C4 \<noteq> None" by (simp add: cod_of_appearance_def appearance_gamepad_def)
  moreover have "uni_bt_allowlist_is_allowed_addr xbox_addr fresh_allowlist"
    by (simp add: uni_bt_allowlist_is_allowed_addr_def fresh_allowlist_def)
  ultimately have a: "admits xbox_addr 0x3C4 200 l" using t(2) by (auto simp: admits_def intro: exI [of _ 1])
  have ok: "link_ok l" using link_run_ok [OF L(6)] by simp
  obtain k where "uni_bt_le_on_gap_event_advertising_report xbox_addr 0 xbox_data 200 l = Some k"
    by (rule report_admitted [OF ok a xbox_data_parsed, of 0])
  then have k: "handle xbox_maps (radio [0]) (Advertising_report xbox_addr 0 xbox_data 200) l = Some k" by simp
  have g: "gap_type (radio [0]) 0 = GAP_CONNECTION_LE" by (simp add: radio_def)
  have z: "(0 :: nat) < 4" by simp
  obtain d m n where "link_events xbox_maps [(radio [0], Connection_timeout d)] (k\<lparr>now_ms := now_ms k + 20000\<rparr>) = Some m"
    "link_events xbox_maps [(radio [0], Disconnection_complete 0)] m = Some n" "table n ! 0 = init_slot"
    using second_controller_kicks_first [OF L(6) z r u a xbox_data_parsed k g] by blast
  then show ?thesis using L(1) r(1) k by blast
qed

theorem loss_with_running_timer_witness:
  "\<exists>n k. handle xbox_maps (radio [0]) (Driver_timer 0 True) n = Some k \<and> link_run xbox_maps n \<and>
     (\<exists>m. handle xbox_maps (radio []) (Disconnection_complete 0) k = Some m \<and> \<not> run_loop_ok m)"
proof -
  obtain n s where N: "alone s n" "conn_state s = STATE_READY" "con_handle s = 0" "link_run xbox_maps n"
    by (rule steam_ready)
  define k where "k = upd_slot 0 (\<lambda>s. s\<lparr>driver_timer := True\<rparr>) n"
  have h: "handle xbox_maps (radio [0]) (Driver_timer 0 True) n = Some k" by (simp add: k_def)
  have a: "alone (s\<lparr>driver_timer := True\<rparr>) k" unfolding k_def by (rule alone_step(1) [OF N(1)])
  have r: "link_run xbox_maps k" by (rule link_event [OF N(4) _ h]) (simp add: alone_first [OF N(1)] N(2))
  have "uni_hid_device_get_instance_for_connection_handle 0 k = Some 0" by (rule alone_handle [OF a]) (simp add: N(3))
  from loss_with_running_timer [OF r this, of "radio []"] show ?thesis using h N(4) by (auto simp: alone_first [OF a])
qed

end
