(* ===== verification/App_Loop.thy ===== *)
theory App_Loop
  imports Editor Peripherals Seats Broadcast_Off
begin

text \<open>
  The application itself: \<open>setup()\<close> and \<open>loop()\<close> of \<^verbatim>\<open>main/sketch.cpp\<close> with the two controller
  callbacks and the sleep entry. The record \<open>sys\<close> holds the state of every component. One call of
  \<open>loop\<close> takes the readings the environment supplies during it: the clock at each place it is
  read, whether the touch panel raises its interrupt in each frame of the switch animation, the bytes
  received on the serial port and the battery voltage. Within one call the radio task is taken not to
  run; between calls it runs freely. Drawing and log output are left out.
\<close>

section \<open>State and readings\<close>

datatype XwcState = XWC_DISCONNECTED | XWC_CONNECTING | XWC_ACTIVE

record ('fs, 'w) sys =
  ui :: "'fs app"
  air :: bc_state
  lastToggleMs :: "u32 list"
  xwcState :: XwcState
  thl :: thl_vars
  tune_buf :: string
  myControllers :: "nat option list"
  plat :: platform
  bp :: bluepad
  colorIdx :: int
  led :: int
  touch :: touch_state
  imu :: imu_state
  batt :: battery
  bus :: 'w

text \<open>The places where one call of \<open>loop\<close> reads the millisecond clock.\<close>

datatype clock_site = At_sweep | At_battery | At_imu | At_touch | At_tap | At_page | At_hold
  | At_idle_check | At_idle_page | At_hold_check | At_sleep_check | At_wake_page

record readings =
  ms :: "clock_site \<Rightarrow> u32"
  us_failsafe :: "nat \<times> nat \<Rightarrow> int"
  us_sweep :: "nat \<times> nat \<Rightarrow> int"
  us_toggle :: "nat \<Rightarrow> int \<Rightarrow> int"
  irq_frame :: "nat \<Rightarrow> bool"
  pinMv :: u32
  received :: string

section \<open>Controllers\<close>

fun set_channels :: "(nat \<times> nat \<Rightarrow> int) \<Rightarrow> channel_call list \<Rightarrow> bc_state \<Rightarrow> bc_state option" where
  "set_channels us [] s = Some s"
| "set_channels us ((d, p, v) # calls) s =
     do { s1 \<leftarrow> mkh_set_channel (int d) (int p) v (us (d, p)) s; set_channels us calls s1 }"

text \<open>A controller is named by its position in Bluepad32's array of \<open>Controller\<close> objects.\<close>

definition onConnectedController :: "nat \<Rightarrow> ('fs, 'w) sys \<Rightarrow> ('fs, 'w) sys" where
  "onConnectedController k s =
     (case List.find (\<lambda>i. myControllers s ! i = None) [0..<max_devices] of
        None \<Rightarrow> s
      | Some i \<Rightarrow> s\<lparr>myControllers := (myControllers s)[i := Some k],
                   xwcState := (if i = 0 then XWC_CONNECTING else xwcState s)\<rparr>)"

definition onDisconnectedController :: "readings \<Rightarrow> nat \<Rightarrow> ('fs, 'w) sys \<Rightarrow> ('fs, 'w) sys option" where
  "onDisconnectedController r k s =
     (case List.find (\<lambda>i. myControllers s ! i = Some k) [0..<max_devices] of
        None \<Rightarrow> Some s
      | Some i \<Rightarrow>
          (let s1 = s\<lparr>myControllers := (myControllers s)[i := None]\<rparr>
           in if i \<noteq> 0 then Some s1
              else (let (calls, tb) = disconnect_failsafe (live (ui s1)) (slots (ui s1))
                    in do { t \<leftarrow> set_channels (us_failsafe r) calls (air s1);
                            Some (s1\<lparr>xwcState := XWC_DISCONNECTED, air := t, ui := (ui s1)\<lparr>slots := tb\<rparr>\<rparr>) })))"

fun callbacks :: "readings \<Rightarrow> callback list \<Rightarrow> ('fs, 'w) sys \<Rightarrow> ('fs, 'w) sys option" where
  "callbacks r [] s = Some s"
| "callbacks r (On_connect k # cbs) s = callbacks r cbs (onConnectedController k s)"
| "callbacks r (On_disconnect k # cbs) s = do { s1 \<leftarrow> onDisconnectedController r k s; callbacks r cbs s1 }"

text \<open>The requests \<open>processGamepad\<close> makes of a connected controller; the counters are its statics.\<close>

definition request_if :: "bool \<Rightarrow> request_cmd \<Rightarrow> Controller \<Rightarrow> platform \<Rightarrow> platform" where
  "request_if c cmd ctl p = (if c \<and> c_connected ctl then snd (arduino_request cmd (c_idx ctl) p) else p)"

definition processGamepad :: "Controller \<Rightarrow> ('fs, 'w) sys \<Rightarrow> ('fs, 'w) sys" where
  "processGamepad ctl s =
     (let btn = ctl_buttons (c_data ctl);
          n = colorIdx s mod 3;
          led1 = (if bit btn 1 then led s + 1 else led s);
          p1 = request_if (bit btn 0)
                 (if n = 0 then Lightbar_color 255 0 0 else if n = 1 then Lightbar_color 0 255 0 else Lightbar_color 0 0 255)
                 ctl (plat s);
          p2 = request_if (bit btn 1) (Player_leds (word_of_int led1 AND 0x0F)) ctl p1;
          p3 = request_if (bit btn 2) (Dual_rumble 0 250 0x80 0x40) ctl p2
      in s\<lparr>plat := p3, colorIdx := (if bit btn 0 then colorIdx s + 1 else colorIdx s), led := led1\<rparr>)"

definition processController :: "nat option \<Rightarrow> ('fs, 'w) sys \<Rightarrow> ('fs, 'w) sys" where
  "processController m s =
     (case m of
        None \<Rightarrow> s
      | Some k \<Rightarrow>
          (let ctl = ctrls (bp s) ! k
           in if c_connected ctl \<and> c_hasData ctl then
                (let s1 = (if c_idx ctl = 0 then s\<lparr>xwcState := XWC_ACTIVE\<rparr> else s)
                 in if klass (c_data ctl) = UNI_CONTROLLER_CLASS_GAMEPAD then processGamepad ctl s1 else s1)
              else s))"

definition processControllers :: "('fs, 'w) sys \<Rightarrow> ('fs, 'w) sys" where
  "processControllers s = fold processController (myControllers s) s"

text \<open>\<open>BP32.update()\<close> with the callbacks it makes, then the controllers if there is new data.\<close>

definition poll_controllers :: "readings \<Rightarrow> ('fs, 'w) sys \<Rightarrow> ('fs, 'w) sys option" where
  "poll_controllers r s =
     (let (dataUpdated, cbs, p, b) = bp32_update (plat s, bp s)
      in do { s1 \<leftarrow> callbacks r cbs (s\<lparr>plat := p, bp := b\<rparr>);
              Some (if dataUpdated then processControllers s1 else s1) })"

definition first_controller :: "('fs, 'w) sys \<Rightarrow> Controller option" where
  "first_controller s = map_option (\<lambda>k. ctrls (bp s) ! k) (myControllers s ! 0)"

definition drive :: "readings \<Rightarrow> ('fs, 'w) sys \<Rightarrow> ('fs, 'w) sys option" where
  "drive r s =
     (case first_controller s of
        None \<Rightarrow> Some s
      | Some ctl \<Rightarrow>
          do { (calls, tb, v) \<leftarrow> processMappedInputs (accessors (c_data ctl)) (ms r At_sweep)
                 (mkh_imu_ready (imu s)) (mkh_imu_heading_deg (imu s)) (live (ui s)) (slots (ui s), thl s);
               t \<leftarrow> set_channels (us_sweep r) calls (air s);
               Some (s\<lparr>air := t, ui := (ui s)\<lparr>slots := tb\<rparr>, thl := v\<rparr>) })"

text \<open>The battery, the gyro and the serial console, which run on every tick.\<close>

definition housekeeping :: "'w wire \<Rightarrow> readings \<Rightarrow> ('fs, 'w) sys \<Rightarrow> ('fs, 'w) sys" where
  "housekeeping W r s =
     (let (i, w) = mkh_imu_poll W (ms r At_imu) (imu s, bus s);
          (buf, v) = mkh_thl_poll_serial_tuning (received r) (tune_buf s, thl s)
      in s\<lparr>batt := updateBatteryReading (ms r At_battery) (pinMv r) (batt s), imu := i, bus := w, tune_buf := buf, thl := v\<rparr>)"

section \<open>Touch dispatch\<close>

definition mkh_zone_1_2_boundary_y :: int where "mkh_zone_1_2_boundary_y = 110"
definition mkh_zone_2_3_boundary_y :: int where "mkh_zone_2_3_boundary_y = 150"

definition touchYToDeviceId :: "int \<Rightarrow> int" where
  "touchYToDeviceId displayY =
     (if displayY < mkh_zone_1_2_boundary_y then 0 else if displayY < mkh_zone_2_3_boundary_y then 1 else 2)"

definition idle_timeout_ms :: u32 where "idle_timeout_ms = 30000"
definition auto_sleep_timeout_ms :: u32 where "auto_sleep_timeout_ms = 600000"
definition sleep_hold_ms :: u32 where "sleep_hold_ms = 1500"
definition idle_sleep_btn :: rect where "idle_sleep_btn = (210, 96, 198, 38)"

text \<open>The animation of a dashboard switch waits 40 ms per frame and polls the touch panel after each, so
  that a release in that time is not missed; a tap in that time is discarded.\<close>

fun animation_frames :: "'w wire \<Rightarrow> bool list \<Rightarrow> touch_state \<times> 'w \<Rightarrow> (touch_state \<times> 'w) option" where
  "animation_frames W [] tw = Some tw"
| "animation_frames W (irq # irqs) (t, w) =
     do { (ignored, t1, w1) \<leftarrow> mkh_touch_poll W (if irq then touchIsr t else t, w);
          animation_frames W irqs (t1, w1) }"

definition animateToggleSwitch :: "'w wire \<Rightarrow> readings \<Rightarrow> ('fs, 'w) sys \<Rightarrow> ('fs, 'w) sys option" where
  "animateToggleSwitch W r s =
     do { (t, w) \<leftarrow> animation_frames W (map (irq_frame r) [0..<4]) (touch s, bus s);
          Some (s\<lparr>touch := t, bus := w\<rparr>) }"

text \<open>The row part of the dashboard; a switch-off also clears the runtime state of the hub's bindings.\<close>

definition row_tap :: "'w wire \<Rightarrow> readings \<Rightarrow> int \<Rightarrow> ('fs, 'w) sys \<Rightarrow> ('fs, 'w) sys option" where
  "row_tap W r deviceId s =
     (let now = ms r At_tap; clock = us_toggle r (nat deviceId)
      in do { busy \<leftarrow> mkh_broadcast_is_transitioning deviceId (air s);
              stamp \<leftarrow> arr_get (lastToggleMs s) deviceId;
              if busy then Some s
              else if now - stamp \<ge> mkh_toggle_debounce_ms then do {
                stamps \<leftarrow> arr_set (lastToggleMs s) deviceId now;
                broadcasting \<leftarrow> arr_get (mkh_hub_broadcasting (air s)) deviceId;
                if broadcasting then do {
                  t \<leftarrow> mkh_broadcast_toggle_off deviceId clock (air s);
                  animateToggleSwitch W r
                    (s\<lparr>air := t, lastToggleMs := stamps,
                       ui := (ui s)\<lparr>slots := clearLatchStateForDevice (nat deviceId) (slots (ui s))\<rparr>\<rparr>)
                } else do {
                  t \<leftarrow> mkh_broadcast_toggle_on deviceId clock (air s);
                  on \<leftarrow> arr_get (mkh_hub_broadcasting t) deviceId;
                  (if on then animateToggleSwitch W r else Some) (s\<lparr>air := t, lastToggleMs := stamps\<rparr>)
                }
              } else Some s })"

definition ui_page :: "('fs, 'w) sys \<Rightarrow> UiPage" where
  "ui_page s = currentPage (ui s)"

definition with_ui :: "('fs, 'w) sys \<Rightarrow> 'fs app option \<Rightarrow> ('fs, 'w) sys option" where
  "with_ui s m = map_option (\<lambda>a. s\<lparr>ui := a\<rparr>) m"

text \<open>A tap on any page but the dashboard.\<close>

definition page_tap :: "'fs littlefs \<Rightarrow> readings \<Rightarrow> int \<Rightarrow> int \<Rightarrow> 'fs app \<Rightarrow> 'fs app option" where
  "page_tap L r touchX touchY a =
     (case currentPage a of
        PAGE_STATS \<Rightarrow> goToPage (ms r At_page) PAGE_DASHBOARD a
      | PAGE_EDIT_SELECT \<Rightarrow> dispatchHubSelectTouch L (ms r At_page) touchX touchY a
      | PAGE_EDIT_PORTS \<Rightarrow> dispatchPortSelectTouch (ms r At_page) touchX touchY a
      | PAGE_EDIT_CAPTURE \<Rightarrow> dispatchCaptureTouch (ms r At_page) touchX touchY a
      | PAGE_EDIT_SETTINGS \<Rightarrow> dispatchSettingsTouch L (ms r At_page) touchX touchY a
      | PAGE_IDLE \<Rightarrow>
          if in_rect idle_sleep_btn touchX touchY
          then Some (a\<lparr>idleSleepHoldActive := True, idleSleepHoldStartMs := ms r At_hold\<rparr>)
          else goToPage (ms r At_page) PAGE_DASHBOARD a
      | _ \<Rightarrow> Some a)"

definition touch_dispatch :: "'fs littlefs \<Rightarrow> 'w wire \<Rightarrow> readings \<Rightarrow> int \<Rightarrow> int \<Rightarrow> ('fs, 'w) sys \<Rightarrow> ('fs, 'w) sys option" where
  "touch_dispatch L W r touchX touchY s0 =
     (let s = s0\<lparr>ui := (ui s0)\<lparr>lastTouchActivityMs := ms r At_touch\<rparr>\<rparr>
      in if ui_page s = PAGE_DASHBOARD then
           (if in_rect settings_hit touchX touchY
            then with_ui s (goToPage (ms r At_page) PAGE_EDIT_SELECT (clearEditorSession (ui s)))
            else row_tap W r (touchYToDeviceId touchY) s)
         else with_ui s (page_tap L r touchX touchY (ui s)))"

definition touch_step :: "'fs littlefs \<Rightarrow> 'w wire \<Rightarrow> readings \<Rightarrow> ('fs, 'w) sys \<Rightarrow> ('fs, 'w) sys option" where
  "touch_step L W r s =
     do { (tap, t, w) \<leftarrow> mkh_touch_poll W (touch s, bus s);
          let s1 = s\<lparr>touch := t, bus := w\<rparr>;
          (case tap of None \<Rightarrow> Some s1 | Some (touchX, touchY) \<Rightarrow> touch_dispatch L W r touchX touchY s1) }"

section \<open>Idle and sleep\<close>

definition idle_entry :: "readings \<Rightarrow> ('fs, 'w) sys \<Rightarrow> ('fs, 'w) sys option" where
  "idle_entry r s =
     (if ui_page s = PAGE_DASHBOARD \<and> xwcState s \<noteq> XWC_ACTIVE \<and>
         ms r At_idle_check - lastTouchActivityMs (ui s) \<ge> idle_timeout_ms
      then with_ui s (goToPage (ms r At_idle_page) PAGE_IDLE (ui s))
      else Some s)"

text \<open>The switch-offs of \<open>enterDeepSleep\<close>, and its wait for the hubs to drop out. The wait is given
  what each round finds, the clock and the state of the radio; \<open>None\<close> if it goes on after the last.\<close>

definition sleep_toggles :: "readings \<Rightarrow> bc_state \<Rightarrow> bc_state option" where
  "sleep_toggles r s =
     do { s0 \<leftarrow> mkh_broadcast_toggle_off 0 (us_toggle r 0) s;
          s1 \<leftarrow> mkh_broadcast_toggle_off 1 (us_toggle r 1) s0;
          mkh_broadcast_toggle_off 2 (us_toggle r 2) s1 }"

definition neutral_wait_timeout_ms :: u32 where "neutral_wait_timeout_ms = 2000"

definition all_clear :: "bc_state \<Rightarrow> bool" where
  "all_clear s =
     list_all (\<lambda>d. arr_get (mkh_hub_broadcasting s) d = Some False \<and> mkh_broadcast_is_transitioning d s = Some False)
       [0, 1, 2]"

fun neutral_wait :: "u32 \<Rightarrow> (u32 \<times> bc_state) list \<Rightarrow> bool option" where
  "neutral_wait start [] = None"
| "neutral_wait start ((now, s) # rounds) =
     (if now - start \<ge> neutral_wait_timeout_ms then Some False
      else if all_clear s then Some True
      else neutral_wait start rounds)"

datatype outcome = Awake | Asleep

definition enterDeepSleep :: "readings \<Rightarrow> ('fs, 'w) sys \<Rightarrow> (('fs, 'w) sys \<times> outcome) option" where
  "enterDeepSleep r s = do { t \<leftarrow> sleep_toggles r (air s); Some (s\<lparr>air := t\<rparr>, Asleep) }"

definition stay :: "('fs, 'w) sys option \<Rightarrow> (('fs, 'w) sys \<times> outcome) option" where
  "stay m = map_option (\<lambda>s. (s, Awake)) m"

definition idle_page :: "readings \<Rightarrow> ('fs, 'w) sys \<Rightarrow> (('fs, 'w) sys \<times> outcome) option" where
  "idle_page r s =
     (let released = s\<lparr>ui := (ui s)\<lparr>idleSleepHoldActive := False\<rparr>\<rparr>
      in if xwcState s = XWC_ACTIVE then stay (with_ui s (goToPage (ms r At_wake_page) PAGE_DASHBOARD (ui s)))
         else if idleSleepHoldActive (ui s) then
           (if \<not> mkh_touch_is_pressed (touch s)
            then stay (with_ui s (goToPage (ms r At_wake_page) PAGE_DASHBOARD (ui released)))
            else if ms r At_hold_check - idleSleepHoldStartMs (ui s) \<ge> sleep_hold_ms then enterDeepSleep r released
            else Some (s, Awake))
         else if ms r At_sleep_check - idleEnteredMs (ui s) \<ge> auto_sleep_timeout_ms then enterDeepSleep r s
         else Some (s, Awake))"

definition capture_page :: "('fs, 'w) sys \<Rightarrow> ('fs, 'w) sys" where
  "capture_page s =
     s\<lparr>ui := checkCapture
         (case first_controller s of
            None \<Rightarrow> None
          | Some ctl \<Rightarrow> if c_connected ctl then Some (accessors (c_data ctl)) else None) (ui s)\<rparr>"

definition page_work :: "readings \<Rightarrow> ('fs, 'w) sys \<Rightarrow> (('fs, 'w) sys \<times> outcome) option" where
  "page_work r s =
     (if ui_page s = PAGE_IDLE then idle_page r s
      else if ui_page s = PAGE_EDIT_CAPTURE \<and> \<not> capturePromptActive (ui s) then Some (capture_page s, Awake)
      else Some (s, Awake))"

section \<open>The loop\<close>

definition loop :: "'fs littlefs \<Rightarrow> 'w wire \<Rightarrow> readings \<Rightarrow> ('fs, 'w) sys \<Rightarrow> (('fs, 'w) sys \<times> outcome) option" where
  "loop L W r s =
     do { s1 \<leftarrow> poll_controllers r s;
          s2 \<leftarrow> drive r s1;
          s3 \<leftarrow> touch_step L W r (housekeeping W r s2);
          s4 \<leftarrow> idle_entry r s3;
          page_work r s4 }"

section \<open>Start\<close>

text \<open>The statics before \<open>setup\<close>, and \<open>setup\<close>; its four clock readings are those after the gyro
  calibration and those of the two page switches.\<close>

definition sys_boot :: "'fs \<Rightarrow> 'w \<Rightarrow> ('fs, 'w) sys" where
  "sys_boot fs w =
     \<lparr>ui = app_init config_init (replicate 3 (replicate 6 (replicate 8 clear_slot))) fs,
      air = mkh_broadcast_init bc_boot, lastToggleMs = [0, 0, 0], xwcState = XWC_DISCONNECTED, thl = thl_boot,
      tune_buf = [], myControllers = replicate max_devices None, plat = arduino_init, bp = bluepad_boot,
      colorIdx = 0, led = 0, touch = touch_boot, imu = imu_boot, batt = battery_boot, bus = w\<rparr>"

definition app_setup :: "'fs littlefs \<Rightarrow> 'w wire \<Rightarrow> u32 \<times> u32 \<times> u32 \<times> u32 \<Rightarrow> ('fs, 'w) sys \<Rightarrow> ('fs, 'w) sys option" where
  "app_setup L W = (\<lambda>(t1, t2, t3, t4) s.
     (let (cfg, fs) = mkh_storage_boot_read L (live (ui s), disk (ui s));
          (t, w1) = mkh_touch_init W (touch s, bus s);
          (i, w2) = mkh_imu_init W t1 t2 (imu s, w1)
      in do { a1 \<leftarrow> goToPage t3 PAGE_SPLASH ((ui s)\<lparr>live := cfg, disk := fs\<rparr>);
              a2 \<leftarrow> goToPage t4 PAGE_STATS a1;
              Some (s\<lparr>ui := a2, touch := t, imu := i, bus := w2\<rparr>) }))"

end
