(* ===== verification/Drive_Faults.thy ===== *)
theory Drive_Faults
  imports Editor_Laws Peripherals_Laws
begin

text \<open>
  When the sweep of \<open>processMappedInputs\<close> has no defined result. The only step of it that can fail is
  the conversion of the output of an engaged heading lock to an \<open>int\<close>; the lemmas carry this from one
  binding over a port to the whole table, for every controller reading and every value of the tunables.
\<close>

section \<open>One heading lock\<close>

text \<open>The scaled outputs that \<open>lroundf\<close> converts and that still fit an \<open>int\<close> after adding the neutral value.\<close>

fun in_motor_range :: "c_float \<Rightarrow> bool" where
  "in_motor_range (Fin x) \<longleftrightarrow> -2147483648 \<le> lround x \<and> lround x \<le> 2147483519"
| "in_motor_range _ \<longleftrightarrow> False"

definition lock_output :: "thl_vars \<Rightarrow> tick \<Rightarrow> drive_slot \<Rightarrow> c_float" where
  "lock_output v t s =
     f_mul (f_div_const (fst (mkh_thl_compute_output_pct v (thlReferenceDeg s) (imu_heading t))) 100) (Fin 127)"

text \<open>A heading-lock binding whose lock is engaged once this tick's press is taken into account, with an
  output outside that range.\<close>

definition lock_faults :: "controller \<Rightarrow> tick \<Rightarrow> thl_vars \<Rightarrow> mkh_binding \<Rightarrow> drive_slot \<Rightarrow> bool" where
  "lock_faults ctl t v b s \<longleftrightarrow>
     b_mode b = MKH_MODE_THL \<and> mkh_config_input_class (b_input b) \<noteq> MKH_INPUT_CLASS_AXIS \<and>
     (let s' = fst (thl_press t (pressed_level ctl (b_input b)) (s, v))
      in thlEngaged s' \<and> \<not> in_motor_range (lock_output v t s'))"

lemma motor_range_iff:
  "Option.bind (lroundf f) (\<lambda>delta. Option.bind (i32 (0x80 + delta)) (\<lambda>level. Some (g level))) = None \<longleftrightarrow> \<not> in_motor_range f"
  by (cases f) (auto simp: i32_def)

lemma press_tunables: "tunables (snd (thl_press t pressed (s, v))) = tunables v"
  by (simp add: thl_press_def mkh_thl_set_status_def tunables_def Let_def)

lemma press_slot: "fst (thl_press t pressed (s, v)) = fst (thl_press t pressed (s, w))"
  by (simp add: thl_press_def Let_def)

lemma compute_tunables:
  "tunables v = tunables w \<Longrightarrow> mkh_thl_compute_output_pct v = mkh_thl_compute_output_pct w"
  by (intro ext) (simp add: tunables_def mkh_thl_compute_output_pct_def Let_def cong: if_cong)

lemma output_tunables: "tunables v = tunables w \<Longrightarrow> lock_output v = lock_output w"
  using compute_tunables [of v w] by (simp add: lock_output_def fun_eq_iff)

lemma faults_tunables: "tunables v = tunables w \<Longrightarrow> lock_faults ctl t v b s = lock_faults ctl t w b s"
  using output_tunables [of v w] press_slot [of t _ s v w] by (simp add: lock_faults_def Let_def)

lemma thl_step_fails:
  "thl_step t pressed (s, v) = None \<longleftrightarrow>
     thlEngaged (fst (thl_press t pressed (s, v))) \<and> \<not> in_motor_range (lock_output v t (fst (thl_press t pressed (s, v))))"
proof -
  obtain s1 v1 where p: "thl_press t pressed (s, v) = (s1, v1)" by fastforce
  have v1: "tunables v1 = tunables v" using press_tunables [of t pressed s v] p by simp
  obtain pct err where o: "mkh_thl_compute_output_pct v1 (thlReferenceDeg s1) (imu_heading t) = (pct, err)" by fastforce
  have "lock_output v t s1 = f_mul (f_div_const pct 100) (Fin 127)"
    using output_tunables [OF v1] o by (metis lock_output_def fst_conv)
  then show ?thesis
    using motor_range_iff [of "f_mul (f_div_const pct 100) (Fin 127)"
        "\<lambda>level. (to_u8 (clamp_byte level), s1, mkh_thl_set_status MKH_THL_STATE_ENGAGED err pct v1)"]
    by (simp add: thl_step_def p o)
qed

lemma thl_step_tunables: "thl_step t pressed (s, v) = Some (r, s', v') \<Longrightarrow> tunables v' = tunables v"
  using press_tunables [of t pressed s v]
  by (cases "thl_press t pressed (s, v)")
    (auto simp: thl_step_def mkh_thl_set_status_def tunables_def bind_eq_Some_conv split: if_splits prod.splits)

section \<open>One binding, one port\<close>

lemma binding_step_fails: "binding_step ctl t b (s, v) = None \<longleftrightarrow> lock_faults ctl t v b s"
  using stick_total [of "readTokenRaw ctl (b_input b)"] trigger_total [of "readTokenRaw ctl (b_input b)"]
  by (auto simp: binding_step_def lock_faults_def thl_step_fails Let_def split: prod.splits)

lemma binding_step_tunables: "binding_step ctl t b (s, v) = Some (r, s', v') \<Longrightarrow> tunables v' = tunables v"
  by (auto simp: binding_step_def Let_def dest: thl_step_tunables split: if_splits prod.splits)

lemma pass1_fails:
  "length bs \<le> length ss \<Longrightarrow> pass1 ctl t bs ss v = None \<longleftrightarrow> (\<exists>i<length bs. lock_faults ctl t v (bs ! i) (ss ! i))"
proof (induction bs arbitrary: ss v)
  case (Cons b bs)
  then obtain s ss1 where ss: "ss = s # ss1" by (cases ss) auto
  have first: "(\<exists>i<length (b # bs). lock_faults ctl t v ((b # bs) ! i) (ss ! i)) \<longleftrightarrow>
      lock_faults ctl t v b s \<or> (\<exists>i<length bs. lock_faults ctl t v (bs ! i) (ss1 ! i))"
    by (simp add: ss Ex_less_Suc2)
  show ?case
  proof (cases "binding_step ctl t b (s, v)")
    case None
    then have "lock_faults ctl t v b s" by (simp add: binding_step_fails)
    with None first show ?thesis by (simp add: ss)
  next
    case (Some q)
    obtain r s' v' where q: "q = (r, s', v')" by (cases q)
    have nf: "\<not> lock_faults ctl t v b s" using Some by (simp flip: binding_step_fails)
    have tn: "tunables v' = tunables v" by (rule binding_step_tunables) (use Some q in simp)
    have "pass1 ctl t (b # bs) ss v = None \<longleftrightarrow> pass1 ctl t bs ss1 v' = None"
      by (cases "pass1 ctl t bs ss1 v'") (auto simp: ss Some q)
    also have "\<dots> \<longleftrightarrow> (\<exists>i<length bs. lock_faults ctl t v (bs ! i) (ss1 ! i))"
      using Cons.IH [of ss1 v'] Cons.prems ss faults_tunables [OF tn] by simp
    finally show ?thesis using first nf by blast
  qed
qed simp

lemma pass1_tunables: "pass1 ctl t bs ss v = Some (rs, ss', v') \<Longrightarrow> tunables v' = tunables v"
proof (induction ctl t bs ss v arbitrary: rs ss' v' rule: pass1.induct)
  case (1 ctl t b bs s ss v)
  from "1.prems" obtain r s1 v1 rs1 ss1 where
    h: "binding_step ctl t b (s, v) = Some (r, s1, v1)" "pass1 ctl t bs ss v1 = Some (rs1, ss1, v')"
    by (auto simp: bind_eq_Some_conv)
  from "1.IH" [OF h(1) refl refl h(2)] binding_step_tunables [OF h(1)] show ?case by simp
qed auto

lemma pass2_tunables: "pass2 bs (rs, ss, v) = (rs', ss', v') \<Longrightarrow> tunables v' = tunables v"
  by (auto simp: pass2_def mkh_thl_set_status_def tunables_def split: option.splits)

lemma port_step_fails:
  "length bs \<le> length ss \<Longrightarrow>
   port_step ctl t bs (ss, v) = None \<longleftrightarrow> (\<exists>i<length bs. lock_faults ctl t v (bs ! i) (ss ! i))"
  using pass1_fails [of bs ss ctl t v] by (cases "pass1 ctl t bs ss v") (auto simp: port_step_def Let_def split: prod.splits)

lemma port_step_tunables: "port_step ctl t bs (ss, v) = Some (r, ss', v') \<Longrightarrow> tunables v' = tunables v"
proof -
  assume "port_step ctl t bs (ss, v) = Some (r, ss', v')"
  then obtain rs s1 v1 rs' where h: "pass1 ctl t bs ss v = Some (rs, s1, v1)" "pass2 bs (rs, s1, v1) = (rs', ss', v')"
    by (auto simp: port_step_def bind_eq_Some_conv Let_def split_def prod_eq_iff)
  from pass2_tunables [OF h(2)] pass1_tunables [OF h(1)] show ?thesis by simp
qed

lemma pass1_length: "pass1 ctl t bs ss v = Some (rs, ss', v') \<Longrightarrow> length ss' = length ss"
proof (induction ctl t bs ss v arbitrary: rs ss' v' rule: pass1.induct)
  case (1 ctl t b bs s ss v)
  from "1.prems" obtain r s1 v1 rs1 ss1 v2 where
    h: "binding_step ctl t b (s, v) = Some (r, s1, v1)" "pass1 ctl t bs ss v1 = Some (rs1, ss1, v2)" "ss' = s1 # ss1"
    by (auto simp: bind_eq_Some_conv)
  from "1.IH" [OF h(1) refl refl h(2)] h(3) show ?case by simp
qed auto

lemma port_step_length: "port_step ctl t bs (ss, v) = Some (byte, ss', v') \<Longrightarrow> length ss' = length ss"
  by (auto simp: port_step_def pass2_def Let_def bind_eq_Some_conv dest!: pass1_length split: option.splits prod.splits)

section \<open>The sweep\<close>

lemma sweep_fails:
  "slots_ok tb \<Longrightarrow> cfg_bounded cfg \<Longrightarrow> set ps \<subseteq> set all_ports \<Longrightarrow> distinct ps \<Longrightarrow>
   sweep_ports ctl t cfg ps (tb, v) = None \<longleftrightarrow>
     (\<exists>(d, p)\<in>set ps. \<exists>i<length (bindings (port_at cfg d p)).
        lock_faults ctl t v (bindings (port_at cfg d p) ! i) (tb ! d ! p ! i))"
proof (induction ps arbitrary: tb v)
  case (Cons q ps)
  obtain d p where q: "q = (d, p)" by fastforce
  have dp: "d < 3" "p < 6" using Cons.prems(3) by (auto simp: q all_ports_def)
  let ?bs = "bindings (port_at cfg d p)"
  let ?bad = "\<lambda>tb v d p. \<exists>i<length (bindings (port_at cfg d p)).
        lock_faults ctl t v (bindings (port_at cfg d p) ! i) (tb ! d ! p ! i)"
  have len: "length ?bs \<le> length (tb ! d ! p)" using Cons.prems(1,2) dp by (simp add: slots_ok_def cfg_bounded_def)
  note P = port_step_fails [OF len, of ctl t v]
  have split: "(\<exists>(d, p)\<in>set (q # ps). ?bad tb v d p) \<longleftrightarrow> ?bad tb v d p \<or> (\<exists>(d, p)\<in>set ps. ?bad tb v d p)"
    by (simp add: q)
  show ?case
  proof (cases "?bs = []")
    case True
    then have "sweep_ports ctl t cfg (q # ps) (tb, v) = sweep_ports ctl t cfg ps (tb, v)"
      using get_port [OF dp, of cfg] by (simp add: q)
    moreover have "sweep_ports ctl t cfg ps (tb, v) = None \<longleftrightarrow> (\<exists>(d, p)\<in>set ps. ?bad tb v d p)"
      by (rule Cons.IH) (use Cons.prems in auto)
    ultimately show ?thesis using True by (simp add: q)
  next
    case False
    show ?thesis
    proof (cases "port_step ctl t ?bs (tb ! d ! p, v)")
      case None
      then have "?bad tb v d p" using P by simp
      moreover have "sweep_ports ctl t cfg (q # ps) (tb, v) = None"
        using None False get_port [OF dp, of cfg] by (simp add: q)
      ultimately show ?thesis using split by blast
    next
      case (Some w)
      obtain byte ss v' where w: "w = (byte, ss, v')" by (cases w)
      have good: "\<not> ?bad tb v d p" using Some P by simp
      let ?tb = "tb[d := (tb ! d)[p := ss]]"
      have tn: "tunables v' = tunables v" by (rule port_step_tunables) (use Some w in simp)
      have ok: "slots_ok ?tb"
        using port_step_length [of ctl t ?bs "tb ! d ! p" v] Some w Cons.prems(1) dp slots_ok_set
        by (simp add: slots_ok_def)
      have other: "?tb ! d' ! p' = tb ! d' ! p'" if "(d', p') \<in> set ps" for d' p'
      proof -
        have "(d', p') \<noteq> (d, p)" "d' < 3" using that Cons.prems(3,4) by (auto simp: q all_ports_def)
        then show ?thesis using Cons.prems(1) by (cases "d' = d") (auto simp: slots_ok_def)
      qed
      have "sweep_ports ctl t cfg (q # ps) (tb, v) = None \<longleftrightarrow> sweep_ports ctl t cfg ps (?tb, v') = None"
        using Some w False get_port [OF dp, of cfg]
        by (cases "sweep_ports ctl t cfg ps (?tb, v')") (auto simp: q)
      also have "\<dots> \<longleftrightarrow> (\<exists>(d, p)\<in>set ps. ?bad ?tb v' d p)"
        by (rule Cons.IH [OF ok Cons.prems(2)]) (use Cons.prems in auto)
      also have "\<dots> \<longleftrightarrow> (\<exists>(d, p)\<in>set ps. ?bad tb v d p)"
        by (rule bex_cong [OF refl]) (use other faults_tunables [OF tn] in \<open>auto split: prod.splits\<close>)
      finally show ?thesis using split good by blast
    qed
  qed
qed simp

lemma distinct_ports: "distinct all_ports"
  by code_simp

lemma ports_mem: "(d, p) \<in> set all_ports \<longleftrightarrow> d < 3 \<and> p < 6"
  unfolding all_ports_def set_concat set_map set_upt by force

lemma ex_ports: "(\<exists>(d, p)\<in>set all_ports. P d p) \<longleftrightarrow> (\<exists>d<3. \<exists>p<6. P d p)"
  using ports_mem by (auto simp: Bex_def)

text \<open>The whole sweep of \<open>processMappedInputs\<close>.\<close>

lemma mapped_inputs_fails:
  assumes "slots_ok tb" "cfg_bounded cfg"
  shows "processMappedInputs ctl millis ready heading cfg (tb, v) = None \<longleftrightarrow>
    (\<exists>d<3. \<exists>p<6. \<exists>i<length (bindings (port_at cfg d p)).
       lock_faults ctl \<lparr>currentFrame = millis div mkh_frame_interval_ms, imu_ready = ready, imu_heading = heading\<rparr> v
         (bindings (port_at cfg d p) ! i) (tb ! d ! p ! i))"
  unfolding processMappedInputs_def sweep_fails [OF assms subset_refl distinct_ports] by (rule ex_ports)

end
