(* ===== verification/App_Laws.thy ===== *)
theory App_Laws
  imports App_Loop Seats_Laws Editor_Safety Drive_Faults
begin

text \<open>
  The whole program: the invariants of all components hold in every state it reaches, in every
  interleaving of loop ticks with the radio task, the Bluetooth stack and the touch interrupt, and
  one tick returns except in two named situations.
\<close>

section \<open>The channel table, as the application sees it\<close>

text \<open>
  What the application relies on when it writes a sequence of channels: a write succeeds, keeps the
  invariant, puts the byte into the table and changes nothing else the application can see.
\<close>

definition write_call :: "channel_call \<Rightarrow> u8 list list \<Rightarrow> u8 list list" where
  "write_call = (\<lambda>(d, p, v). chan_set (int d) (int p) v)"

locale channel_store =
  fixes set_one :: "nat \<Rightarrow> nat \<Rightarrow> u8 \<Rightarrow> int \<Rightarrow> 's \<Rightarrow> 's option"
    and set_all :: "(nat \<times> nat \<Rightarrow> int) \<Rightarrow> channel_call list \<Rightarrow> 's \<Rightarrow> 's option"
    and ok :: "'s \<Rightarrow> bool"
    and channels :: "'s \<Rightarrow> u8 list list"
    and same_rest :: "'s \<Rightarrow> 's \<Rightarrow> bool"
  assumes set_one_ok: "ok s \<Longrightarrow>
      succeeds (set_one d p v now s) (\<lambda>t. ok t \<and> channels t = write_call (d, p, v) (channels s) \<and> same_rest s t)"
    and same_rest_refl: "ok s \<Longrightarrow> same_rest s s"
    and same_rest_trans: "same_rest s t \<Longrightarrow> same_rest t u \<Longrightarrow> same_rest s u"
    and set_all_Nil: "set_all us [] s = Some s"
    and set_all_Cons: "set_all us ((d, p, v) # calls) s = do { t \<leftarrow> set_one d p v (us (d, p)) s; set_all us calls t }"
begin

lemma set_all_ok:
  "ok s \<Longrightarrow> succeeds (set_all us calls s) (\<lambda>t. ok t \<and> channels t = fold write_call calls (channels s) \<and> same_rest s t)"
proof (induction calls arbitrary: s)
  case Nil
  then show ?case by (simp add: set_all_Nil same_rest_refl)
next
  case (Cons c calls)
  obtain d p v where c: "c = (d, p, v)" by (cases c)
  obtain t where t: "set_one d p v (us (d, p)) s = Some t" "ok t" "channels t = write_call c (channels s)" "same_rest s t"
    using set_one_ok [OF Cons.prems] c by (blast elim: succeedsE)
  show ?case
    using succeeds_mono [OF Cons.IH [OF t(2)]] t same_rest_trans by (auto simp: c set_all_Cons elim!: succeeds_mono)
qed

end

interpretation channels: channel_store "\<lambda>d p. mkh_set_channel (int d) (int p)" set_channels bc_ok mkh_channel_value
  "\<lambda>s t. chan_upd s (mkh_channel_value t) t"
proof
  fix s d p v now assume ok: "bc_ok s"
  then have "bc_shape s" by (simp add: bc_ok_def)
  from succeeds_conj [OF set_channel_ok [OF ok, of "int d" "int p" v now] set_channel_effect [OF this, of "int d" "int p" v now]]
  show "succeeds (mkh_set_channel (int d) (int p) v now s)
     (\<lambda>t. bc_ok t \<and> mkh_channel_value t = write_call (d, p, v) (mkh_channel_value s) \<and> chan_upd s (mkh_channel_value t) t)"
    by (rule succeeds_mono) (auto simp: write_call_def chan_upd_table)
qed (auto simp: bc_ok_def intro: chan_upd_refl chan_upd_trans)

lemma set_channels_ok: "bc_ok s \<Longrightarrow> succeeds (set_channels us calls s) bc_ok"
  by (rule succeeds_mono [OF channels.set_all_ok]) auto

lemma set_channels_upd:
  "bc_ok s \<Longrightarrow> set_channels us calls s = Some t \<Longrightarrow> chan_upd s (fold write_call calls (mkh_channel_value s)) t"
  by (auto dest: succeedsD [OF channels.set_all_ok])

lemma set_channels_table:
  "bc_ok s \<Longrightarrow> set_channels us calls s = Some t \<Longrightarrow> mkh_channel_value t = fold write_call calls (mkh_channel_value s)"
  using set_channels_upd chan_upd_table by blast

section \<open>The controllers the application knows\<close>

definition roster :: "nat option list \<Rightarrow> nat set" where
  "roster mc = {k. Some k \<in> set mc}"

definition roster_ok :: "nat option list \<Rightarrow> bool" where
  "roster_ok mc \<longleftrightarrow> length mc = 4 \<and> roster mc \<subseteq> {0..<4} \<and>
     (\<forall>i<4. \<forall>j<4. \<forall>k. mc ! i = Some k \<and> mc ! j = Some k \<longrightarrow> i = j)"

lemma roster_at: "length mc = 4 \<Longrightarrow> k \<in> roster mc \<longleftrightarrow> (\<exists>i<4. mc ! i = Some k)"
  by (auto simp: roster_def in_set_conv_nth)

lemma find_upt:
  "List.find P [0..<n] = Some i \<longleftrightarrow> i < n \<and> P i \<and> (\<forall>j<i. \<not> P j)"
  "List.find P [0..<n] = None \<longleftrightarrow> (\<forall>j<n. \<not> P j)"
proof -
  show "List.find P [0..<n] = Some i \<longleftrightarrow> i < n \<and> P i \<and> (\<forall>j<i. \<not> P j)"
    by (auto simp: find_Some_iff)
  show "List.find P [0..<n] = None \<longleftrightarrow> (\<forall>j<n. \<not> P j)" by (auto simp: find_None_iff)
qed

text \<open>Three controllers cannot fill four places.\<close>

lemma free_place:
  assumes "roster_ok mc" "k < 4" "k \<notin> roster mc"
  shows "\<exists>i<4. mc ! i = None"
proof (rule ccontr)
  assume "\<not> ?thesis"
  then have full: "\<forall>i<4. \<exists>k. mc ! i = Some k" by auto
  have len: "length mc = 4" using assms(1) by (simp add: roster_ok_def)
  have "inj_on (\<lambda>i. the (mc ! i)) {0..<4}"
  proof (rule inj_onI)
    fix i j assume ij: "i \<in> {0..<4}" "j \<in> {0..<4}" "the (mc ! i) = the (mc ! j)"
    obtain x y where "mc ! i = Some x" "mc ! j = Some y" using full ij(1,2) by (metis atLeastLessThan_iff)
    then show "i = j" using ij assms(1) by (auto simp: roster_ok_def)
  qed
  moreover have "(\<lambda>i. the (mc ! i)) ` {0..<4} \<subseteq> {0..<4} - {k}"
  proof
    fix x assume "x \<in> (\<lambda>i. the (mc ! i)) ` {0..<4}"
    then obtain i where i: "i < 4" "x = the (mc ! i)" by auto
    then have "mc ! i = Some x" using full by auto
    then have "x \<in> roster mc" using i(1) roster_at [OF len] by blast
    then show "x \<in> {0..<4} - {k}" using assms by (auto simp: roster_ok_def)
  qed
  ultimately have "card {0..<4::nat} \<le> card ({0..<4::nat} - {k})"
    by (metis card_image card_mono finite_Diff finite_atLeastLessThan)
  then show False using assms(2) by simp
qed

lemma roster_connect:
  assumes "roster_ok mc" "k < 4" "k \<notin> roster mc" "i < 4" "mc ! i = None"
  shows "roster_ok (mc[i := Some k]) \<and> roster (mc[i := Some k]) = insert k (roster mc)"
proof -
  have len: "length mc = 4" using assms(1) by (simp add: roster_ok_def)
  have r: "m \<in> roster (mc[i := Some k]) \<longleftrightarrow> m \<in> insert k (roster mc)" for m
  proof
    show "m \<in> insert k (roster mc)" if "m \<in> roster (mc[i := Some k])"
      using that by (auto simp: roster_at len nth_list_update_eq_if split: if_splits)
    show "m \<in> roster (mc[i := Some k])" if mem: "m \<in> insert k (roster mc)"
    proof (cases "m = k")
      case False
      then obtain j where "j < 4" "mc ! j = Some m" using mem by (auto simp: roster_at len)
      then show ?thesis using assms(5) by (auto simp: roster_at len nth_list_update_eq_if intro!: exI [of _ j])
    qed (use assms(4) len in \<open>auto simp: roster_at nth_list_update_eq_if intro!: exI [of _ i]\<close>)
  qed
  have "i' = j" if "i' < 4" "j < 4" "mc[i := Some k] ! i' = Some m" "mc[i := Some k] ! j = Some m" for i' j m
  proof -
    have "mc ! l \<noteq> Some k" if "l < 4" for l using that assms(3) roster_at [OF len] by blast
    then show ?thesis using that assms(1,4) len by (auto simp: nth_list_update_eq_if roster_ok_def split: if_splits)
  qed
  moreover have "roster (mc[i := Some k]) = insert k (roster mc)" using r by blast
  ultimately show ?thesis using assms(1,2) len by (simp add: roster_ok_def)
qed

lemma roster_leave:
  assumes "roster_ok mc" "i < 4" "mc ! i = Some k"
  shows "roster_ok (mc[i := None]) \<and> roster (mc[i := None]) = roster mc - {k}"
proof -
  have len: "length mc = 4" using assms(1) by (simp add: roster_ok_def)
  have one: "j = i" if "j < 4" "mc ! j = Some k" for j using that assms by (auto simp: roster_ok_def)
  have n: "mc[i := None] ! j = (if j = i then None else mc ! j)" if "j < 4" for j
    using that assms(2) len by (simp add: nth_list_update)
  have "m \<in> roster (mc[i := None]) \<longleftrightarrow> m \<in> roster mc \<and> m \<noteq> k" for m
  proof -
    have "m \<in> roster (mc[i := None]) \<longleftrightarrow> (\<exists>j<4. j \<noteq> i \<and> mc ! j = Some m)"
      using n len by (auto simp: roster_at split: if_splits)
    also have "\<dots> \<longleftrightarrow> (\<exists>j<4. mc ! j = Some m) \<and> m \<noteq> k" using one assms(3) by auto
    finally show ?thesis by (simp add: roster_at len)
  qed
  then have r: "roster (mc[i := None]) = roster mc - {k}" by blast
  have "i' = j" if "i' < 4" "j < 4" "mc[i := None] ! i' = Some m" "mc[i := None] ! j = Some m" for i' j m
    using that assms(1) by (auto simp: n roster_ok_def split: if_splits)
  then show ?thesis using assms(1) r len by (simp add: roster_ok_def) blast
qed

section \<open>What a part of a tick may change\<close>

text \<open>Everything a tick does outside the touch dispatch leaves the editor alone, up to the runtime
  state of the bindings.\<close>

definition sys_ok :: "('fs, 'w) sys \<Rightarrow> bool" where
  "sys_ok s \<longleftrightarrow> ed_ok (ui s) \<and> bc_ok (air s) \<and> length (lastToggleMs s) = 3 \<and> seats_ok (plat s) \<and>
     bluepad_ok (bp s) \<and> roster_ok (myControllers s) \<and>
     (\<forall>k<4. k \<in> roster (myControllers s) \<longleftrightarrow> c_connected (ctrls (bp s) ! k))"

lemma ed_ok_slots: "ed_ok a \<Longrightarrow> slots_ok tb \<Longrightarrow> ed_ok (a\<lparr>slots := tb\<rparr>)"
  by (simp add: ed_ok_def page_ok_def port_focus_def sess_ok_def shape_def cong: UiPage.case_cong)

lemma ed_ok_tableD: "ed_ok a \<Longrightarrow> slots_ok (slots a)"
  by (simp add: ed_ok_def sess_ok_def)

definition same_editor :: "('fs, 'w) sys \<Rightarrow> ('fs, 'w) sys \<Rightarrow> bool" where
  "same_editor s t \<longleftrightarrow> (\<exists>tb. ui t = (ui s)\<lparr>slots := tb\<rparr> \<and> (slots_ok (slots (ui s)) \<longrightarrow> slots_ok tb))"

lemma same_editorI: "ui t = (ui s)\<lparr>slots := tb\<rparr> \<Longrightarrow> (slots_ok (slots (ui s)) \<Longrightarrow> slots_ok tb) \<Longrightarrow> same_editor s t"
  by (auto simp: same_editor_def)

lemma same_editor_ui: "ui t = ui s \<Longrightarrow> same_editor s t"
  by (rule same_editorI [where tb = "slots (ui s)"]) simp_all

lemma same_editor_refl [simp]: "same_editor s s"
  by (rule same_editor_ui) simp

lemma same_editor_trans: "same_editor s t \<Longrightarrow> same_editor t u \<Longrightarrow> same_editor s u"
  by (auto simp: same_editor_def)

lemma same_editor_ok: "same_editor s t \<Longrightarrow> ed_ok (ui s) \<Longrightarrow> ed_ok (ui t)"
  by (auto simp: same_editor_def intro: ed_ok_slots dest: ed_ok_tableD)

lemma same_editorD:
  assumes "same_editor s t"
  shows "live (ui t) = live (ui s)" "disk (ui t) = disk (ui s)" "ui_page t = ui_page s"
    "add_overflow x y (ui t) = add_overflow x y (ui s)"
  using assms by (auto simp: same_editor_def add_overflow_def ui_page_def)

section \<open>Callbacks\<close>

text \<open>The fields the callbacks work on.\<close>

definition only_callbacks :: "('fs, 'w) sys \<Rightarrow> ('fs, 'w) sys \<Rightarrow> bool" where
  "only_callbacks s t \<longleftrightarrow> same_editor s t \<and> plat t = plat s \<and> bp t = bp s \<and> lastToggleMs t = lastToggleMs s \<and>
     touch t = touch s \<and> bus t = bus s \<and> thl t = thl s \<and> imu t = imu s \<and> bc_ok (air t)"

lemma connect_callback:
  assumes "roster_ok (myControllers s)" "k < 4" "k \<notin> roster (myControllers s)" "bc_ok (air s)"
  shows "roster_ok (myControllers (onConnectedController k s)) \<and>
    roster (myControllers (onConnectedController k s)) = insert k (roster (myControllers s)) \<and>
    only_callbacks s (onConnectedController k s)"
proof -
  obtain i where i: "List.find (\<lambda>i. myControllers s ! i = None) [0..<max_devices] = Some i"
    using free_place [OF assms(1-3)] by (cases "List.find (\<lambda>i. myControllers s ! i = None) [0..<max_devices]")
      (auto simp: find_upt max_devices_def)
  then have "i < 4" "myControllers s ! i = None" by (auto simp: find_upt max_devices_def)
  from roster_connect [OF assms(1-3) this] assms(4) show ?thesis
    by (simp add: onConnectedController_def i only_callbacks_def same_editor_ui)
qed

lemma disconnect_callback:
  assumes "roster_ok (myControllers s)" "k < 4" "k \<in> roster (myControllers s)" "bc_ok (air s)"
  shows "succeeds (onDisconnectedController r k s) (\<lambda>t. roster_ok (myControllers t) \<and>
    roster (myControllers t) = roster (myControllers s) - {k} \<and> only_callbacks s t)"
proof -
  have len: "length (myControllers s) = 4" using assms(1) by (simp add: roster_ok_def)
  obtain i where i: "List.find (\<lambda>i. myControllers s ! i = Some k) [0..<max_devices] = Some i"
    using assms(3) by (cases "List.find (\<lambda>i. myControllers s ! i = Some k) [0..<max_devices]")
      (auto simp: find_upt max_devices_def roster_at len)
  then have "i < 4" "myControllers s ! i = Some k" by (auto simp: find_upt max_devices_def)
  note L = roster_leave [OF assms(1) this]
  obtain calls tb where f: "disconnect_failsafe (live (ui s)) (slots (ui s)) = (calls, tb)" by fastforce
  obtain t where t: "set_channels (us_failsafe r) calls (air s) = Some t" "bc_ok t"
    by (rule succeedsE [OF set_channels_ok [OF assms(4)]])
  let ?s1 = "s\<lparr>myControllers := (myControllers s)[i := None]\<rparr>"
  have r: "onDisconnectedController r k s =
    Some (if i \<noteq> 0 then ?s1 else ?s1\<lparr>xwcState := XWC_DISCONNECTED, air := t, ui := (ui ?s1)\<lparr>slots := tb\<rparr>\<rparr>)"
    by (simp add: onDisconnectedController_def i f t)
  have "same_editor s ?s1" "same_editor s (?s1\<lparr>xwcState := XWC_DISCONNECTED, air := t, ui := (ui ?s1)\<lparr>slots := tb\<rparr>\<rparr>)"
    using f by (auto simp: disconnect_failsafe_def intro: same_editor_ui same_editorI [where tb = tb] slots_ok_clear_all)
  then show ?thesis using L t(2) assms(4) by (cases "i = 0") (simp_all add: r only_callbacks_def)
qed

lemma only_callbacks_trans: "only_callbacks s t \<Longrightarrow> only_callbacks t u \<Longrightarrow> only_callbacks s u"
  by (auto simp: only_callbacks_def intro: same_editor_trans)

lemma callbacks_append: "callbacks r (xs @ ys) s = Option.bind (callbacks r xs s) (callbacks r ys)"
proof (induction r xs s rule: callbacks.induct)
  case (3 r k cbs s)
  then show ?case by (cases "onDisconnectedController r k s") simp_all
qed simp_all

lemma callbacks_all:
  "distinct is \<Longrightarrow> set is \<subseteq> {0..<4} \<Longrightarrow> roster_ok (myControllers s) \<Longrightarrow> bc_ok (air s) \<Longrightarrow>
   \<forall>i\<in>set is. i \<in> roster (myControllers s) \<longleftrightarrow> prev ! i \<Longrightarrow>
   succeeds (callbacks r (concat (map (\<lambda>i. if now ! i = prev ! i then [] else if now ! i then [On_connect i]
                                          else [On_disconnect i]) is)) s)
     (\<lambda>t. roster_ok (myControllers t) \<and> only_callbacks s t \<and>
          (\<forall>i. i \<in> roster (myControllers t) \<longleftrightarrow> (if i \<in> set is then now ! i else i \<in> roster (myControllers s))))"
proof (induction "is" arbitrary: s)
  case Nil
  then show ?case by (simp add: only_callbacks_def)
next
  case (Cons k ks)
  let ?cb = "\<lambda>i. if now ! i = prev ! i then [] else if now ! i then [On_connect i] else [On_disconnect i]"
  have k: "k < 4" "k \<notin> set ks" "distinct ks" "set ks \<subseteq> {0..<4}" "k \<in> roster (myControllers s) \<longleftrightarrow> prev ! k"
    using Cons.prems by auto
  have "succeeds (callbacks r (?cb k) s) (\<lambda>t. roster_ok (myControllers t) \<and> only_callbacks s t \<and>
          (\<forall>i. i \<in> roster (myControllers t) \<longleftrightarrow> (if i = k then now ! k else i \<in> roster (myControllers s))))"
  proof (cases "now ! k = prev ! k")
    case True
    then show ?thesis using Cons.prems k by (simp add: only_callbacks_def)
  next
    case ne: False
    show ?thesis
    proof (cases "now ! k")
      case True
      then show ?thesis using ne k connect_callback [OF Cons.prems(3) k(1) _ Cons.prems(4)] by simp
    next
      case False
      then show ?thesis
        using ne k disconnect_callback [OF Cons.prems(3) k(1) _ Cons.prems(4), of r] by (auto elim!: succeeds_mono)
    qed
  qed
  then obtain t where t: "callbacks r (?cb k) s = Some t" "roster_ok (myControllers t)" "only_callbacks s t"
    "\<And>i. i \<in> roster (myControllers t) \<longleftrightarrow> (if i = k then now ! k else i \<in> roster (myControllers s))"
    by (auto elim!: succeedsE)
  have "\<forall>i\<in>set ks. i \<in> roster (myControllers t) \<longleftrightarrow> prev ! i" using t(4) k(2) Cons.prems(5) by auto
  from Cons.IH [OF k(3,4) t(2) _ this] t(3) have
    "succeeds (callbacks r (concat (map ?cb ks)) t) (\<lambda>u. roster_ok (myControllers u) \<and> only_callbacks t u \<and>
        (\<forall>i. i \<in> roster (myControllers u) \<longleftrightarrow> (if i \<in> set ks then now ! i else i \<in> roster (myControllers t))))"
    by (simp add: only_callbacks_def)
  then show ?case
    using t k(2) by (auto simp: callbacks_append elim!: succeeds_mono intro: only_callbacks_trans)
qed

section \<open>The parts of a tick\<close>

text \<open>A sweep keeps the shape of the runtime state.\<close>

lemma sweep_keeps: "sweep_ports ctl t cfg ps (tb, v) = Some (calls, tb', v') \<Longrightarrow> set ps \<subseteq> set all_ports \<Longrightarrow> slots_ok tb \<Longrightarrow> slots_ok tb'"
proof (induction ps arbitrary: tb v calls)
  case (Cons q ps)
  obtain d p where q: "q = (d, p)" by fastforce
  show ?case
  proof (cases "case mkh_config_get cfg (int d) (int p) of None \<Rightarrow> True | Some c \<Rightarrow> bindings c = []")
    case True
    then show ?thesis using Cons by (auto simp: q split: option.splits)
  next
    case False
    then obtain c where c: "mkh_config_get cfg (int d) (int p) = Some c" "bindings c \<noteq> []" by (auto split: option.splits)
    with Cons.prems(1) obtain byte ss v1 calls1 where
      h: "port_step ctl t (bindings c) (tb ! d ! p, v) = Some (byte, ss, v1)"
      "sweep_ports ctl t cfg ps (tb[d := (tb ! d)[p := ss]], v1) = Some (calls1, tb', v')"
      by (auto simp: q bind_eq_Some_conv)
    have "d < 3" "p < 6" using Cons.prems(2) by (auto simp: q all_ports_def)
    then have "length ss = 8" using port_step_length [OF h(1)] Cons.prems(3) by (simp add: slots_ok_def)
    then show ?thesis using Cons.IH [OF h(2)] Cons.prems(2,3) slots_ok_set by simp
  qed
qed simp

lemma sweep_keeps_slots:
  "processMappedInputs ctl t ready heading cfg (tb, v) = Some (calls, tb', v') \<Longrightarrow> slots_ok tb \<Longrightarrow> slots_ok tb'"
  unfolding processMappedInputs_def by (erule sweep_keeps) simp_all

lemma request_seats: "seats_ok p \<Longrightarrow> seats_ok (request_if c cmd ctl p)"
  by (auto simp: request_if_def arduino_request_def intro: seats_ok_same)

lemma process_controller_facts:
  "ui (processController m s) = ui s \<and> air (processController m s) = air s \<and> bp (processController m s) = bp s \<and>
   myControllers (processController m s) = myControllers s \<and> lastToggleMs (processController m s) = lastToggleMs s \<and>
   touch (processController m s) = touch s \<and> bus (processController m s) = bus s \<and> imu (processController m s) = imu s \<and>
   (seats_ok (plat s) \<longrightarrow> seats_ok (plat (processController m s)))"
  by (simp add: processController_def processGamepad_def Let_def request_seats split: option.split)

lemma process_controllers_facts:
  "ui (processControllers s) = ui s \<and> air (processControllers s) = air s \<and> bp (processControllers s) = bp s \<and>
   myControllers (processControllers s) = myControllers s \<and> lastToggleMs (processControllers s) = lastToggleMs s \<and>
   touch (processControllers s) = touch s \<and> bus (processControllers s) = bus s \<and> imu (processControllers s) = imu s \<and>
   (seats_ok (plat s) \<longrightarrow> seats_ok (plat (processControllers s)))"
proof -
  have "ui (fold processController ms s) = ui s \<and> air (fold processController ms s) = air s \<and>
     bp (fold processController ms s) = bp s \<and> myControllers (fold processController ms s) = myControllers s \<and>
     lastToggleMs (fold processController ms s) = lastToggleMs s \<and> touch (fold processController ms s) = touch s \<and>
     bus (fold processController ms s) = bus s \<and> imu (fold processController ms s) = imu s \<and> (seats_ok (plat s) \<longrightarrow> seats_ok (plat (fold processController ms s)))" for ms
    by (induction ms arbitrary: s) (simp_all add: process_controller_facts)
  then show ?thesis unfolding processControllers_def by blast
qed

definition tick_keeps :: "('fs, 'w) sys \<Rightarrow> ('fs, 'w) sys \<Rightarrow> bool" where
  "tick_keeps s t \<longleftrightarrow> sys_ok t \<and> same_editor s t \<and> touch t = touch s \<and> bus t = bus s \<and> imu t = imu s"

lemma poll_controllers_ok:
  assumes "sys_ok s"
  shows "succeeds (poll_controllers r s) (\<lambda>t. tick_keeps s t \<and> bp t = snd (snd (snd (bp32_update (plat s, bp s)))) \<and>
    (\<forall>k<4. k \<in> roster (myControllers t) \<longleftrightarrow> taken (plat s) k))"
proof -
  obtain fresh cbs p b where u: "bp32_update (plat s, bp s) = (fresh, cbs, p, b)" by (metis prod.exhaust)
  have ok: "bluepad_ok (bp s)" "seats_ok (plat s)" "roster_ok (myControllers s)" "bc_ok (air s)" "ed_ok (ui s)"
    "length (lastToggleMs s) = 3" "\<And>k. k < 4 \<Longrightarrow> k \<in> roster (myControllers s) \<longleftrightarrow> c_connected (ctrls (bp s) ! k)"
    using assms by (auto simp: sys_ok_def)
  note U = update_facts [OF u ok(1)]
  let ?s = "s\<lparr>plat := p, bp := b\<rparr>"
  have prev: "\<forall>i\<in>set [0..<4]. i \<in> roster (myControllers ?s) \<longleftrightarrow> prevConnected (bp s) ! i"
    using ok(1,7) by (auto simp: bluepad_ok_def)
  have "succeeds (callbacks r cbs ?s) (\<lambda>t. roster_ok (myControllers t) \<and> only_callbacks ?s t \<and>
     (\<forall>i. i \<in> roster (myControllers t) \<longleftrightarrow>
        (if i \<in> set [0..<4] then occupied (plat s) ! i else i \<in> roster (myControllers ?s))))"
    unfolding U(1) changes_def by (rule callbacks_all [OF _ _ _ _ prev]) (use ok in simp_all)
  then obtain t where t: "callbacks r cbs ?s = Some t" "roster_ok (myControllers t)" "only_callbacks ?s t"
    "\<And>i. i < 4 \<Longrightarrow> i \<in> roster (myControllers t) \<longleftrightarrow> occupied (plat s) ! i" by (auto elim!: succeedsE)
  have e: "same_editor s t" using t(3) by (simp add: only_callbacks_def same_editor_def)
  have occ: "occupied (plat s) ! i = taken (plat s) i" if "i < 4" for i using that by (simp add: occupied_def)
  have "c_connected (ctrls b ! i) = taken (plat s) i" if "i < 4" for i
    using U(2,3) that occ by (simp add: bluepad_ok_def)
  then have good: "sys_ok t"
    using t ok e U(3) U(4) same_editor_ok [OF e] occ by (simp add: sys_ok_def only_callbacks_def)
  note P = process_controllers_facts [of t]
  have "sys_ok (processControllers t)" using good P by (simp add: sys_ok_def)
  moreover have "same_editor s (processControllers t)" using e P by (simp add: same_editor_def)
  ultimately show ?thesis
    using t good e P occ by (simp add: poll_controllers_def u tick_keeps_def only_callbacks_def)
qed

lemma drive_ok:
  assumes "sys_ok s" "drive r s = Some t"
  shows "tick_keeps s t \<and> bp t = bp s \<and> myControllers t = myControllers s"
proof (cases "first_controller s")
  case None
  then show ?thesis using assms by (simp add: drive_def tick_keeps_def)
next
  case (Some ctl)
  then obtain calls tb v u where d: "set_channels (us_sweep r) calls (air s) = Some u"
    "t = s\<lparr>air := u, ui := (ui s)\<lparr>slots := tb\<rparr>, thl := v\<rparr>"
    "processMappedInputs (accessors (c_data ctl)) (ms r At_sweep) (mkh_imu_ready (imu s)) (mkh_imu_heading_deg (imu s)) (live (ui s)) (slots (ui s), thl s)
       = Some (calls, tb, v)"
    using assms(2) by (auto simp: drive_def bind_eq_Some_conv)
  have "bc_ok u" by (rule succeedsD [OF set_channels_ok d(1)]) (use assms(1) in \<open>simp add: sys_ok_def\<close>)
  moreover have e: "same_editor s t"
    by (rule same_editorI [where tb = tb]) (simp_all add: d sweep_keeps_slots [OF d(3)])
  ultimately show ?thesis using assms(1) same_editor_ok [OF e] by (simp add: d tick_keeps_def sys_ok_def)
qed

lemma housekeeping_ok:
  assumes "sys_ok s"
  shows "sys_ok (housekeeping W r s)" "same_editor s (housekeeping W r s)" "air (housekeeping W r s) = air s"
    "myControllers (housekeeping W r s) = myControllers s" "bp (housekeeping W r s) = bp s"
    "touch (housekeeping W r s) = touch s" "xwcState (housekeeping W r s) = xwcState s"
proof -
  obtain i w where i: "mkh_imu_poll W (ms r At_imu) (imu s, bus s) = (i, w)" by fastforce
  obtain buf v where b: "mkh_thl_poll_serial_tuning (received r) (tune_buf s, thl s) = (buf, v)" by fastforce
  show "sys_ok (housekeeping W r s)" "air (housekeeping W r s) = air s"
    "myControllers (housekeeping W r s) = myControllers s" "bp (housekeeping W r s) = bp s"
    "touch (housekeeping W r s) = touch s" "xwcState (housekeeping W r s) = xwcState s"
    using assms by (simp_all add: housekeeping_def i b sys_ok_def)
  show "same_editor s (housekeeping W r s)"
    by (rule same_editor_ui) (simp add: housekeeping_def i b)
qed

section \<open>Taps\<close>

text \<open>The taps that reach the live table or the file: a prompt answered with its left button on the hub
  page, the Test switch of any editor page, Reset and Save on the settings page.\<close>

definition commit_tap :: "int \<Rightarrow> int \<Rightarrow> 'fs app \<Rightarrow> bool" where
  "commit_tap x y a =
     (case currentPage a of
        PAGE_EDIT_SELECT \<Rightarrow> (exitPromptActive a \<or> resetAllPromptActive a) \<and> in_rect exit_prompt_left x y \<or> testToggleHit x y
      | PAGE_EDIT_PORTS \<Rightarrow> testToggleHit x y
      | PAGE_EDIT_CAPTURE \<Rightarrow> testToggleHit x y
      | PAGE_EDIT_SETTINGS \<Rightarrow> testToggleHit x y \<or> in_rect spage_reset x y \<or> in_rect spage_save x y
      | _ \<Rightarrow> False)"

lemma ed_ok_sess: "ed_ok a \<Longrightarrow> sess_ok a"
  by (simp add: ed_ok_def)

lemma ed_ok_idle_fields [simp]:
  "ed_ok (a\<lparr>lastTouchActivityMs := t\<rparr>) = ed_ok a"
  "ed_ok (a\<lparr>idleSleepHoldActive := c\<rparr>) = ed_ok a"
  "ed_ok (a\<lparr>idleSleepHoldStartMs := t\<rparr>) = ed_ok a"
  by (simp_all add: ed_ok_def page_ok_def port_focus_def cong: UiPage.case_cong)

lemma untouched_refl: "untouched a a"
  by (simp add: untouched_def)

lemma page_tap_ok:
  assumes "ed_ok a" "\<not> add_overflow x y a"
  shows "tap_result (commit_tap x y a) a (page_tap L r x y a)"
proof (cases "currentPage a")
  case PAGE_STATS
  then show ?thesis using go_dashboard [OF ed_ok_sess [OF assms(1)]] by (simp add: page_tap_def commit_tap_def)
next
  case PAGE_EDIT_SELECT
  then show ?thesis using select_tap [OF assms(1) PAGE_EDIT_SELECT] by (simp add: page_tap_def commit_tap_def)
next
  case PAGE_EDIT_PORTS
  then show ?thesis using ports_tap [OF assms(1) PAGE_EDIT_PORTS] by (simp add: page_tap_def commit_tap_def)
next
  case PAGE_EDIT_CAPTURE
  then show ?thesis using capture_tap(1) [OF assms(1) PAGE_EDIT_CAPTURE assms(2)] by (simp add: page_tap_def commit_tap_def)
next
  case PAGE_EDIT_SETTINGS
  then show ?thesis using settings_tap [OF assms(1) PAGE_EDIT_SETTINGS] by (simp add: page_tap_def commit_tap_def)
next
  case PAGE_IDLE
  then show ?thesis
    using go_dashboard [OF ed_ok_sess [OF assms(1)]] assms(1) by (simp add: page_tap_def commit_tap_def untouched_def)
qed (use assms(1) in \<open>simp_all add: page_tap_def untouched_def\<close>)

lemma page_tap_overflow: "ed_ok a \<Longrightarrow> add_overflow x y a \<Longrightarrow> page_tap L r x y a = None"
  using capture_tap(2) [of a x y] by (simp add: page_tap_def add_overflow_def)

text \<open>A row tap touches the radio, the time stamps, the panel and the runtime state of the bindings only.\<close>

lemma animation_total: "\<exists>t w. animation_frames W irqs tw = Some (t, w)"
proof (induction irqs arbitrary: tw)
  case (Cons irq irqs)
  obtain t w where tw: "tw = (t, w)" by (cases tw)
  obtain tap t' w' where p: "mkh_touch_poll W (if irq then touchIsr t else t, w) = Some (tap, t', w')"
    using touch_poll_cases [of "if irq then touchIsr t else t" W w] by metis
  with Cons.IH [of "(t', w')"] show ?case by (simp add: tw p)
qed simp

lemma animate_ok:
  assumes "sys_ok s"
  shows "succeeds (animateToggleSwitch W r s) (\<lambda>t. sys_ok t \<and> ui t = ui s)"
  using animation_total [of W "map (irq_frame r) [0..<4]" "(touch s, bus s)"] assms
  by (auto simp: animateToggleSwitch_def sys_ok_def)

lemma row_tap_ok:
  assumes "sys_ok s" "0 \<le> d" "d < 3"
  shows "succeeds (row_tap W r d s) (\<lambda>t. sys_ok t \<and> same_editor s t)"
proof -
  have bc: "bc_ok (air s)" and len: "length (lastToggleMs s) = 3" using assms(1) by (simp_all add: sys_ok_def)
  have n: "nat d < 3" using assms(2,3) by linarith
  have a: "arr_get (lastToggleMs s) d = Some (lastToggleMs s ! nat d)"
    "arr_set (lastToggleMs s) d x = Some ((lastToggleMs s)[nat d := x])"
    "arr_get (mkh_hub_broadcasting (air s)) d = Some (mkh_hub_broadcasting (air s) ! nat d)"
    "mkh_broadcast_is_transitioning d (air s) = Some (mkh_device_transitioning (air s) ! nat d)" for x
    using assms(2,3) n len bc by (simp_all add: arr_get_def arr_set_def bc_ok_def bc_shape_def mkh_broadcast_is_transitioning_def mk1_defs)
  obtain t where t: "mkh_broadcast_toggle_off d (us_toggle r (nat d)) (air s) = Some t" "bc_ok t"
    by (rule succeedsE [OF toggle_off_ok [OF bc]])
  obtain u where u: "mkh_broadcast_toggle_on d (us_toggle r (nat d)) (air s) = Some u" "bc_ok u"
    by (rule succeedsE [OF toggle_on_ok [OF bc]])
  let ?off = "s\<lparr>air := t, lastToggleMs := (lastToggleMs s)[nat d := ms r At_tap],
    ui := (ui s)\<lparr>slots := clearLatchStateForDevice (nat d) (slots (ui s))\<rparr>\<rparr>"
  let ?on = "s\<lparr>air := u, lastToggleMs := (lastToggleMs s)[nat d := ms r At_tap]\<rparr>"
  have "ed_ok ((ui s)\<lparr>slots := clearLatchStateForDevice (nat d) (slots (ui s))\<rparr>)"
    using assms(1) by (auto simp: sys_ok_def intro!: ed_ok_slots slots_ok_clear_device ed_ok_tableD)
  then have ok: "sys_ok ?off" "sys_ok ?on" using assms(1) t(2) u(2) by (simp_all add: sys_ok_def)
  have e: "same_editor s q" if "ui q = ui ?off \<or> ui q = ui s" for q :: "('a, 'b) sys"
    using that by (auto intro: same_editor_ui same_editorI slots_ok_clear_device)
  obtain h where h: "arr_get (mkh_hub_broadcasting u) d = Some h"
    using u(2) assms(2,3) n by (simp add: arr_get_def bc_ok_def bc_shape_def)
  obtain v where v: "animateToggleSwitch W r ?off = Some v" "sys_ok v" "ui v = ui ?off"
    using animate_ok [OF ok(1)] by (blast elim: succeedsE)
  obtain w where w: "animateToggleSwitch W r ?on = Some w" "sys_ok w" "ui w = ui s"
    using animate_ok [OF ok(2), of W r] by (auto elim: succeedsE)
  show ?thesis
    using assms(1) ok(2) v(2) w(2) e [of v] e [of w] e [of ?on] e [of s] v(3) w(3)
    by (simp add: row_tap_def Let_def a t(1) u(1) h v(1) w(1))
qed

lemma touch_device: "0 \<le> touchYToDeviceId y \<and> touchYToDeviceId y < 3"
  by (simp add: touchYToDeviceId_def)

lemma sys_ok_ui: "sys_ok s \<Longrightarrow> ed_ok a \<Longrightarrow> sys_ok (s\<lparr>ui := a\<rparr>)"
  by (simp add: sys_ok_def)

lemma dispatch_ok:
  assumes "sys_ok s" "\<not> add_overflow x y (ui s)"
  shows "succeeds (touch_dispatch L W r x y s)
    (\<lambda>t. sys_ok t \<and> (commit_tap x y (ui s) \<or> live (ui t) = live (ui s) \<and> disk (ui t) = disk (ui s)))"
proof -
  let ?a = "(ui s)\<lparr>lastTouchActivityMs := ms r At_touch\<rparr>"
  let ?s = "s\<lparr>ui := ?a\<rparr>"
  have ok: "ed_ok ?a" and sok: "sys_ok ?s" using assms(1) by (simp_all add: sys_ok_def)
  have row: "succeeds (row_tap W r (touchYToDeviceId y) ?s) (\<lambda>t. sys_ok t \<and> live (ui t) = live (ui s) \<and> disk (ui t) = disk (ui s))"
    using row_tap_ok [OF sok, of "touchYToDeviceId y" W r] touch_device [of y]
    by (auto elim!: succeeds_mono dest: same_editorD(1,2))
  note C = clear_session [OF ed_ok_sess [OF ok]]
  have settings: "succeeds (goToPage (ms r At_page) PAGE_EDIT_SELECT (clearEditorSession ?a))
      (\<lambda>b. ed_ok b \<and> live b = live (ui s) \<and> disk b = disk (ui s))"
    using go_select [OF C(1), of "ms r At_page"] C(2) by (auto simp: untouched_def elim!: succeeds_mono)
  have ov: "\<not> add_overflow x y ?a" "commit_tap x y ?a = commit_tap x y (ui s)"
    using assms(2) by (simp_all add: add_overflow_def commit_tap_def cong: UiPage.case_cong)
  have page: "succeeds (page_tap L r x y ?a) (\<lambda>b. ed_ok b \<and> (commit_tap x y (ui s) \<or> live b = live (ui s) \<and> disk b = disk (ui s)))"
    using page_tap_ok [OF ok ov(1), of L r] by (auto simp: untouched_def ov(2) elim!: succeeds_mono)
  show ?thesis
  proof (cases "ui_page ?s = PAGE_DASHBOARD")
    case True
    show ?thesis
    proof (cases "in_rect settings_hit x y")
      case True
      obtain b where "goToPage (ms r At_page) PAGE_EDIT_SELECT (clearEditorSession ?a) = Some b"
        "ed_ok b" "live b = live (ui s)" "disk b = disk (ui s)" using settings by (auto elim: succeedsE)
      then show ?thesis
        using \<open>ui_page ?s = PAGE_DASHBOARD\<close> True sys_ok_ui [OF sok] by (simp add: touch_dispatch_def with_ui_def)
    next
      case False
      then show ?thesis using \<open>ui_page ?s = PAGE_DASHBOARD\<close> row by (auto simp: touch_dispatch_def elim!: succeeds_mono)
    qed
  next
    case False
    obtain b where b: "page_tap L r x y ?a = Some b" "ed_ok b"
      "commit_tap x y (ui s) \<or> live b = live (ui s) \<and> disk b = disk (ui s)" using page by (auto elim: succeedsE)
    then show ?thesis using False sys_ok_ui [OF sok b(2)] by (simp add: touch_dispatch_def with_ui_def)
  qed
qed

lemma dispatch_overflow:
  assumes "sys_ok s" "add_overflow x y (ui s)"
  shows "touch_dispatch L W r x y s = None"
proof -
  have "add_overflow x y ((ui s)\<lparr>lastTouchActivityMs := ms r At_touch\<rparr>)" using assms(2) by (simp add: add_overflow_def)
  then have "page_tap L r x y ((ui s)\<lparr>lastTouchActivityMs := ms r At_touch\<rparr>) = None"
    by (intro page_tap_overflow) (use assms(1) in \<open>simp_all add: sys_ok_def\<close>)
  then show ?thesis using assms(2) by (simp add: touch_dispatch_def ui_page_def add_overflow_def with_ui_def)
qed

section \<open>Idle and sleep\<close>

lemma go_idle: "ed_ok a \<Longrightarrow> succeeds (goToPage now PAGE_IDLE a) (\<lambda>b. ed_ok b \<and> untouched a b)"
  by (simp add: goToPage_def drawIdlePage_def ed_ok_def page_ok_def untouched_def Let_def)

text \<open>What the end of a tick leaves as it is.\<close>

definition settled :: "('fs, 'w) sys \<Rightarrow> ('fs, 'w) sys \<Rightarrow> bool" where
  "settled s t \<longleftrightarrow> sys_ok t \<and> live (ui t) = live (ui s) \<and> disk (ui t) = disk (ui s)"

lemma settled_refl: "sys_ok s \<Longrightarrow> settled s s"
  by (simp add: settled_def)

lemma settled_ui:
  assumes "sys_ok s" "succeeds m (\<lambda>b. ed_ok b \<and> untouched (ui s) b)"
  shows "succeeds (with_ui s m) (settled s)"
  using assms by (auto simp: with_ui_def settled_def untouched_def sys_ok_ui elim!: succeedsE)

lemma idle_entry_ok: "sys_ok s \<Longrightarrow> succeeds (idle_entry r s) (settled s)"
  by (auto simp: idle_entry_def sys_ok_def intro: settled_ui go_idle settled_refl)

lemma sleep_toggles_ok: "bc_ok s \<Longrightarrow> succeeds (sleep_toggles r s) bc_ok"
  unfolding sleep_toggles_def
  by (auto intro: succeeds_mono [OF toggle_off_ok] toggle_off_ok)

lemma stay_ok: "succeeds m (settled s) \<Longrightarrow> succeeds (stay m) (\<lambda>(t, oc). settled s t)"
  by (auto simp: stay_def elim!: succeedsE)

lemma idle_page_ok:
  assumes "sys_ok s"
  shows "succeeds (idle_page r s) (\<lambda>(t, oc). settled s t)"
proof -
  have ok: "ed_ok (ui s)" "bc_ok (air s)" using assms by (simp_all add: sys_ok_def)
  let ?rel = "(ui s)\<lparr>idleSleepHoldActive := False\<rparr>"
  have wake: "succeeds (stay (with_ui s (goToPage now PAGE_DASHBOARD (ui s)))) (\<lambda>(t, oc). settled s t)" for now
    by (intro stay_ok settled_ui assms go_dashboard ed_ok_sess ok)
  have "sess_ok ?rel" using ed_ok_sess [OF ok(1)] by simp
  from go_dashboard [OF this] have "succeeds (goToPage now PAGE_DASHBOARD ?rel) (\<lambda>b. ed_ok b \<and> untouched (ui s) b)" for now
    by (auto simp: untouched_def elim!: succeeds_mono)
  then have early: "succeeds (stay (with_ui s (goToPage now PAGE_DASHBOARD ?rel))) (\<lambda>(t, oc). settled s t)" for now
    by (intro stay_ok settled_ui assms)
  obtain t where t: "sleep_toggles r (air s) = Some t" "bc_ok t" by (rule succeedsE [OF sleep_toggles_ok [OF ok(2)]])
  have down: "succeeds (enterDeepSleep r s) (\<lambda>(t, oc). settled s t)"
    "succeeds (enterDeepSleep r (s\<lparr>ui := ?rel\<rparr>)) (\<lambda>(t, oc). settled s t)"
    using assms t ok by (simp_all add: enterDeepSleep_def settled_def sys_ok_def)
  show ?thesis
    using wake [of "ms r At_wake_page"] early [of "ms r At_wake_page"] down settled_refl [OF assms] by (simp add: idle_page_def Let_def)
qed

lemma capture_token_not_none: "(c, tok) \<in> set (capture_tests ctl) \<Longrightarrow> tok \<noteq> MKH_INPUT_NONE"
  by (auto simp: capture_tests_def)

lemma capture_ok:
  assumes "ed_ok a" "currentPage a = PAGE_EDIT_CAPTURE"
  shows "ed_ok (checkCapture m a) \<and> untouched a (checkCapture m a)"
proof -
  have app: "ed_ok (applyCapture tok a) \<and> untouched a (applyCapture tok a)" if "tok \<noteq> MKH_INPUT_NONE" for tok
    using assms that
    by (auto simp: applyCapture_def ed_ok_def page_ok_def port_focus_def untouched_def intro: sess_ok_ctxI)
  show ?thesis
  proof (cases m)
    case (Some ctl)
    show ?thesis
    proof (cases "List.find fst (capture_tests ctl)")
      case (Some hit)
      then have "hit \<in> set (capture_tests ctl)" by (auto simp: find_Some_iff)
      then have "snd hit \<noteq> MKH_INPUT_NONE" using capture_token_not_none [of "fst hit" "snd hit" ctl] by simp
      from app [OF this] show ?thesis using Some \<open>m = Some ctl\<close> by (cases hit) (simp add: checkCapture_def)
    qed (use assms \<open>m = Some ctl\<close> in \<open>simp add: checkCapture_def untouched_def\<close>)
  qed (use assms in \<open>simp add: checkCapture_def untouched_def\<close>)
qed

lemma page_work_ok:
  assumes "sys_ok s"
  shows "succeeds (page_work r s) (\<lambda>(t, oc). settled s t)"
proof -
  have "settled s (capture_page s)" if "ui_page s = PAGE_EDIT_CAPTURE"
    using capture_ok [of "ui s"] that assms
    by (auto simp: capture_page_def settled_def ui_page_def untouched_def intro: sys_ok_ui) (simp_all add: sys_ok_def)
  then show ?thesis using idle_page_ok [OF assms] settled_refl [OF assms] by (simp add: page_work_def)
qed

section \<open>One tick\<close>

text \<open>The first half of a tick, up to the sweep, and the tap its second half finds.\<close>

definition driven :: "readings \<Rightarrow> ('fs, 'w) sys \<Rightarrow> ('fs, 'w) sys option" where
  "driven r s = Option.bind (poll_controllers r s) (drive r)"

definition tick_tap :: "'w wire \<Rightarrow> readings \<Rightarrow> ('fs, 'w) sys \<Rightarrow> (int \<times> int) option" where
  "tick_tap W r s =
     (let h = housekeeping W r s
      in case mkh_touch_poll W (touch h, bus h) of None \<Rightarrow> None | Some (tap, _) \<Rightarrow> tap)"

lemma driven_ok:
  assumes "sys_ok s" "driven r s = Some t"
  shows "tick_keeps s t"
proof -
  obtain m where m: "poll_controllers r s = Some m" "drive r m = Some t"
    using assms(2) by (auto simp: driven_def bind_eq_Some_conv)
  have k: "tick_keeps s m" using succeedsD [OF poll_controllers_ok [OF assms(1)] m(1)] by simp
  then have "tick_keeps m t" using drive_ok [OF _ m(2)] by (simp add: tick_keeps_def)
  with k show ?thesis by (auto simp: tick_keeps_def intro: same_editor_trans)
qed

lemma same_commit: "same_editor s t \<Longrightarrow> commit_tap x y (ui t) = commit_tap x y (ui s)"
  by (auto simp: same_editor_def commit_tap_def cong: UiPage.case_cong)

lemma tick_ok:
  assumes "sys_ok s" "driven r s = Some m"
  shows "(\<forall>x y. tick_tap W r m = Some (x, y) \<longrightarrow> \<not> add_overflow x y (ui s)) \<Longrightarrow>
      succeeds (loop L W r s) (\<lambda>(t, oc). sys_ok t \<and>
        ((\<exists>x y. tick_tap W r m = Some (x, y) \<and> commit_tap x y (ui s)) \<or>
         live (ui t) = live (ui s) \<and> disk (ui t) = disk (ui s)))"
    and "tick_tap W r m = Some (x, y) \<Longrightarrow> add_overflow x y (ui s) \<Longrightarrow> loop L W r s = None"
proof -
  have k: "sys_ok m" "same_editor s m" using driven_ok [OF assms] by (simp_all add: tick_keeps_def)
  let ?h = "housekeeping W r m"
  note H = housekeeping_ok(1,2) [OF k(1), of W r]
  have e: "same_editor s ?h" by (rule same_editor_trans [OF k(2) H(2)])
  obtain tap t w where p: "mkh_touch_poll W (touch ?h, bus ?h) = Some (tap, t, w)"
    using touch_poll_cases [of "touch ?h" W "bus ?h"] by metis
  have tap: "tick_tap W r m = tap" by (simp add: tick_tap_def Let_def p)
  let ?s1 = "?h\<lparr>touch := t, bus := w\<rparr>"
  have ok1: "sys_ok ?s1" using H(1) by (simp add: sys_ok_def)
  have l: "loop L W r s = Option.bind (case tap of None \<Rightarrow> Some ?s1 | Some (x, y) \<Rightarrow> touch_dispatch L W r x y ?s1)
      (\<lambda>s3. Option.bind (idle_entry r s3) (page_work r))"
    using assms(2) by (auto simp: loop_def driven_def touch_step_def p bind_eq_Some_conv Let_def split: prod.splits option.splits)
  have rest: "succeeds (Option.bind (idle_entry r s3) (page_work r)) (\<lambda>(t, oc). settled s3 t)" if s3: "sys_ok s3" for s3
  proof -
    obtain s4 where s4: "idle_entry r s3 = Some s4" "settled s3 s4" by (rule succeedsE [OF idle_entry_ok [OF s3]])
    have "sys_ok s4" using s4(2) by (simp add: settled_def)
    from page_work_ok [OF this, of r] show ?thesis
      using s4 by (auto simp: settled_def elim!: succeeds_mono)
  qed
  show "succeeds (loop L W r s) (\<lambda>(t, oc). sys_ok t \<and>
        ((\<exists>x y. tick_tap W r m = Some (x, y) \<and> commit_tap x y (ui s)) \<or>
         live (ui t) = live (ui s) \<and> disk (ui t) = disk (ui s)))"
    if no: "\<forall>x y. tick_tap W r m = Some (x, y) \<longrightarrow> \<not> add_overflow x y (ui s)"
  proof (cases tap)
    case None
    then show ?thesis
      using rest [OF ok1] same_editorD(1,2) [OF e] by (auto simp: l settled_def elim!: succeeds_mono)
  next
    case (Some xy)
    obtain x y where xy: "xy = (x, y)" by (cases xy)
    have "\<not> add_overflow x y (ui ?s1)" using no Some xy same_editorD(4) [OF e] by (simp add: tap)
    from dispatch_ok [OF ok1 this, of L W r] obtain s3 where s3: "touch_dispatch L W r x y ?s1 = Some s3" "sys_ok s3"
      "commit_tap x y (ui ?s1) \<or> live (ui s3) = live (ui ?s1) \<and> disk (ui s3) = disk (ui ?s1)" by (auto elim: succeedsE)
    show ?thesis
      using rest [OF s3(2)] s3(3) same_editorD(1,2) [OF e] same_commit [OF e]
      by (auto simp: l Some xy s3(1) settled_def tap elim!: succeeds_mono)
  qed
  show "loop L W r s = None" if "tick_tap W r m = Some (x, y)" "add_overflow x y (ui s)"
  proof -
    have "add_overflow x y (ui ?s1)" using that(2) same_editorD(4) [OF e] by simp
    from dispatch_overflow [OF ok1 this] show ?thesis using that(1) by (simp add: l tap)
  qed
qed

section \<open>Start\<close>

lemma read_file_ok:
  assumes "config_ok cfg"
  shows "config_ok (fst (readAndParseConfigFile L (cfg, fs)))"
proof -
  have s: "config_ok (fst (snd (mkh_storage_save_config L (c, f))))" if "config_ok c" for c f
    using that by (simp add: mkh_storage_save_config_def split_def Let_def)
  have d: "config_ok (mkh_config_note_source b cfg)" for b by (simp add: assms)
  have p: "config_ok (mkh_config_note_source b (parse_lines ls cfg))" for b ls by (simp add: parse_lines_ok assms)
  show ?thesis
    unfolding readAndParseConfigFile_def prod.case no_config_file_def Let_def
    using fallbacks(1) [OF d] fallbacks(1) [OF p] s by (auto split: option.split)
qed

lemma boot_read_ok: "config_ok (fst (mkh_storage_boot_read L (cfg, fs)))"
proof -
  have d: "config_ok (mkh_config_set_defaults cfg)" by (rule config_ok_defaults)
  then have "config_ok (no_config_file (mkh_config_set_defaults cfg))" by (simp add: no_config_file_def fallbacks(1))
  then show ?thesis using read_file_ok [OF d] by (auto simp: mkh_storage_boot_read_def Let_def split: prod.split option.split)
qed

lemma setup_ok:
  assumes "app_setup L W ts (sys_boot fs w) = Some s"
  shows "sys_ok s"
proof -
  obtain t1 t2 t3 t4 where ts: "ts = (t1, t2, t3, t4)" by (cases ts)
  let ?b = "sys_boot fs w"
  obtain cfg fs1 where m: "mkh_storage_boot_read L (live (ui ?b), disk (ui ?b)) = (cfg, fs1)" by fastforce
  have cfg: "config_ok cfg" using boot_read_ok [of L "live (ui ?b)" "disk (ui ?b)"] by (simp add: m)
  have "ui s = (ui ?b)\<lparr>live := cfg, disk := fs1, currentPage := PAGE_STATS\<rparr> \<and> air s = air ?b \<and> plat s = plat ?b \<and>
      bp s = bp ?b \<and> myControllers s = myControllers ?b \<and> lastToggleMs s = lastToggleMs ?b"
    using assms by (auto simp: app_setup_def ts m goToPage_def split: prod.splits)
  moreover have "ed_ok ((ui ?b)\<lparr>live := cfg, disk := fs1, currentPage := PAGE_STATS\<rparr>)"
    using cfg
    by (auto simp: ed_ok_def page_ok_def sess_ok_def shape_def sys_boot_def app_init_def blank_attributes_def list_all_iff slots_ok_def)
  moreover have "roster_ok (replicate 4 None)" "k \<notin> roster (replicate 4 None)" for k
    by (auto simp: roster_ok_def roster_def)
  moreover have "bluepad_ok bluepad_boot" "\<And>k. k < 4 \<Longrightarrow> \<not> c_connected (ctrls bluepad_boot ! k)"
    by (simp_all add: bluepad_ok_def bluepad_boot_def max_devices_def)
  ultimately show ?thesis
    using init_ok init_seats by (simp add: sys_ok_def sys_boot_def max_devices_def)
qed

section \<open>Runs of the whole program\<close>

text \<open>What can happen next: a tick of the main loop, a step of the radio task, an event of the Bluetooth
  stack, or an interrupt of the touch panel.\<close>

fun radio_event :: "bc_event \<Rightarrow> bool" where
  "radio_event Timer_fires = True"
| "radio_event Run_callback = True"
| "radio_event (Hci_packet ty p) = True"
| "radio_event e = False"

inductive sys_run :: "'fs littlefs \<Rightarrow> 'w wire \<Rightarrow> mappings_state \<Rightarrow> ('fs, 'w) sys \<Rightarrow> bool" for L W maps where
  sys_start: "app_setup L W ts (sys_boot fs w) = Some s \<Longrightarrow> sys_run L W maps s"
| sys_tick: "sys_run L W maps s \<Longrightarrow> loop L W r s = Some (t, Awake) \<Longrightarrow> sys_run L W maps t"
| sys_radio: "sys_run L W maps s \<Longrightarrow> radio_event e \<Longrightarrow> bc_step (air s) e b \<Longrightarrow> sys_run L W maps (s\<lparr>air := b\<rparr>)"
| sys_bt: "sys_run L W maps s \<Longrightarrow> bt_step maps (plat s) e p \<Longrightarrow> sys_run L W maps (s\<lparr>plat := p\<rparr>)"
| sys_finger: "sys_run L W maps s \<Longrightarrow> sys_run L W maps (s\<lparr>touch := touchIsr (touch s)\<rparr>)"

lemma loop_ok:
  assumes "sys_ok s" "loop L W r s = Some (t, oc)"
  shows "sys_ok t"
proof -
  obtain m where m: "driven r s = Some m" using assms(2) by (auto simp: loop_def driven_def bind_eq_Some_conv)
  show ?thesis
  proof (cases "\<exists>x y. tick_tap W r m = Some (x, y) \<and> add_overflow x y (ui s)")
    case True
    then show ?thesis using tick_ok(2) [OF assms(1) m] assms(2) by fastforce
  next
    case False
    then have "\<forall>x y. tick_tap W r m = Some (x, y) \<longrightarrow> \<not> add_overflow x y (ui s)" by blast
    from succeedsD [OF tick_ok(1) [OF assms(1) m this] assms(2)] show ?thesis by simp
  qed
qed

lemma sys_run_ok: "sys_run L W maps s \<Longrightarrow> sys_ok s"
proof (induction rule: sys_run.induct)
  case (sys_start ts fs w s)
  then show ?case by (rule setup_ok)
next
  case (sys_tick s r t)
  then show ?case using loop_ok by blast
next
  case (sys_radio s e b)
  then show ?case using bc_step_ok by (auto simp: sys_ok_def)
next
  case (sys_bt s e p)
  then show ?case using bt_step_ok by (auto simp: sys_ok_def)
qed (simp add: sys_ok_def)

text \<open>C6: Every state the firmware reaches satisfies the invariants of all its parts at once, whatever the
  order of loop ticks, radio timers, HCI events, controllers coming and going and touches: the
  mapping table is well formed, the editor points at a binding that exists, the broadcaster's and
  the seats' invariants hold, and \<open>myControllers\<close> holds each connected controller exactly once.\<close>

theorem system_invariant:
  assumes "sys_run L W maps s"
  shows "config_ok (live (ui s)) \<and> ed_ok (ui s) \<and> bc_ok (air s) \<and> seats_ok (plat s) \<and>
    (\<forall>k<4. c_connected (ctrls (bp s) ! k) \<longleftrightarrow> (\<exists>!i. i < 4 \<and> myControllers s ! i = Some k))"
proof -
  have ok: "sys_ok s" by (rule sys_run_ok [OF assms])
  have r: "roster_ok (myControllers s)" and
    c: "\<And>k. k < 4 \<Longrightarrow> k \<in> roster (myControllers s) \<longleftrightarrow> c_connected (ctrls (bp s) ! k)" using ok by (simp_all add: sys_ok_def)
  have len: "length (myControllers s) = 4" using r by (simp add: roster_ok_def)
  have one: "i = j" if "i < 4" "j < 4" "myControllers s ! i = Some k" "myControllers s ! j = Some k" for i j k
    using r that by (auto simp: roster_ok_def)
  have "c_connected (ctrls (bp s) ! k) \<longleftrightarrow> (\<exists>!i. i < 4 \<and> myControllers s ! i = Some k)" if "k < 4" for k
    using c [OF that] roster_at [OF len, of k] one by blast
  then show ?thesis using ok by (simp add: sys_ok_def ed_ok_def sess_ok_def)
qed

text \<open>The sweep of a tick fails exactly when it meets a heading lock whose output it cannot convert.\<close>

definition sweep_tick :: "readings \<Rightarrow> ('fs, 'w) sys \<Rightarrow> tick" where
  "sweep_tick r s = \<lparr>currentFrame = ms r At_sweep div mkh_frame_interval_ms, imu_ready = mkh_imu_ready (imu s),
     imu_heading = mkh_imu_heading_deg (imu s)\<rparr>"

lemma drive_fails:
  assumes "sys_ok s"
  shows "drive r s = None \<longleftrightarrow> (\<exists>ctl. first_controller s = Some ctl \<and>
    (\<exists>d<3. \<exists>p<6. \<exists>i<length (bindings (port_at (live (ui s)) d p)).
       lock_faults (accessors (c_data ctl)) (sweep_tick r s) (thl s) (bindings (port_at (live (ui s)) d p) ! i)
         (slots (ui s) ! d ! p ! i)))"
proof (cases "first_controller s")
  case None
  then show ?thesis by (simp add: drive_def)
next
  case (Some ctl)
  have ok: "slots_ok (slots (ui s))" "config_ok (live (ui s))" "bc_ok (air s)"
    using assms by (simp_all add: sys_ok_def ed_ok_def sess_ok_def)
  have cb: "cfg_bounded (live (ui s))" using config_ok_port [OF ok(2)] by (simp add: cfg_bounded_def port_ok_def mkh_max_bindings_per_port_def)
  have "drive r s = None \<longleftrightarrow> processMappedInputs (accessors (c_data ctl)) (ms r At_sweep) (mkh_imu_ready (imu s))
      (mkh_imu_heading_deg (imu s)) (live (ui s)) (slots (ui s), thl s) = None"
  proof -
    have "set_channels (us_sweep r) calls (air s) \<noteq> None" for calls
      by (rule succeedsE [OF set_channels_ok [OF ok(3), of "us_sweep r" calls]]) simp
    then have sc: "\<exists>u. set_channels (us_sweep r) calls (air s) = Some u" for calls by simp
    show ?thesis
    proof (cases "processMappedInputs (accessors (c_data ctl)) (ms r At_sweep) (mkh_imu_ready (imu s))
        (mkh_imu_heading_deg (imu s)) (live (ui s)) (slots (ui s), thl s)")
      case sw: (Some q)
      obtain calls tb v where q: "q = (calls, tb, v)" by (cases q)
      obtain u where u: "set_channels (us_sweep r) calls (air s) = Some u" using sc by blast
      show ?thesis by (simp add: drive_def Some sw q u)
    qed (simp add: drive_def Some)
  qed
  then show ?thesis using Some mapped_inputs_fails [OF ok(1) cb] by (simp add: sweep_tick_def)
qed

text \<open>C7: One tick of the main loop always returns, except in two situations. The first controller drives
  and a binding of heading-lock mode that is not on a stick axis has its lock engaged, after this
  tick's press, with an output that scales to NaN, to an infinity or outside the \<open>int\<close> range
  (\<open>lock_faults\<close>); or the tap of this tick is ADD in the capture prompt of a port that already has
  eight bindings, where the code writes past the end of the array. Sticks, triggers and all
  other bindings never make it fail, whatever the controller reports.\<close>

theorem tick_fails_iff:
  assumes "sys_run L W maps s"
  shows "loop L W r s = None \<longleftrightarrow> (\<exists>n. poll_controllers r s = Some n \<and>
    ((\<exists>ctl. first_controller n = Some ctl \<and> (\<exists>d<3. \<exists>p<6. \<exists>i<length (bindings (port_at (live (ui s)) d p)).
        lock_faults (accessors (c_data ctl)) (sweep_tick r n) (thl n) (bindings (port_at (live (ui s)) d p) ! i)
          (slots (ui n) ! d ! p ! i))) \<or>
     (\<exists>m x y. drive r n = Some m \<and> tick_tap W r m = Some (x, y) \<and> add_overflow x y (ui s))))"
proof -
  have ok: "sys_ok s" by (rule sys_run_ok [OF assms])
  obtain n where n: "poll_controllers r s = Some n" "tick_keeps s n" by (rule succeedsE [OF poll_controllers_ok [OF ok]]) blast
  have okn: "sys_ok n" "live (ui n) = live (ui s)" using n(2) same_editorD(1) [of s n] by (simp_all add: tick_keeps_def)
  note F = drive_fails [OF okn(1), of r, unfolded okn(2)]
  show ?thesis
  proof (cases "drive r n")
    case None
    then have "loop L W r s = None" by (simp add: loop_def n(1))
    with None F n(1) show ?thesis by simp
  next
    case (Some m)
    then have d: "driven r s = Some m" by (simp add: driven_def n(1))
    have "loop L W r s = None \<longleftrightarrow> (\<exists>x y. tick_tap W r m = Some (x, y) \<and> add_overflow x y (ui s))"
    proof (cases "\<exists>x y. tick_tap W r m = Some (x, y) \<and> add_overflow x y (ui s)")
      case True
      then show ?thesis using tick_ok(2) [OF ok d] by blast
    next
      case False
      then have "\<forall>x y. tick_tap W r m = Some (x, y) \<longrightarrow> \<not> add_overflow x y (ui s)" by blast
      from tick_ok(1) [OF ok d this, of L] show ?thesis using False by auto
    qed
    moreover have "\<not> (\<exists>ctl. first_controller n = Some ctl \<and> (\<exists>d<3. \<exists>p<6. \<exists>i<length (bindings (port_at (live (ui s)) d p)).
        lock_faults (accessors (c_data ctl)) (sweep_tick r n) (thl n) (bindings (port_at (live (ui s)) d p) ! i)
          (slots (ui n) ! d ! p ! i)))" using Some F by simp
    ultimately show ?thesis using n(1) Some by auto
  qed
qed

text \<open>C17: The live mapping table and the config file change only on purpose: a tick without one of the commit
  taps (a prompt's left button on the hub page, Test, Reset, Save) leaves both as they are, so
  that edits in progress never reach the motors or the flash.\<close>

theorem table_changes_on_commit_only:
  assumes "sys_run L W maps s" "loop L W r s = Some (t, oc)" "driven r s = Some m"
    "\<And>x y. tick_tap W r m = Some (x, y) \<Longrightarrow> \<not> commit_tap x y (ui s)"
  shows "live (ui t) = live (ui s) \<and> disk (ui t) = disk (ui s)"
proof -
  have ok: "sys_ok s" by (rule sys_run_ok [OF assms(1)])
  have "\<not> add_overflow x y (ui s)" if "tick_tap W r m = Some (x, y)" for x y
    using tick_ok(2) [OF ok assms(3) that] assms(2) by fastforce
  then have "\<forall>x y. tick_tap W r m = Some (x, y) \<longrightarrow> \<not> add_overflow x y (ui s)" by blast
  from succeedsD [OF tick_ok(1) [OF ok assms(3) this] assms(2)] assms(4) show ?thesis by auto
qed

end
