(* ===== verification/App_Drive.thy ===== *)
theory App_Drive
  imports App_Laws
begin

text \<open>
  From the sticks to the radio: what the drive pass of one tick leaves in the channel table of the
  broadcaster, and the telegram the next service puts on air.
\<close>

section \<open>A stick on a port\<close>

lemma apply_plain:
  "b_mode b \<noteq> MKH_MODE_THL \<Longrightarrow> uint (mkApplyBindingConfig r b) =
     clamp_byte (0x80 + c_div (((if b_invert b then clamp_byte (0x100 - uint r) else uint r) - 0x80) * int (b_max_percent b)) 100)"
  using clamp_byte_range by (simp add: mkApplyBindingConfig_def Let_def uint_to_u8)

lemma clamp_byte_id: "0 \<le> x \<Longrightarrow> x \<le> 255 \<Longrightarrow> clamp_byte x = x"
  by (simp add: clamp_byte_def)

text \<open>A port with one binding sends what the binding computes: the sum of one summand is not clamped.\<close>

lemma pass3_single: "pass3 [b] [r] = mkApplyBindingConfig r b"
proof -
  have "0 \<le> uint (mkApplyBindingConfig r b)" "uint (mkApplyBindingConfig r b) \<le> 255"
    using uint_lt2p [of "mkApplyBindingConfig r b"] by simp_all
  then show ?thesis by (simp add: pass3_def)
qed

lemma stick_port:
  assumes "mkh_config_input_class (b_input b) = MKH_INPUT_CLASS_AXIS" "b_mode b \<noteq> MKH_MODE_THL"
    "\<bar>readTokenRaw ctl (b_input b)\<bar> \<le> 512" "ss \<noteq> []"
  shows "port_step ctl t [b] (ss, v) =
    Some (mkApplyBindingConfig (to_u8 (stick_spec (readTokenRaw ctl (b_input b)))) b, ss, v)"
proof -
  obtain s ss' where ss: "ss = s # ss'" using assms(4) by (cases ss) auto
  have a: "mkStickYToChannelByte (readTokenRaw ctl (b_input b)) = Some (to_u8 (stick_spec (readTokenRaw ctl (b_input b))))"
    by (rule stick_byte_eq) (use assms(3) in auto)
  have "binding_step ctl t b (s, v) = Some (to_u8 (stick_spec (readTokenRaw ctl (b_input b))), s, v)"
    using assms(1) by (simp add: binding_step_def a)
  moreover have "engaged_index [b] ss = None" using assms(2) by (simp add: engaged_index_def)
  ultimately show ?thesis by (simp add: port_step_def ss pass2_def pass3_single)
qed

section \<open>The sweep and the channel table\<close>

text \<open>The sweep makes one call for every port that has bindings, with what the port computes.\<close>

lemma sweep_calls:
  "sweep_ports ctl t cfg ps (tb, v) = Some (calls, tb', v') \<Longrightarrow> set ps \<subseteq> set all_ports \<Longrightarrow> distinct ps \<Longrightarrow> slots_ok tb \<Longrightarrow>
   map (\<lambda>(d, p, _). (d, p)) calls = filter (assigned cfg) ps \<and>
   (\<forall>(d, p, byte)\<in>set calls. \<exists>v1 ss v2. port_step ctl t (bindings (port_at cfg d p)) (tb ! d ! p, v1) = Some (byte, ss, v2))"
proof (induction ps arbitrary: tb v calls)
  case (Cons q ps)
  obtain d p where q: "q = (d, p)" by fastforce
  have dp: "d < 3" "p < 6" using Cons.prems(2) by (auto simp: q all_ports_def)
  show ?case
  proof (cases "assigned cfg q")
    case False
    with Cons.prems get_port [OF dp, of cfg] have h: "sweep_ports ctl t cfg ps (tb, v) = Some (calls, tb', v')"
      by (simp add: q assigned_def)
    show ?thesis using Cons.IH [OF h] Cons.prems False by simp
  next
    case True
    with Cons.prems(1) get_port [OF dp, of cfg] obtain byte ss v1 calls1 where
      h: "port_step ctl t (bindings (port_at cfg d p)) (tb ! d ! p, v) = Some (byte, ss, v1)"
      "sweep_ports ctl t cfg ps (tb[d := (tb ! d)[p := ss]], v1) = Some (calls1, tb', v')" "calls = (d, p, byte) # calls1"
      by (auto simp: q assigned_def bind_eq_Some_conv)
    let ?tb = "tb[d := (tb ! d)[p := ss]]"
    have ok: "slots_ok ?tb" using port_step_length [OF h(1)] Cons.prems(4) dp slots_ok_set by (simp add: slots_ok_def)
    have IH: "map (\<lambda>(d, p, _). (d, p)) calls1 = filter (assigned cfg) ps"
      "\<forall>(d, p, byte)\<in>set calls1. \<exists>v1 ss v2. port_step ctl t (bindings (port_at cfg d p)) (?tb ! d ! p, v1) = Some (byte, ss, v2)"
      using Cons.IH [OF h(2) _ _ ok] Cons.prems by auto
    have keys: "(d', p') \<in> set ps" if "(d', p', c) \<in> set calls1" for d' p' c
    proof -
      have "(d', p') \<in> set (map (\<lambda>(d, p, _). (d, p)) calls1)" using that by force
      then show ?thesis by (simp add: IH(1))
    qed
    have other: "?tb ! d' ! p' = tb ! d' ! p'" if "(d', p', c) \<in> set calls1" for d' p' c
    proof -
      have "(d', p') \<noteq> (d, p)" "d' < 3" "p' < 6"
        using keys [OF that] Cons.prems(2,3) by (auto simp: q all_ports_def)
      then show ?thesis using Cons.prems(4) by (cases "d' = d") (auto simp: slots_ok_def)
    qed
    have "\<exists>v1 ss v2. port_step ctl t (bindings (port_at cfg d' p')) (tb ! d' ! p', v1) = Some (c, ss, v2)"
      if "(d', p', c) \<in> set calls1" for d' p' c
      using IH(2) that other [OF that] by fastforce
    then show ?thesis using True IH(1) h(1) by (auto simp: h(3) q)
  qed
qed simp

text \<open>Writing calls with different keys leaves each value where it was sent.\<close>

lemma write_keeps:
  "(d, p) \<notin> set (map (\<lambda>(d, p, _). (d, p)) calls) \<Longrightarrow> fold write_call calls table ! d ! p = table ! d ! p"
proof (induction calls arbitrary: table)
  case (Cons c calls)
  obtain d' p' v where c: "c = (d', p', v)" by (cases c)
  have ne: "(d', p') \<noteq> (d, p)" using Cons.prems by (auto simp: c)
  have "write_call c table ! d ! p = table ! d ! p"
    using ne by (cases "d' < length table") (auto simp: c write_call_def chan_set_def nth_list_update list_update_beyond)
  then show ?case using Cons by simp
qed simp

lemma write_reaches:
  assumes "distinct (map (\<lambda>(d, p, _). (d, p)) calls)" "(d, p, v) \<in> set calls" "d < 3" "p < 6"
    "length table = 3" "\<And>k. k < 3 \<Longrightarrow> length (table ! k) = 6"
  shows "fold write_call calls table ! d ! p = v"
  using assms(1,2,5,6)
proof (induction calls arbitrary: table)
  case (Cons c calls)
  let ?t = "write_call c table"
  have shape: "length ?t = 3" "\<And>k. k < 3 \<Longrightarrow> length (?t ! k) = 6"
    using Cons.prems(3,4) by (simp_all add: write_call_def split_def row_chan_set)
  show ?case
  proof (cases "c = (d, p, v)")
    case True
    then have "(d, p) \<notin> set (map (\<lambda>(d, p, _). (d, p)) calls)" using Cons.prems(1) by simp
    then show ?thesis
      using write_keeps [of d p calls ?t] True assms(3,4) Cons.prems(3,4) by (simp add: write_call_def chan_set_def)
  next
    case False
    then show ?thesis using Cons.IH [OF _ _ shape] Cons.prems(1,2) by simp
  qed
qed simp

text \<open>What the drive pass leaves in the table, for a port with bindings.\<close>

lemma drive_writes:
  assumes "sys_ok s" "drive r s = Some t" "first_controller s = Some ctl" "d < 3" "p < 6"
    "assigned (live (ui s)) (d, p)"
  obtains tk v1 ss v2 where "port_step (accessors (c_data ctl)) tk (bindings (port_at (live (ui s)) d p)) (slots (ui s) ! d ! p, v1)
      = Some (mkh_channel_value (air t) ! d ! p, ss, v2)"
proof -
  let ?ctl = "accessors (c_data ctl)" and ?cfg = "live (ui s)"
  obtain calls tb v u where h:
    "processMappedInputs ?ctl (ms r At_sweep) (mkh_imu_ready (imu s)) (mkh_imu_heading_deg (imu s)) ?cfg (slots (ui s), thl s)
       = Some (calls, tb, v)"
    "set_channels (us_sweep r) calls (air s) = Some u" "air t = u"
    using assms(2,3) by (auto simp: drive_def bind_eq_Some_conv)
  have ok: "bc_ok (air s)" "slots_ok (slots (ui s))" using assms(1) by (simp_all add: sys_ok_def ed_ok_tableD)
  note S = sweep_calls [OF h(1) [unfolded processMappedInputs_def] subset_refl distinct_ports ok(2)]
  have keys: "map (\<lambda>(d, p, _). (d, p)) calls = filter (assigned ?cfg) all_ports" using S by blast
  have "(d, p) \<in> set (map (\<lambda>(d, p, _). (d, p)) calls)" unfolding keys using assms(4-6) by (simp add: ports_mem)
  then obtain byte where b: "(d, p, byte) \<in> set calls" by auto
  have dist: "distinct (map (\<lambda>(d, p, _). (d, p)) calls)" unfolding keys by (simp add: distinct_ports)
  have "mkh_channel_value (air t) ! d ! p = byte"
    unfolding h(3) set_channels_table [OF ok(1) h(2)]
    by (rule write_reaches [OF dist b assms(4,5)]) (use ok(1) in \<open>auto simp: bc_ok_def bc_shape_def\<close>)
  moreover obtain v1 ss v2 where "port_step ?ctl \<lparr>currentFrame = ms r At_sweep div mkh_frame_interval_ms,
      imu_ready = mkh_imu_ready (imu s), imu_heading = mkh_imu_heading_deg (imu s)\<rparr>
      (bindings (port_at ?cfg d p)) (slots (ui s) ! d ! p, v1) = Some (byte, ss, v2)"
    using S b by fast
  ultimately show ?thesis using that by simp
qed

section \<open>From the stick to the air\<close>

definition stick_binding :: "mkh_binding \<Rightarrow> bool" where
  "stick_binding b \<longleftrightarrow> mkh_config_input_class (b_input b) = MKH_INPUT_CLASS_AXIS \<and> b_mode b \<noteq> MKH_MODE_THL"

definition sticks_in_range :: "Controller \<Rightarrow> bool" where
  "sticks_in_range ctl \<longleftrightarrow>
     (\<forall>i. mkh_config_input_class i = MKH_INPUT_CLASS_AXIS \<longrightarrow> \<bar>readTokenRaw (accessors (c_data ctl)) i\<bar> \<le> 512)"

text \<open>The byte a stick binding sends for what a controller reads.\<close>

definition stick_output :: "Controller \<Rightarrow> mkh_binding \<Rightarrow> u8" where
  "stick_output ctl b = mkApplyBindingConfig (to_u8 (stick_spec (readTokenRaw (accessors (c_data ctl)) (b_input b)))) b"

lemma stick_step:
  assumes "stick_binding b" "sticks_in_range ctl" "ss \<noteq> []"
  shows "port_step (accessors (c_data ctl)) t [b] (ss, v) = Some (stick_output ctl b, ss, v)"
  using assms by (simp add: stick_binding_def sticks_in_range_def stick_output_def stick_port)

lemma drive_stick:
  assumes "sys_ok s" "drive r s = Some t" "first_controller s = Some ctl" "d < 3" "p < 6"
    "bindings (port_at (live (ui s)) d p) = [b]" "stick_binding b" "sticks_in_range ctl"
  shows "mkh_channel_value (air t) ! d ! p = stick_output ctl b"
proof -
  obtain tk v1 ss v2 where st: "port_step (accessors (c_data ctl)) tk [b] (slots (ui s) ! d ! p, v1)
      = Some (mkh_channel_value (air t) ! d ! p, ss, v2)"
    by (rule drive_writes [OF assms(1-5)]) (use assms(6) in \<open>auto simp: assigned_def\<close>)
  have "slots_ok (slots (ui s))" using assms(1) by (simp add: sys_ok_def ed_ok_tableD)
  then have "length (slots (ui s) ! d ! p) = 8" using assms(4,5) by (simp add: slots_ok_def)
  then have "slots (ui s) ! d ! p \<noteq> []" by auto
  from stick_step [OF assms(7,8) this, of tk v1] st show ?thesis by simp
qed

text \<open>A tick polls the controllers and then drives; the first controller is the same before and after.\<close>

lemma drivenE:
  assumes "driven r s = Some t" "sys_ok s"
  obtains m where "poll_controllers r s = Some m" "drive r m = Some t" "tick_keeps s m" "first_controller m = first_controller t"
    "live (ui m) = live (ui s)"
proof -
  obtain m where m: "poll_controllers r s = Some m" "drive r m = Some t"
    using assms(1) by (auto simp: driven_def bind_eq_Some_conv)
  have k: "tick_keeps s m" using succeedsD [OF poll_controllers_ok [OF assms(2)] m(1)] by simp
  then have "first_controller m = first_controller t"
    using drive_ok [OF _ m(2)] by (simp add: tick_keeps_def first_controller_def)
  then show ?thesis using that m k same_editorD(1) [of s m] by (simp add: tick_keeps_def)
qed

lemma driven_stick:
  assumes "sys_ok s" "driven r s = Some t" "first_controller t = Some ctl" "d < 3" "p < 6"
    "bindings (port_at (live (ui s)) d p) = [b]" "stick_binding b" "sticks_in_range ctl"
  shows "mkh_channel_value (air t) ! d ! p = stick_output ctl b"
proof -
  obtain m where m: "drive r m = Some t" "tick_keeps s m" "first_controller m = first_controller t" "live (ui m) = live (ui s)"
    by (rule drivenE [OF assms(2,1)])
  have "sys_ok m" using m(2) by (simp add: tick_keeps_def)
  from drive_stick [OF this m(1) _ assms(4,5)] m(3,4) assms(3,6-8) show ?thesis by simp
qed

text \<open>With stick bindings only, one to a port, the pass always succeeds and leaves the runtime state alone.\<close>

definition stick_table :: "config_state \<Rightarrow> bool" where
  "stick_table cfg \<longleftrightarrow>
     (\<forall>d<3. \<forall>p<6. assigned cfg (d, p) \<longrightarrow> (\<exists>b. bindings (port_at cfg d p) = [b] \<and> stick_binding b))"

lemma sweep_sticks:
  assumes "stick_table cfg" "sticks_in_range ctl" "slots_ok tb"
  shows "set ps \<subseteq> set all_ports \<Longrightarrow> \<exists>calls. sweep_ports (accessors (c_data ctl)) t cfg ps (tb, v) = Some (calls, tb, v)"
proof (induction ps)
  case (Cons q ps)
  obtain d p where q: "q = (d, p)" by fastforce
  have dp: "d < 3" "p < 6" using Cons.prems by (simp_all add: q ports_mem)
  obtain calls where IH: "sweep_ports (accessors (c_data ctl)) t cfg ps (tb, v) = Some (calls, tb, v)" using Cons by auto
  show ?case
  proof (cases "assigned cfg (d, p)")
    case True
    then obtain b where b: "bindings (port_at cfg d p) = [b]" "stick_binding b" using assms(1) dp by (auto simp: stick_table_def)
    have "length (tb ! d ! p) = 8" using assms(3) dp by (simp add: slots_ok_def)
    then have "tb ! d ! p \<noteq> []" by auto
    from stick_step [OF b(2) assms(2) this, of t v] show ?thesis by (simp add: q get_port [OF dp] b(1) IH)
  qed (use IH in \<open>simp add: q get_port [OF dp] assigned_def\<close>)
qed simp

lemma drive_sticks:
  assumes "sys_ok s" "stick_table (live (ui s))" "\<And>ctl. first_controller s = Some ctl \<Longrightarrow> sticks_in_range ctl"
  obtains u where "drive r s = Some (s\<lparr>air := u\<rparr>)" "bc_ok u" "\<exists>table. chan_upd (air s) table u"
proof (cases "first_controller s")
  case None
  have bc: "bc_ok (air s)" using assms(1) by (simp add: sys_ok_def)
  show ?thesis by (rule that [of "air s"]) (use None bc chan_upd_refl in \<open>auto simp: drive_def bc_ok_def\<close>)
next
  case (Some ctl)
  have ok: "bc_ok (air s)" "slots_ok (slots (ui s))" using assms(1) by (simp_all add: sys_ok_def ed_ok_tableD)
  obtain calls where c: "processMappedInputs (accessors (c_data ctl)) (ms r At_sweep) (mkh_imu_ready (imu s))
      (mkh_imu_heading_deg (imu s)) (live (ui s)) (slots (ui s), thl s) = Some (calls, slots (ui s), thl s)"
    using sweep_sticks [OF assms(2) assms(3) [OF Some] ok(2) subset_refl] unfolding processMappedInputs_def by blast
  obtain u where u: "set_channels (us_sweep r) calls (air s) = Some u" "bc_ok u"
    by (rule succeedsE [OF set_channels_ok [OF ok(1)]])
  show ?thesis
    by (rule that [of u]) (use u set_channels_upd [OF ok(1) u(1)] in \<open>auto simp: drive_def Some c\<close>)
qed

text \<open>C8: From the stick to the air: in any reachable state, if a port of an active hub has one stick binding,
  then after the drive pass of a tick the next service of that hub puts on air a telegram whose byte
  for the port is the stick's position on the exact linear curve with the binding's invert and max
  applied.\<close>

theorem stick_on_air:
  assumes "sys_run L W maps s" "driven r s = Some m" "first_controller m = Some ctl" "sticks_in_range ctl"
    and "d < 2" "p < 6" "bindings (port_at (live (ui s)) d p) = [b]" "stick_binding b"
    and "mkh_next_active_device (mkh_time_slice_last_device (air m)) (air m) = Some (int d)"
    and "bc_step (air m) Timer_fires t"
  shows "\<exists>bs vs. gap_calls t = gap_calls (air m) @ [Gap_set_data bs] \<and>
    on_air (Gap_set_data bs) = Some (control_frame (int d) vs) \<and>
    vs ! p = mkApplyBindingConfig (to_u8 (stick_spec (readTokenRaw (accessors (c_data ctl)) (b_input b)))) b"
proof -
  have ok: "sys_ok s" by (rule sys_run_ok [OF assms(1)])
  have bc: "bc_ok (air m)" using driven_ok [OF ok assms(2)] by (simp add: tick_keeps_def sys_ok_def)
  have "mkh_channel_value (air m) ! d ! p = stick_output ctl b"
    by (rule driven_stick [OF ok assms(2,3) _ assms(6-8,4)]) (use assms(5) in simp)
  moreover have n: "next_dev (air m) = int d"
    using assms(9) next_active_device_eq [of "air m"] bc by (simp add: bc_ok_def)
  then have "serviced d (air m) t" by (rule_tac timer_service [OF bc assms(10)]) simp_all
  ultimately show ?thesis using serviced_fields(14) unfolding stick_output_def by fastforce
qed

section \<open>A controller that reconnects\<close>

text \<open>A callback moves entries of \<open>myControllers\<close>; it leaves the rest to the next tick.\<close>

lemma callbacks_plat:
  "callbacks r cbs s = Some t \<Longrightarrow> plat t = plat s \<and> bp t = bp s"
proof (induction r cbs s rule: callbacks.induct)
  case (2 r k cbs s)
  then show ?case by (auto simp: onConnectedController_def split: option.splits)
next
  case (3 r k cbs s)
  then show ?case
    by (auto simp: onDisconnectedController_def bind_eq_Some_conv Let_def split: option.splits if_splits prod.splits)
qed simp

lemma connects_keep_first:
  "callbacks r cbs s = Some t \<Longrightarrow> (\<And>k. On_disconnect k \<notin> set cbs) \<Longrightarrow> myControllers s ! 0 = Some j \<Longrightarrow>
   myControllers t ! 0 = Some j"
proof (induction r cbs s rule: callbacks.induct)
  case (2 r k cbs s)
  have "myControllers (onConnectedController k s) ! 0 = Some j"
  proof (cases "List.find (\<lambda>i. myControllers s ! i = None) [0..<max_devices]")
    case (Some i)
    then have "i \<noteq> 0" using "2.prems"(3) by (cases "i = 0") (auto simp: find_upt)
    then show ?thesis using "2.prems"(3) by (simp add: onConnectedController_def Some)
  qed (use "2.prems"(3) in \<open>simp add: onConnectedController_def\<close>)
  then show ?case using 2 by simp
qed auto

lemma connects_air:
  "callbacks r cbs s = Some t \<Longrightarrow> (\<And>k. On_disconnect k \<notin> set cbs) \<Longrightarrow> air t = air s"
proof (induction r cbs s rule: callbacks.induct)
  case (2 r k cbs s)
  then show ?case by (auto simp: onConnectedController_def split: option.splits)
qed auto

text \<open>A controller that takes the first seat while the application knows none becomes its first.\<close>

lemma first_arrival:
  assumes "sys_ok s" "myControllers s = replicate 4 None" "taken (plat s) 0"
    "bp32_update (plat s, bp s) = (fresh, cbs, p, b)" "poll_controllers r s = Some n"
  shows "first_controller n = Some (ctrls b ! 0)" "air n = air s"
proof -
  have ok: "bluepad_ok (bp s)" "\<And>k. k < 4 \<Longrightarrow> k \<in> roster (myControllers s) \<longleftrightarrow> c_connected (ctrls (bp s) ! k)"
    using assms(1) by (simp_all add: sys_ok_def)
  have prev: "\<not> prevConnected (bp s) ! k" if "k < 4" for k
    using ok that assms(2) by (auto simp: roster_def bluepad_ok_def)
  have cbs: "cbs = changes (prevConnected (bp s)) (occupied (plat s))" by (rule update_facts(1) [OF assms(4) ok(1)])
  have "cbs = On_connect 0 # drop 1 cbs" "On_disconnect k \<notin> set cbs" for k
    unfolding cbs changes_def using prev assms(3) by (auto simp: occupied_def upt_conv_Cons)
  then obtain rest where rest: "cbs = On_connect 0 # rest" "\<And>k. On_disconnect k \<notin> set cbs" by metis
  let ?s = "s\<lparr>plat := p, bp := b\<rparr>"
  obtain n0 where n0: "callbacks r cbs ?s = Some n0" "n = (if fresh then processControllers n0 else n0)"
    using assms(5) by (auto simp: poll_controllers_def assms(4) bind_eq_Some_conv)
  have "List.find (\<lambda>i. myControllers ?s ! i = None) [0..<max_devices] = Some 0"
    using assms(2) by (simp add: max_devices_def upt_conv_Cons)
  then have "myControllers (onConnectedController 0 ?s) ! 0 = Some 0" using assms(2) by (simp add: onConnectedController_def)
  then have "myControllers n0 ! 0 = Some 0"
    using n0(1) rest(2) connects_keep_first [of r rest _ n0] by (simp add: rest(1))
  then show "first_controller n = Some (ctrls b ! 0)"
    using n0(2) callbacks_plat [OF n0(1)] process_controllers_facts [of n0] by (simp add: first_controller_def)
  show "air n = air s" using connects_air [OF n0(1) rest(2)] n0(2) process_controllers_facts [of n0] by simp
qed

lemma reconnect_first:
  assumes "sys_ok s" "myControllers s = replicate 4 None" "taken (plat s) 0" "\<not> data_updated (seats (plat s) ! 0)"
    "driven r s = Some m"
  shows "\<exists>ctl. first_controller m = Some ctl \<and> c_data ctl = c_data (ctrls (bp s) ! 0)"
proof -
  obtain n where n: "poll_controllers r s = Some n" "first_controller n = first_controller m"
    by (rule drivenE [OF assms(5,1)])
  obtain fresh cbs p b where u: "bp32_update (plat s, bp s) = (fresh, cbs, p, b)" by (metis prod.exhaust)
  have "bluepad_ok (bp s)" using assms(1) by (simp add: sys_ok_def)
  from update_facts(6) [OF u this assms(4)] first_arrival(1) [OF assms(1-3) u n(1)] n(2) show ?thesis by simp
qed

text \<open>C24: A controller that reconnects drives the motors with what was last received before it left: the sweep
  of the tick that reports the connection already writes the old stick position to the ports, while
  the seat has received nothing since. The failsafe of the disconnect is undone until the first
  report arrives.\<close>

theorem stale_input_after_reconnect:
  assumes "sys_run L W maps s" "myControllers s = replicate 4 None"
    and "taken (plat s) 0" "\<not> data_updated (seats (plat s) ! 0)" "driven r s = Some m"
    and "d < 3" "p < 6" "bindings (port_at (live (ui s)) d p) = [b]" "stick_binding b" "sticks_in_range (ctrls (bp s) ! 0)"
  shows "mkh_channel_value (air m) ! d ! p = stick_output (ctrls (bp s) ! 0) b"
proof -
  have ok: "sys_ok s" by (rule sys_run_ok [OF assms(1)])
  obtain ctl where c: "first_controller m = Some ctl" "c_data ctl = c_data (ctrls (bp s) ! 0)"
    using reconnect_first [OF ok assms(2-5)] by blast
  have "sticks_in_range ctl" using assms(10) by (simp add: sticks_in_range_def c(2))
  from driven_stick [OF ok assms(5) c(1) assms(6-9) this] show ?thesis by (simp add: stick_output_def c(2))
qed

end
