(* ===== verification/App_Scenarios.thy ===== *)
theory App_Scenarios
  imports App_Drive
begin

text \<open>
  Runs of the whole firmware that show properties holding on, or failing at, concrete inputs: a boot
  without a file system, sensors or panel, controllers that connect, report and leave, ticks.
\<close>

section \<open>A bare board\<close>

definition no_fs :: "unit littlefs" where
  "no_fs = \<lparr>fs_begin = (\<lambda>fs. (False, fs)), fs_exists = (\<lambda>p fs. False), fs_open_read = (\<lambda>p fs. None),
     fs_open_write = (\<lambda>p fs. None), fs_write = (\<lambda>p d fs. (0, fs)), fs_remove = (\<lambda>p fs. (False, fs)),
     fs_rename = (\<lambda>p q fs. (False, fs))\<rparr>"

definition default_mapping :: "config_state \<Rightarrow> bool" where
  "default_mapping cfg \<longleftrightarrow> (\<forall>d<3. \<forall>p<6. bindings (port_at cfg d p) = with_fallback d p [])"

text \<open>Neither panel nor gyro answered at boot, the start page is up, the table is the compiled-in one.\<close>

definition bare :: "('fs, 'w) sys \<Rightarrow> bool" where
  "bare s \<longleftrightarrow> ui_page s = PAGE_STATS \<and> \<not> s_touchReady (touch s) \<and> \<not> s_imuReady (imu s) \<and> default_mapping (live (ui s))"

lemma boots:
  obtains s :: "(unit, unit) sys" where "app_setup no_fs dead_wire (0, 0, 0, 0) (sys_boot () ()) = Some s" "bare s"
    "plat s = arduino_init" "bp s = bluepad_boot" "myControllers s = replicate 4 None" "air s = bc_start"
proof -
  let ?b = "sys_boot () () :: (unit, unit) sys"
  let ?cfg = "no_config_file (mkh_config_set_defaults (live (ui ?b)))"
  have m: "mkh_storage_boot_read no_fs (live (ui ?b), ()) = (?cfg, ())"
    by (simp add: mkh_storage_boot_read_def no_fs_def)
  have "config_ok (mkh_config_set_defaults (live (ui ?b)))" by (rule config_ok_defaults)
  then have map: "default_mapping ?cfg"
    by (simp add: default_mapping_def no_config_file_def fallbacks) (simp add: mkh_config_set_defaults_def port_at_def)
  have t: "mkh_touch_init dead_wire (touch ?b, ()) = ((touch ?b)\<lparr>s_touchReady := False\<rparr>, ())"
    by (simp add: mkh_touch_init_def dead_wire_def)
  have i: "mkh_imu_init dead_wire 0 0 (imu ?b, ()) = ((imu ?b)\<lparr>s_imuReady := False\<rparr>, ())"
    by (simp add: mkh_imu_init_def imuProbeAddress_def dead_wire_def)
  let ?s = "?b\<lparr>ui := (ui ?b)\<lparr>live := ?cfg, disk := (), currentPage := PAGE_STATS\<rparr>,
    touch := (touch ?b)\<lparr>s_touchReady := False\<rparr>, imu := (imu ?b)\<lparr>s_imuReady := False\<rparr>, bus := ()\<rparr>"
  have "app_setup no_fs dead_wire (0, 0, 0, 0) ?b = Some ?s"
    by (simp add: app_setup_def m t i goToPage_def)
  moreover have "bare ?s" using map by (simp add: bare_def ui_page_def)
  moreover have "plat ?s = arduino_init" "bp ?s = bluepad_boot" "myControllers ?s = replicate 4 None" "air ?s = bc_start"
    by (simp_all add: sys_boot_def max_devices_def)
  ultimately show ?thesis using that by blast
qed

section \<open>Quiet ticks\<close>

lemma driven_keeps:
  assumes "bare s" "driven r s = Some m" "sys_ok s"
  shows "bare m" "sys_ok m"
proof -
  have k: "tick_keeps s m" by (rule driven_ok [OF assms(3,2)])
  then have "live (ui m) = live (ui s)" "ui_page m = ui_page s" using same_editorD by (auto simp: tick_keeps_def)
  then show "bare m" "sys_ok m" using k assms(1) by (simp_all add: bare_def tick_keeps_def)
qed

lemma quiet_tick:
  assumes "bare s" "driven r s = Some m" "sys_ok s" "received r = []"
  shows "tick_tap dead_wire r m = None"
    and "loop L dead_wire r s = Some (housekeeping dead_wire r m, Awake)" and "bare (housekeeping dead_wire r m)"
    and "plat (housekeeping dead_wire r m) = plat m"
proof -
  note m = driven_keeps [OF assms(1-3)]
  let ?h = "housekeeping dead_wire r m"
  obtain buf v where b: "mkh_thl_poll_serial_tuning (received r) (tune_buf m, thl m) = (buf, v)" by fastforce
  have i: "mkh_imu_poll dead_wire n (imu m, ()) = (imu m, ())" for n
    using m(1) by (simp add: mkh_imu_poll_def bare_def)
  show h: "bare ?h" "plat ?h = plat m" using m(1) by (simp_all add: housekeeping_def i b bare_def ui_page_def)
  have t: "mkh_touch_poll dead_wire (touch ?h, ()) = Some (None, touch ?h, ())"
    using h(1) by (simp add: mkh_touch_poll_def bare_def)
  show "tick_tap dead_wire r m = None" by (simp add: tick_tap_def t)
  obtain p where p: "poll_controllers r s = Some p" "drive r p = Some m"
    using assms(2) by (auto simp: driven_def bind_eq_Some_conv)
  have e: "idle_entry r ?h = Some ?h" "page_work r ?h = Some (?h, Awake)"
    using h(1) by (simp_all add: idle_entry_def page_work_def bare_def)
  have "touch_step L dead_wire r ?h = Some (?h\<lparr>touch := touch ?h, bus := ()\<rparr>)" by (simp add: touch_step_def t)
  then have ts: "touch_step L dead_wire r ?h = Some ?h" by simp
  show "loop L dead_wire r s = Some (?h, Awake)" by (simp add: loop_def p ts e)
qed

text \<open>Controllers at rest or moving their sticks: no button is down, so \<open>processGamepad\<close> asks for nothing.\<close>

definition hands_off_buttons :: "bluepad \<Rightarrow> bool" where
  "hands_off_buttons b \<longleftrightarrow> (\<forall>k<4. ctl_buttons (c_data (ctrls b ! k)) = 0 \<and> sticks_in_range (ctrls b ! k))"

lemma process_quiet:
  assumes "hands_off_buttons (bp s)" "roster_ok (myControllers s)"
  shows "plat (processControllers s) = plat s"
proof -
  have "plat (fold processController ms s) = plat s"
    if "set ms \<subseteq> {None} \<union> Some ` {0..<4}" "hands_off_buttons (bp s)" for ms
    using that
  proof (induction ms arbitrary: s)
    case (Cons m ms)
    have "plat (processController m s) = plat s"
      using Cons.prems by (auto simp: processController_def processGamepad_def request_if_def Let_def hands_off_buttons_def)
    then show ?case using Cons process_controller_facts [of m s] by simp
  qed simp
  moreover have "set (myControllers s) \<subseteq> {None} \<union> Some ` {0..<4}"
  proof
    fix m assume m: "m \<in> set (myControllers s)"
    have "k \<in> {0..<4}" if "m = Some k" for k
      using m that assms(2) by (auto simp only: roster_ok_def roster_def)
    then show "m \<in> {None} \<union> Some ` {0..<4}" by (cases m) simp_all
  qed
  ultimately show ?thesis using assms(1) by (simp add: processControllers_def)
qed

definition calm :: readings where
  "calm = \<lparr>ms = (\<lambda>_. 0), us_failsafe = (\<lambda>_. 0), us_sweep = (\<lambda>_. 0), us_toggle = (\<lambda>_ _. 0), irq_frame = (\<lambda>_. False), pinMv = 0, received = []\<rparr>"

lemma default_sticks: "default_mapping cfg \<Longrightarrow> stick_table cfg"
  by (auto simp: default_mapping_def stick_table_def assigned_def with_fallback_def fallback_binding_def stick_binding_def)

lemma bare_drives:
  assumes "sys_ok s" "bare s" "bp32_update (plat s, bp s) = (fresh, cbs, p, b)" "hands_off_buttons b"
  obtains m n u where "poll_controllers r s = Some n" "driven r s = Some m" "m = n\<lparr>air := u\<rparr>" "plat m = p" "bp m = b"
    "sys_ok m" "sys_ok n" "\<exists>table. chan_upd (air n) table u"
proof -
  obtain n where n: "poll_controllers r s = Some n" "tick_keeps s n" "bp n = b"
    using poll_controllers_ok [OF assms(1), of r] assms(3) by (auto elim!: succeedsE)
  have ok: "sys_ok n" "live (ui n) = live (ui s)" using n(2) same_editorD(1) by (auto simp: tick_keeps_def)
  have pl: "plat n = p"
  proof -
    obtain n0 where n0: "callbacks r cbs (s\<lparr>plat := p, bp := b\<rparr>) = Some n0" "n = (if fresh then processControllers n0 else n0)"
      using n(1) by (auto simp: poll_controllers_def assms(3) bind_eq_Some_conv)
    have c: "plat n0 = p" "bp n0 = b" using callbacks_plat [OF n0(1)] by simp_all
    have "roster_ok (myControllers n0)" using ok(1) process_controllers_facts [of n0] n0(2) by (simp add: sys_ok_def split: if_splits)
    then show ?thesis using process_quiet [of n0] c assms(4) n0(2) by simp
  qed
  have st: "stick_table (live (ui n))" using assms(2) ok(2) default_sticks by (simp add: bare_def)
  have rng: "sticks_in_range ctl" if fc: "first_controller n = Some ctl" for ctl
  proof -
    obtain k where k: "myControllers n ! 0 = Some k" "ctl = ctrls (bp n) ! k" using fc by (auto simp: first_controller_def)
    have r: "roster_ok (myControllers n)" using ok(1) by (simp add: sys_ok_def)
    then have "k \<in> roster (myControllers n)" using k(1) roster_at [of "myControllers n" k] by (auto simp: roster_ok_def)
    then have "k < 4" using r by (auto simp: roster_ok_def)
    then show ?thesis using assms(4) k(2) n(3) by (simp add: hands_off_buttons_def)
  qed
  obtain u where u: "drive r n = Some (n\<lparr>air := u\<rparr>)" "bc_ok u" "\<exists>table. chan_upd (air n) table u"
    by (rule drive_sticks [OF ok(1) st rng])
  have "sys_ok (n\<lparr>air := u\<rparr>)" using ok(1) u(2) by (simp add: sys_ok_def)
  then show ?thesis using that [OF n(1), of "n\<lparr>air := u\<rparr>" u] n(1,3) u pl ok(1) by (simp add: driven_def)
qed

lemma bare_tick:
  assumes "sys_run L dead_wire maps s" "bare s" "bp32_update (plat s, bp s) = (fresh, cbs, p, b)" "hands_off_buttons b"
  obtains t where "sys_run L dead_wire maps t" "bare t" "plat t = p" "bp t = b"
    "\<And>k. k < 4 \<Longrightarrow> k \<in> roster (myControllers t) \<longleftrightarrow> taken (plat s) k"
proof -
  have ok: "sys_ok s" by (rule sys_run_ok [OF assms(1)])
  obtain n m u where m: "poll_controllers calm s = Some n" "driven calm s = Some m" "m = n\<lparr>air := u\<rparr>" "plat m = p" "bp m = b"
    "sys_ok m"
    by (rule bare_drives [OF ok assms(2-4)])
  have rc: "received calm = []" by (simp add: calm_def)
  let ?t = "housekeeping dead_wire calm m"
  note q = quiet_tick [OF assms(2) m(2) ok rc]
  have "sys_run L dead_wire maps ?t" by (rule sys_tick [OF assms(1) q(2)])
  moreover have "k \<in> roster (myControllers ?t) \<longleftrightarrow> taken (plat s) k" if "k < 4" for k
    using succeedsD [OF poll_controllers_ok [OF ok] m(1)] that housekeeping_ok(4) [OF m(6), of dead_wire calm] m(3) by simp
  ultimately show ?thesis using that q(3,4) housekeeping_ok(5) [OF m(6), of dead_wire calm] m(4,5) by simp
qed

section \<open>One controller comes, pushes its left stick, leaves and comes back\<close>

lemma sticks_in_range_code [code]:
  "sticks_in_range ctl \<longleftrightarrow> \<bar>gp_axis_x (gamepad (c_data ctl))\<bar> \<le> 512 \<and> \<bar>gp_axis_y (gamepad (c_data ctl))\<bar> \<le> 512 \<and>
     \<bar>gp_axis_rx (gamepad (c_data ctl))\<bar> \<le> 512 \<and> \<bar>gp_axis_ry (gamepad (c_data ctl))\<bar> \<le> 512"
proof
  assume r: "sticks_in_range ctl"
  show "\<bar>gp_axis_x (gamepad (c_data ctl))\<bar> \<le> 512 \<and> \<bar>gp_axis_y (gamepad (c_data ctl))\<bar> \<le> 512 \<and>
     \<bar>gp_axis_rx (gamepad (c_data ctl))\<bar> \<le> 512 \<and> \<bar>gp_axis_ry (gamepad (c_data ctl))\<bar> \<le> 512"
    using r [unfolded sticks_in_range_def, rule_format, of MKH_INPUT_LSEW] r [unfolded sticks_in_range_def, rule_format, of MKH_INPUT_LSNS]
      r [unfolded sticks_in_range_def, rule_format, of MKH_INPUT_RSEW] r [unfolded sticks_in_range_def, rule_format, of MKH_INPUT_RSNS]
    by (simp add: accessors_def)
next
  assume "\<bar>gp_axis_x (gamepad (c_data ctl))\<bar> \<le> 512 \<and> \<bar>gp_axis_y (gamepad (c_data ctl))\<bar> \<le> 512 \<and>
     \<bar>gp_axis_rx (gamepad (c_data ctl))\<bar> \<le> 512 \<and> \<bar>gp_axis_ry (gamepad (c_data ctl))\<bar> \<le> 512"
  then have "\<bar>readTokenRaw (accessors (c_data ctl)) i\<bar> \<le> 512" if "mkh_config_input_class i = MKH_INPUT_CLASS_AXIS" for i
    using that by (cases i) (simp_all add: accessors_def)
  then show "sticks_in_range ctl" by (simp add: sticks_in_range_def)
qed

lemma hands_off_code [code]:
  "hands_off_buttons b \<longleftrightarrow> list_all (\<lambda>k. ctl_buttons (c_data (ctrls b ! k)) = 0 \<and> sticks_in_range (ctrls b ! k)) [0..<4]"
  by (auto simp: hands_off_buttons_def list_all_iff)

definition arrives :: "platform \<Rightarrow> platform" where
  "arrives p = snd (uni_hid_device_set_ready_complete 0
     (uni_hid_device_connect 0 (set_device 0 ((devices p ! 0)\<lparr>info := xbox\<rparr>) p)))"

definition leaves :: "platform \<Rightarrow> platform" where
  "leaves p = uni_hid_device_delete 0 (uni_hid_device_disconnect 0 p)"

definition stick_up :: uni_controller where
  "stick_up = zero_controller\<lparr>klass := UNI_CONTROLLER_CLASS_GAMEPAD, gamepad := zero_gamepad\<lparr>gp_axis_y := -512\<rparr>\<rparr>"

definition reports :: "platform \<Rightarrow> platform" where
  "reports p = the (uni_hid_device_process_controller xbox_maps 0 stick_up p)"

definition polled :: "platform \<times> bluepad \<Rightarrow> platform \<times> bluepad" where
  "polled pb = snd (snd (bp32_update pb))"

definition stage1 :: "platform \<times> bluepad" where "stage1 = polled (reports (arrives arduino_init), bluepad_boot)"

definition stage2 :: "platform \<times> bluepad" where "stage2 = polled (leaves (fst stage1), snd stage1)"

lemma tick_stage:
  assumes "sys_run L dead_wire maps s" "bare s" "hands_off_buttons (snd (polled (plat s, bp s)))"
  obtains t where "sys_run L dead_wire maps t" "bare t" "plat t = fst (polled (plat s, bp s))" "bp t = snd (polled (plat s, bp s))"
    "\<And>k. k < 4 \<Longrightarrow> k \<in> roster (myControllers t) \<longleftrightarrow> taken (plat s) k"
proof -
  obtain fresh cbs p b where u: "bp32_update (plat s, bp s) = (fresh, cbs, p, b)" by (metis prod.exhaust)
  have "hands_off_buttons b" using assms(3) by (simp add: polled_def u)
  from bare_tick [OF assms(1,2) u this] that show ?thesis by (simp add: polled_def u) blast
qed

lemma bare_plat [simp]: "bare (s\<lparr>plat := p\<rparr>) = bare s"
  by (simp add: bare_def ui_page_def)

lemma bt_then: "sys_run L W maps (s\<lparr>plat := p\<rparr>) \<Longrightarrow> bt_step maps p e q \<Longrightarrow> sys_run L W maps (s\<lparr>plat := q\<rparr>)"
  using sys_bt [of L W maps "s\<lparr>plat := p\<rparr>" e q] by simp

lemma arrives_run:
  assumes "sys_run L W maps s" "\<not> connected (devices (plat s) ! 0)" "\<not> device_ready (devices (plat s) ! 0)"
    "length (devices (plat s)) = 4"
  shows "sys_run L W maps (s\<lparr>plat := arrives (plat s)\<rparr>)"
proof -
  let ?p = "uni_hid_device_connect 0 (set_device 0 ((devices (plat s) ! 0)\<lparr>info := xbox\<rparr>) (plat s))"
  have "sys_run L W maps (s\<lparr>plat := ?p\<rparr>)"
    by (rule sys_bt [OF assms(1)], rule bt_connect) (use assms in \<open>simp_all add: max_devices_def\<close>)
  then have "sys_run L W maps (s\<lparr>plat := snd (uni_hid_device_set_ready_complete 0 ?p)\<rparr>)"
    by (rule bt_then [OF _ bt_ready])
       (use assms(4) in \<open>simp_all add: max_devices_def uni_hid_device_connect_def arduino_on_device_connected_def set_device_def\<close>)
  then show ?thesis by (simp add: arrives_def)
qed

lemma leaves_run:
  assumes "sys_run L W maps s" "length (devices (plat s)) = 4"
  shows "sys_run L W maps (s\<lparr>plat := leaves (plat s)\<rparr>)"
proof -
  let ?p = "uni_hid_device_disconnect 0 (plat s)"
  have "sys_run L W maps (s\<lparr>plat := ?p\<rparr>)" by (rule sys_bt [OF assms(1)], rule bt_lose) (simp add: max_devices_def)
  then have "sys_run L W maps (s\<lparr>plat := uni_hid_device_delete 0 ?p\<rparr>)"
    by (rule bt_then [OF _ bt_delete])
       (use assms(2) in \<open>auto simp: max_devices_def uni_hid_device_disconnect_def arduino_on_device_disconnected_def set_device_def Let_def\<close>)
  then show ?thesis by (simp add: leaves_def)
qed

text \<open>The run: boot, the controller connects and pushes its stick, a tick.\<close>

lemma run_stage1:
  obtains s where "sys_run no_fs dead_wire xbox_maps s" "bare s" "plat s = fst stage1" "bp s = snd stage1"
    "\<And>k. k < 4 \<Longrightarrow> k \<in> roster (myControllers s) \<longleftrightarrow> k = 0"
proof -
  obtain s0 where s0: "app_setup no_fs dead_wire (0, 0, 0, 0) (sys_boot () ()) = Some s0" "bare s0"
    "plat s0 = arduino_init" "bp s0 = bluepad_boot" by (rule boots)
  have r0: "sys_run no_fs dead_wire xbox_maps s0" by (rule sys_start [OF s0(1)])
  have r1: "sys_run no_fs dead_wire xbox_maps (s0\<lparr>plat := arrives arduino_init\<rparr>)"
    using arrives_run [OF r0] s0(3) by (simp add: arduino_init_def max_devices_def blank_device_def)
  have rep: "uni_hid_device_process_controller xbox_maps 0 stick_up (arrives arduino_init) = Some (reports (arrives arduino_init))"
    by code_simp
  have r2: "sys_run no_fs dead_wire xbox_maps (s0\<lparr>plat := reports (arrives arduino_init)\<rparr>)"
    by (rule bt_then [OF r1 bt_report [OF _ rep]]) (simp add: max_devices_def)
  have h: "hands_off_buttons (snd stage1)" by code_simp
  have tk: "map (taken (reports (arrives arduino_init))) [0..<4] = [True, False, False, False]" by code_simp
  have "taken (reports (arrives arduino_init)) k \<longleftrightarrow> k = 0" if "k < 4" for k
    using arg_cong [OF tk, of "\<lambda>xs. xs ! k"] that by (auto simp: nth_Cons split: nat.split_asm)
  note tk = this
  let ?s = "s0\<lparr>plat := reports (arrives arduino_init)\<rparr>"
  have e: "polled (plat ?s, bp ?s) = stage1" by (simp add: s0(4) stage1_def)
  have b: "bare ?s" using s0(2) by simp
  obtain t where t: "sys_run no_fs dead_wire xbox_maps t" "bare t" "plat t = fst stage1" "bp t = snd stage1"
    "\<And>k. k < 4 \<Longrightarrow> k \<in> roster (myControllers t) \<longleftrightarrow> taken (plat ?s) k"
    using tick_stage [OF r2 b] h unfolding e by blast
  have "k \<in> roster (myControllers t) \<longleftrightarrow> k = 0" if "k < 4" for k using t(5) [OF that] tk [OF that] by simp
  from that [OF t(1-4) this] show ?thesis .
qed

text \<open>Then the controller leaves, a tick passes, and it connects again without having sent anything.\<close>

lemma no_controllers:
  assumes "roster_ok mc" "\<And>k. k < 4 \<Longrightarrow> k \<notin> roster mc"
  shows "mc = replicate 4 None"
proof (rule nth_equalityI)
  show "length mc = length (replicate 4 None)" using assms(1) by (simp add: roster_ok_def)
  fix i assume i: "i < length mc"
  have "k \<in> roster mc" if "mc ! i = Some k" for k using that i nth_mem [OF i] by (simp add: roster_def)
  moreover have "k < 4" if "k \<in> roster mc" for k using that assms(1) by (auto simp: roster_ok_def)
  ultimately have "mc ! i = None" using assms(2) by (cases "mc ! i") auto
  then show "mc ! i = replicate 4 None ! i" using i assms(1) by (simp add: roster_ok_def)
qed

lemma run_reconnected:
  obtains s where "sys_run no_fs dead_wire xbox_maps s" "bare s" "plat s = arrives (fst stage2)" "bp s = snd stage2"
    "myControllers s = replicate 4 None"
proof -
  obtain s1 where s1: "sys_run no_fs dead_wire xbox_maps s1" "bare s1" "plat s1 = fst stage1" "bp s1 = snd stage1" by (rule run_stage1)
  let ?s = "s1\<lparr>plat := leaves (fst stage1)\<rparr>"
  have len: "length (devices (fst stage1)) = 4" "length (devices (fst stage2)) = 4" by code_simp+
  have r: "sys_run no_fs dead_wire xbox_maps ?s" using leaves_run [OF s1(1)] s1(3) len(1) by simp
  have b: "bare ?s" using s1(2) by simp
  have e: "polled (plat ?s, bp ?s) = stage2" by (simp add: s1(4) stage2_def)
  have h: "hands_off_buttons (snd stage2)" by code_simp
  have tk: "list_all (\<lambda>k. \<not> taken (leaves (fst stage1)) k) [0..<4]" by code_simp
  obtain t where t: "sys_run no_fs dead_wire xbox_maps t" "bare t" "plat t = fst stage2" "bp t = snd stage2"
    "\<And>k. k < 4 \<Longrightarrow> k \<in> roster (myControllers t) \<longleftrightarrow> taken (plat ?s) k"
    using tick_stage [OF r b] h unfolding e by blast
  have "k \<notin> roster (myControllers t)" if "k < 4" for k using t(5) [OF that] tk that by (simp add: list_all_iff)
  then have n: "myControllers t = replicate 4 None"
    using no_controllers sys_run_ok [OF t(1)] by (simp add: sys_ok_def)
  have d: "\<not> connected (devices (fst stage2) ! 0)" "\<not> device_ready (devices (fst stage2) ! 0)" by code_simp+
  have "sys_run no_fs dead_wire xbox_maps (t\<lparr>plat := arrives (fst stage2)\<rparr>)"
    using arrives_run [OF t(1)] t(3) d len(2) by simp
  from that [OF this] t(2,4) n show ?thesis by simp
qed

lemma default_first_port: "default_mapping cfg \<Longrightarrow> bindings (port_at cfg 0 0) = [fallback_binding MKH_INPUT_LSNS]"
  "default_mapping cfg \<Longrightarrow> bindings (port_at cfg 1 0) = [fallback_binding MKH_INPUT_RSNS]"
  by (simp_all add: default_mapping_def with_fallback_def)

lemma fallback_sticks: "stick_binding (fallback_binding MKH_INPUT_LSNS)" "stick_binding (fallback_binding MKH_INPUT_RSNS)"
  by (simp_all add: stick_binding_def fallback_binding_def)

lemma full_up: "mkApplyBindingConfig (to_u8 (stick_spec (-512))) (fallback_binding i) = 0xFF"
  by (simp add: stick_spec_def lround_def floor_halves mkApplyBindingConfig_def fallback_binding_def c_div_def clamp_byte_def)

lemma full_rest: "mkApplyBindingConfig (to_u8 (stick_spec 0)) (fallback_binding i) = 0x80"
  by (simp add: stick_spec_def mkApplyBindingConfig_def fallback_binding_def c_div_def clamp_byte_def)

theorem stale_input_after_reconnect_witness:
  "\<exists>s m. sys_run no_fs dead_wire xbox_maps s \<and> driven calm s = Some m \<and> seat_data (seats (plat s) ! 0) = zero_controller \<and>
     mkh_channel_value (air m) ! 0 ! 0 = 0xFF"
proof -
  obtain s where s: "sys_run no_fs dead_wire xbox_maps s" "bare s" "plat s = arrives (fst stage2)" "bp s = snd stage2"
    "myControllers s = replicate 4 None" by (rule run_reconnected)
  have c: "hands_off_buttons (snd (polled (arrives (fst stage2), snd stage2)))" "taken (arrives (fst stage2)) 0"
    "\<not> data_updated (seats (arrives (fst stage2)) ! 0)" "seat_data (seats (arrives (fst stage2)) ! 0) = zero_controller"
    "sticks_in_range (ctrls (snd stage2) ! 0)" "gp_axis_y (gamepad (c_data (ctrls (snd stage2) ! 0))) = -512" by code_simp+
  obtain fresh cbs p b where u: "bp32_update (plat s, bp s) = (fresh, cbs, p, b)" by (metis prod.exhaust)
  have h: "hands_off_buttons b" using c(1) s(3,4) u by (simp add: polled_def)
  obtain m where m: "driven calm s = Some m" by (rule bare_drives [OF sys_run_ok [OF s(1)] s(2) u h])
  have "mkh_channel_value (air m) ! 0 ! 0 = stick_output (ctrls (bp s) ! 0) (fallback_binding MKH_INPUT_LSNS)"
    by (rule stale_input_after_reconnect [OF s(1,5) _ _ m])
       (use s(2-4) c default_first_port fallback_sticks in \<open>simp_all add: bare_def\<close>)
  also have "\<dots> = 0xFF" using full_up c(6) s(4) by (simp add: stick_output_def accessors_def fallback_binding_def)
  finally show ?thesis using s(1,3) m c(4) by auto
qed

section \<open>The properties of the loop, instantiated\<close>

theorem system_invariant_witness:
  "\<exists>s. sys_run no_fs dead_wire xbox_maps s \<and> c_connected (ctrls (bp s) ! 0) \<and> (\<exists>!i. i < 4 \<and> myControllers s ! i = Some 0)"
proof -
  obtain s where s: "sys_run no_fs dead_wire xbox_maps s" "bp s = snd stage1" by (rule run_stage1)
  have "c_connected (ctrls (snd stage1) ! 0)" by code_simp
  then show ?thesis using system_invariant [OF s(1)] s by (intro exI [of _ s]) auto
qed

lemma idle_again: "hands_off_buttons (snd (polled stage1))"
  by code_simp

lemma run_drives:
  obtains s m where "sys_run no_fs dead_wire xbox_maps s" "bare s" "driven calm s = Some m" "tick_tap dead_wire calm m = None"
proof -
  obtain s where s: "sys_run no_fs dead_wire xbox_maps s" "bare s" "plat s = fst stage1" "bp s = snd stage1" by (rule run_stage1)
  obtain fresh cbs p b where u: "bp32_update (plat s, bp s) = (fresh, cbs, p, b)" by (metis prod.exhaust)
  have h: "hands_off_buttons b" using idle_again s(3,4) u by (simp add: polled_def)
  obtain m where m: "driven calm s = Some m" by (rule bare_drives [OF sys_run_ok [OF s(1)] s(2) u h])
  have "received calm = []" by (simp add: calm_def)
  from that [OF s(1,2) m quiet_tick(1) [OF s(2) m sys_run_ok [OF s(1)] this]] show ?thesis .
qed

theorem tick_fails_iff_witness:
  "\<exists>s. sys_run no_fs dead_wire xbox_maps s \<and> loop no_fs dead_wire calm s \<noteq> None"
proof -
  obtain s m where s: "sys_run no_fs dead_wire xbox_maps s" "driven calm s = Some m" "tick_tap dead_wire calm m = None"
    by (rule run_drives)
  obtain n where n: "poll_controllers calm s = Some n" "drive calm n = Some m"
    using s(2) by (auto simp: driven_def bind_eq_Some_conv)
  have k: "sys_ok n" "live (ui n) = live (ui s)"
    using succeedsD [OF poll_controllers_ok [OF sys_run_ok [OF s(1)]] n(1)] same_editorD(1) [of s n] by (simp_all add: tick_keeps_def)
  have "loop no_fs dead_wire calm s \<noteq> None"
    unfolding tick_fails_iff [OF s(1)] using drive_fails [OF k(1), of calm, unfolded k(2)] n s(3) by simp
  with s(1) show ?thesis by blast
qed

theorem table_changes_on_commit_only_witness:
  "\<exists>s t. sys_run no_fs dead_wire xbox_maps s \<and> loop no_fs dead_wire calm s = Some (t, Awake) \<and> live (ui t) = live (ui s)"
proof -
  obtain s m where s: "sys_run no_fs dead_wire xbox_maps s" "bare s" "driven calm s = Some m" "tick_tap dead_wire calm m = None"
    by (rule run_drives)
  have l: "loop no_fs dead_wire calm s = Some (housekeeping dead_wire calm m, Awake)"
    by (rule quiet_tick(2) [OF s(2,3) sys_run_ok [OF s(1)]]) (simp add: calm_def)
  have "live (ui (housekeeping dead_wire calm m)) = live (ui s)"
    using table_changes_on_commit_only [OF s(1) l s(3)] s(4) by simp
  with s(1) l show ?thesis by blast
qed

text \<open>The radio comes up, then the controller connects, pushes its stick and drives.\<close>

lemma run_on_air:
  obtains s m t d where "sys_run no_fs dead_wire xbox_maps s" "bare s" "driven calm s = Some m"
    "first_controller m = Some (ctrls (snd stage1) ! 0)" "d < 2"
    "mkh_next_active_device (mkh_time_slice_last_device (air m)) (air m) = Some (int d)" "bc_step (air m) Timer_fires t"
    "plat m = fst stage1" "bp m = snd stage1" "mkh_advertising_started (air m)" "mkh_device_active (air m) ! 0"
proof -
  obtain s0 where s0: "app_setup no_fs dead_wire (0, 0, 0, 0) (sys_boot () ()) = Some s0" "bare s0"
    "plat s0 = arduino_init" "bp s0 = bluepad_boot" "air s0 = bc_start" "myControllers s0 = replicate 4 None" by (rule boots)
  obtain w where w: "bc_run bc_start [Hci_packet 0x04 [0x60, 1, 2]] w" "mkh_advertising_started w"
    "mkh_device_active w = [True, True, False]" by (rule working_event)
  obtain w' where "bc_step bc_start (Hci_packet 0x04 [0x60, 1, 2]) w'" "bc_run w' [] w" using bc_run_Cons [OF w(1)] by blast
  then have st: "bc_step (air s0) (Hci_packet 0x04 [0x60, 1, 2]) w" using s0(5) by (auto elim: bc_run.cases)
  let ?s1 = "s0\<lparr>air := w\<rparr>"
  have r1: "sys_run no_fs dead_wire xbox_maps ?s1" by (rule sys_radio [OF sys_start [OF s0(1)] _ st]) simp
  have p1: "plat ?s1 = arduino_init" using s0(3) by simp
  have r2: "sys_run no_fs dead_wire xbox_maps (?s1\<lparr>plat := arrives arduino_init\<rparr>)"
    using arrives_run [OF r1] p1 by (simp add: arduino_init_def max_devices_def blank_device_def)
  have rep: "uni_hid_device_process_controller xbox_maps 0 stick_up (arrives arduino_init) = Some (reports (arrives arduino_init))"
    by code_simp
  let ?s = "?s1\<lparr>plat := reports (arrives arduino_init)\<rparr>"
  have r: "sys_run no_fs dead_wire xbox_maps ?s"
    by (rule bt_then [OF r2 bt_report [OF _ rep]]) (simp add: max_devices_def)
  have ok: "sys_ok ?s" by (rule sys_run_ok [OF r])
  have b: "bare ?s" using s0(2) by (simp add: bare_def ui_page_def)
  obtain fresh cbs p bb where u: "bp32_update (plat ?s, bp ?s) = (fresh, cbs, p, bb)" by (metis prod.exhaust)
  have bb: "bb = snd stage1" "p = fst stage1" using u s0(4) by (simp_all add: stage1_def polled_def)
  have h: "hands_off_buttons bb" unfolding bb(1) by code_simp
  obtain n m u' where m: "poll_controllers calm ?s = Some n" "driven calm ?s = Some m" "m = n\<lparr>air := u'\<rparr>" "bp m = bb" "sys_ok m"
    "\<exists>table. chan_upd (air n) table u'" "plat m = p" by (rule bare_drives [OF ok b u h])
  have mc: "myControllers ?s = replicate 4 None" using s0(6) by simp
  have tk: "taken (reports (arrives arduino_init)) 0" by code_simp
  have "taken (plat ?s) 0" using tk by simp
  note f = first_arrival [OF ok mc this u m(1)]
  have fc: "first_controller m = Some (ctrls (snd stage1) ! 0)" using f(1) m(3) by (simp add: first_controller_def bb(1))
  obtain table where "chan_upd w table (air m)" using m(3,6) f(2) by auto
  then have act: "mkh_advertising_started (air m)" "mkh_device_active (air m) ! 0"
    using w(2,3) by (auto simp: chan_upd_def)
  have bc: "bc_ok (air m)" "bc_shape (air m)" using m(5) by (simp_all add: sys_ok_def bc_ok_def)
  obtain t where t: "bc_step (air m) Timer_fires t" by (rule started_step_exists [OF bc(1) act(1)])
  obtain d where d: "next_dev (air m) = int d" "d < 2"
    by (rule next_dev_cases [OF bc(2)]) (use act(2) in auto)
  show ?thesis
    by (rule that [OF r b m(2) fc d(2) _ t]) (use m(4,7) bb act in \<open>simp_all add: next_active_device_eq [OF bc(2)] d(1)\<close>)
qed

theorem stick_on_air_witness:
  "\<exists>s m t bs d vs. sys_run no_fs dead_wire xbox_maps s \<and> driven calm s = Some m \<and> bc_step (air m) Timer_fires t \<and> d < 2 \<and> gap_calls t = gap_calls (air m) @ [Gap_set_data bs] \<and>
     on_air (Gap_set_data bs) = Some (control_frame (int d) vs) \<and> vs ! 0 = (if d = 0 then 0xFF else 0x80)"
proof -
  obtain s m t d where s: "sys_run no_fs dead_wire xbox_maps s" "bare s" "driven calm s = Some m"
    "first_controller m = Some (ctrls (snd stage1) ! 0)" "d < 2"
    "mkh_next_active_device (mkh_time_slice_last_device (air m)) (air m) = Some (int d)" "bc_step (air m) Timer_fires t"
    by (rule run_on_air)
  have c: "sticks_in_range (ctrls (snd stage1) ! 0)" "gp_axis_y (gamepad (c_data (ctrls (snd stage1) ! 0))) = -512"
    "gp_axis_ry (gamepad (c_data (ctrls (snd stage1) ! 0))) = 0" by code_simp+
  let ?i = "if d = 0 then MKH_INPUT_LSNS else MKH_INPUT_RSNS"
  have b: "bindings (port_at (live (ui s)) d 0) = [fallback_binding ?i]" "stick_binding (fallback_binding ?i)"
    using s(2,5) default_first_port fallback_sticks by (auto simp: bare_def less_2_cases_iff)
  obtain bs vs where v: "gap_calls t = gap_calls (air m) @ [Gap_set_data bs]"
    "on_air (Gap_set_data bs) = Some (control_frame (int d) vs)" "vs ! 0 = stick_output (ctrls (snd stage1) ! 0) (fallback_binding ?i)"
    using stick_on_air [OF s(1,3,4) c(1) s(5) _ b s(6,7)] unfolding stick_output_def by auto
  have "stick_output (ctrls (snd stage1) ! 0) (fallback_binding ?i) = (if d = 0 then 0xFF else 0x80)"
    using full_up [of MKH_INPUT_LSNS] full_rest [of MKH_INPUT_RSNS] c
    by (simp add: stick_output_def accessors_def fallback_binding_def)
  with v(3) have e: "vs ! 0 = (if d = 0 then 0xFF else 0x80)" by (simp only:)
  show ?thesis
    using s(1,3,5,7) v(1,2) e by blast
qed

end
