(* ===== verification/App_Failsafe.thy ===== *)
theory App_Failsafe
  imports App_Scenarios
begin

text \<open>
  Losing the controller: what the tick that notices it leaves in the channel table, and what the hubs
  then hear.
\<close>

section \<open>The failsafe and the channel table\<close>

definition neutralised :: "('fs, 'w) sys \<Rightarrow> bool" where
  "neutralised s \<longleftrightarrow> (\<forall>d<3. \<forall>p<6. assigned (live (ui s)) (d, p) \<longrightarrow> mkh_channel_value (air s) ! d ! p = 0x80)"

lemma failsafe_calls: "fst (disconnect_failsafe cfg tb) = map (\<lambda>(d, p). (d, p, 0x80)) (filter (assigned cfg) all_ports)"
proof -
  have "filter (\<lambda>(d, p). case mkh_config_get cfg (int d) (int p) of None \<Rightarrow> False | Some c \<Rightarrow> bindings c \<noteq> []) all_ports =
      filter (assigned cfg) all_ports"
    by (intro filter_cong) (auto simp: ports_mem get_port assigned_def)
  then show ?thesis by (simp add: disconnect_failsafe_def)
qed

lemma failsafe_neutral:
  assumes "bc_ok s" "set_channels us (fst (disconnect_failsafe cfg tb)) s = Some t" "d < 3" "p < 6" "assigned cfg (d, p)"
  shows "mkh_channel_value t ! d ! p = 0x80"
proof -
  let ?calls = "fst (disconnect_failsafe cfg tb)"
  have keys: "map (\<lambda>(d, p, _). (d, p)) ?calls = filter (assigned cfg) all_ports"
    unfolding failsafe_calls by (simp add: comp_def split_def)
  have "(d, p, 0x80) \<in> set ?calls" unfolding failsafe_calls using assms(3-5) by (auto simp: ports_mem)
  then show ?thesis
    unfolding set_channels_table [OF assms(1,2)]
    by (intro write_reaches) (use assms keys distinct_ports in \<open>auto simp: bc_ok_def bc_shape_def\<close>)
qed

text \<open>What holds of the application between two callbacks: without a first controller every assigned
  channel is neutral.\<close>

definition safe_when_alone :: "bc_state \<Rightarrow> ('fs, 'w) sys \<Rightarrow> bool" where
  "safe_when_alone a s \<longleftrightarrow> bc_ok (air s) \<and> length (myControllers s) = 4 \<and> (\<exists>table. chan_upd a table (air s)) \<and>
     (myControllers s ! 0 = None \<longrightarrow> neutralised s)"

lemma connect_safe: "safe_when_alone a s \<Longrightarrow> safe_when_alone a (onConnectedController k s)"
proof (cases "List.find (\<lambda>i. myControllers s ! i = None) [0..<max_devices]")
  case (Some i)
  assume "safe_when_alone a s"
  then show ?thesis
    by (cases "i = 0") (auto simp: safe_when_alone_def onConnectedController_def Some neutralised_def)
qed (simp add: onConnectedController_def)

lemma disconnect_safe:
  assumes "safe_when_alone a s" "onDisconnectedController r k s = Some t"
  shows "safe_when_alone a t"
proof (cases "List.find (\<lambda>i. myControllers s ! i = Some k) [0..<max_devices]")
  case None
  then show ?thesis using assms by (simp add: onDisconnectedController_def)
next
  case (Some i)
  let ?s1 = "s\<lparr>myControllers := (myControllers s)[i := None]\<rparr>"
  obtain calls tb where f: "disconnect_failsafe (live (ui s)) (slots (ui s)) = (calls, tb)" by fastforce
  show ?thesis
  proof (cases "i = 0")
    case False
    then have t: "t = ?s1" using assms(2) by (simp add: onDisconnectedController_def Some)
    show ?thesis using assms(1) False by (simp add: t safe_when_alone_def neutralised_def)
  next
    case True
    then obtain u where u: "set_channels (us_failsafe r) calls (air s) = Some u"
      "t = ?s1\<lparr>xwcState := XWC_DISCONNECTED, air := u, ui := (ui s)\<lparr>slots := tb\<rparr>\<rparr>"
      using assms(2) by (auto simp: onDisconnectedController_def Some f bind_eq_Some_conv)
    have ok: "bc_ok (air s)" "length (myControllers s) = 4" using assms(1) by (simp_all add: safe_when_alone_def)
    have "bc_ok u" by (rule succeedsD [OF set_channels_ok [OF ok(1)] u(1)])
    moreover have "\<exists>table. chan_upd a table u"
      using assms(1) chan_upd_trans set_channels_upd [OF ok(1) u(1)] unfolding safe_when_alone_def by blast
    moreover have "mkh_channel_value u ! d ! p = 0x80" if "d < 3" "p < 6" "assigned (live (ui s)) (d, p)" for d p
      by (rule failsafe_neutral [OF ok(1) _ that, of "us_failsafe r" "slots (ui s)"]) (simp add: f u(1))
    ultimately show ?thesis using ok(2) by (simp add: u(2) safe_when_alone_def neutralised_def)
  qed
qed

lemma callbacks_safe: "callbacks r cbs s = Some t \<Longrightarrow> safe_when_alone a s \<Longrightarrow> safe_when_alone a t"
proof (induction r cbs s rule: callbacks.induct)
  case (2 r k cbs s)
  have "callbacks r cbs (onConnectedController k s) = Some t" using "2.prems"(1) by simp
  then show ?case by (rule "2.IH" [OF _ connect_safe [OF "2.prems"(2)]])
next
  case (3 r k cbs s)
  obtain s1 where s1: "onDisconnectedController r k s = Some s1" "callbacks r cbs s1 = Some t"
    using "3.prems"(1) by (auto simp: bind_eq_Some_conv)
  show ?case by (rule "3.IH" [OF s1 disconnect_safe [OF "3.prems"(2) s1(1)]])
qed simp

section \<open>The tick that loses the first controller\<close>

lemma lost_tick:
  assumes "sys_ok s" "first_controller s \<noteq> None" "driven r s = Some m" "first_controller m = None"
  shows "neutralised m" "\<exists>table. chan_upd (air s) table (air m)" "sys_ok m" "live (ui m) = live (ui s)"
proof -
  obtain n where n: "poll_controllers r s = Some n" "drive r n = Some m" "first_controller n = first_controller m"
    "live (ui n) = live (ui s)" by (rule drivenE [OF assms(3,1)])
  have m: "m = n" using n(2,3) assms(4) by (simp add: drive_def)
  obtain fresh cbs p b where u: "bp32_update (plat s, bp s) = (fresh, cbs, p, b)" by (metis prod.exhaust)
  let ?s = "s\<lparr>plat := p, bp := b\<rparr>"
  obtain q where q: "callbacks r cbs ?s = Some q" "n = (if fresh then processControllers q else q)"
    using n(1) by (auto simp: poll_controllers_def u bind_eq_Some_conv)
  have bc: "bc_ok (air s)" "length (myControllers s) = 4" using assms(1) by (simp_all add: sys_ok_def roster_ok_def)
  then have "chan_upd (air s) (mkh_channel_value (air s)) (air s)" by (intro chan_upd_refl) (simp add: bc_ok_def)
  then have "safe_when_alone (air s) ?s" using bc assms(2) by (auto simp: safe_when_alone_def first_controller_def)
  from callbacks_safe [OF q(1) this] have q2: "safe_when_alone (air s) q" .
  have same: "ui n = ui q" "air n = air q" "myControllers n = myControllers q"
    using q(2) process_controllers_facts [of q] by (simp_all split: if_splits)
  have "myControllers q ! 0 = None" using assms(4) m same(3) by (simp add: first_controller_def)
  with q2 show "neutralised m" "\<exists>table. chan_upd (air s) table (air m)"
    using same m by (auto simp: safe_when_alone_def neutralised_def)
  show "sys_ok m" "live (ui m) = live (ui s)" using driven_ok [OF assms(1,3)] n(4) m by (simp_all add: tick_keeps_def)
qed

text \<open>C9: Losing the controller stops the motors, for every hub and for good: take any reachable state in
  which a tick finds that the first controller has gone and no other took its place, and any
  continuation of the broadcaster, switching of hubs included, in which nobody writes a
  non-neutral value to a channel of the hub. Every CONTROL telegram the hub gets from then on carries the
  neutral byte for each of its ports that has a binding; and a hub in the rotation does get one
  as soon as the timer has fired twice, whatever happens in between.\<close>

theorem failsafe_on_air:
  assumes "sys_run L W maps s" "first_controller s \<noteq> None" "driven r s = Some m" "first_controller m = None"
    and "bc_run (air m) es u" "d < 2" "list_all (spares (int d)) es"
  shows "\<exists>new. gap_calls u = gap_calls (air m) @ new \<and>
    (\<forall>c\<in>set new. \<forall>vs. on_air c = Some (control_frame (int d) vs) \<longrightarrow>
       (\<forall>p<6. bindings (port_at (live (ui s)) d p) \<noteq> [] \<longrightarrow> vs ! p = 0x80)) \<and>
    (mkh_device_active (air m) ! d \<and> 2 \<le> firings es \<longrightarrow>
       (\<exists>c\<in>set new. \<exists>vs. on_air c = Some (control_frame (int d) vs)))"
proof -
  note T = lost_tick [OF sys_run_ok [OF assms(1)] assms(2-4)]
  have bc: "bc_ok (air m)" using T(3) by (simp add: sys_ok_def)
  let ?P = "{p. p < 6 \<and> bindings (port_at (live (ui s)) d p) \<noteq> []}"
  have "\<forall>p\<in>?P. mkh_channel_value (air m) ! d ! p = 0x80"
    using T(1) assms(6) by (simp add: neutralised_def T(4) assigned_def)
  moreover have "?P \<subseteq> {..<6}" by auto
  ultimately obtain new where
    new: "gap_calls u = gap_calls (air m) @ new"
      "\<forall>c\<in>set new. \<forall>vs. on_air c = Some (control_frame (int d) vs) \<longrightarrow> (\<forall>p\<in>?P. vs ! p = 0x80)"
    using spared_run [OF assms(5) bc assms(7,6), of ?P] by blast
  have "\<exists>c\<in>set new. \<exists>vs. on_air c = Some (control_frame (int d) vs)"
    if "mkh_device_active (air m) ! d" "2 \<le> firings es"
    using two_firings [OF assms(5) bc assms(6) that] new(1) by (simp add: heard_def)
  with new show ?thesis by blast
qed

text \<open>The run of the stick goes on: the controller is lost, and the next tick notices.\<close>

theorem failsafe_on_air_witness:
  "\<exists>s m u c vs. sys_run no_fs dead_wire xbox_maps s \<and> first_controller s = Some (ctrls (snd stage1) ! 0) \<and>
     driven calm s = Some m \<and> bc_run (air m) [Timer_fires, Timer_fires] u \<and> c \<in> set (gap_calls u) \<and>
     on_air c = Some (control_frame 0 vs) \<and> vs ! 0 = 0x80"
proof -
  obtain s m t0 d0 where s: "sys_run no_fs dead_wire xbox_maps s" "bare s" "driven calm s = Some m"
    "first_controller m = Some (ctrls (snd stage1) ! 0)" "plat m = fst stage1" "bp m = snd stage1"
    "mkh_advertising_started (air m)" "mkh_device_active (air m) ! 0"
    by (rule run_on_air)
  have ok: "sys_ok s" by (rule sys_run_ok [OF s(1)])
  have rc: "received calm = []" by (simp add: calm_def)
  let ?h = "housekeeping dead_wire calm m"
  note q = quiet_tick [OF s(2,3) ok rc] and m = driven_keeps(2) [OF s(2,3) ok]
  note H = housekeeping_ok [OF m, of dead_wire calm]
  let ?s = "?h\<lparr>plat := leaves (fst stage1)\<rparr>"
  have len: "length (devices (fst stage1)) = 4" by code_simp
  have r: "sys_run no_fs dead_wire xbox_maps ?s"
    using leaves_run [OF sys_tick [OF s(1) q(2)]] q(4) s(5) len by simp
  have b: "bare ?s" using q(3) by simp
  have fc: "first_controller ?s = Some (ctrls (snd stage1) ! 0)" using s(4) H(4,5) by (simp add: first_controller_def)
  obtain fresh cbs p bb where u: "bp32_update (plat ?s, bp ?s) = (fresh, cbs, p, bb)" by (metis prod.exhaust)
  have bb: "bb = snd stage2" using u s(6) H(5) by (simp add: stage2_def polled_def)
  have h: "hands_off_buttons bb" unfolding bb by code_simp
  obtain n m2 w where d: "poll_controllers calm ?s = Some n" "driven calm ?s = Some m2" "m2 = n\<lparr>air := w\<rparr>" "sys_ok m2" "sys_ok n"
    by (rule bare_drives [OF sys_run_ok [OF r] b u h])
  have tk: "list_all (\<lambda>k. \<not> taken (leaves (fst stage1)) k) [0..<4]" by code_simp
  have "k \<notin> roster (myControllers n)" if "k < 4" for k
    using succeedsD [OF poll_controllers_ok [OF sys_run_ok [OF r]] d(1)] that tk by (simp add: list_all_iff)
  then have "myControllers n = replicate 4 None" using no_controllers d(5) by (simp add: sys_ok_def)
  then have gone: "first_controller m2 = None" using d(3) by (simp add: first_controller_def)
  note T = lost_tick [OF sys_run_ok [OF r] _ d(2) gone]
  obtain table where "chan_upd (air m) table (air m2)" using T(2) fc H(3) by auto
  then have act: "mkh_advertising_started (air m2)" "mkh_device_active (air m2) ! 0" using s(7,8) by (auto simp: chan_upd_def)
  have bc: "bc_ok (air m2)" "bc_shape (air m2)" using d(4) by (simp_all add: sys_ok_def bc_ok_def)
  obtain t where t: "bc_step (air m2) Timer_fires t" "bc_ok t" "mkh_advertising_started t"
    by (rule started_step_exists [OF bc(1) act(1)])
  obtain u where u2: "bc_step t Timer_fires u" by (rule started_step_exists [OF t(2,3)])
  have run: "bc_run (air m2) [Timer_fires, Timer_fires] u"
    using run_snoc [OF run_snoc [OF run_nil t(1)] u2] by simp
  have "bindings (port_at (live (ui ?s)) 0 0) \<noteq> []" using b default_first_port by (simp add: bare_def)
  moreover have "list_all (spares (int 0)) [Timer_fires, Timer_fires]" by simp
  ultimately obtain new c vs where "gap_calls u = gap_calls (air m2) @ new" "c \<in> set new"
    "on_air c = Some (control_frame 0 vs)" "vs ! 0 = 0x80"
    using failsafe_on_air [OF r _ d(2) gone run, of 0] fc act(2) by auto
  then have "c \<in> set (gap_calls u)" by simp
  with r fc d(2) run \<open>on_air c = _\<close> \<open>vs ! 0 = _\<close> show ?thesis by blast
qed

end
