(* ===== verification/App_Sleep.thy ===== *)
theory App_Sleep
  imports App_Scenarios
begin

text \<open>
  Going to sleep: when the loop ends in deep sleep, what it leaves on the radio, and how long the
  wait for the hubs lasts.
\<close>

section \<open>The switch-offs\<close>

text \<open>Every hub still in the rotation is in its OFF sequence.\<close>

definition leaving :: "nat set \<Rightarrow> bc_state \<Rightarrow> bool" where
  "leaving D s \<longleftrightarrow> (\<forall>d\<in>D. mkh_device_active s ! d \<longrightarrow> 0 < mkh_pending_off_services s ! d)"

definition switched :: "bc_state \<Rightarrow> bc_state \<Rightarrow> bool" where
  "switched s t \<longleftrightarrow> bc_ok t \<and> mkh_advertising_started t = mkh_advertising_started s \<and>
     mkh_device_active t = mkh_device_active s \<and> mkh_hub_broadcasting t = mkh_hub_broadcasting s"

lemma toggle_off_leaves:
  assumes "bc_ok s" "d < 3" "leaving D s" "D \<subseteq> {0..<3}"
  shows "succeeds (mkh_broadcast_toggle_off (int d) clock s) (\<lambda>t. switched s t \<and> leaving (insert d D) t)"
proof (cases "mkh_device_active s ! d \<and> mkh_pending_off_services s ! d = 0")
  case True
  have sh: "bc_shape s" "length (mkh_pending_off_services s) = 3" using assms(1) by (auto simp: bc_ok_def bc_shape_def)
  have eff: "succeeds (mkh_broadcast_toggle_off (int d) clock s)
      (\<lambda>t. mkh_advertising_started t = mkh_advertising_started s \<and> mkh_device_active t = mkh_device_active s \<and>
           mkh_hub_broadcasting t = mkh_hub_broadcasting s \<and> mkh_pending_off_services t = (mkh_pending_off_services s)[d := 3])"
    by (rule succeeds_mono [OF toggle_off_effect [OF sh(1) assms(2)]]) (use True in \<open>auto simp: chan_upd_fields\<close>)
  from succeeds_conj [OF eff toggle_off_ok [OF assms(1)]] show ?thesis
    by (rule succeeds_mono) (use assms(2-4) sh(2) in \<open>auto simp: switched_def leaving_def nth_list_update subset_iff\<close>)
next
  case False
  have p: "pend_ok s d" "bc_shape s" using assms(1,2) by (simp_all add: bc_ok_def)
  then have "mkh_broadcast_toggle_off (int d) clock s = Some s"
    using toggle_off_idempotent [OF p(2) assms(2)] False by (auto simp: pend_ok_def)
  then show ?thesis using assms(1,3) False p(1) by (auto simp: switched_def leaving_def pend_ok_def)
qed

lemma switched_trans: "switched s t \<Longrightarrow> switched t u \<Longrightarrow> switched s u"
  by (simp add: switched_def)

lemma sleep_toggles_leave:
  assumes "bc_ok s"
  shows "succeeds (sleep_toggles r s) (\<lambda>t. switched s t \<and> leaving {0..<3} t)"
proof -
  obtain s0 where s0: "mkh_broadcast_toggle_off (int 0) (us_toggle r 0) s = Some s0" "switched s s0" "leaving {0} s0"
    using toggle_off_leaves [OF assms, of 0 "{}" "us_toggle r 0"] by (auto simp: leaving_def elim!: succeedsE)
  have ok0: "bc_ok s0" using s0(2) by (simp add: switched_def)
  obtain s1 where s1: "mkh_broadcast_toggle_off (int 1) (us_toggle r 1) s0 = Some s1" "switched s0 s1" "leaving {0, 1} s1"
    using toggle_off_leaves [OF ok0, of 1 "{0}" "us_toggle r 1"] s0(3) by (auto simp: insert_commute elim!: succeedsE)
  have ok1: "bc_ok s1" using s1(2) by (simp add: switched_def)
  obtain t where t: "mkh_broadcast_toggle_off (int 2) (us_toggle r 2) s1 = Some t" "switched s1 t" "leaving {0, 1, 2} t"
    using toggle_off_leaves [OF ok1, of 2 "{0, 1}" "us_toggle r 2"] s1(3) by (auto simp: insert_commute elim!: succeedsE)
  have "{0..<3} = {0, 1, 2::nat}" by auto
  then show ?thesis
    using s0(1) s1(1) t switched_trans [OF s0(2) switched_trans [OF s1(2) t(2)]] by (simp add: sleep_toggles_def)
qed

section \<open>The end of the loop\<close>

lemma sleep_page:
  assumes "page_work r s = Some (t, Asleep)" "sys_ok s"
  shows "ui_page s = PAGE_IDLE" "xwcState s \<noteq> XWC_ACTIVE" "ui_page t = PAGE_IDLE" "xwcState t = xwcState s" "leaving {0..<3} (air t)"
    "mkh_touch_is_pressed (touch t) \<and> sleep_hold_ms \<le> ms r At_hold_check - idleSleepHoldStartMs (ui t) \<or>
     auto_sleep_timeout_ms \<le> ms r At_sleep_check - idleEnteredMs (ui t)" "switched (air s) (air t)"
proof -
  have idle: "ui_page s = PAGE_IDLE" "idle_page r s = Some (t, Asleep)"
    using assms(1) by (auto simp: page_work_def split: if_splits)
  have awake: "stay m \<noteq> Some (t, Asleep)" for m by (simp add: stay_def)
  let ?rel = "s\<lparr>ui := (ui s)\<lparr>idleSleepHoldActive := False\<rparr>\<rparr>"
  have x: "xwcState s \<noteq> XWC_ACTIVE" using idle(2) awake by (auto simp: idle_page_def)
  have "(enterDeepSleep r ?rel = Some (t, Asleep) \<and> mkh_touch_is_pressed (touch s) \<and> sleep_hold_ms \<le> ms r At_hold_check - idleSleepHoldStartMs (ui s)) \<or>
     enterDeepSleep r s = Some (t, Asleep) \<and> auto_sleep_timeout_ms \<le> ms r At_sleep_check - idleEnteredMs (ui s)"
    using idle(2) x awake by (auto simp: idle_page_def Let_def split: if_splits)
  then obtain q where q: "enterDeepSleep r q = Some (t, Asleep)" "air q = air s" "xwcState q = xwcState s" "touch q = touch s"
    "ui_page q = ui_page s" "idleSleepHoldStartMs (ui q) = idleSleepHoldStartMs (ui s)" "idleEnteredMs (ui q) = idleEnteredMs (ui s)"
    "mkh_touch_is_pressed (touch s) \<and> sleep_hold_ms \<le> ms r At_hold_check - idleSleepHoldStartMs (ui s) \<or>
     auto_sleep_timeout_ms \<le> ms r At_sleep_check - idleEnteredMs (ui s)"
    by (fastforce simp: ui_page_def)
  have bc: "bc_ok (air s)" using assms(2) by (simp add: sys_ok_def)
  obtain u where u: "sleep_toggles r (air s) = Some u" "switched (air s) u" "leaving {0..<3} u"
    by (rule succeedsE [OF sleep_toggles_leave [OF bc]]) blast
  have t: "t = q\<lparr>air := u\<rparr>" using q(1,2) u(1) by (simp add: enterDeepSleep_def)
  show "ui_page s = PAGE_IDLE" "xwcState s \<noteq> XWC_ACTIVE" by (rule idle(1), rule x)
  show "ui_page t = PAGE_IDLE" "xwcState t = xwcState s" "leaving {0..<3} (air t)" "switched (air s) (air t)"
    using q(3,5) idle(1) u(2,3) by (simp_all add: t ui_page_def)
  show "mkh_touch_is_pressed (touch t) \<and> sleep_hold_ms \<le> ms r At_hold_check - idleSleepHoldStartMs (ui t) \<or>
     auto_sleep_timeout_ms \<le> ms r At_sleep_check - idleEnteredMs (ui t)"
    using q(4,6,7,8) by (simp add: t)
qed

lemma touch_step_ok:
  assumes "sys_ok s" "touch_step L W r s = Some t"
  shows "sys_ok t"
proof -
  obtain tap u w where p: "mkh_touch_poll W (touch s, bus s) = Some (tap, u, w)"
    using assms(2) by (auto simp: touch_step_def bind_eq_Some_conv)
  let ?s = "s\<lparr>touch := u, bus := w\<rparr>"
  have ok: "sys_ok ?s" using assms(1) by (simp add: sys_ok_def)
  show ?thesis
  proof (cases tap)
    case None
    then show ?thesis using assms(2) p ok by (auto simp: touch_step_def)
  next
    case (Some xy)
    obtain x y where xy: "xy = (x, y)" by (cases xy)
    have d: "touch_dispatch L W r x y ?s = Some t" using assms(2) p Some xy by (simp add: touch_step_def)
    have "\<not> add_overflow x y (ui ?s)" using dispatch_overflow [OF ok, of x y L W r] d by auto
    from succeedsD [OF dispatch_ok [OF ok this] d] show ?thesis by simp
  qed
qed

lemma loop_sleeps:
  assumes "sys_ok s" "loop L W r s = Some (t, Asleep)"
  obtains q where "sys_ok q" "page_work r q = Some (t, Asleep)"
proof -
  obtain s1 s2 s3 q where h: "poll_controllers r s = Some s1" "drive r s1 = Some s2"
    "touch_step L W r (housekeeping W r s2) = Some s3" "idle_entry r s3 = Some q" "page_work r q = Some (t, Asleep)"
    using assms(2) by (auto simp: loop_def bind_eq_Some_conv)
  have "driven r s = Some s2" by (simp add: driven_def h)
  then have "sys_ok s2" using driven_ok [OF assms(1)] by (simp add: tick_keeps_def)
  then have "sys_ok s3" by (rule touch_step_ok [OF housekeeping_ok(1) h(3)])
  then have "sys_ok q" using succeedsD [OF idle_entry_ok h(4)] by (simp add: settled_def)
  then show ?thesis using h(5) that by blast
qed

text \<open>C15: The firmware goes to sleep only from the idle page, while no first controller is active, and after the
  sleep button was held for 1.5 s with the finger still down or the idle page was up for ten
  minutes; and whenever it does, every hub still in the rotation has entered its OFF sequence.\<close>

theorem sleep_entry:
  assumes "sys_run L W maps s" "loop L W r s = Some (t, Asleep)"
  shows "ui_page t = PAGE_IDLE \<and> xwcState t \<noteq> XWC_ACTIVE \<and>
    (mkh_touch_is_pressed (touch t) \<and> sleep_hold_ms \<le> ms r At_hold_check - idleSleepHoldStartMs (ui t) \<or>
     auto_sleep_timeout_ms \<le> ms r At_sleep_check - idleEnteredMs (ui t)) \<and>
    (\<forall>d<3. mkh_device_active (air t) ! d \<longrightarrow> mkh_broadcast_is_transitioning (int d) (air t) = Some True)"
proof -
  obtain q where q: "sys_ok q" "page_work r q = Some (t, Asleep)"
    by (rule loop_sleeps [OF sys_run_ok [OF assms(1)] assms(2)])
  note P = sleep_page [OF q(2,1)]
  have bc: "bc_ok (air t)" using P(7) by (simp add: switched_def)
  have "mkh_broadcast_is_transitioning (int d) (air t) = Some True" if "d < 3" "mkh_device_active (air t) ! d" for d
    using that bc P(5) by (auto simp: mkh_broadcast_is_transitioning_def mk1_defs arr_get_def leaving_def bc_ok_def bc_shape_def pend_ok_def)
  then show ?thesis using P(2-4,6) by simp
qed

section \<open>The wait\<close>

lemma off_clear: "off d s \<Longrightarrow> d < 3 \<Longrightarrow> arr_get (mkh_hub_broadcasting s) (int d) = Some False \<and>
    mkh_broadcast_is_transitioning (int d) s = Some False"
  by (auto simp: off_def bc_ok_def bc_shape_def pend_ok_def mkh_broadcast_is_transitioning_def mk1_defs arr_get_def)

lemma all_off: "(\<And>d. d < 3 \<Longrightarrow> off d s) \<Longrightarrow> all_clear s"
  using off_clear [of 0 s] off_clear [of 1 s] off_clear [of 2 s] by (simp add: all_clear_def)

text \<open>The third hub cannot be switched on; it stays out of the rotation.\<close>

lemma third_off_stays: "off 2 s \<Longrightarrow> bc_step s Timer_fires t \<Longrightarrow> off 2 t"
proof -
  assume a: "off 2 s" "bc_step s Timer_fires t"
  then have ok: "bc_ok s" "mkh_advertising_started s" by (auto simp: off_def)
  note k = timer_started [OF ok a(2)]
  show ?thesis
  proof (rule timer_service [OF ok(1) a(2)])
    fix j assume "j < 2" "serviced j s t"
    then show ?thesis using a(1) k by (simp add: off_def serviced_fields)
  qed (use a(1) k in \<open>simp add: off_def\<close>)
qed

lemma third_off_run: "bc_run s es t \<Longrightarrow> set es \<subseteq> {Timer_fires} \<Longrightarrow> off 2 s \<Longrightarrow> off 2 t"
  by (induction rule: bc_run.induct) (auto intro: third_off_stays)

lemma wait_sees_clear:
  "all_clear u \<Longrightarrow> list_all (\<lambda>(now, _). now - start < neutral_wait_timeout_ms) (rounds @ [(now, u)]) \<Longrightarrow>
   neutral_wait start (rounds @ [(now, u)]) = Some True"
  by (induction rounds) auto

lemma wait_times_out:
  "\<not> now - start < neutral_wait_timeout_ms \<Longrightarrow> \<exists>b. neutral_wait start (looks @ [(now, v)]) = Some b"
  by (induction looks) auto

text \<open>C16: The wait before sleep is long enough, provided that advertising has started and that no hub outside
  the rotation is marked as broadcasting when the switch-offs are done (a late callback can leave
  one so marked): six CONTROL cycles (0.6 s) later every hub has dropped out, and if the two
  seconds are not over at the first look after that, the wait reports success. In any case the
  wait returns once it looks at the clock after two seconds, whatever state the hubs are in.\<close>

theorem sleep_wait_ends:
  assumes "sys_run L W maps s" "loop L W r s = Some (t, Asleep)"
    and "mkh_advertising_started (air t)" "\<And>d. d < 3 \<Longrightarrow> mkh_hub_broadcasting (air t) ! d \<Longrightarrow> mkh_device_active (air t) ! d"
    and "bc_run (air t) (replicate 6 Timer_fires) u"
    and "list_all (\<lambda>(now, _). now - start < neutral_wait_timeout_ms) (rounds @ [(now, u)])"
  shows "neutral_wait start (rounds @ [(now, u)]) = Some True \<and>
    (\<forall>looks late v. \<not> late - start < neutral_wait_timeout_ms \<longrightarrow> (\<exists>b. neutral_wait start (looks @ [(late, v)]) = Some b))"
proof -
  obtain q where q: "sys_ok q" "page_work r q = Some (t, Asleep)"
    by (rule loop_sleeps [OF sys_run_ok [OF assms(1)] assms(2)])
  have P: "leaving {0..<3} (air t)" "bc_ok (air t)" using sleep_page(5,7) [OF q(2,1)] by (simp_all add: switched_def)
  have "off d u" if "d < 3" for d
  proof (cases "d = 2")
    case True
    have "off 2 (air t)" using P(2) assms(3) assms(4) [of 2] by (auto simp: off_def bc_ok_def bc_shape_def)
    then show ?thesis using third_off_run [OF assms(5)] True by auto
  next
    case False
    then have d: "d < 2" using that by simp
    have "dropping d (int 3) (air t) \<or> off d (air t)"
    proof (cases "mkh_device_active (air t) ! d")
      case True
      have "pend_ok (air t) d" using P(2) that by (simp add: bc_ok_def)
      moreover have "0 < mkh_pending_off_services (air t) ! d" using P(1) True that by (simp add: leaving_def)
      ultimately show ?thesis using P(2) True assms(3) by (simp add: dropping_def pend_ok_def)
    next
      case False
      then show ?thesis using P(2) assms(3) assms(4) [OF that] by (auto simp: off_def)
    qed
    from dropping_ends [OF d this] assms(5) show ?thesis by simp
  qed
  then have "all_clear u" by (rule all_off)
  then have "neutral_wait start (rounds @ [(now, u)]) = Some True" by (rule wait_sees_clear [OF _ assms(6)])
  then show ?thesis using wait_times_out by blast
qed

section \<open>A run that falls asleep\<close>

text \<open>A board with a touch panel and no gyro: the panel answers with one finger down.\<close>

definition finger_wire :: "unit wire" where
  "finger_wire = \<lparr>wire_begin = Pair True, wire_send = (\<lambda>a bs stop w. (if a = cst816d_i2c_addr then 0 else 1, w)),
     wire_request = (\<lambda>a n w. ([1, 0, 10, 0, 10], w))\<rparr>"

lemma finger_down: "cst816ReadRegs finger_wire reg n w = (if n = 5 then Some [1, 0, 10, 0, 10] else None, ())"
  by (simp add: cst816ReadRegs_def read_regs_def finger_wire_def)

text \<open>Nobody is connected.\<close>

definition vacant :: "(unit, unit) sys \<Rightarrow> bool" where
  "vacant s \<longleftrightarrow> plat s = arduino_init \<and> bp s = bluepad_boot \<and> myControllers s = replicate 4 None \<and>
     xwcState s = XWC_DISCONNECTED \<and> \<not> s_imuReady (imu s)"

lemma nothing_new: "bp32_update (arduino_init, bluepad_boot) = (False, [], arduino_init, bluepad_boot)"
  by code_simp

lemma vacant_drives: "vacant s \<Longrightarrow> driven r s = Some s"
  by (simp add: vacant_def driven_def poll_controllers_def nothing_new drive_def first_controller_def)

definition waiting :: "u32 \<Rightarrow> readings" where
  "waiting now = calm\<lparr>ms := (\<lambda>_. now)\<rparr>"

lemma vacant_house:
  assumes "vacant s"
  shows "\<exists>b. housekeeping W (waiting now) s = s\<lparr>batt := b\<rparr>"
proof -
  have i: "mkh_imu_poll W now (imu s, ()) = (imu s, ())" for now using assms by (simp add: mkh_imu_poll_def vacant_def)
  have b: "mkh_thl_poll_serial_tuning (received (waiting now)) x = x" for x
    by (simp add: mkh_thl_poll_serial_tuning_def waiting_def calm_def)
  show ?thesis
    by (rule exI [of _ "updateBatteryReading (ms (waiting now) At_battery) (pinMv (waiting now)) (batt s)"])
       (simp add: housekeeping_def i b)
qed

text \<open>A tick without a touch event.\<close>

lemma vacant_tick:
  assumes "vacant s" "\<not> s_touchIntFlag (touch s)"
  obtains b where "loop L W (waiting now) s = Option.bind (idle_entry (waiting now) (s\<lparr>batt := b\<rparr>)) (page_work (waiting now))"
proof -
  obtain s1 where p: "poll_controllers (waiting now) s = Some s1" "drive (waiting now) s1 = Some s"
    using vacant_drives [OF assms(1), of "waiting now"] by (auto simp: driven_def bind_eq_Some_conv)
  obtain b where b: "housekeeping W (waiting now) s = s\<lparr>batt := b\<rparr>" using vacant_house [OF assms(1)] by blast
  have "touch_step L W (waiting now) (s\<lparr>batt := b\<rparr>) = Some (s\<lparr>batt := b\<rparr>\<lparr>touch := touch s, bus := ()\<rparr>)"
    using assms(2) by (simp add: touch_step_def mkh_touch_poll_def)
  then have "touch_step L W (waiting now) (s\<lparr>batt := b\<rparr>) = Some (s\<lparr>batt := b\<rparr>)" by simp
  then show ?thesis using that [of b] by (simp add: loop_def p b)
qed

text \<open>Starting to advertise marks no hub as broadcasting.\<close>

lemma start_hubs:
  assumes "bc_step bc_start (Hci_packet 0x04 [0x60, 1, 2]) w"
  shows "mkh_hub_broadcasting w = replicate 3 False"
proof -
  let ?s = "bc_start\<lparr>mkh_advertising_started := True\<rparr>"
  have ns: "\<not> mkh_advertising_started bc_start" by (simp add: mkh_broadcast_init_def bc_boot_def)
  have "mkh_broadcast_packet_handler 0x04 [0x60, 1, 2] bc_start = Some w" using assms by (auto elim: bc_stepE)
  then have w: "mkh_start ?s = Some w" using ns by (simp add: mkh_broadcast_packet_handler_def arr_get_def)
  have len: "length mkh_protocol_connect_telegram = 8" by (simp add: mkh_protocol_connect_telegram_def kTelegramConnect_def)
  let ?par = "Gap_set_params mkh_adv_interval_units mkh_adv_interval_units mkh_adv_type_nonconn_ind 0 (replicate 6 0) 0x07 0"
  have "succeeds (mkh_set_adv_payload (encrypted mkh_protocol_connect_telegram 18) (?s\<lparr>gap_calls := gap_calls ?s @ [?par]\<rparr>))
      (staged (?s\<lparr>gap_calls := gap_calls ?s @ [?par]\<rparr>) mkh_protocol_connect_telegram)"
    by (rule set_adv_staged) (use start_shape [OF init_ok] len in \<open>simp_all add: bc_shape_def\<close>)
  then have "succeeds (mkh_start ?s) (\<lambda>t. mkh_hub_broadcasting t = mkh_hub_broadcasting bc_start)"
    unfolding mkh_start_def mkh_broadcast_connect_def mkh_payload_connect_len_def succeeds_simps
    by (rule succeeds_mono) (auto elim!: stagedE)
  from succeedsD [OF this w] show ?thesis by (simp add: mkh_broadcast_init_def bc_boot_def)
qed

lemma wakes_up:
  obtains s where "sys_run no_fs finger_wire xbox_maps s" "vacant s" "ui_page s = PAGE_STATS" "mkh_advertising_started (air s)"
    "mkh_hub_broadcasting (air s) = replicate 3 False" "s_touchReady (touch s)" "\<not> s_wasPressed (touch s)"
    "\<not> s_touchIntFlag (touch s)"
proof -
  let ?b = "sys_boot () () :: (unit, unit) sys"
  obtain cfg where m: "mkh_storage_boot_read no_fs (live (ui ?b), ()) = (cfg, ())"
    by (cases "mkh_storage_boot_read no_fs (live (ui ?b), ())") auto
  have t: "mkh_touch_init finger_wire (touch ?b, ()) = ((touch ?b)\<lparr>s_touchReady := True\<rparr>, ())"
    by (simp add: mkh_touch_init_def finger_wire_def)
  have i: "mkh_imu_init finger_wire 0 0 (imu ?b, ()) = ((imu ?b)\<lparr>s_imuReady := False\<rparr>, ())"
    by (simp add: mkh_imu_init_def imuProbeAddress_def finger_wire_def imu_i2c_addr_primary_def imu_i2c_addr_secondary_def
        cst816d_i2c_addr_def)
  let ?s = "?b\<lparr>ui := (ui ?b)\<lparr>live := cfg, disk := (), currentPage := PAGE_STATS\<rparr>,
    touch := (touch ?b)\<lparr>s_touchReady := True\<rparr>, imu := (imu ?b)\<lparr>s_imuReady := False\<rparr>, bus := ()\<rparr>"
  have s: "app_setup no_fs finger_wire (0, 0, 0, 0) ?b = Some ?s" by (simp add: app_setup_def m t i goToPage_def)
  have f: "vacant ?s" "ui_page ?s = PAGE_STATS" "air ?s = bc_start" "s_touchReady (touch ?s)" "\<not> s_wasPressed (touch ?s)"
    "\<not> s_touchIntFlag (touch ?s)"
    by (simp_all add: vacant_def sys_boot_def ui_page_def max_devices_def touch_boot_def)
  obtain w where w: "bc_run bc_start [Hci_packet 0x04 [0x60, 1, 2]] w" "mkh_advertising_started w" by (rule working_event)
  obtain w' where "bc_step bc_start (Hci_packet 0x04 [0x60, 1, 2]) w'" "bc_run w' [] w" using bc_run_Cons [OF w(1)] by blast
  then have st: "bc_step (air ?s) (Hci_packet 0x04 [0x60, 1, 2]) w" using f(3) by (auto elim: bc_run.cases)
  have hub: "mkh_hub_broadcasting w = replicate 3 False" by (rule start_hubs [OF st [unfolded f(3)]])
  have "sys_run no_fs finger_wire xbox_maps (?s\<lparr>air := w\<rparr>)" by (rule sys_radio [OF sys_start [OF s] _ st]) simp
  then show ?thesis using that [of "?s\<lparr>air := w\<rparr>"] f w(2) hub by (simp add: vacant_def ui_page_def)
qed

text \<open>The finger leaves the start page; nothing more happens until the idle page comes up, and then sleep.\<close>

lemma finger_poll:
  assumes "s_touchReady t" "\<not> s_wasPressed t" "s_touchIntFlag t"
  obtains x y u where "mkh_touch_poll finger_wire (t, ()) = Some (Some (x, y), u, ())" "\<not> s_touchIntFlag u"
proof -
  obtain x y where d: "mkh_touch_raw_to_display (touch_coord 0 10) (touch_coord 0 10) = Some (x, y)" by (rule touch_display_range)
  show ?thesis
    by (rule that [of x y "t\<lparr>s_touchIntFlag := False, s_wasPressed := True\<rparr>"])
       (use assms d in \<open>simp_all add: mkh_touch_poll_def finger_down\<close>)
qed

lemma first_touch:
  assumes "vacant s" "ui_page s = PAGE_STATS" "s_touchReady (touch s)" "\<not> s_wasPressed (touch s)" "s_touchIntFlag (touch s)"
  obtains t where "loop L finger_wire (waiting 0) s = Some (t, Awake)" "vacant t" "ui_page t = PAGE_DASHBOARD"
    "lastTouchActivityMs (ui t) = 0" "\<not> s_touchIntFlag (touch t)" "air t = air s"
proof -
  obtain s1 where p: "poll_controllers (waiting 0) s = Some s1" "drive (waiting 0) s1 = Some s"
    using vacant_drives [OF assms(1), of "waiting 0"] by (auto simp: driven_def bind_eq_Some_conv)
  obtain b where b: "housekeeping finger_wire (waiting 0) s = s\<lparr>batt := b\<rparr>" using vacant_house [OF assms(1)] by blast
  obtain x y u where u: "mkh_touch_poll finger_wire (touch s, ()) = Some (Some (x, y), u, ())" "\<not> s_touchIntFlag u"
    by (rule finger_poll [OF assms(3-5)])
  let ?t = "s\<lparr>batt := b, touch := u, bus := (), ui := (ui s)\<lparr>lastTouchActivityMs := 0, currentPage := PAGE_DASHBOARD\<rparr>\<rparr>"
  have ts: "touch_step L finger_wire (waiting 0) (s\<lparr>batt := b\<rparr>) = Some ?t"
    using assms(2)
    by (simp add: touch_step_def u(1) touch_dispatch_def ui_page_def with_ui_def page_tap_def goToPage_def initDashboard_def
        waiting_def calm_def)
  have "idle_entry (waiting 0) ?t = Some ?t" "page_work (waiting 0) ?t = Some (?t, Awake)"
    by (simp_all add: idle_entry_def page_work_def ui_page_def waiting_def calm_def idle_timeout_ms_def)
  then have "loop L finger_wire (waiting 0) s = Some (?t, Awake)" by (simp add: loop_def p b ts)
  then show ?thesis using that [of ?t] assms(1) u(2) by (simp add: vacant_def ui_page_def)
qed

lemma half_minute:
  assumes "vacant s" "ui_page s = PAGE_DASHBOARD" "lastTouchActivityMs (ui s) = 0" "\<not> s_touchIntFlag (touch s)"
  obtains t where "loop L W (waiting 30000) s = Some (t, Awake)" "vacant t" "ui_page t = PAGE_IDLE" "idleEnteredMs (ui t) = 30000"
    "\<not> idleSleepHoldActive (ui t)" "\<not> s_touchIntFlag (touch t)" "air t = air s"
proof -
  obtain b where l: "loop L W (waiting 30000) s = Option.bind (idle_entry (waiting 30000) (s\<lparr>batt := b\<rparr>)) (page_work (waiting 30000))"
    by (rule vacant_tick [OF assms(1,4)])
  let ?t = "s\<lparr>batt := b, ui := (ui s)\<lparr>currentPage := PAGE_IDLE, idleEnteredMs := 30000, idleSleepHoldActive := False\<rparr>\<rparr>"
  have i: "idle_entry (waiting 30000) (s\<lparr>batt := b\<rparr>) = Some ?t"
    using assms(1-3) by (simp add: idle_entry_def ui_page_def waiting_def calm_def idle_timeout_ms_def vacant_def with_ui_def
        goToPage_def drawIdlePage_def)
  have "page_work (waiting 30000) ?t = Some (?t, Awake)"
    using assms(1) by (simp add: page_work_def idle_page_def ui_page_def vacant_def waiting_def calm_def auto_sleep_timeout_ms_def)
  then have "loop L W (waiting 30000) s = Some (?t, Awake)" by (simp add: l i)
  then show ?thesis using that [of ?t] assms(1,4) by (simp add: vacant_def ui_page_def)
qed

lemma falls_asleep:
  obtains s t where "sys_run no_fs finger_wire xbox_maps s" "loop no_fs finger_wire (waiting 700000) s = Some (t, Asleep)"
    "mkh_advertising_started (air t)" "mkh_hub_broadcasting (air t) = replicate 3 False" "bc_ok (air t)"
proof -
  obtain s0 where s0: "sys_run no_fs finger_wire xbox_maps s0" "vacant s0" "ui_page s0 = PAGE_STATS" "mkh_advertising_started (air s0)"
    "mkh_hub_broadcasting (air s0) = replicate 3 False" "s_touchReady (touch s0)" "\<not> s_wasPressed (touch s0)" by (rule wakes_up)
  let ?s0 = "s0\<lparr>touch := touchIsr (touch s0)\<rparr>"
  have r0: "sys_run no_fs finger_wire xbox_maps ?s0" by (rule sys_finger [OF s0(1)])
  obtain s1 where s1: "loop no_fs finger_wire (waiting 0) ?s0 = Some (s1, Awake)" "vacant s1" "ui_page s1 = PAGE_DASHBOARD"
    "lastTouchActivityMs (ui s1) = 0" "\<not> s_touchIntFlag (touch s1)" "air s1 = air ?s0"
    by (rule first_touch [of ?s0 no_fs]) (use s0 in \<open>simp_all add: vacant_def ui_page_def touchIsr_def\<close>)
  obtain s2 where s2: "loop no_fs finger_wire (waiting 30000) s1 = Some (s2, Awake)" "vacant s2" "ui_page s2 = PAGE_IDLE"
    "idleEnteredMs (ui s2) = 30000" "\<not> idleSleepHoldActive (ui s2)" "\<not> s_touchIntFlag (touch s2)" "air s2 = air s1"
    by (rule half_minute [OF s1(2-5)])
  have r2: "sys_run no_fs finger_wire xbox_maps s2" by (rule sys_tick [OF sys_tick [OF r0 s1(1)] s2(1)])
  obtain b where l: "loop no_fs finger_wire (waiting 700000) s2 =
      Option.bind (idle_entry (waiting 700000) (s2\<lparr>batt := b\<rparr>)) (page_work (waiting 700000))"
    by (rule vacant_tick [OF s2(2,6)])
  have bc: "bc_ok (air s2)" using sys_run_ok [OF r2] by (simp add: sys_ok_def)
  obtain u where u: "sleep_toggles (waiting 700000) (air s2) = Some u" "switched (air s2) u"
    by (rule succeedsE [OF sleep_toggles_leave [OF bc]]) blast
  have "idle_entry (waiting 700000) (s2\<lparr>batt := b\<rparr>) = Some (s2\<lparr>batt := b\<rparr>)" using s2(3) by (simp add: idle_entry_def ui_page_def)
  moreover have "page_work (waiting 700000) (s2\<lparr>batt := b\<rparr>) = Some (s2\<lparr>batt := b, air := u\<rparr>, Asleep)"
    using s2(2-5) u(1) by (simp add: page_work_def idle_page_def ui_page_def vacant_def waiting_def calm_def auto_sleep_timeout_ms_def
        enterDeepSleep_def)
  ultimately have "loop no_fs finger_wire (waiting 700000) s2 = Some (s2\<lparr>batt := b, air := u\<rparr>, Asleep)" by (simp add: l)
  then show ?thesis using that [OF r2] u(2) s0(4,5) s1(6) s2(7) by (simp add: switched_def)
qed

theorem sleep_entry_witness:
  "\<exists>s t. loop no_fs finger_wire (waiting 700000) s = Some (t, Asleep) \<and> ui_page t = PAGE_IDLE"
proof -
  obtain s t where s: "sys_run no_fs finger_wire xbox_maps s" "loop no_fs finger_wire (waiting 700000) s = Some (t, Asleep)"
    by (rule falls_asleep)
  with sleep_entry [OF s] show ?thesis by blast
qed

theorem sleep_wait_ends_witness:
  "\<exists>t u. bc_run (air (t :: (unit, unit) sys)) (replicate 6 Timer_fires) u \<and> neutral_wait 700000 ([(700100, air t)] @ [(700700, u)]) = Some True"
proof -
  obtain s t where s: "sys_run no_fs finger_wire xbox_maps s" "loop no_fs finger_wire (waiting 700000) s = Some (t, Asleep)"
    "mkh_advertising_started (air t)" "mkh_hub_broadcasting (air t) = replicate 3 False" "bc_ok (air t)" by (rule falls_asleep)
  obtain u where u: "bc_run (air t) (replicate 6 Timer_fires) u" using timers_exist [OF s(5,3)] by blast
  have "neutral_wait 700000 ([(700100, air t)] @ [(700700, u)]) = Some True"
    by (rule conjunct1 [OF sleep_wait_ends [OF s(1-3) _ u]]) (use s(4) in \<open>simp_all add: neutral_wait_timeout_ms_def\<close>)
  with u show ?thesis by blast
qed

end
