(* ===== verification/App_Overflow.thy ===== *)
theory App_Overflow
  imports App_Laws Storage_Laws
begin

text \<open>
  Sequences of taps and captured buttons in the editor: exactly when one of them writes past the pending
  bindings of a port, the one case in which a tap has no result, and a way that leads there.
\<close>

datatype gesture = Tap int int | Press controller

definition gesture_step :: "'fs littlefs \<Rightarrow> readings \<Rightarrow> gesture \<Rightarrow> 'fs app \<Rightarrow> 'fs app option" where
  "gesture_step L r g a =
     (case g of
        Tap x y \<Rightarrow> page_tap L r x y a
      | Press ctl \<Rightarrow> Some (if currentPage a = PAGE_EDIT_CAPTURE then checkCapture (Some ctl) a else a))"

fun gestures :: "'fs littlefs \<Rightarrow> readings \<Rightarrow> gesture list \<Rightarrow> 'fs app \<Rightarrow> 'fs app option" where
  "gestures L r [] a = Some a"
| "gestures L r (g # gs) a = Option.bind (gesture_step L r g a) (gestures L r gs)"

text \<open>Port A of the first hub has seven bindings; the editor has just been opened on the hub page.\<close>

definition seven :: config_state where
  "seven = mkh_config_set_port_bindings 0 0 (replicate 7 (fallback_binding MKH_INPUT_LSNS)) 7 config_init"

definition opened :: "(string \<Rightarrow> string option) app" where
  "opened = drawHubSelect ((clearEditorSession (app_init seven (replicate 3 (replicate 6 (replicate 8 clear_slot))) Map.empty))
              \<lparr>currentPage := PAGE_EDIT_SELECT\<rparr>)"

definition no_input :: controller where
  "no_input = \<lparr>axisX = 0, axisY = 0, axisRX = 0, axisRY = 0, brake = 0, throttle = 0, btn_a = False, btn_b = False,
     btn_x = False, btn_y = False, l1 = False, r1 = False, thumbL = False, thumbR = False, dpad = 0\<rparr>"

definition at_rest :: readings where
  "at_rest = \<lparr>ms = (\<lambda>_. 0), us_failsafe = (\<lambda>_. 0), us_sweep = (\<lambda>_. 0), us_toggle = (\<lambda>_ _. 0), irq_frame = (\<lambda>_. False), pinMv = 0, received = []\<rparr>"

text \<open>Hub 1, port A, ADD on the settings page, button A, NEXT, ADD in the prompt (the eighth binding), BACK,
  NEXT.\<close>

definition way :: "gesture list" where
  "way = [Tap 100 (hubBtnY 0 + 10), Tap (portCellX (fst (portGridColRow 0)) + 10) (portCellY (snd (portGridColRow 0)) + 10),
     Tap 100 140, Press (no_input\<lparr>btn_a := True\<rparr>), Tap 200 190, Tap 200 190, Tap 30 190, Tap 200 190]"

lemma gestures_append: "gestures L r (gs @ hs) a = Option.bind (gestures L r gs a) (gestures L r hs)"
proof (induction gs arbitrary: a)
  case (Cons g gs)
  then show ?case by (cases "gesture_step L r g a") simp_all
qed simp

lemma gesture_cases:
  assumes "ed_ok a"
  shows "(\<exists>b. gesture_step L r g a = Some b \<and> ed_ok b \<and> \<not> (\<exists>x y. g = Tap x y \<and> add_overflow x y a)) \<or>
    gesture_step L r g a = None \<and> (\<exists>x y. g = Tap x y \<and> add_overflow x y a)"
proof (cases g)
  case (Tap x y)
  show ?thesis
  proof (cases "add_overflow x y a")
    case True
    then show ?thesis using page_tap_overflow [OF assms True] Tap by (simp add: gesture_step_def)
  next
    case False
    from page_tap_ok [OF assms False, of L r] obtain b where "page_tap L r x y a = Some b" "ed_ok b"
      by (auto elim: succeedsE)
    then show ?thesis using Tap False by (simp add: gesture_step_def)
  qed
next
  case (Press ctl)
  then show ?thesis using capture_ok [OF assms, of "Some ctl"] assms by (simp add: gesture_step_def)
qed

lemma gestures_fail:
  assumes "ed_ok a"
  shows "gestures L r gs a = None \<longleftrightarrow>
    (\<exists>before x y after b. gs = before @ Tap x y # after \<and> gestures L r before a = Some b \<and> ed_ok b \<and> add_overflow x y b)"
  (is "_ \<longleftrightarrow> ?bad a gs")
proof
  show "gestures L r gs a = None \<Longrightarrow> ?bad a gs"
    using assms
  proof (induction gs arbitrary: a)
    case (Cons g gs)
    from gesture_cases [OF Cons.prems(2), of L r g] show ?case
    proof
      assume "\<exists>b. gesture_step L r g a = Some b \<and> ed_ok b \<and> \<not> (\<exists>x y. g = Tap x y \<and> add_overflow x y a)"
      then obtain a1 where a1: "gesture_step L r g a = Some a1" "ed_ok a1" by blast
      then have "gestures L r gs a1 = None" using Cons.prems(1) by simp
      from Cons.IH [OF this a1(2)] obtain before x y after b where
        h: "gs = before @ Tap x y # after" "gestures L r before a1 = Some b" "ed_ok b" "add_overflow x y b" by blast
      have "g # gs = (g # before) @ Tap x y # after" "gestures L r (g # before) a = Some b" using h(1,2) a1(1) by simp_all
      with h(3,4) show ?case by blast
    next
      assume "gesture_step L r g a = None \<and> (\<exists>x y. g = Tap x y \<and> add_overflow x y a)"
      then obtain x y where h: "g # gs = [] @ Tap x y # gs" "add_overflow x y a" by auto
      moreover have "gestures L r [] a = Some a" by simp
      ultimately show ?case using Cons.prems(2) by blast
    qed
  qed simp
next
  assume "?bad a gs"
  then obtain before x y after b where
    h: "gs = before @ Tap x y # after" "gestures L r before a = Some b" "ed_ok b" "add_overflow x y b" by blast
  then show "gestures L r gs a = None"
    using page_tap_overflow [OF h(3,4), of L r] by (simp add: gestures_append gesture_step_def)
qed

lemma way_outcome:
  "map_option (\<lambda>a. (currentPage a, cur_count a)) (gestures mem_fs at_rest way opened) = Some (PAGE_EDIT_CAPTURE, 8)"
  "gestures mem_fs at_rest (way @ [Tap 200 190]) opened = None"
  by code_simp+

lemma opened_ok: "ed_ok opened"
  by code_simp

text \<open>C23: A sequence of taps and captured buttons in the editor has no result exactly if it contains a tap on
  ADD in the capture prompt of a port that already has eight bindings at that point; every other
  sequence, of any length and at any coordinates, is carried out. The failing case is within
  reach: from a legal table with seven bindings on a port, eight gestures lead to the prompt with
  eight bindings pending, and one more ADD writes the ninth, past the end of the array. The
  settings page counts before it adds, the capture prompt does not.\<close>

theorem editor_add_overflow:
  assumes "ed_ok a"
  shows "(gestures L r gs a = None \<longleftrightarrow>
      (\<exists>before x y after b. gs = before @ Tap x y # after \<and> gestures L r before a = Some b \<and> ed_ok b \<and> add_overflow x y b)) \<and>
    map_option (\<lambda>a. (currentPage a, cur_count a)) (gestures mem_fs at_rest way opened) = Some (PAGE_EDIT_CAPTURE, 8) \<and>
    gestures mem_fs at_rest (way @ [Tap 200 190]) opened = None"
  by (intro conjI gestures_fail [OF assms] way_outcome)

theorem editor_add_overflow_witness:
  "ed_ok opened \<and> (\<exists>before x y after b. way @ [Tap 200 190] = before @ Tap x y # after \<and>
     gestures mem_fs at_rest before opened = Some b \<and> ed_ok b \<and> add_overflow x y b)"
proof -
  note E = editor_add_overflow [OF opened_ok, of mem_fs at_rest "way @ [Tap 200 190]"]
  show ?thesis
    by (rule conjI [OF opened_ok iffD1 [OF conjunct1 [OF E] conjunct2 [OF conjunct2 [OF E]]]])
qed

end
