(* ===== verification/Spec2Isabelle.thy ===== *)
theory Spec2Isabelle
  imports Broadcast_Off Config_Laws Drive_Machines Storage_Laws Editor_Safety Peripherals_Laws
    Ble_Scenarios App_Laws App_Scenarios App_Failsafe App_Sleep App_Overflow
begin

text \<open>
  The MK1 tank firmware: an ESP32 reads an Xbox controller over Bluetooth and drives up to three
  Mould King 6.0 hubs over Bluetooth LE advertisements, with a touch screen to switch hubs and to edit
  which stick or button drives which port. This development models the firmware under \<^verbatim>\<open>src/main\<close> and
  the part of Bluepad32 that lies between the radio and it.

  \<^bold>\<open>How the program is put together.\<close> Bluepad32 scans for controllers (\<^verbatim>\<open>bt/uni_bt_le.c\<close>), lets in those that
  the allowlist (\<^verbatim>\<open>bt/uni_bt_allowlist.c\<close>) admits, gives each an entry of its device table
  (\<^verbatim>\<open>uni_hid_device.c\<close>) with a deadline, pairs with it, picks the parser for its type
  (\<^verbatim>\<open>controller/uni_controller_type.c\<close>) and, when its setup is over, offers it to the platform. From then on
  BTstack hands the reports of a controller to the report parser
  (\<^verbatim>\<open>parser/uni_hid_parser.c\<close>, \<^verbatim>\<open>uni_hid_parser_xboxone.c\<close>), which fills a virtual gamepad. It is
  remapped (\<^verbatim>\<open>uni_gamepad.c\<close>) and stored in a seat of the Arduino platform (\<^verbatim>\<open>arduino_platform.c\<close>), all on
  the radio core. On the other core \<open>loop()\<close> of \<^verbatim>\<open>main/sketch.cpp\<close> polls the seats
  (\<^verbatim>\<open>ArduinoBluepad32.cpp\<close>), sweeps the mapping table (\<^verbatim>\<open>mkh_config.c\<close>) with the drive pipeline and
  the heading lock (\<^verbatim>\<open>mkh_thl.cpp\<close>), and writes one byte per port into the broadcaster
  (\<^verbatim>\<open>mkh_broadcast.c\<close>), which encodes telegrams (\<^verbatim>\<open>mkh_protocol.c\<close>) and puts them on air in turn. The
  same loop reads battery, gyroscope (\<^verbatim>\<open>mkh_imu.cpp\<close>), serial console and touch panel
  (\<^verbatim>\<open>mkh_touch.cpp\<close>); taps go to the dashboard or to the mapping editor, which saves the table through
  \<^verbatim>\<open>mkh_storage.cpp\<close>. Requests to the controller (rumble, lights) go back through the seats and the
  output queue (\<^verbatim>\<open>uni_circular_buffer.c\<close>, \<^verbatim>\<open>uni_hid_device.c\<close>).

  \<^bold>\<open>Which theory models what.\<close>
  \<^item> \<open>Prelude\<close>, \<open>C_Float\<close>, \<open>C_Strings\<close>: C integers as words, single-precision floats, the string library.
  \<^item> \<open>Mkh_Protocol\<close>, \<open>Mkh_Ports\<close>: \<^verbatim>\<open>mkh_protocol.c\<close> and \<^verbatim>\<open>mkh_ports.h\<close>, with the abstract receiver of a hub.
  \<^item> \<open>Mkh_Broadcast\<close>, \<open>Broadcast_Laws\<close>, \<open>Broadcast_Fair\<close>, \<open>Broadcast_Off\<close>: \<^verbatim>\<open>mkh_broadcast.c\<close>; its file-scope variables are the
    record \<open>bc_state\<close>, the calls into BTstack a list in it.
  \<^item> \<open>Mkh_Config\<close>, \<open>Config_Laws\<close>: \<^verbatim>\<open>mkh_config.c\<close>; \<open>Storage\<close>, \<open>Storage_Laws\<close>: \<^verbatim>\<open>mkh_storage.cpp\<close>.
  \<^item> \<open>Thl\<close>, \<open>Drive\<close>, \<open>Drive_Laws\<close>, \<open>Drive_Machines\<close>, \<open>Drive_Faults\<close>: \<^verbatim>\<open>mkh_thl.cpp\<close> and \<open>processMappedInputs\<close> of \<^verbatim>\<open>sketch.cpp\<close>
    with everything it calls.
  \<^item> \<open>Editor\<close>, \<open>Editor_Laws\<close>, \<open>Editor_Safety\<close>: the mapping editor of \<^verbatim>\<open>sketch.cpp\<close>, its record \<open>app\<close>.
  \<^item> \<open>Peripherals\<close>, \<open>Peripherals_Laws\<close>: touch, gyroscope, serial console, battery.
  \<^item> \<open>Gamepad\<close>, \<open>Seats\<close>, \<open>Seats_Laws\<close>: the virtual gamepad, the device table, the seats, \<open>Bluepad32::update\<close>.
  \<^item> \<open>Allowlist\<close>, \<open>Allowlist_Laws\<close>: \<^verbatim>\<open>bt/uni_bt_allowlist.c\<close> with the text form of addresses
    (\<^verbatim>\<open>btstack_util.c\<close>) and the string property it is kept in (\<^verbatim>\<open>arch/uni_property_esp32.c\<close>).
  \<^item> \<open>Controller_Types\<close>: \<^verbatim>\<open>controller/uni_controller_type.c\<close>, its table \<^verbatim>\<open>uni_controller_list.h\<close>, and the parser of
    each type as \<^verbatim>\<open>uni_hid_device.c\<close> sets it.
  \<^item> \<open>Ble_Link\<close>: the device table of \<^verbatim>\<open>uni_hid_device.c\<close> with its connection state and timers, and the event
    handlers of \<^verbatim>\<open>bt/uni_bt_le.c\<close> and \<^verbatim>\<open>bt/uni_bt.c\<close>, over the record \<open>link\<close>; \<open>Ble_Link_Laws\<close> its invariant and its
    refinement to the seats, \<open>Ble_Adv\<close> advertisements, \<open>Ble_Scenarios\<close> courses of events that end badly.
  \<^item> \<open>Circular_Buffer\<close>, \<open>Xbox\<close>, \<open>Xbox_Laws\<close>: the output queue, the report parser, the rumble machine.
  \<^item> \<open>App_Loop\<close>, \<open>App_Laws\<close>: \<open>setup()\<close>, \<open>loop()\<close> and the callbacks, over the record \<open>sys\<close> that holds the
    states of all components; \<open>App_Drive\<close>, \<open>App_Scenarios\<close>, \<open>App_Failsafe\<close>, \<open>App_Sleep\<close>, \<open>App_Overflow\<close>: what follows of
    the whole program.

  \<^bold>\<open>What the lemmas show.\<close> Of the encoder: what a receiver decodes, and that it rejects a corrupted byte.
  Of the broadcaster: an invariant over every interleaving of API calls, timer, callbacks and HCI events,
  memory safety, fairness, that only known telegrams go on air, and the OFF sequence with its gaps. Of
  the table: the invariant, the outcome of a line, save and reload, and the states of the file system
  a power failure or a short write can leave. Of the drive pipeline: that the float code computes exactly the rational
  curves, that limits hold, the latch, pulse and heading-lock machines, and exactly when a sweep has
  no result. Of the editor: memory safety apart from one overflow, characterised and exhibited. Of the seats and the queue: their invariants, an
  abstract queue that the ring buffer refines. Of the Bluetooth connections: an invariant over every
  order of events, timers and commands, that the platform below sees only steps of the seat model,
  that an entry that does not become ready is freed at its deadline, when an advertisement is answered
  and what is read from it, that the allowlist survives a restart, and two courses of events in which
  the search for controllers dies or the wrong controller is thrown out. Of the parser:
  ranges and buttons. Of the whole program: all invariants together in every reachable state, when a tick has no result, that a stick position
  reaches the air unchanged, that only commit taps change the table, and when the firmware sleeps.

  \<^bold>\<open>Interfaces.\<close> The locales \<open>telegram_codec\<close> (broadcaster over encoder), \<open>token_vocabulary\<close> (parser and
  serializer over a token table), \<open>bounded_fifo\<close> (senders over the ring buffer), \<open>channel_store\<close>
  (application over broadcaster) and \<open>seat_service\<close> (device table over platform) state what one part
  relies on in another; each is interpreted on the model of the code that provides it.

  \<^bold>\<open>Conventions.\<close> An access out of bounds, signed overflow, division by zero, a failed assertion or a null
  dereference is the result \<open>None\<close>, and so is \<open>lroundf\<close> of a value that does not fit a \<open>long\<close>, which has
  32 bits on the target. Every \<open>float\<close> operation is rounded by itself, without contraction,
  and \<open>strtof\<close> rounds correctly. The file system, the I2C bus, the L2CAP channel and the Bluetooth LE
  write are parameters: records of functions over an abstract state, whose answers include failure and, for
  a write to a file, fewer characters than asked for. What BTstack answers about a
  connection handle is the record \<open>stack\<close>, given anew with every event; the calls made into it are a list.
  The default board, an ESP32-S3, has no Bluetooth Classic, so its branches are not taken, and virtual
  devices are switched off. One tick of the loop is atomic with respect to the radio core; between ticks
  both interleave freely. The run of a component is an
  inductive relation over its events, so no fuel is needed; the entry to deep sleep is the switch-offs
  (\<open>enterDeepSleep\<close>) followed by the wait (\<open>neutral_wait\<close>), which takes what each of its rounds finds as a
  list and ends within two seconds of the clock. Bounds that appear in statements are
  the code's: twenty seconds for a connection; four devices, seats and allowed addresses; three services
  of an OFF countdown, hence six timer periods for both hubs; 31 packets in the output queue; eight bindings per port; 2048 bytes of saved text.

  \<^bold>\<open>Not modelled.\<close> Drawing on the display and log output; the retired SD card driver; BTstack, its HID
  field splitter and scheduler; Bluepad32's Bluetooth Classic side, its virtual devices, its own GATT
  service and console, the deletion of keys, the parsers of other controllers and the other platforms;
  the wake-up of the chip; the vendored examples and host tools.
\<close>

end
